(* ===== verification/Go_Prelude.thy ===== *)
theory Go_Prelude
  imports Main "HOL-Library.Char_ord" "HOL-Library.List_Lexorder" "HOL-Library.Sublist"
begin

text \<open>
  The vocabulary every component shares: Go strings as byte strings (\<open>string\<close> is \<open>char list\<close>,
  a character beyond ASCII is its UTF-8 bytes), the operations of Go's \<open>strings\<close> and
  \<open>strconv\<close> packages that the sources call, decimal printing and parsing, Go's truncating
  integer division, and list helpers. \<open>TrimSpace\<close> and \<open>ToLower\<close> are the ASCII part of
  the Go functions: the model assumes that no non-ASCII white space or upper-case letter occurs.
\<close>

named_theorems go_str \<open>characterisations of the string operations\<close>

type_synonym instant = int   \<comment> \<open>a Go \<open>time.Time\<close> in nanoseconds\<close>

subsection \<open>Message pieces\<close>

text \<open>
  Messages are concatenations. \<open>msg\<close> is kept opaque (unfold \<open>msg_def\<close>) so that proofs about
  a verdict never expand its text. The bytes of the non-ASCII punctuation used in messages:
\<close>

definition msg :: "string list \<Rightarrow> string" where
  "msg = concat"

definition em_dash :: string where   \<comment> \<open>\<open>U+2014\<close>\<close>
  "em_dash = [CHR 0xE2, CHR 0x80, CHR 0x94]"

definition dbl_arrow :: string where   \<comment> \<open>\<open>U+21D2\<close>\<close>
  "dbl_arrow = [CHR 0xE2, CHR 0x87, CHR 0x92]"

definition lr_arrow :: string where   \<comment> \<open>\<open>U+2194\<close>\<close>
  "lr_arrow = [CHR 0xE2, CHR 0x86, CHR 0x94]"

definition r_arrow :: string where   \<comment> \<open>\<open>U+2192\<close>\<close>
  "r_arrow = [CHR 0xE2, CHR 0x86, CHR 0x92]"

definition ellipsis :: string where   \<comment> \<open>\<open>U+2026\<close>\<close>
  "ellipsis = [CHR 0xE2, CHR 0x80, CHR 0xA6]"

definition geq_sign :: string where   \<comment> \<open>\<open>U+2265\<close>\<close>
  "geq_sign = [CHR 0xE2, CHR 0x89, CHR 0xA5]"

definition dq :: string where
  "dq = [CHR 0x22]"

definition sq :: string where
  "sq = [CHR 0x27]"

definition nl :: string where
  "nl = [CHR 0x0A]"

abbreviation dash :: string where   \<comment> \<open>an em dash between blanks\<close>
  "dash \<equiv> msg ['' '', em_dash, '' '']"

subsection \<open>strings\<close>

definition has_prefix :: "'a list \<Rightarrow> 'a list \<Rightarrow> bool" where
  "has_prefix s p \<longleftrightarrow> length p \<le> length s \<and> take (length p) s = p"

definition has_suffix :: "'a list \<Rightarrow> 'a list \<Rightarrow> bool" where
  "has_suffix s p \<longleftrightarrow> length p \<le> length s \<and> drop (length s - length p) s = p"

fun contains :: "'a list \<Rightarrow> 'a list \<Rightarrow> bool" where
  "contains [] p \<longleftrightarrow> p = []"
| "contains (c # s) p \<longleftrightarrow> has_prefix (c # s) p \<or> contains s p"

definition trim_prefix :: "'a list \<Rightarrow> 'a list \<Rightarrow> 'a list" where
  "trim_prefix s p = (if has_prefix s p then drop (length p) s else s)"

definition trim_suffix :: "'a list \<Rightarrow> 'a list \<Rightarrow> 'a list" where
  "trim_suffix s p = (if has_suffix s p then take (length s - length p) s else s)"

definition is_space :: "char \<Rightarrow> bool" where
  "is_space c \<longleftrightarrow> c \<in> {CHR 0x09, CHR 0x0A, CHR 0x0B, CHR 0x0C, CHR 0x0D, CHR 0x20}"

definition trim_left :: "('a \<Rightarrow> bool) \<Rightarrow> 'a list \<Rightarrow> 'a list" where
  "trim_left p s = dropWhile p s"

definition trim_right :: "('a \<Rightarrow> bool) \<Rightarrow> 'a list \<Rightarrow> 'a list" where
  "trim_right p s = rev (dropWhile p (rev s))"

definition trim_by :: "('a \<Rightarrow> bool) \<Rightarrow> 'a list \<Rightarrow> 'a list" where
  "trim_by p s = trim_right p (trim_left p s)"

definition trim_space :: "string \<Rightarrow> string" where
  "trim_space = trim_by is_space"

definition lower_char :: "char \<Rightarrow> char" where
  "lower_char c =
     (if 65 \<le> (of_char c :: nat) \<and> (of_char c :: nat) \<le> 90
      then char_of ((of_char c :: nat) + 32) else c)"

definition to_lower :: "string \<Rightarrow> string" where
  "to_lower = map lower_char"

fun split_on :: "'a \<Rightarrow> 'a list \<Rightarrow> 'a list list" where
  "split_on c [] = [[]]"
| "split_on c (x # xs) =
     (if x = c then [] # split_on c xs
      else (case split_on c xs of [] \<Rightarrow> [[x]] | p # ps \<Rightarrow> (x # p) # ps))"

fun join :: "'a list \<Rightarrow> 'a list list \<Rightarrow> 'a list" where
  "join sep [] = []"
| "join sep [x] = x"
| "join sep (x # y # ys) = x @ sep @ join sep (y # ys)"

fun index_of :: "'a \<Rightarrow> 'a list \<Rightarrow> nat option" where
  "index_of c [] = None"
| "index_of c (x # xs) = (if x = c then Some 0 else map_option Suc (index_of c xs))"

definition last_index_of :: "'a \<Rightarrow> 'a list \<Rightarrow> nat option" where
  "last_index_of c s = map_option (\<lambda>i. length s - Suc i) (index_of c (rev s))"

text \<open>\<open>strings.Cut\<close> with a one-byte separator: before, after, found.\<close>

definition cut_at :: "'a \<Rightarrow> 'a list \<Rightarrow> 'a list \<times> 'a list \<times> bool" where
  "cut_at c s = (case index_of c s of
     None \<Rightarrow> (s, [], False)
   | Some i \<Rightarrow> (take i s, drop (Suc i) s, True))"

text \<open>\<open>strings.Cut\<close> with a longer separator (the first occurrence cuts).\<close>

fun cut_on :: "'a list \<Rightarrow> 'a list \<Rightarrow> 'a list \<times> 'a list \<times> bool" where
  "cut_on sep [] = (if sep = [] then ([], [], True) else ([], [], False))"
| "cut_on sep (c # s) =
     (if has_prefix (c # s) sep then ([], drop (length sep) (c # s), True)
      else case cut_on sep s of (a, b, found) \<Rightarrow> (c # a, b, found))"

lemma has_prefix_iff [go_str]: "has_prefix s p \<longleftrightarrow> (\<exists>t. s = p @ t)"
  by (metis append_eq_conv_conj append_take_drop_id has_prefix_def length_append le_add1)

lemma has_suffix_iff [go_str]: "has_suffix s p \<longleftrightarrow> (\<exists>t. s = t @ p)"
proof
  assume "has_suffix s p"
  then show "\<exists>t. s = t @ p" by (metis append_take_drop_id has_suffix_def)
next
  assume "\<exists>t. s = t @ p"
  then show "has_suffix s p" by (auto simp: has_suffix_def)
qed

lemma contains_iff [go_str]: "contains s p \<longleftrightarrow> (\<exists>a b. s = a @ p @ b)"
proof (induction s)
  case (Cons c s)
  have "(\<exists>a b. c # s = a @ p @ b) \<longleftrightarrow> (\<exists>b. c # s = p @ b) \<or> (\<exists>a b. s = a @ p @ b)"
    by (auto simp: Cons_eq_append_conv)
  with Cons.IH show ?case by (simp add: has_prefix_iff)
qed auto

lemma contains_append: "contains s p \<Longrightarrow> contains (a @ s @ b) p"
  unfolding contains_iff by (metis append.assoc)

lemma trim_prefix_append [simp]: "trim_prefix (p @ s) p = s"
  by (simp add: trim_prefix_def has_prefix_def)

lemma trim_prefix_id: "\<not> has_prefix s p \<Longrightarrow> trim_prefix s p = s"
  by (simp add: trim_prefix_def)

lemma split_on_not_Nil [simp]: "split_on c s \<noteq> []"
  by (induction s) (auto split: list.splits)

lemma join_Cons: "xs \<noteq> [] \<Longrightarrow> join sep (x # xs) = x @ sep @ join sep xs"
  by (cases xs) auto

lemma join_Cons_hd: "join sep ((a # x) # xs) = a # join sep (x # xs)"
  by (cases xs) auto

lemma join_split_on: "join [c] (split_on c s) = s"
  by (induction s) (auto simp: join_Cons join_Cons_hd neq_Nil_conv split: list.splits)

lemma split_on_piece_free: "p \<in> set (split_on c s) \<Longrightarrow> c \<notin> set p"
  by (induction s arbitrary: p) (auto split: list.splits if_splits)

lemma split_on_free: "c \<notin> set s \<Longrightarrow> split_on c s = [s]"
  by (induction s) auto

lemma split_on_append_sep: "c \<notin> set s \<Longrightarrow> split_on c (s @ c # t) = s # split_on c t"
  by (induction s) auto

lemma split_on_append: "split_on c (s @ c # t) = split_on c s @ split_on c t"
  by (induction s) (auto split: list.splits)

lemma index_of_None: "index_of c s = None \<longleftrightarrow> c \<notin> set s"
  by (induction s) auto

lemma index_of_append: "c \<notin> set s \<Longrightarrow> index_of c (s @ c # t) = Some (length s)"
  by (induction s) auto

lemma cut_at_append [go_str]: "c \<notin> set s \<Longrightarrow> cut_at c (s @ c # t) = (s, t, True)"
  by (simp add: cut_at_def index_of_append)

lemma cut_at_free [go_str]: "c \<notin> set s \<Longrightarrow> cut_at c s = (s, [], False)"
  using index_of_None [of c s] by (simp add: cut_at_def)

lemma trim_by_no_ends: "s = [] \<or> \<not> p (hd s) \<and> \<not> p (last s) \<Longrightarrow> trim_by p s = s"
proof -
  assume a: "s = [] \<or> \<not> p (hd s) \<and> \<not> p (last s)"
  then have "dropWhile p s = s" by (cases s) auto
  moreover from a have "dropWhile p (rev s) = rev s"
    by (cases s rule: rev_cases) auto
  ultimately show ?thesis by (simp add: trim_by_def trim_left_def trim_right_def)
qed

lemma last_dropWhile: "dropWhile p s \<noteq> [] \<Longrightarrow> last (dropWhile p s) = last s"
  by (induction s) (auto split: if_splits)

lemma dropWhile_rev_eq_Nil: "dropWhile p (rev s) = [] \<longleftrightarrow> (\<forall>x \<in> set s. p x)"
  by simp

lemma trim_right_last: "trim_right p s \<noteq> [] \<Longrightarrow> \<not> p (last (trim_right p s))"
  by (simp add: trim_right_def last_rev hd_dropWhile)

lemma trim_right_hd: "trim_right p s \<noteq> [] \<Longrightarrow> hd (trim_right p s) = hd s"
  unfolding trim_right_def
  by (metis hd_rev last_dropWhile last_rev rev_is_Nil_conv rev_rev_ident)

lemma index_of_Some:
  "index_of x s = Some i \<Longrightarrow> i < length s \<and> s = take i s @ x # drop (Suc i) s \<and> x \<notin> set (take i s)"
  by (induction s arbitrary: i) (auto split: if_splits)

lemma last_index_of_Some:
  assumes "last_index_of x s = Some i"
  shows "i < length s \<and> s ! i = x \<and> x \<notin> set (drop (Suc i) s)"
proof -
  obtain j where j: "index_of x (rev s) = Some j" "i = length s - Suc j"
    using assms by (auto simp: last_index_of_def)
  note f = index_of_Some [OF j(1)]
  then have "rev s ! j = x" by (metis nth_append_length length_take min.absorb4)
  moreover have "x \<notin> set (drop (length s - j) s)" using f by (simp add: take_rev)
  moreover have "length s - Suc j < length s" using f by (cases "length s") auto
  ultimately show ?thesis using f j(2) by (simp add: rev_nth Suc_diff_Suc)
qed

lemma last_index_of_None: "last_index_of x s = None \<Longrightarrow> x \<notin> set s"
  using index_of_None [of x "rev s"] by (simp add: last_index_of_def)

lemma trim_right_split:
  obtains t where "xs = trim_right p xs @ t" and "\<forall>c \<in> set t. p c"
proof
  show "xs = trim_right p xs @ rev (takeWhile p (rev xs))"
    unfolding trim_right_def by (metis rev_append rev_rev_ident takeWhile_dropWhile_id)
  show "\<forall>c \<in> set (rev (takeWhile p (rev xs))). p c" by (auto dest: set_takeWhileD)
qed

lemma trim_right_keeps:
  assumes "i < length xs" and "\<not> p (xs ! i)"
  shows "i < length (trim_right p xs)"
proof (rule ccontr)
  let ?r = "trim_right p xs"
  assume short: "\<not> i < length ?r"
  obtain t where t: "xs = ?r @ t" "\<forall>c \<in> set t. p c" by (rule trim_right_split)
  have "length xs = length ?r + length t" using arg_cong [OF t(1), of length] by (simp only: length_append)
  moreover have "xs ! i = t ! (i - length ?r)"
    using arg_cong [OF t(1), of "\<lambda>l. l ! i"] short by (simp only: nth_append if_False)
  ultimately have "xs ! i \<in> set t" using assms(1) short by simp
  then show False using t(2) assms(2) by blast
qed

lemma subseq_trim_right: "subseq (trim_right p xs) xs"
proof -
  obtain t where "xs = trim_right p xs @ t" by (rule trim_right_split)
  then have "prefix (trim_right p xs) xs" by (rule prefixI)
  then show ?thesis by (rule prefix_imp_subseq)
qed

lemma subseq_cut: "a \<le> b \<Longrightarrow> subseq (take a xs @ drop b xs) xs"
proof -
  assume "a \<le> b"
  then have "drop b xs = drop (b - a) (drop a xs)" by simp
  then have "subseq (drop b xs) (drop a xs)" by (metis append_take_drop_id subseq_drop_many subseq_order.refl)
  then have "subseq (take a xs @ drop b xs) (take a xs @ drop a xs)"
    by (rule list_emb_append_mono [OF subseq_order.refl])
  then show ?thesis by simp
qed

lemma trim_by_ends:
  assumes "trim_by p s \<noteq> []"
  shows "\<not> p (hd (trim_by p s)) \<and> \<not> p (last (trim_by p s))"
proof -
  have "dropWhile p s \<noteq> []"
    using assms by (metis dropWhile.simps(1) rev.simps(1) trim_by_def trim_left_def trim_right_def)
  then have "\<not> p (hd (dropWhile p s))" by (rule hd_dropWhile)
  then show ?thesis
    using assms trim_right_last [of p "dropWhile p s"] trim_right_hd [of p "dropWhile p s"]
    by (simp add: trim_by_def trim_left_def)
qed

lemma trim_by_idem: "trim_by p (trim_by p s) = trim_by p s"
  by (rule trim_by_no_ends) (use trim_by_ends in blast)

lemma set_trim_by: "set (trim_by p s) \<subseteq> set s"
  by (auto simp: trim_by_def trim_left_def trim_right_def dest!: set_dropWhileD)

lemma length_trim_by: "length (trim_by p s) \<le> length s"
  by (simp add: trim_by_def trim_left_def trim_right_def)
    (metis length_dropWhile_le le_trans length_rev)

lemma trim_space_blank: "trim_space s = [] \<longleftrightarrow> (\<forall>c \<in> set s. is_space c)"
proof -
  have "(\<forall>c \<in> set (dropWhile is_space s). is_space c) \<longleftrightarrow> (\<forall>c \<in> set s. is_space c)"
    by (induction s) auto
  then show ?thesis
    by (simp add: trim_space_def trim_by_def trim_right_def trim_left_def dropWhile_eq_Nil_conv)
qed

subsection \<open>strconv\<close>

definition digit :: "nat \<Rightarrow> char" where
  "digit n = char_of (48 + n)"

definition is_digit :: "char \<Rightarrow> bool" where
  "is_digit c \<longleftrightarrow> 48 \<le> (of_char c :: nat) \<and> (of_char c :: nat) \<le> 57"

definition digit_val :: "char \<Rightarrow> nat" where
  "digit_val c = of_char c - 48"

fun nat_dec :: "nat \<Rightarrow> string" where
  "nat_dec n = (if n < 10 then [digit n] else nat_dec (n div 10) @ [digit (n mod 10)])"

declare nat_dec.simps [simp del]

definition int_dec :: "int \<Rightarrow> string" where
  "int_dec i = (if i < 0 then CHR ''-'' # nat_dec (nat (- i)) else nat_dec (nat i))"

definition dec_val :: "string \<Rightarrow> nat" where
  "dec_val s = foldl (\<lambda>acc c. 10 * acc + digit_val c) 0 s"

definition max_int64 :: int where
  "max_int64 = 9223372036854775807"

definition min_int64 :: int where
  "min_int64 = - 9223372036854775808"

definition in_int64 :: "int \<Rightarrow> bool" where
  "in_int64 i \<longleftrightarrow> min_int64 \<le> i \<and> i \<le> max_int64"

text \<open>\<open>strconv.Atoi\<close> and \<open>ParseInt(s, 10, 64)\<close>: an optional sign, then digits, within 64 bits.\<close>

definition atoi :: "string \<Rightarrow> int option" where
  "atoi s =
     (let (neg, ds) = (case s of
            [] \<Rightarrow> (False, [])
          | c # cs \<Rightarrow> if c = CHR ''-'' then (True, cs) else if c = CHR ''+'' then (False, cs) else (False, s));
          v = (if neg then - int (dec_val ds) else int (dec_val ds))
      in if ds \<noteq> [] \<and> list_all is_digit ds \<and> in_int64 v then Some v else None)"

lemma of_char_digit: "n < 10 \<Longrightarrow> (of_char (digit n) :: nat) = 48 + n"
  by (simp add: digit_def of_char_of)

lemma is_digit_digit [simp]: "n < 10 \<Longrightarrow> is_digit (digit n)"
  by (simp add: is_digit_def of_char_digit)

lemma digit_val_digit [simp]: "n < 10 \<Longrightarrow> digit_val (digit n) = n"
  by (simp add: digit_val_def of_char_digit)

lemma dec_val_snoc [simp]: "dec_val (s @ [c]) = 10 * dec_val s + digit_val c"
  by (simp add: dec_val_def)

lemma dec_val_Nil [simp]: "dec_val [] = 0"
  by (simp add: dec_val_def)

lemma dec_val_nat_dec [simp]: "dec_val (nat_dec n) = n"
proof (induction n rule: nat_dec.induct)
  case (1 n)
  show ?case
  proof (cases "n < 10")
    case True
    then show ?thesis using dec_val_snoc [of "[]"] by (simp add: nat_dec.simps [of n])
  next
    case False
    with 1 show ?thesis by (simp add: nat_dec.simps [of n])
  qed
qed

lemma nat_dec_digits: "list_all is_digit (nat_dec n)"
proof (induction n rule: nat_dec.induct)
  case (1 n)
  then show ?case by (subst nat_dec.simps) auto
qed

lemma nat_dec_not_Nil [simp]: "nat_dec n \<noteq> []"
  by (subst nat_dec.simps) simp

lemma digit_not_sign: "is_digit c \<Longrightarrow> c \<noteq> CHR ''-'' \<and> c \<noteq> CHR ''+''"
  by (auto simp: is_digit_def)

lemma nat_dec_hd: "is_digit (hd (nat_dec n))"
  using nat_dec_digits [of n] nat_dec_not_Nil [of n] by (cases "nat_dec n") auto

lemma atoi_digits:
  assumes "ds \<noteq> []" and "list_all is_digit ds" and "int (dec_val ds) \<le> max_int64"
  shows "atoi ds = Some (int (dec_val ds))"
proof -
  from assms(1,2) obtain c cs where ds: "ds = c # cs" and "is_digit c" by (cases ds) auto
  then have "c \<noteq> CHR ''-''" and "c \<noteq> CHR ''+''" using digit_not_sign by blast+
  with ds assms show ?thesis
    by (simp add: atoi_def in_int64_def min_int64_def)
qed

lemma atoi_nat_dec: "int n \<le> max_int64 \<Longrightarrow> atoi (nat_dec n) = Some (int n)"
  using atoi_digits [of "nat_dec n"] nat_dec_digits by simp

lemma atoi_int_dec: "in_int64 i \<Longrightarrow> atoi (int_dec i) = Some i"
proof (cases "i < 0")
  case True
  assume "in_int64 i"
  with True show ?thesis
    using nat_dec_digits [of "nat (- i)"] by (simp add: int_dec_def atoi_def)
next
  case False
  assume "in_int64 i"
  with False show ?thesis using atoi_nat_dec [of "nat i"] by (simp add: int_dec_def in_int64_def)
qed

lemma atoi_range: "atoi s = Some i \<Longrightarrow> in_int64 i"
  by (auto simp: atoi_def Let_def split: if_splits prod.splits)

text \<open>\<open>%0wd\<close>: decimal, left-padded with zeros to width \<open>w\<close> (used on non-negative values).\<close>

definition pad_dec :: "nat \<Rightarrow> int \<Rightarrow> string" where
  "pad_dec w i =
     (if i < 0 then CHR ''-'' # replicate (w - length (int_dec i)) (CHR ''0'') @ nat_dec (nat (- i))
      else replicate (w - length (int_dec i)) (CHR ''0'') @ int_dec i)"

lemma dec_val_zeros: "dec_val (replicate k (CHR ''0'') @ s) = dec_val s"
proof (induction k)
  case (Suc k)
  have "dec_val (CHR ''0'' # t) = dec_val t" for t
    by (simp add: dec_val_def digit_val_def)
  with Suc show ?case by simp
qed simp

lemma pad_dec_digits: "0 \<le> i \<Longrightarrow> list_all is_digit (pad_dec w i)"
  using nat_dec_digits [of "nat i"]
  by (auto simp: pad_dec_def int_dec_def list_all_iff is_digit_def)

lemma pad_dec_not_Nil: "0 \<le> i \<Longrightarrow> pad_dec w i \<noteq> []"
  by (simp add: pad_dec_def int_dec_def)

lemma atoi_pad_dec: "0 \<le> i \<Longrightarrow> i \<le> max_int64 \<Longrightarrow> atoi (pad_dec w i) = Some i"
  using atoi_digits [of "pad_dec w i"] pad_dec_digits [of i w] pad_dec_not_Nil [of i w]
  by (simp add: pad_dec_def int_dec_def dec_val_zeros)

subsection \<open>Integers\<close>

text \<open>Go's \<open>/\<close> and \<open>%\<close> on integers truncate towards zero.\<close>

definition quot :: "int \<Rightarrow> int \<Rightarrow> int" where
  "quot a b = sgn a * sgn b * (\<bar>a\<bar> div \<bar>b\<bar>)"

definition rem :: "int \<Rightarrow> int \<Rightarrow> int" where
  "rem a b = a - b * quot a b"

lemma quot_nonneg: "0 \<le> a \<Longrightarrow> 0 < b \<Longrightarrow> quot a b = a div b"
  by (cases "a = 0") (simp_all add: quot_def)

lemma quot_neg: "a < 0 \<Longrightarrow> 0 < b \<Longrightarrow> quot a b = - ((- a) div b)"
  by (simp add: quot_def)

lemma rem_nonneg: "0 \<le> a \<Longrightarrow> 0 < b \<Longrightarrow> rem a b = a mod b"
  by (simp add: rem_def quot_nonneg minus_mult_div_eq_mod)

text \<open>\<open>time.Duration\<close> arithmetic saturates at 64 bits in \<open>Time.Sub\<close>.\<close>

definition sat_int64 :: "int \<Rightarrow> int" where
  "sat_int64 i = max min_int64 (min max_int64 i)"

definition time_sub :: "instant \<Rightarrow> instant \<Rightarrow> int" where
  "time_sub a b = sat_int64 (a - b)"

definition second :: int where
  "second = 1000000000"

lemma sat_int64_mono: "a \<le> b \<Longrightarrow> sat_int64 a \<le> sat_int64 b"
  by (auto simp: sat_int64_def)

text \<open>\<open>int64\<close> arithmetic wraps; \<open>i64\<close> reduces an exact result to its 64 bits.\<close>

definition i64 :: "int \<Rightarrow> int" where
  "i64 x = (x + 9223372036854775808) mod 18446744073709551616 - 9223372036854775808"

lemma i64_id: "in_int64 x \<Longrightarrow> i64 x = x"
  by (simp add: i64_def in_int64_def min_int64_def max_int64_def)

lemma i64_range: "in_int64 (i64 x)"
  using pos_mod_bound [of 18446744073709551616 "x + 9223372036854775808"]
    pos_mod_sign [of 18446744073709551616 "x + 9223372036854775808"]
  by (simp add: i64_def in_int64_def min_int64_def max_int64_def)

lemma i64_small: "- 9223372036854775808 \<le> x \<Longrightarrow> x \<le> 9223372036854775807 \<Longrightarrow> i64 x = x"
  by (simp add: i64_id in_int64_def min_int64_def max_int64_def)

subsection \<open>Lists\<close>

text \<open>A separator that neither part holds ends both at the same place.\<close>

lemma key_ends:
  "c \<notin> set k \<Longrightarrow> c \<notin> set l \<Longrightarrow> k @ c # s = l @ c # t \<Longrightarrow> k = l \<and> s = t"
proof (induction k arbitrary: l)
  case Nil
  then show ?case by (cases l) auto
next
  case (Cons x k)
  then show ?case by (cases l) auto
qed

text \<open>The first match of a loop that returns, and the membership tests written as loops.\<close>

lemma find_Some_in: "find P xs = Some x \<Longrightarrow> x \<in> set xs \<and> P x"
  by (induction xs) (auto split: if_splits)

lemma find_None_all: "find P xs = None \<longleftrightarrow> (\<forall>x \<in> set xs. \<not> P x)"
  by (induction xs) auto

lemma length_filter_same: "length (filter P xs) = length xs \<longleftrightarrow> (\<forall>x \<in> set xs. P x)"
  by (metis filter_True length_filter_less nless_le)

lemma find_unique:
  assumes "distinct (map f xs)" and "x \<in> set xs"
  shows "find (\<lambda>y. f y = f x) xs = Some x"
  using assms by (induction xs) (auto simp: rev_image_eqI)

lemma fold_keeps:
  "P s \<Longrightarrow> (\<And>x s. x \<in> set xs \<Longrightarrow> P s \<Longrightarrow> P (f x s)) \<Longrightarrow> P (fold f xs s)"
  by (induction xs arbitrary: s) auto

end
