(* ===== verification/Verdict.thy ===== *)
theory Verdict
  imports Go_Prelude
begin

text \<open>
  \<open>internal/shared/health/contract.go\<close> and \<open>converge.go\<close>: the findings report of a health
  scan, the verdict it folds to, the 0/1/2 exit-code contract, and what the converge loop does
  with an exit code. A \<open>Report\<close> method with a pointer receiver returns the updated report.
\<close>

subsection \<open>Verdicts and exit codes\<close>

datatype verdict = Converged | InProgress | HardFailed

fun exitCode :: "verdict \<Rightarrow> int" where
  "exitCode HardFailed = 1"
| "exitCode InProgress = 2"
| "exitCode Converged = 0"

text \<open>The \<open>iota\<close> order of the constants: worse verdicts are larger.\<close>

fun verdict_rank :: "verdict \<Rightarrow> nat" where
  "verdict_rank Converged = 0"
| "verdict_rank InProgress = 1"
| "verdict_rank HardFailed = 2"

lemma verdict_rank_inj: "verdict_rank v = verdict_rank w \<longleftrightarrow> v = w"
  by (cases v; cases w) auto

instantiation verdict :: linorder
begin

definition less_eq_verdict :: "verdict \<Rightarrow> verdict \<Rightarrow> bool" where
  "less_eq_verdict v w \<longleftrightarrow> verdict_rank v \<le> verdict_rank w"

definition less_verdict :: "verdict \<Rightarrow> verdict \<Rightarrow> bool" where
  "less_verdict v w \<longleftrightarrow> verdict_rank v < verdict_rank w"

instance
  by standard (auto simp: less_eq_verdict_def less_verdict_def verdict_rank_inj [symmetric])

end

subsection \<open>The report\<close>

datatype category =
    CatOK
  | CatWarn
  | CatFail
  | CatPending
  | CatDeferred
  | CatDrift
  | CatInstance

record report =
  Failed :: "string list"
  Pending :: "string list"
  Deferred :: "string list"
  Drift :: "string list"
  Instance :: "string list"
  InstanceFailed :: "string list"
  InstancePending :: "string list"
  Inconclusive :: bool
  RedisAuthSplit :: bool
  AnnotationLimitWedge :: bool
  TunnelDown :: bool
  GitAuthFailure :: bool

definition empty_report :: report where   \<comment> \<open>the zero value \<open>var r Report\<close>\<close>
  "empty_report = \<lparr>Failed = [], Pending = [], Deferred = [], Drift = [], Instance = [],
     InstanceFailed = [], InstancePending = [], Inconclusive = False, RedisAuthSplit = False,
     AnnotationLimitWedge = False, TunnelDown = False, GitAuthFailure = False\<rparr>"

definition addFail :: "string \<Rightarrow> report \<Rightarrow> report" where
  "addFail m r = r\<lparr>Failed := Failed r @ [m]\<rparr>"

definition addPending :: "string \<Rightarrow> report \<Rightarrow> report" where
  "addPending m r = r\<lparr>Pending := Pending r @ [m]\<rparr>"

definition addDeferred :: "string \<Rightarrow> report \<Rightarrow> report" where
  "addDeferred m r = r\<lparr>Deferred := Deferred r @ [m]\<rparr>"

definition addDrift :: "string \<Rightarrow> report \<Rightarrow> report" where
  "addDrift m r = r\<lparr>Drift := Drift r @ [m]\<rparr>"

definition addInstanceOf :: "category \<Rightarrow> string \<Rightarrow> report \<Rightarrow> report" where
  "addInstanceOf orig m r =
     (let r = r\<lparr>Instance := Instance r @ [m]\<rparr>
      in case orig of
           CatFail \<Rightarrow> r\<lparr>InstanceFailed := InstanceFailed r @ [m]\<rparr>
         | CatPending \<Rightarrow> r\<lparr>InstancePending := InstancePending r @ [m]\<rparr>
         | _ \<Rightarrow> r)"

fun verdictOf :: "string list \<Rightarrow> string list \<Rightarrow> verdict" where
  "verdictOf failed pending =
     (if 0 < length failed then HardFailed
      else if 0 < length pending then InProgress
      else Converged)"

definition verdict :: "report \<Rightarrow> verdict" where
  "verdict r = verdictOf (Failed r) (Pending r)"

definition reportExitCode :: "report \<Rightarrow> int" where
  "reportExitCode r = exitCode (verdict r)"

definition appVerdict :: "report \<Rightarrow> verdict" where
  "appVerdict r =
     (let v = verdictOf (InstanceFailed r) (InstancePending r)
      in if v \<noteq> Converged then v
         else if Inconclusive r then InProgress
         else Converged)"

definition add :: "category \<Rightarrow> string \<Rightarrow> report \<Rightarrow> report" where
  "add cat m r = (case cat of
       CatFail \<Rightarrow> addFail m r
     | CatPending \<Rightarrow> addPending m r
     | CatDeferred \<Rightarrow> addDeferred m r
     | CatDrift \<Rightarrow> addDrift m r
     | CatInstance \<Rightarrow> addInstanceOf CatOK m r
     | _ \<Rightarrow> r)"

lemmas report_ops = addFail_def addPending_def addDeferred_def addDrift_def addInstanceOf_def add_def

subsection \<open>What the loop does with an exit code (\<open>converge.go\<close>)\<close>

datatype convergeAction =
    ConvergeDone
  | ConvergePoll
  | ConvergeRetryHard
  | ConvergeUnreachable
  | ConvergeAbort

definition phaseAwareExitCode :: "int \<Rightarrow> bool \<Rightarrow> int" where
  "phaseAwareExitCode code phase1 = (if phase1 \<and> code = 1 then 2 else code)"

definition convergeStep :: "int \<Rightarrow> convergeAction" where
  "convergeStep exit =
     (if exit = 0 then ConvergeDone
      else if exit = 2 then ConvergePoll
      else if exit = 1 then ConvergeRetryHard
      else if exit = 3 then ConvergeUnreachable
      else ConvergeAbort)"

text \<open>\<open>budgeted.go\<close>: the package variable \<open>Budgeted\<close> is an argument.\<close>

definition pendingIfBudgeted :: "bool \<Rightarrow> string \<Rightarrow> string \<Rightarrow> category \<times> string" where
  "pendingIfBudgeted budgeted msgBudgeted msgFinal =
     (if budgeted then (CatPending, msgBudgeted) else (CatFail, msgFinal))"

subsection \<open>Lemmas\<close>

lemma verdict_le [simp]: "Converged \<le> v" "v \<le> HardFailed"
  by (cases v; simp add: less_eq_verdict_def)+

lemma verdict_cases_le: "v \<le> w \<longleftrightarrow> v = w \<or> v = Converged \<or> w = HardFailed"
  by (cases v; cases w) (auto simp: less_eq_verdict_def)

lemma verdict_max [simp]:
  "max Converged v = v" "max v Converged = v"
  "max HardFailed v = HardFailed" "max v HardFailed = HardFailed"
  by (auto simp: max_def intro: antisym)

text \<open>How bad one category is for the platform, and for the apps.\<close>

fun severity :: "category \<Rightarrow> verdict" where
  "severity CatFail = HardFailed"
| "severity CatPending = InProgress"
| "severity _ = Converged"

lemma verdictOf_snoc:
  "verdictOf (f @ [m]) p = HardFailed"
  "verdictOf f (p @ [m]) = max (verdictOf f p) InProgress"
  by (auto simp: max_def verdict_cases_le)

lemma verdict_add: "verdict (add cat m r) = max (severity cat) (verdict r)"
  by (cases cat)
    (auto simp: report_ops verdict_def max_def verdict_cases_le)

lemma verdict_addInstanceOf [simp]: "verdict (addInstanceOf orig m r) = verdict r"
  by (cases orig) (auto simp: addInstanceOf_def verdict_def)

lemma appVerdict_add [simp]: "appVerdict (add cat m r) = appVerdict r"
  by (cases cat) (auto simp: report_ops appVerdict_def)

lemma appVerdict_addInstanceOf:
  "appVerdict (addInstanceOf orig m r) = max (severity orig) (appVerdict r)"
  by (cases orig) (auto simp: addInstanceOf_def appVerdict_def Let_def max_def verdict_cases_le)

lemma exitCode_inj: "exitCode v = exitCode w \<longleftrightarrow> v = w"
  by (cases v; cases w) auto

lemma verdict_empty [simp]: "verdict empty_report = Converged" "appVerdict empty_report = Converged"
  by (simp_all add: verdict_def appVerdict_def empty_report_def)

subsection \<open>Properties\<close>

text \<open>recording a sequence of findings gives the worst of them: a pass is converged exactly
  when nothing failed and nothing is pending, and hard-failed exactly when something failed,
  whatever the order; instance findings, drift, deferrals and warnings never move the platform
  verdict, and the app verdict does not move at all.\<close>

theorem verdict_of_findings:
  "verdict (fold (\<lambda>(cat, m). add cat m) fs empty_report) =
     (if CatFail \<in> fst ` set fs then HardFailed
      else if CatPending \<in> fst ` set fs then InProgress else Converged)
   \<and> appVerdict (fold (\<lambda>(cat, m). add cat m) fs empty_report) = Converged"
proof -
  have "verdict (fold (\<lambda>(cat, m). add cat m) fs r) = max (verdict r)
      (if CatFail \<in> fst ` set fs then HardFailed
       else if CatPending \<in> fst ` set fs then InProgress else Converged) \<and>
    appVerdict (fold (\<lambda>(cat, m). add cat m) fs r) = appVerdict r" for r
  proof (induction fs arbitrary: r)
    case (Cons f fs)
    obtain cat m where f: "f = (cat, m)" by fastforce
    show ?case
      by (cases cat; cases "verdict r") (auto simp: f Cons.IH verdict_add max_def verdict_cases_le)
  qed simp
  from this [of empty_report] show ?thesis by simp
qed

text \<open>what the converge loop does with a finished pass: it stops only on a converged
  verdict, spends a hard strike only on a failed one outside phase 1, polls on everything else,
  and never treats the code of a report as unreachable or unknown.\<close>

theorem converge_action_of_report:
  "convergeStep (phaseAwareExitCode (reportExitCode r) phase1) =
     (case verdict r of
        Converged \<Rightarrow> ConvergeDone
      | InProgress \<Rightarrow> ConvergePoll
      | HardFailed \<Rightarrow> if phase1 then ConvergePoll else ConvergeRetryHard)"
  by (cases "verdict r") (simp_all add: reportExitCode_def phaseAwareExitCode_def convergeStep_def)

end
