(* ===== verification/Regexp.thy ===== *)
theory Regexp
  imports Go_Prelude
begin

text \<open>
  The part of Go's \<open>regexp\<close> package the sources use, on anchored patterns (\<open>^...$\<close>): the
  parsed pattern is an \<open>rx\<close>, matching is by derivatives, and \<open>rx_lang\<close> is its meaning.
  \<open>RChar p\<close> is one character satisfying \<open>p\<close> (a literal, \<open>.\<close>, or a bracket class). Text is
  matched byte by byte, which agrees with Go on ASCII text.
\<close>

datatype rx =
    RNone
  | REps
  | RChar "char \<Rightarrow> bool"
  | RSeq rx rx
  | RAlt rx rx
  | RStar rx

abbreviation rlit :: "char \<Rightarrow> rx" where   \<comment> \<open>a literal character\<close>
  "rlit c \<equiv> RChar (\<lambda>x. x = c)"

abbreviation rany :: rx where   \<comment> \<open>\<open>.\<close>: any character but a newline\<close>
  "rany \<equiv> RChar (\<lambda>x. x \<noteq> CHR 0x0A)"

abbreviation ropt :: "rx \<Rightarrow> rx" where   \<comment> \<open>\<open>r?\<close>\<close>
  "ropt r \<equiv> RAlt r REps"

fun rlits :: "string \<Rightarrow> rx" where   \<comment> \<open>a literal string\<close>
  "rlits [] = REps"
| "rlits (c # s) = RSeq (rlit c) (rlits s)"

fun nullable :: "rx \<Rightarrow> bool" where
  "nullable RNone = False"
| "nullable REps = True"
| "nullable (RChar p) = False"
| "nullable (RSeq r s) = (nullable r \<and> nullable s)"
| "nullable (RAlt r s) = (nullable r \<or> nullable s)"
| "nullable (RStar r) = True"

fun deriv :: "char \<Rightarrow> rx \<Rightarrow> rx" where
  "deriv c RNone = RNone"
| "deriv c REps = RNone"
| "deriv c (RChar p) = (if p c then REps else RNone)"
| "deriv c (RSeq r s) =
     (if nullable r then RAlt (RSeq (deriv c r) s) (deriv c s) else RSeq (deriv c r) s)"
| "deriv c (RAlt r s) = RAlt (deriv c r) (deriv c s)"
| "deriv c (RStar r) = RSeq (deriv c r) (RStar r)"

fun rx_match :: "rx \<Rightarrow> string \<Rightarrow> bool" where
  "rx_match r [] = nullable r"
| "rx_match r (c # s) = rx_match (deriv c r) s"

inductive rx_lang :: "rx \<Rightarrow> string \<Rightarrow> bool" where
  eps: "rx_lang REps []"
| chr: "p c \<Longrightarrow> rx_lang (RChar p) [c]"
| seq: "rx_lang r s \<Longrightarrow> rx_lang r' s' \<Longrightarrow> rx_lang (RSeq r r') (s @ s')"
| alt1: "rx_lang r s \<Longrightarrow> rx_lang (RAlt r r') s"
| alt2: "rx_lang r' s \<Longrightarrow> rx_lang (RAlt r r') s"
| star0: "rx_lang (RStar r) []"
| star1: "rx_lang r s \<Longrightarrow> rx_lang (RStar r) s' \<Longrightarrow> rx_lang (RStar r) (s @ s')"

inductive_simps rx_lang_None [simp]: "rx_lang RNone s"
inductive_simps rx_lang_Eps [simp]: "rx_lang REps s"
inductive_simps rx_lang_Char [simp]: "rx_lang (RChar p) s"
inductive_simps rx_lang_Seq: "rx_lang (RSeq r r') s"
inductive_simps rx_lang_Alt [simp]: "rx_lang (RAlt r r') s"

lemma nullable_iff: "nullable r \<longleftrightarrow> rx_lang r []"
  by (induction r) (auto simp: rx_lang_Seq intro: rx_lang.star0)

lemma rx_lang_Seq_Cons:
  "rx_lang (RSeq r r') (c # s) \<longleftrightarrow>
     rx_lang r [] \<and> rx_lang r' (c # s)
     \<or> (\<exists>u v. s = u @ v \<and> rx_lang r (c # u) \<and> rx_lang r' v)"
  by (auto simp: rx_lang_Seq Cons_eq_append_conv)

lemma rx_lang_Star_split:
  "rx_lang t w \<Longrightarrow> t = RStar r \<Longrightarrow> w = c # s \<Longrightarrow>
     \<exists>u v. s = u @ v \<and> rx_lang r (c # u) \<and> rx_lang (RStar r) v"
proof (induction arbitrary: s rule: rx_lang.induct)
  case (star1 q u v)
  then show ?case by (cases u) auto
qed auto

lemma rx_lang_Star_Cons:
  "rx_lang (RStar r) (c # s) \<longleftrightarrow> (\<exists>u v. s = u @ v \<and> rx_lang r (c # u) \<and> rx_lang (RStar r) v)"
  using rx_lang_Star_split [of "RStar r" "c # s" r c s] rx_lang.star1 [of r "c # _"]
  by fastforce

lemma deriv_iff: "rx_lang (deriv c r) s \<longleftrightarrow> rx_lang r (c # s)"
proof (induction r arbitrary: s)
  case (RSeq r r')
  have "rx_lang (RSeq (deriv c r) r') s \<longleftrightarrow> (\<exists>u v. s = u @ v \<and> rx_lang r (c # u) \<and> rx_lang r' v)"
    by (simp add: rx_lang_Seq RSeq.IH(1))
  with RSeq.IH(2) show ?case by (simp add: rx_lang_Seq_Cons nullable_iff) blast
next
  case (RStar r)
  then show ?case by (auto simp: rx_lang_Star_Cons rx_lang_Seq)
qed auto

lemma rx_match_iff: "rx_match r s \<longleftrightarrow> rx_lang r s"
  by (induction s arbitrary: r) (auto simp: nullable_iff deriv_iff)

lemma rx_lang_lits [simp]: "rx_lang (rlits p) s \<longleftrightarrow> s = p"
proof (induction p arbitrary: s)
  case (Cons c p)
  then show ?case by (cases s) (auto simp: rx_lang_Seq)
qed auto

lemma rx_lang_Star_Char: "rx_lang (RStar (RChar p)) s \<longleftrightarrow> list_all p s"
  by (induction s) (auto simp: rx_lang_Star_Cons intro: rx_lang.star0)

lemma rx_lang_lit_Seq: "rx_lang (RSeq (RChar p) r) s \<longleftrightarrow> (\<exists>c t. s = c # t \<and> p c \<and> rx_lang r t)"
  by (cases s) (auto simp: rx_lang_Seq_Cons, simp add: rx_lang_Seq)

lemma rx_lang_opt_Seq: "rx_lang (RSeq (ropt (RChar p)) r) s \<longleftrightarrow> rx_lang r s \<or> rx_lang (RSeq (RChar p) r) s"
proof -
  have "(\<exists>a b. s = a @ b \<and> rx_lang (ropt (RChar p)) a \<and> rx_lang r b) \<longleftrightarrow>
      rx_lang r s \<or> (\<exists>a b. s = a @ b \<and> rx_lang (RChar p) a \<and> rx_lang r b)"
    by auto
  then show ?thesis by (simp only: rx_lang_Seq)
qed

lemma rx_lang_lits_Seq: "rx_lang (RSeq (rlits p) r) s \<longleftrightarrow> (\<exists>t. s = p @ t \<and> rx_lang r t)"
  by (auto simp: rx_lang_Seq)

end
