(* ===== verification/Argo_Apps.thy ===== *)
theory Argo_Apps
  imports Verdict Regexp
begin

text \<open>
  Argo CD Applications: \<open>internal/shared/health/matchers.go\<close> and \<open>allowlists.go\<close> (the
  phase-1 and external-dependency allow lists), \<open>argo_syncerr.go\<close> (\<open>FirstLine\<close>,
  \<open>RefusalText\<close>) and \<open>argo.go\<close> (parsing an Application and classifying it).
\<close>

subsection \<open>Resources and matchers\<close>

record resourceRef =
  rGroup :: string
  rKind :: string
  rNamespace :: string
  rName :: string

fun matchPrefix :: "string \<Rightarrow> string list \<Rightarrow> bool" where
  "matchPrefix needle [] = False"
| "matchPrefix needle (item # items) =
     (if needle = item \<or> has_prefix needle (item @ ''-'') then True else matchPrefix needle items)"

text \<open>
  A dependency entry. \<open>Pattern\<close> holds the parsed regular expression, \<open>None\<close> where
  \<open>regexp.Compile\<close> rejects the text (the loop then skips the entry).
\<close>

record depEntry =
  Pattern :: "rx option"
  Reason :: string

definition anchored_dep :: "rx \<Rightarrow> rx" where   \<comment> \<open>\<open>^(p)(-.*)?$\<close>\<close>
  "anchored_dep p = RSeq p (ropt (RSeq (rlit CHR ''-'') (RStar rany)))"

fun matchExternalDep :: "string \<Rightarrow> depEntry list \<Rightarrow> string option" where
  "matchExternalDep needle [] = None"
| "matchExternalDep needle (e # es) =
     (case Pattern e of
        None \<Rightarrow> matchExternalDep needle es
      | Some p \<Rightarrow>
          if rx_match (anchored_dep p) needle then Some (Reason e)
          else matchExternalDep needle es)"

definition litDep :: "string \<Rightarrow> string \<Rightarrow> depEntry" where
  "litDep p why = \<lparr>Pattern = Some (rlits p), Reason = why\<rparr>"

definition phase1PendingApps :: "string list" where
  "phase1PendingApps = [''platform-openbao'']"

definition phase1PendingWorkloads :: "string list" where
  "phase1PendingWorkloads = [''openbao/platform-openbao'']"

definition externalDepApps :: "depEntry list" where
  "externalDepApps = [
     litDep ''linode-internal-cidr-firewall'' (msg [
       ''release.yml build job has not run yet '', em_dash,
         '' firewall-controller image not at ghcr.io; publish a release tag (or fire '',
         ''harbor-ready) to build+push and pin the App'', sq, ''s image.tag'']),
     litDep ''external-dns-external-dns'' (msg [
       ''LINODE_DNS_TOKEN not provisioned '', em_dash,
         '' re-apply TF so apl-values dns.provider.linode.apiToken is populated (from '',
         ''TF_VAR_linode_dns_token)'']),
     litDep ''istio-system-oauth2-proxy'' (msg [
       ''Keycloak OIDC issuer (keycloak.<domain>) not resolvable until DNS is wired; '',
         ''deferred alongside external-dns''])]"

definition externalDepWorkloads :: "depEntry list" where
  "externalDepWorkloads = [
     litDep ''external-dns/external-dns'' (msg [
       ''LINODE_DNS_TOKEN not provisioned '', em_dash,
         '' re-apply TF (from TF_VAR_linode_dns_token)'']),
     litDep ''kube-system/linode-internal-cidr-firewall'' (msg [
       ''release.yml build-firewall-controller has not run '', em_dash,
         '' ImagePullBackOff until the image is pushed to ghcr.io and the App'', sq,
         ''s image.tag is pinned'']),
     litDep ''istio-system/oauth2-proxy'' (msg [
       ''init-blocks on the Keycloak OIDC issuer URL '', em_dash,
         '' unresolvable until DNS is wired'']),
     litDep ''otomi/otomi-api'' (msg [
       ''apl-core-internal otomi API server '', em_dash,
         '' this landing zone drives gitops via external GitHub + ESO/OpenBao, not the '',
         ''otomi console/API, so otomi-api is not configured or load-bearing here (zero '',
         ''references in apl-values; same apl-core-internal class as gitops-global). It '',
         ''CrashLoopBackOffs on a fresh install; the exact cause is captured by the '',
         ''on-failure workload-log diagnostic (llz-bootstrap-openbao.yml). Deferred at pod '',
         ''level so an apl-core-internal component the LZ doesn'', sq, ''t drive can'', sq,
         ''t pin the convergence gate '', em_dash,
         '' revisit (un-defer + fix) if those logs show a shared-dependency failure.'']),
     litDep ''llz-reconciler/llz-reconciler'' (msg [
       ''the reconciler'', sq,
         ''s main container reads LINODE_TOKEN from the ESO-synced linode-api-token Secret '',
         ''(secretKeyRef), so on a fresh bootstrap the pod sits in '',
         ''CreateContainerConfigError for the first ~1-2 min after the openbao '',
         ''ClusterSecretStore goes Ready '', em_dash,
         '' until ESO first-syncs secret/linode/api-token '', r_arrow,
         '' the linode-api-token Secret and the container can be created with the token '',
         ''populated. It self-heals with no operator action. The reconciler is a day-2 '',
         ''observability/reconcile signal whose own health lives on its metrics surface '',
         ''(llz_reconcile_up / llz_reconcile_errors_total), NOT the bootstrap critical '',
         ''path, so it must not pin the convergence gate '', em_dash,
         '' a genuinely broken reconciler is caught by its metrics/alerts and the e2e '',
         ''functional job, not by hard-failing converge. Deferred; it converges shortly '',
         ''after the openbao store without operator action.''])]"

definition npExternalDepNamespaces :: "depEntry list" where
  "npExternalDepNamespaces = []"

text \<open>\<open>MatchPrefix\<close> is membership or a \<open>-\<close>-separated extension of a member.\<close>

lemma matchPrefix_iff:
  "matchPrefix needle items \<longleftrightarrow> (\<exists>i \<in> set items. needle = i \<or> (\<exists>t. needle = i @ ''-'' @ t))"
  by (induction items) (auto simp: has_prefix_iff)

lemma anchored_dep_lits:
  "rx_match (anchored_dep (rlits p)) s \<longleftrightarrow>
     s = p \<or> (\<exists>t. s = p @ ''-'' @ t \<and> CHR 0x0A \<notin> set t)"
proof -
  have "rx_lang (ropt (RSeq (rlit CHR ''-'') (RStar rany))) u \<longleftrightarrow>
      u = [] \<or> (\<exists>t. u = ''-'' @ t \<and> CHR 0x0A \<notin> set t)" for u
    by (auto simp: rx_lang_lit_Seq rx_lang_Star_Char list_all_iff)
  then show ?thesis
    unfolding rx_match_iff anchored_dep_def rx_lang_Seq by auto
qed

lemma matchExternalDep_litDep [simp]:
  "matchExternalDep s (litDep p why # es) =
     (if s = p \<or> (\<exists>t. s = p @ ''-'' @ t \<and> CHR 0x0A \<notin> set t) then Some why
      else matchExternalDep s es)"
  by (auto simp: litDep_def anchored_dep_lits)

declare matchExternalDep.simps(2) [simp del]

text \<open>On one-line names the two matchers agree on literal entries.\<close>

lemma matchExternalDep_lits:
  assumes "CHR 0x0A \<notin> set s"
  shows "(\<exists>why. matchExternalDep s (map (\<lambda>(p, w). litDep p w) es) = Some why)
    \<longleftrightarrow> matchPrefix s (map fst es)"
  using assms by (induction es) (auto simp: has_prefix_iff)

subsection \<open>Condensing error text (\<open>argo_syncerr.go\<close>)\<close>

definition firstLineMax :: nat where
  "firstLineMax = 220"

definition clipLine :: "string \<Rightarrow> string" where
  "clipLine ln = (if length ln > firstLineMax then take firstLineMax ln @ ellipsis else ln)"

fun firstLineLoop :: "string list \<Rightarrow> string option" where
  "firstLineLoop [] = None"
| "firstLineLoop (ln # lns) =
     (let ln = trim_space ln
      in if ln = [] then firstLineLoop lns else Some (clipLine ln))"

definition firstLine :: "string \<Rightarrow> string" where
  "firstLine m = (case firstLineLoop (split_on CHR 0x0A m) of
     Some ln \<Rightarrow> ln
   | None \<Rightarrow> trim_space m)"

definition refusalMaxLines :: nat where
  "refusalMaxLines = 14"

definition refusalTrim :: "string \<Rightarrow> string" where
  "refusalTrim ln = trim_right (\<lambda>c. c = CHR '' '' \<or> c = CHR 0x09) (filter (\<lambda>c. c \<noteq> CHR 0x0D) ln)"

fun refusalLoop :: "string list \<Rightarrow> string list \<Rightarrow> string list" where
  "refusalLoop kept [] = kept"
| "refusalLoop kept (ln # lns) =
     (let ln = refusalTrim ln
      in if trim_space ln = [] then refusalLoop kept lns
         else let kept = kept @ [clipLine ln]
              in if length kept = refusalMaxLines then kept @ [msg [ellipsis, '' (truncated)'']]
                 else refusalLoop kept lns)"

definition refusalText :: "string \<Rightarrow> string" where
  "refusalText m =
     (let kept = refusalLoop [] (split_on CHR 0x0A m)
      in if length kept = 0 then ''(the apiserver said nothing)''
         else if length kept = 1 then hd kept
         else msg [nl, ''      '', join (nl @ ''      '') kept])"

lemma clipLine_length: "length (clipLine ln) \<le> firstLineMax + 3"
  by (simp add: clipLine_def ellipsis_def)

lemma firstLineLoop_Some: "firstLineLoop lns = Some m \<Longrightarrow> m \<noteq> [] \<and> length m \<le> firstLineMax + 3"
proof (induction lns)
  case (Cons ln lns)
  then show ?case
    by (auto simp: Let_def clipLine_length split: if_splits)
      (auto simp: clipLine_def firstLineMax_def split: if_splits)
qed simp

lemma firstLineLoop_None: "firstLineLoop lns = None \<longleftrightarrow> (\<forall>ln \<in> set lns. trim_space ln = [])"
  by (induction lns) (auto simp: Let_def)

lemma refusalLoop_bound:
  "length kept < refusalMaxLines \<Longrightarrow> length (refusalLoop kept lns) \<le> Suc refusalMaxLines"
  by (induction lns arbitrary: kept) (auto simp: Let_def refusalMaxLines_def)

subsection \<open>The Application (\<open>argo.go\<close>)\<close>

record argoApp =
  aName :: string
  aSync :: string
  aHealth :: string
  aAutomated :: bool
  aSpecErr :: string
  aOpErr :: string
  aDrifted :: "string list"
  aSyncErr :: string
  aProject :: string
  aResources :: "resourceRef list"
  aDestNamespace :: string

definition instanceCustomProject :: string where
  "instanceCustomProject = ''instance-custom''"

definition instanceCustomAppPrefix :: string where
  "instanceCustomAppPrefix = instanceCustomProject @ ''-''"

definition syncTasksFailing :: "string \<Rightarrow> bool" where
  "syncTasksFailing m = contains m ''synchronization tasks completed unsuccessfully''"

definition maxDriftedNamed :: nat where
  "maxDriftedNamed = 3"

definition summarizeDrifted :: "string list \<Rightarrow> string" where
  "summarizeDrifted drifted =
     (if length drifted = 0 then []
      else let (shown, tail) =
                 (if length drifted > maxDriftedNamed
                  then (take maxDriftedNamed drifted,
                        msg ['' +'', int_dec (int (length drifted - maxDriftedNamed)), '' more''])
                  else (drifted, []))
           in msg ['' [OutOfSync: '', join '', '' shown, tail, '']''])"

definition isInstanceCustomApp :: "string \<Rightarrow> bool" where
  "isInstanceCustomApp name = has_prefix name instanceCustomAppPrefix"

definition isInstanceOwnedApp :: "argoApp \<Rightarrow> bool" where
  "isInstanceOwnedApp a \<longleftrightarrow> aProject a = instanceCustomProject \<or> isInstanceCustomApp (aName a)"

definition isRepoServerCacheAuthError :: "string \<Rightarrow> bool" where
  "isRepoServerCacheAuthError specErr \<longleftrightarrow> contains specErr ''WRONGPASS'' \<or> contains specErr ''NOAUTH''"

definition gitAuthMarkers :: "string list" where
  "gitAuthMarkers =
     [''authentication required'', ''invalid username or password'', ''authentication failed'',
      ''could not read username'', ''terminal prompts disabled'', ''ssh: handshake failed'',
      ''permission denied (publickey'', ''write access to repository not granted'']"

definition isGitAuthError :: "string \<Rightarrow> bool" where
  "isGitAuthError specErr =
     (if specErr = [] \<or> isRepoServerCacheAuthError specErr then False
      else let m = to_lower specErr in list_ex (contains m) gitAuthMarkers)"

definition isAnnotationLimitError :: "string \<Rightarrow> bool" where
  "isAnnotationLimitError m = contains m ''annotations: Too long''"

definition classifyArgoApp :: "bool \<Rightarrow> argoApp \<Rightarrow> bool \<Rightarrow> category \<times> string" where
  "classifyArgoApp budgeted a phase1 =
     (let label = msg [aName a, '' ('', aSync a, ''/'', aHealth a, '')'']
      in case matchExternalDep (aName a) externalDepApps of
        Some reason \<Rightarrow> (CatDeferred, msg [label, dash, reason])
      | None \<Rightarrow>
     if isAnnotationLimitError (aOpErr a) then
       (CatPending, msg [label, '' '', em_dash,
         '' sync hit the 256KB annotation limit; converge strips the oversized CRD '',
         ''annotation and re-polls''])
     else if aSpecErr a \<noteq> [] then
       (if isRepoServerCacheAuthError (aSpecErr a) then
          (CatPending, msg [label, '' '', em_dash, '' argocd-redis cache auth (repo-server'', lr_arrow,
            ''redis password split); transient, polling''])
        else if isGitAuthError (aSpecErr a) then
          (CatFail, msg [label, dash, aSpecErr a,
            ''  '', dbl_arrow,
              '' TERMINAL: Argo CD cannot authenticate to the source repo. Polling will not fix '',
              ''this. Check the values-repo credential (APL_VALUES_REPO_TOKEN '', r_arrow,
              '' otomi.git.password '', r_arrow,
              '' the argocd repo Secret), and that the repo Secret actually materialized '',
              em_dash,
              '' it arrives via an ExternalSecret, so it stays empty if external-secrets never '',
              ''installed.''])
        else (CatFail, msg [label, dash, aSpecErr a]))
     else if aSync a = ''Synced'' \<and> aHealth a = ''Healthy'' then (CatOK, label)
     else if \<not> aAutomated a then
       (CatPending, msg [label, '' '', em_dash, '' sync suspended (no automated policy)''])
     else if phase1 \<and> matchPrefix (aName a) phase1PendingApps then
       (CatPending, msg [label, '' '', em_dash, '' waiting on OpenBao bootstrap''])
     else if aSyncErr a \<noteq> [] then
       (let detail = msg ['' '', em_dash, '' sync is FAILING and retrying: '', firstLine (aSyncErr a),
              summarizeDrifted (aDrifted a)]
        in pendingIfBudgeted budgeted (msg [label, detail])
             (msg [label, detail,
               ''  '', dbl_arrow,
                 '' this is a steady-state check: the sync has been retrying past any startup '',
                 ''window, so the resources it cannot apply are not going to appear on their own'']))
     else if aHealth a = ''Healthy'' then
       (CatDrift, msg [label, '' '', em_dash, '' drift only; workload functional'', summarizeDrifted (aDrifted a)])
     else if aHealth a = ''Progressing'' then
       (CatPending, msg [label, '' '', em_dash, '' rolling out (Progressing)''])
     else (CatFail, label))"

subsection \<open>Parsing\<close>

text \<open>
  The struct \<open>json.Unmarshal\<close> fills. \<open>jAutomated\<close> is the raw JSON text of
  \<open>spec.syncPolicy.automated\<close>, empty when the key is absent.
\<close>

record argoCondition =
  cType :: string
  cMessage :: string

record argoResourceJSON =
  jrGroup :: string
  jrKind :: string
  jrName :: string
  jrNamespace :: string
  jrStatus :: string

record argoAppJSON =
  jName :: string
  jProject :: string
  jDestNamespace :: string
  jAutomated :: string
  jSync :: string
  jHealth :: string
  jConditions :: "argoCondition list"
  jOpPhase :: string
  jOpMessage :: string
  jResources :: "argoResourceJSON list"

definition specErrsOf :: "argoCondition list \<Rightarrow> string list" where
  "specErrsOf cs =
     map (\<lambda>c. msg [cType c, '': '', if cMessage c = [] then ''(no message)'' else cMessage c])
       (filter (\<lambda>c. cType c = ''ComparisonError'' \<or> cType c = ''InvalidSpecError'') cs)"

definition driftRef :: "argoResourceJSON \<Rightarrow> string" where
  "driftRef r =
     (if jrNamespace r \<noteq> [] then msg [jrKind r, ''/'', jrNamespace r, ''/'', jrName r]
      else msg [jrKind r, ''/'', jrName r])"

definition parseArgoApp :: "argoAppJSON option \<Rightarrow> argoApp option" where
  "parseArgoApp raw = (case raw of
     None \<Rightarrow> None
   | Some j \<Rightarrow>
     let auto = length (jAutomated j) > 0 \<and> trim_space (jAutomated j) \<noteq> ''null'';
         opErr = (if jOpPhase j = ''Failed'' \<or> jOpPhase j = ''Error'' then jOpMessage j else []);
         syncErr = (if jOpPhase j = ''Running'' \<and> syncTasksFailing (jOpMessage j)
                    then jOpMessage j else []);
         resources = map (\<lambda>r. \<lparr>rGroup = jrGroup r, rKind = jrKind r,
                                 rNamespace = jrNamespace r, rName = jrName r\<rparr>) (jResources j);
         drifted = map driftRef
           (filter (\<lambda>r. \<not> (jrStatus r = [] \<or> jrStatus r = ''Synced'')) (jResources j))
     in Some \<lparr>aName = jName j, aSync = jSync j, aHealth = jHealth j, aAutomated = auto,
          aSpecErr = join '' | '' (specErrsOf (jConditions j)), aOpErr = opErr,
          aDrifted = drifted, aSyncErr = syncErr, aProject = jProject j,
          aResources = resources, aDestNamespace = jDestNamespace j\<rparr>)"

record appRef =
  refName :: string
  refSync :: string
  refHealth :: string

definition appHealthy :: "appRef \<Rightarrow> bool" where
  "appHealthy a \<longleftrightarrow> refSync a = ''Synced'' \<and> refHealth a = ''Healthy''"

subsection \<open>Lemmas\<close>

lemma gitAuth_not_cacheAuth: "isGitAuthError s \<Longrightarrow> \<not> isRepoServerCacheAuthError s"
  by (auto simp: isGitAuthError_def split: if_splits)

lemma classify_deferred:
  "matchExternalDep (aName a) externalDepApps = Some r \<Longrightarrow>
     fst (classifyArgoApp b a p) = CatDeferred"
  by (simp add: classifyArgoApp_def Let_def)

text \<open>The message always starts with the Application's label.\<close>

lemma msg_Cons: "msg (x # xs) = x @ msg xs"
  by (simp add: msg_def)

lemma msg_Nil [simp]: "msg [] = []"
  by (simp add: msg_def)

subsection \<open>Properties\<close>

text \<open>The category without the message.\<close>

lemma fst_classifyArgoApp:
  "fst (classifyArgoApp budgeted a phase1) =
     (if matchExternalDep (aName a) externalDepApps \<noteq> None then CatDeferred
      else if isAnnotationLimitError (aOpErr a) then CatPending
      else if aSpecErr a \<noteq> [] then
        (if isRepoServerCacheAuthError (aSpecErr a) then CatPending else CatFail)
      else if aSync a = ''Synced'' \<and> aHealth a = ''Healthy'' then CatOK
      else if \<not> aAutomated a then CatPending
      else if phase1 \<and> matchPrefix (aName a) phase1PendingApps then CatPending
      else if aSyncErr a \<noteq> [] then (if budgeted then CatPending else CatFail)
      else if aHealth a = ''Healthy'' then CatDrift
      else if aHealth a = ''Progressing'' then CatPending
      else CatFail)"
proof -
  have p: "fst (pendingIfBudgeted b x y) = (if b then CatPending else CatFail)" for b x y
    by (simp add: pendingIfBudgeted_def)
  show ?thesis
    unfolding classifyArgoApp_def Let_def
    by (cases "matchExternalDep (aName a) externalDepApps")
      (simp_all only: option.case if_distrib [of fst] fst_conv p if_cancel refl simp_thms if_True if_False
        not_None_eq option.distinct option.inject cong: if_cong)
qed

text \<open>the verdict of an Application that is not on the external-dependency list: it passes
  exactly when it is Synced and Healthy with no spec error, no annotation-limit error, whatever
  the phase and whether the loop still has budget.\<close>

theorem classifyArgoApp_ok_iff:
  "fst (classifyArgoApp budgeted a phase1) = CatOK \<longleftrightarrow>
     matchExternalDep (aName a) externalDepApps = None \<and> \<not> isAnnotationLimitError (aOpErr a) \<and>
     aSpecErr a = [] \<and> aSync a = ''Synced'' \<and> aHealth a = ''Healthy''"
  by (simp add: fst_classifyArgoApp split: option.split)

text \<open>a git credential Argo CD cannot use is terminal: the Application fails in every phase
  and with any budget left, while a redis password split between repo-server and cache is always
  pending, because it heals by polling. The two are never confused.\<close>

theorem spec_error_auth:
  assumes "matchExternalDep (aName a) externalDepApps = None" and "\<not> isAnnotationLimitError (aOpErr a)"
  shows "(isGitAuthError (aSpecErr a) \<longrightarrow> fst (classifyArgoApp budgeted a phase1) = CatFail) \<and>
    (isRepoServerCacheAuthError (aSpecErr a) \<longrightarrow> fst (classifyArgoApp budgeted a phase1) = CatPending) \<and>
    \<not> (isGitAuthError (aSpecErr a) \<and> isRepoServerCacheAuthError (aSpecErr a))"
proof -
  have n: "\<not> isGitAuthError []" "\<not> isRepoServerCacheAuthError []" by code_simp+
  have "fst (classifyArgoApp budgeted a phase1) = CatFail" if "isGitAuthError (aSpecErr a)"
    using assms that n gitAuth_not_cacheAuth [OF that] by (auto simp: fst_classifyArgoApp)
  moreover have "fst (classifyArgoApp budgeted a phase1) = CatPending" if "isRepoServerCacheAuthError (aSpecErr a)"
    using assms that n by (auto simp: fst_classifyArgoApp)
  ultimately show ?thesis using gitAuth_not_cacheAuth by blast
qed

definition app_at :: "string \<Rightarrow> string \<Rightarrow> string \<Rightarrow> string \<Rightarrow> argoApp" where
  "app_at name sync health specErr = \<lparr>aName = name, aSync = sync, aHealth = health, aAutomated = True,
     aSpecErr = specErr, aOpErr = [], aDrifted = [], aSyncErr = [], aProject = ''platform'',
     aResources = [], aDestNamespace = []\<rparr>"

theorem spec_error_auth_witness:
  "fst (classifyArgoApp True (app_at ''gitops'' ''Unknown'' ''Healthy'' ''rpc: Authentication required'') True) = CatFail \<and>
   fst (classifyArgoApp False (app_at ''gitops'' ''Unknown'' ''Healthy'' ''WRONGPASS bad pair'') False) = CatPending"
proof -
  let ?a = "app_at ''gitops'' ''Unknown'' ''Healthy'' ''rpc: Authentication required''"
  let ?b = "app_at ''gitops'' ''Unknown'' ''Healthy'' ''WRONGPASS bad pair''"
  have h: "matchExternalDep (aName ?a) externalDepApps = None" "\<not> isAnnotationLimitError (aOpErr ?a)"
    "isGitAuthError (aSpecErr ?a)" "matchExternalDep (aName ?b) externalDepApps = None"
    "\<not> isAnnotationLimitError (aOpErr ?b)" "isRepoServerCacheAuthError (aSpecErr ?b)" by code_simp+
  show ?thesis
    using spec_error_auth [OF h(1,2), THEN conjunct1, THEN mp, OF h(3)]
      spec_error_auth [OF h(4,5), THEN conjunct2, THEN conjunct1, THEN mp, OF h(6)]
    by (rule conjI)
qed

lemma blank_lines:
  "(\<forall>ln \<in> set (split_on CHR 0x0A m). trim_space ln = []) \<longleftrightarrow> (\<forall>c \<in> set m. is_space c)"
proof (induction m)
  case (Cons c m)
  then show ?case
    by (cases "split_on CHR 0x0A m") (auto simp: trim_space_blank, simp_all add: is_space_def)
qed (simp add: trim_space_blank)

text \<open>condensed error text is bounded and not lost: a first line has at most 220 bytes and
  the ellipsis and is empty only for a blank message, a refusal keeps at most fourteen lines and
  the truncation mark, and the refusal text always says something.\<close>

theorem condensed_text_bounds:
  "length (firstLine m) \<le> firstLineMax + 3 \<and>
   (firstLine m = [] \<longleftrightarrow> (\<forall>c \<in> set m. is_space c)) \<and>
   length (refusalLoop [] (split_on CHR 0x0A m)) \<le> Suc refusalMaxLines \<and> refusalText m \<noteq> []"
proof (intro conjI)
  show "length (firstLine m) \<le> firstLineMax + 3"
    using firstLineLoop_Some firstLineLoop_None [of "split_on CHR 0x0A m"] blank_lines [of m] trim_space_blank [of m]
    by (auto simp: firstLine_def split: option.split)
  show "firstLine m = [] \<longleftrightarrow> (\<forall>c \<in> set m. is_space c)"
    using firstLineLoop_Some firstLineLoop_None [of "split_on CHR 0x0A m"] blank_lines [of m] trim_space_blank [of m]
    by (auto simp: firstLine_def split: option.split)
  show "length (refusalLoop [] (split_on CHR 0x0A m)) \<le> Suc refusalMaxLines"
    by (rule refusalLoop_bound) (simp add: refusalMaxLines_def)
  have ne: "[] \<notin> set kept \<Longrightarrow> [] \<notin> set (refusalLoop kept lns)" for kept lns
  proof (induction lns arbitrary: kept)
    case (Cons ln lns)
    let ?ln = "refusalTrim ln"
    have "[] \<noteq> clipLine ?ln" if "trim_space ?ln \<noteq> []"
      using that by (auto simp: clipLine_def firstLineMax_def trim_space_blank)
    then show ?case using Cons by (auto simp: Let_def msg_Cons ellipsis_def)
  qed simp
  show "refusalText m \<noteq> []"
    using ne [of "[]" "split_on CHR 0x0A m"]
    by (cases "refusalLoop [] (split_on CHR 0x0A m)")
      (auto simp: refusalText_def Let_def msg_def nl_def)
qed

theorem condensed_text_bounds_witness:
  "length (firstLine ''  exit status 1'') \<le> firstLineMax + 3 \<and> firstLine ''  exit status 1'' \<noteq> []"
  using condensed_text_bounds [of "''  exit status 1''"] by (simp add: is_space_def)

end
