(* ===== verification/Error_Text.thy ===== *)
theory Error_Text
  imports Argo_Apps
begin

text \<open>
  What an error text says, under \<open>internal/shared/health/\<close>: \<open>immutable.go\<close> (an apiserver
  refusal about an immutable field), \<open>transient_fetch.go\<close> (a git fetch worth retrying, a webhook
  race) and the Loki configuration test of \<open>readiness.go\<close>.
\<close>

subsection \<open>\<open>immutable.go\<close>\<close>

definition immutableMarkers :: "string list" where
  "immutableMarkers =
     [''forbidden: updates to'', ''field is immutable'', ''is immutable after crea'',
      ''may not change once set'', ''may not be changed'', ''cannot be updated'']"

definition admissionDenialMarkers :: "string list" where
  "admissionDenialMarkers =
     [''admission webhook'', ''admission policy'', ''validatingadmissionpolicy'',
      ''denied the request'', ''denied request'']"

definition isAdmissionDenial :: "string \<Rightarrow> bool" where
  "isAdmissionDenial m = list_ex (contains m) admissionDenialMarkers"

definition isWarningLine :: "string \<Rightarrow> bool" where
  "isWarningLine line \<longleftrightarrow> has_prefix (trim_space line) ''warning:''"

definition isImmutableFieldRejection :: "string \<Rightarrow> bool" where
  "isImmutableFieldRejection m =
     (if m = [] then False
      else let kept = filter (\<lambda>line. \<not> isWarningLine line) (split_on CHR 0x0A (to_lower m));
               m = join nl kept
           in if isAdmissionDenial m then False
              else list_ex (contains m) immutableMarkers)"

subsection \<open>\<open>transient_fetch.go\<close>\<close>

definition transientFetchMarkers :: "string list" where
  "transientFetchMarkers =
     [''failed to list refs'', ''repository not found'', ''could not read'',
      ''timed out'', ''timeout'', ''connection refused'', ''connection reset'',
      ''tls handshake'', ''i/o timeout'', ''dial tcp'', ''temporary failure'',
      ''unexpected eof'', ''remote error'', ''rpc error'']"

definition isTransientFetchError :: "string \<Rightarrow> bool" where
  "isTransientFetchError m =
     (if m = [] \<or> isGitAuthError m then False
      else let m = to_lower m in list_ex (contains m) transientFetchMarkers)"

text \<open>The pattern is an alternation of literals, searched anywhere in the text.\<close>

definition isWebhookRace :: "string \<Rightarrow> bool" where
  "isWebhookRace out = list_ex (contains out)
     [''failed calling webhook'', ''connect: operation not permitted'', ''connection refused'',
      ''no endpoints available'']"

subsection \<open>\<open>readiness.go\<close>\<close>

text \<open>
  An unanchored search for a pattern. \<open>$\<close> in multi-line mode is the end of a line: the search
  runs over the text with a final newline, and \<open>$\<close> is that newline (no other alternative
  matches one).
\<close>

fun rx_search :: "rx \<Rightarrow> string \<Rightarrow> bool" where
  "rx_search r [] = rx_match (RSeq r (RStar (RChar (\<lambda>_. True)))) []"
| "rx_search r (c # s) \<longleftrightarrow> rx_match (RSeq r (RStar (RChar (\<lambda>_. True)))) (c # s) \<or> rx_search r s"

definition lokiS3MarkerRe :: rx where
  "lokiS3MarkerRe =
     (let blanks = RStar (RChar (\<lambda>c. c = CHR '' '' \<or> c = CHR 0x09))
      in RAlt (RSeq (rlits ''object_store:'') (RSeq blanks (rlits ''s3'')))
         (RAlt (RSeq (rlits ''storage:'') (RSeq blanks (rlits [CHR 0x0A])))
         (RAlt (rlits ''aws:'') (RAlt (rlits ''s3:'') (RAlt (rlits ''bucketnames:'') (rlits ''endpoint:''))))))"

definition lokiConfigUsesS3 :: "string \<Rightarrow> bool" where
  "lokiConfigUsesS3 configText =
     (if \<not> contains (to_lower configText) ''s3'' then False
      else rx_search lokiS3MarkerRe (configText @ [CHR 0x0A]))"

definition harborRegistryDeployments :: "string list" where
  "harborRegistryDeployments = [''harbor-registry'']"

subsection \<open>Lemmas\<close>

lemma rx_search_iff: "rx_search r s \<longleftrightarrow> (\<exists>a m b. s = a @ m @ b \<and> rx_lang r m)"
proof -
  have any: "rx_lang (RStar (RChar (\<lambda>_. True))) u" for u
    by (simp add: rx_lang_Star_Char list_all_iff)
  have pre: "rx_match (RSeq r (RStar (RChar (\<lambda>_. True)))) u \<longleftrightarrow> (\<exists>m b. u = m @ b \<and> rx_lang r m)" for u
    unfolding rx_match_iff rx_lang_Seq using any by auto
  show ?thesis
  proof (induction s)
    case (Cons c s)
    have "(\<exists>a m b. c # s = a @ m @ b \<and> rx_lang r m) \<longleftrightarrow>
        (\<exists>m b. c # s = m @ b \<and> rx_lang r m) \<or> (\<exists>a m b. s = a @ m @ b \<and> rx_lang r m)"
    proof
      assume "(\<exists>m b. c # s = m @ b \<and> rx_lang r m) \<or> (\<exists>a m b. s = a @ m @ b \<and> rx_lang r m)"
      then show "\<exists>a m b. c # s = a @ m @ b \<and> rx_lang r m"
        by (metis append_Cons append_Nil)
    qed (auto simp: Cons_eq_append_conv)
    then show ?case unfolding rx_search.simps pre Cons.IH by blast
  qed (simp add: pre del: rx_match.simps)
qed

lemma to_lower_append: "to_lower (s @ t) = to_lower s @ to_lower t"
  by (simp add: to_lower_def)

lemma to_lower_newline [simp]: "to_lower (CHR 0x0A # s) = CHR 0x0A # to_lower s"
  by (simp add: to_lower_def lower_char_def)

lemma contains_join:
  "l \<in> set ls \<Longrightarrow> contains l p \<Longrightarrow> contains (join sep ls) p"
proof (induction sep ls rule: join.induct)
  case (3 sep x y ys)
  then show ?case
    using contains_append [of "join sep (y # ys)" p "x @ sep" "[]"]
      contains_append [of x p "[]" "sep @ join sep (y # ys)"] by auto
qed auto

subsection \<open>Properties\<close>

text \<open>a git fetch that was refused for its credentials is never treated as transient, however
  its text reads, so a bad credential is not retried for the whole budget; and every text with
  one of the markers that is not such a refusal is treated as transient.\<close>

lemma transient_not_auth:
  "\<not> (isGitAuthError m \<and> isTransientFetchError m) \<and>
   (isTransientFetchError m \<longleftrightarrow> \<not> isGitAuthError m \<and>
      (\<exists>p \<in> set transientFetchMarkers. contains (to_lower m) p))"
proof -
  have "\<not> contains (to_lower []) p" if "p \<in> set transientFetchMarkers" for p
    using that by (auto simp: transientFetchMarkers_def to_lower_def)
  then show ?thesis by (auto simp: isTransientFetchError_def Let_def list_ex_iff)
qed

text \<open>an admission denial is never read as an immutable field, wherever in the message it
  stands: a denial on one line excludes a marker on any other, unless the denial is on a
  warning line.\<close>

lemma denial_excludes_immutability:
  assumes "contains (to_lower line) d" and "d \<in> set admissionDenialMarkers"
    and "CHR 0x0A \<notin> set line" and "\<not> isWarningLine (to_lower line)"
  shows "\<not> isImmutableFieldRejection (before @ CHR 0x0A # line @ CHR 0x0A # after)"
proof -
  let ?m = "before @ CHR 0x0A # line @ CHR 0x0A # after"
  let ?kept = "filter (\<lambda>l. \<not> isWarningLine l) (split_on CHR 0x0A (to_lower ?m))"
  have "lower_char c \<noteq> CHR 0x0A" if "c \<in> set line" for c
  proof
    assume "lower_char c = CHR 0x0A"
    then have "c = CHR 0x0A"
      by (auto simp: lower_char_def split: if_splits)
         (use of_char_of [where 'a = nat, of "of_char c + 32"] in \<open>force simp: of_char_of\<close>)
    with that assms(3) show False by simp
  qed
  then have "CHR 0x0A \<notin> set (to_lower line)"
    unfolding to_lower_def set_map image_iff by metis
  then have "to_lower line \<in> set (split_on CHR 0x0A (to_lower ?m))"
    by (simp add: to_lower_append split_on_append split_on_free)
  then have "contains (join nl ?kept) d"
    using assms(1,4) by (intro contains_join) auto
  then have "isAdmissionDenial (join nl ?kept)"
    using assms(2) by (auto simp: isAdmissionDenial_def list_ex_iff)
  then show ?thesis by (simp add: isImmutableFieldRejection_def Let_def)
qed

lemma denial_excludes_immutability_witness:
  "\<not> isImmutableFieldRejection
     (''x'' @ CHR 0x0A # ''denied the request:'' @ CHR 0x0A # ''field is immutable'')"
proof (rule denial_excludes_immutability [where d = "''denied the request''"])
  show "contains (to_lower ''denied the request:'') ''denied the request''" by code_simp
  show "''denied the request'' \<in> set admissionDenialMarkers" by (simp add: admissionDenialMarkers_def)
  show "CHR 0x0A \<notin> set ''denied the request:''" by simp
  show "\<not> isWarningLine (to_lower ''denied the request:'')" by code_simp
qed

end
