(* ===== verification/Kube_Probe.thy ===== *)
theory Kube_Probe
  imports Error_Text
begin

text \<open>
  \<open>internal/shared/kubectlprobe/probe.go\<close>: asking the cluster a question. A call finds the
  object, learns that it is absent, or learns nothing (\<open>Unknown\<close>); only the last is retried.
  The process is a parameter: \<open>answers\<close> gives, for each attempt in order, the output or the error
  text. JSON decoding is a parameter of the list functions.
\<close>

subsection \<open>Definitions\<close>

datatype kVerdict = Found | Absent | Unknown

definition kAnswered :: "kVerdict \<Rightarrow> bool" where
  "kAnswered v \<longleftrightarrow> v \<noteq> Unknown"

definition absenceMarkers :: "string list" where
  "absenceMarkers =
     [''notfound'', ''not found'', ''no resources found'',
      ''doesn'' @ sq @ ''t have a resource type'', ''could not find the requested resource'']"

definition notAnAnswerMarkers :: "string list" where
  "notAnAnswerMarkers =
     [''exec: '' @ dq @ ''kubectl'' @ dq @ '': executable file not found'', ''error in configuration'',
      ''oci runtime exec failed'', ''getting credentials: exec:'']"

definition isAbsentText :: "string \<Rightarrow> bool" where
  "isAbsentText out =
     (let low = to_lower out;
          kept = filter (\<lambda>line. \<not> isWarningLine line) (split_on CHR 0x0A low);
          low = join nl kept
      in if list_ex (contains low) notAnAnswerMarkers then False
         else list_ex (contains low) absenceMarkers)"

definition classifyErr :: "string \<Rightarrow> kVerdict" where
  "classifyErr errText = (if isAbsentText errText then Absent else Unknown)"

fun probeLoop :: "kVerdict \<Rightarrow> string \<Rightarrow> ('o + string) list \<Rightarrow> 'o option \<times> kVerdict \<times> string" where
  "probeLoop v detail [] = (None, v, detail)"
| "probeLoop v detail (Inl b # as) = (Some b, Found, [])"
| "probeLoop v detail (Inr e # as) =
     (let detail = e; v = classifyErr e
      in if v \<noteq> Unknown then (None, v, detail) else probeLoop v detail as)"

definition probeDetail :: "nat \<Rightarrow> (nat \<Rightarrow> 'o + string) \<Rightarrow> 'o option \<times> kVerdict \<times> string" where
  "probeDetail retries answers = probeLoop Unknown [] (map answers [0..<retries])"

definition probe :: "nat \<Rightarrow> (nat \<Rightarrow> 'o + string) \<Rightarrow> 'o option \<times> kVerdict" where
  "probe retries answers = (case probeDetail retries answers of (out, v, _) \<Rightarrow> (out, v))"

definition existsOK :: "nat \<Rightarrow> (nat \<Rightarrow> 'o + string) \<Rightarrow> bool \<times> bool" where
  "existsOK retries answers = (case probe retries answers of (_, v) \<Rightarrow> (v = Found, kAnswered v))"

definition itemsOK :: "('o \<Rightarrow> 'j list option) \<Rightarrow> nat \<Rightarrow> (nat \<Rightarrow> 'o + string) \<Rightarrow> 'j list \<times> bool" where
  "itemsOK items retries answers =
     (case probe retries answers of (out, v) \<Rightarrow>
        if v \<noteq> Found then ([], kAnswered v)
        else (case out of
            None \<Rightarrow> ([], False)
          | Some b \<Rightarrow> (case items b of None \<Rightarrow> ([], False) | Some js \<Rightarrow> (js, True))))"

definition decodeItems :: "('j \<Rightarrow> 'a option) \<Rightarrow> 'j list \<Rightarrow> 'a list" where
  "decodeItems decode raws = List.map_filter decode raws"

definition listOK ::
  "('o \<Rightarrow> 'j list option) \<Rightarrow> ('j \<Rightarrow> 'a option) \<Rightarrow> nat \<Rightarrow> (nat \<Rightarrow> 'o + string) \<Rightarrow> 'a list \<times> bool" where
  "listOK items decode retries answers =
     (case itemsOK items retries answers of (raw, ok) \<Rightarrow> (decodeItems decode raw, ok))"

definition jsonPathOK :: "nat \<Rightarrow> (nat \<Rightarrow> string + string) \<Rightarrow> string \<times> bool" where
  "jsonPathOK retries answers =
     (case probe retries answers of (out, v) \<Rightarrow>
        if v \<noteq> Found then ([], kAnswered v)
        else (trim_space (case out of Some b \<Rightarrow> b | None \<Rightarrow> []), True))"

subsection \<open>Lemmas\<close>

lemma probeLoop_Found:
  "probeLoop v d as = (out, w, d') \<Longrightarrow> v = Unknown \<Longrightarrow>
     (w = Found \<longleftrightarrow> (\<exists>es b rest. as = map Inr es @ Inl b # rest \<and> out = Some b
        \<and> (\<forall>e \<in> set es. classifyErr e = Unknown)))"
proof (induction v d as rule: probeLoop.induct)
  case (2 v d b as)
  then show ?case by (auto intro!: exI [of _ "[]"])
next
  case (3 v d e as)
  show ?case
  proof (cases "classifyErr e = Unknown")
    case True
    then have "probeLoop Unknown e as = (out, w, d')" using 3 by (simp add: Let_def)
    with 3(1) [OF refl refl] True have "w = Found \<longleftrightarrow> (\<exists>es b rest. as = map Inr es @ Inl b # rest \<and> out = Some b
        \<and> (\<forall>e \<in> set es. classifyErr e = Unknown))" by simp
    also have "\<dots> \<longleftrightarrow> (\<exists>es b rest. Inr e # as = map Inr es @ Inl b # rest \<and> out = Some b
        \<and> (\<forall>e \<in> set es. classifyErr e = Unknown))"
    proof (intro iffI; elim exE conjE)
      fix es b rest
      assume "as = map Inr es @ Inl b # rest" "out = Some b" "\<forall>e \<in> set es. classifyErr e = Unknown"
      with True show "\<exists>es b rest. Inr e # as = map Inr es @ Inl b # rest \<and> out = Some b
          \<and> (\<forall>e \<in> set es. classifyErr e = Unknown)"
        by (intro exI [of _ "e # es"] exI [of _ b] exI [of _ rest]) auto
    next
      fix es b rest
      assume a: "Inr e # as = map Inr es @ Inl b # rest" "out = Some b" "\<forall>e \<in> set es. classifyErr e = Unknown"
      then obtain zs where "es = e # zs" by (cases es) auto
      with a show "\<exists>es b rest. as = map Inr es @ Inl b # rest \<and> out = Some b
          \<and> (\<forall>e \<in> set es. classifyErr e = Unknown)"
        by (intro exI [of _ zs] exI [of _ b] exI [of _ rest]) auto
    qed
    finally show ?thesis .
  next
    case False
    then have "w = classifyErr e" using 3 by (auto simp: Let_def)
    moreover have "classifyErr e \<noteq> Found" by (simp add: classifyErr_def)
    ultimately show ?thesis using False by (auto simp: Cons_eq_append_conv map_eq_Cons_conv)
  qed
qed auto

lemma probeLoop_Absent:
  "probeLoop v d as = (out, w, d') \<Longrightarrow> v = Unknown \<Longrightarrow>
     (w = Absent \<longrightarrow> out = None \<and> Inr d' \<in> set as \<and> isAbsentText d')"
  by (induction v d as rule: probeLoop.induct)
    (auto simp: Let_def classifyErr_def split: if_splits)

lemma probe_no_retries: "probe 0 answers = (None, Unknown)"
  by (simp add: probe_def probeDetail_def)

subsection \<open>Properties\<close>

text \<open>a probe never invents an answer. It reports an object found exactly when an attempt
  succeeded after attempts that learned nothing; it reports it absent only on an attempt whose
  error text says so (and is not a tooling fault); without an attempt it reports Unknown, so
  \<open>Exists\<close> is false and not answered.\<close>

lemma probe_sound:
  "case probeDetail retries answers of (out, v, d) \<Rightarrow>
     (v = Found \<longleftrightarrow> (\<exists>n < retries. \<exists>b. answers n = Inl b \<and> out = Some b \<and>
        (\<forall>m < n. \<exists>e. answers m = Inr e \<and> \<not> isAbsentText e))) \<and>
     (v = Absent \<longrightarrow> (\<exists>n < retries. answers n = Inr d \<and> isAbsentText d)) \<and>
     (retries = 0 \<longrightarrow> v = Unknown)"
proof -
  obtain out v d where p: "probeDetail retries answers = (out, v, d)" by (metis prod_cases3)
  then have l: "probeLoop Unknown [] (map answers [0..<retries]) = (out, v, d)"
    by (simp add: probeDetail_def)
  have "v = Found \<longleftrightarrow> (\<exists>n < retries. \<exists>b. answers n = Inl b \<and> out = Some b \<and>
        (\<forall>m < n. \<exists>e. answers m = Inr e \<and> \<not> isAbsentText e))"
  proof
    assume "v = Found"
    then obtain es b rest where as: "map answers [0..<retries] = map Inr es @ Inl b # rest"
      and out: "out = Some b" and unk: "\<forall>e \<in> set es. classifyErr e = Unknown"
      using probeLoop_Found [OF l refl] by blast
    have len: "length es < retries" using arg_cong [OF as, of length] by simp
    have nth: "answers m = (map Inr es @ Inl b # rest) ! m" if "m < retries" for m
      using that as by (metis add_0 diff_zero length_upt nth_map nth_upt)
    have "answers (length es) = Inl b" using nth [OF len] by (metis length_map nth_append_length)
    moreover have "\<exists>e. answers m = Inr e \<and> \<not> isAbsentText e" if "m < length es" for m
      using nth [of m] that len unk by (auto simp: nth_append classifyErr_def split: if_splits)
    ultimately show "\<exists>n < retries. \<exists>b. answers n = Inl b \<and> out = Some b \<and>
        (\<forall>m < n. \<exists>e. answers m = Inr e \<and> \<not> isAbsentText e)"
      using len out by blast
  next
    assume "\<exists>n < retries. \<exists>b. answers n = Inl b \<and> out = Some b \<and>
        (\<forall>m < n. \<exists>e. answers m = Inr e \<and> \<not> isAbsentText e)"
    then obtain n b where n: "n < retries" "answers n = Inl b" "out = Some b"
      and m: "\<forall>m < n. \<exists>e. answers m = Inr e \<and> \<not> isAbsentText e" by blast
    define es where "es = map (\<lambda>m. projr (answers m)) [0..<n]"
    have "map answers [0..<n] = map Inr es" using m by (auto simp: es_def)
    moreover have "[0..<retries] = [0..<n] @ n # [Suc n..<retries]"
      using n(1) by (metis le_add1 less_imp_add_positive upt_add_eq_append upt_conv_Cons add_0)
    ultimately have "map answers [0..<retries] = map Inr es @ Inl b # map answers [Suc n..<retries]"
      using n(2) by simp
    moreover have "\<forall>e \<in> set es. classifyErr e = Unknown"
      using m by (force simp: es_def classifyErr_def)
    ultimately show "v = Found" using probeLoop_Found [OF l refl] n(3) by blast
  qed
  moreover have "v = Absent \<longrightarrow> (\<exists>n < retries. answers n = Inr d \<and> isAbsentText d)"
    using probeLoop_Absent [OF l refl] by force
  moreover have "retries = 0 \<longrightarrow> v = Unknown" using l by auto
  ultimately show ?thesis by (simp add: p)
qed

definition flaky :: "nat \<Rightarrow> string + string" where
  "flaky n = (if n = 0 then Inr ''i/o timeout'' else Inl ''ok'')"

lemma probe_sound_witness: "fst (snd (probeDetail 3 flaky)) \<noteq> Absent"
proof
  assume a: "fst (snd (probeDetail 3 flaky)) = Absent"
  obtain out v d where p: "probeDetail 3 flaky = (out, v, d)" by (metis prod_cases3)
  with a probe_sound [where retries = 3 and answers = flaky]
  have "\<exists>n < 3. flaky n = Inr d \<and> isAbsentText d" by simp
  then have "isAbsentText ''i/o timeout''" by (auto simp: flaky_def split: if_splits)
  moreover have "\<not> isAbsentText ''i/o timeout''" by code_simp
  ultimately show False by contradiction
qed

end
