(* ===== verification/Overlay_Fields.thy ===== *)
theory Overlay_Fields
  imports Go_Prelude "HOL-Library.List_Lexorder" "HOL-Library.AList"
begin

text \<open>
  \<open>internal/shared/clusterspec/overlay_fields.go\<close>: the fields an overlay must land on live
  objects, how a declared value is compared with the delivered one, and the check that the probe
  of a row is about that row and nothing else. Values of type \<open>any\<close> are the datatype \<open>json\<close>; an
  object is an association list (its order is that of the iteration, which the code sorts away).
  A \<open>float64\<close> is given by its two texts, as \<open>FormatFloat(_, 'f', -1, 64)\<close> and \<open>%v\<close> print it.
\<close>

subsection \<open>Decoded values\<close>

datatype json =
    JNull
  | JBool bool
  | JInt int
  | JFloat string string
  | JStr string
  | JArr "json list"
  | JObj "(string \<times> json) list"

fun is_JObj :: "json \<Rightarrow> bool" where
  "is_JObj (JObj m) = True"
| "is_JObj _ = False"

text \<open>\<open>%v\<close>; maps are printed in the order of their keys.\<close>

fun fmt_v :: "json \<Rightarrow> string" where
  "fmt_v JNull = ''<nil>''"
| "fmt_v (JBool b) = (if b then ''true'' else ''false'')"
| "fmt_v (JInt i) = int_dec i"
| "fmt_v (JFloat p g) = g"
| "fmt_v (JStr s) = s"
| "fmt_v (JArr xs) = msg [''['', join '' '' (map fmt_v xs), '']'']"
| "fmt_v (JObj m) = msg [''map['', join '' ''
     (map (\<lambda>(k, t). k @ '':'' @ t) (sort_key fst (map (\<lambda>(k, v). (k, fmt_v v)) m))), '']'']"

text \<open>\<open>%T\<close>\<close>

fun type_T :: "json \<Rightarrow> string" where
  "type_T JNull = ''<nil>''"
| "type_T (JBool _) = ''bool''"
| "type_T (JInt _) = ''int''"
| "type_T (JFloat _ _) = ''float64''"
| "type_T (JStr _) = ''string''"
| "type_T (JArr _) = ''[]interface {}''"
| "type_T (JObj _) = ''map[string]interface {}''"

subsection \<open>The fields\<close>

datatype overlayMatch = MatchScalar | MatchNonEmptyList

record overlayField =
  ofApp :: string
  ofValue :: "string list"
  ofKind :: string
  ofNamespace :: string
  ofName :: string
  ofOwnerApp :: string
  ofAPIGroupVersion :: string
  ofResource :: string
  ofLive :: "string list"
  ofMatch :: overlayMatch
  ofPrior :: json
  ofCreateOnly :: bool
  ofMigration :: string
  ofPatch :: "json \<Rightarrow> json + string"   \<comment> \<open>before \<open>json.Marshal\<close>; an error text on the right\<close>

fun rawValue :: "json \<Rightarrow> string list \<Rightarrow> json option" where
  "rawValue cur [] = Some cur"
| "rawValue cur (seg # path) = (case cur of
     JObj m \<Rightarrow> (case map_of m seg of None \<Rightarrow> None | Some v \<Rightarrow> rawValue v path)
   | _ \<Rightarrow> None)"

definition rawString :: "json \<Rightarrow> string list \<Rightarrow> string + string" where
  "rawString rv path = (case rawValue rv path of
     None \<Rightarrow> Inr (''the overlay declares no '' @ join ''.'' path)
   | Some (JStr s) \<Rightarrow> Inl s
   | Some v \<Rightarrow> Inr (msg [join ''.'' path, '' is a '', type_T v, '', not a string'']))"

definition rawSlice :: "json \<Rightarrow> string list \<Rightarrow> json list + string" where
  "rawSlice rv path = (case rawValue rv path of
     None \<Rightarrow> Inr (''the overlay declares no '' @ join ''.'' path)
   | Some (JArr s) \<Rightarrow> Inl s
   | Some v \<Rightarrow> Inr (msg [join ''.'' path, '' is a '', type_T v, '', not a sequence'']))"

text \<open>The key of a missing entry is \<open>nil\<close>.\<close>

definition obj_index :: "(string \<times> json) list \<Rightarrow> string \<Rightarrow> json" where
  "obj_index m k = (case map_of m k of None \<Rightarrow> JNull | Some v \<Rightarrow> v)"

definition claimTemplate :: "(string \<times> json) list \<Rightarrow> json" where
  "claimTemplate c =
     (let spec = [];
          spec = (case map_of c ''accessModes'' of None \<Rightarrow> spec | Some modes \<Rightarrow> spec @ [(''accessModes'', modes)]);
          spec = (case map_of c ''size'' of None \<Rightarrow> spec
                  | Some sz \<Rightarrow> spec @ [(''resources'', JObj [(''requests'', JObj [(''storage'', sz)])])]);
          spec = (case map_of c ''storageClass'' of None \<Rightarrow> spec | Some sc \<Rightarrow> spec @ [(''storageClassName'', sc)])
      in JObj [(''apiVersion'', JStr ''v1''), (''kind'', JStr ''PersistentVolumeClaim''),
           (''metadata'', JObj [(''name'', obj_index c ''name'')]), (''spec'', JObj spec)])"

fun claimTemplates :: "json list \<Rightarrow> json list + string" where
  "claimTemplates [] = Inl []"
| "claimTemplates (c # cs) = (case c of
     JObj m \<Rightarrow> (case claimTemplates cs of Inl ts \<Rightarrow> Inl (claimTemplate m # ts) | Inr e \<Rightarrow> Inr e)
   | _ \<Rightarrow> Inr (msg [''ingester.persistence.claims holds a '', type_T c, '', not a mapping'']))"

definition lokiIngesterContainer :: string where
  "lokiIngesterContainer = ''ingester''"

definition lokiWALPVCMigration :: string where
  "lokiWALPVCMigration = ''049-loki-wal-pvc''"

definition argoNamespace :: string where
  "argoNamespace = ''argocd''"

definition resourcePatch :: "string \<Rightarrow> string \<Rightarrow> json \<Rightarrow> json + string" where
  "resourcePatch section res rv = (case rawString rv [''ingester'', ''resources'', section, res] of
     Inr e \<Rightarrow> Inr e
   | Inl v \<Rightarrow> Inl (JObj [(''spec'', JObj [(''template'', JObj [(''spec'', JObj [(''containers'',
       JArr [JObj [(''name'', JStr lokiIngesterContainer),
                   (''resources'', JObj [(section, JObj [(res, JStr v)])])]])])])])]))"

definition walPatch :: "json \<Rightarrow> json + string" where
  "walPatch rv = (case rawSlice rv [''ingester'', ''persistence'', ''claims''] of
     Inr e \<Rightarrow> Inr e
   | Inl claims \<Rightarrow> (case claimTemplates claims of
         Inr e \<Rightarrow> Inr e
       | Inl templates \<Rightarrow> Inl (JObj [(''spec'', JObj [(''volumeClaimTemplates'', JArr templates)])])))"

definition lokiIngesterResource :: "string \<Rightarrow> string \<Rightarrow> string \<Rightarrow> overlayField" where
  "lokiIngesterResource section res prior =
     \<lparr>ofApp = ''loki'', ofValue = [''ingester'', ''resources'', section, res], ofKind = ''statefulset'',
      ofNamespace = ''monitoring'', ofName = ''loki-ingester'', ofOwnerApp = ''monitoring-loki'',
      ofAPIGroupVersion = ''apps/v1'', ofResource = ''statefulsets'',
      ofLive = [''spec'', ''template'', ''spec'', msg [''containers[name='', lokiIngesterContainer, '']''],
        ''resources'', section, res],
      ofMatch = MatchScalar, ofPrior = JStr prior, ofCreateOnly = False, ofMigration = [],
      ofPatch = resourcePatch section res\<rparr>"

definition overlayFields :: "overlayField list" where
  "overlayFields =
     [lokiIngesterResource ''limits'' ''memory'' ''1Gi'',
      lokiIngesterResource ''limits'' ''cpu'' ''500m'',
      lokiIngesterResource ''requests'' ''memory'' ''512Mi'',
      lokiIngesterResource ''requests'' ''cpu'' ''250m'',
      \<lparr>ofApp = ''loki'', ofValue = [''ingester'', ''persistence'', ''enabled''], ofKind = ''statefulset'',
       ofNamespace = ''monitoring'', ofName = ''loki-ingester'', ofOwnerApp = ''monitoring-loki'',
       ofAPIGroupVersion = ''apps/v1'', ofResource = ''statefulsets'',
       ofLive = [''spec'', ''volumeClaimTemplates''], ofMatch = MatchNonEmptyList, ofPrior = JNull,
       ofCreateOnly = True, ofMigration = lokiWALPVCMigration, ofPatch = walPatch\<rparr>]"

definition overlayFieldPath :: "overlayField \<Rightarrow> string" where
  "overlayFieldPath f = msg [ofApp f, ''.'', join ''.'' (ofValue f)]"

definition apiPath :: "overlayField \<Rightarrow> string" where
  "apiPath f =
     (let base = ''/apis/'' @ ofAPIGroupVersion f;
          base = (if \<not> contains (ofAPIGroupVersion f) ''/'' then ''/api/'' @ ofAPIGroupVersion f else base)
      in msg [base, ''/namespaces/'', ofNamespace f, ''/'', ofResource f, ''/'', ofName f])"

subsection \<open>Reading a live object\<close>

text \<open>\<open>s, _ := m[field].(string)\<close>: the empty string where there is no string.\<close>

definition str_at :: "(string \<times> json) list \<Rightarrow> string \<Rightarrow> string" where
  "str_at m field = (case map_of m field of Some (JStr s) \<Rightarrow> s | _ \<Rightarrow> [])"

fun selectByField :: "json list \<Rightarrow> string \<Rightarrow> string \<Rightarrow> json option" where
  "selectByField [] field want = None"
| "selectByField (e # es) field want = (case e of
     JObj m \<Rightarrow> if str_at m field = want then Some (JObj m) else selectByField es field want
   | _ \<Rightarrow> selectByField es field want)"

text \<open>The value (\<open>None\<close> where it is not found) and whether a selector missed.\<close>

fun liveValue :: "json \<Rightarrow> string list \<Rightarrow> json option \<times> bool" where
  "liveValue cur [] = (Some cur, False)"
| "liveValue cur (seg # path) =
     (let (key, sel, hasSel) = cut_at (CHR ''['') seg
      in case cur of
        JObj m \<Rightarrow>
          (case map_of m key of
             None \<Rightarrow> (None, False)
           | Some v \<Rightarrow>
               if \<not> hasSel then liveValue v path
               else if \<not> has_suffix sel '']'' then (None, True)
               else
                 let (field, wantVal, ok) = cut_at (CHR ''='') (trim_suffix sel '']'')
                 in if \<not> ok then (None, True)
                    else (case v of
                        JArr list \<Rightarrow>
                          (case selectByField list field wantVal of
                             None \<Rightarrow> (None, True)
                           | Some e \<Rightarrow> liveValue e path)
                      | _ \<Rightarrow> (None, True)))
      | _ \<Rightarrow> (None, False))"

subsection \<open>Quantities\<close>

text \<open>
  A quantity that matches \<open>quantityPartsRe\<close>: sign, digits before and after the point, the exponent
  with its sign, and the suffix. The expression is deterministic, so it is read left to right.
\<close>

record quantityText =
  qNeg :: bool
  qInt :: string
  qFrac :: string
  qExp :: "int option"
  qSuffix :: string

definition is_letter :: "char \<Rightarrow> bool" where
  "is_letter c \<longleftrightarrow> (let n = (of_char c :: nat) in 65 \<le> n \<and> n \<le> 90 \<or> 97 \<le> n \<and> n \<le> 122)"

definition cutSign :: "string \<Rightarrow> bool \<times> string" where
  "cutSign s = (case s of
     c # cs \<Rightarrow> if c = CHR ''-'' then (True, cs) else if c = CHR ''+'' then (False, cs) else (False, s)
   | [] \<Rightarrow> (False, []))"

definition cutFrac :: "string \<Rightarrow> string \<times> string" where
  "cutFrac s = (case s of
     c # cs \<Rightarrow> if c = CHR ''.'' \<and> takeWhile is_digit cs \<noteq> []
              then (takeWhile is_digit cs, dropWhile is_digit cs) else ([], s)
   | [] \<Rightarrow> ([], []))"

definition cutExp :: "string \<Rightarrow> int option \<times> string" where
  "cutExp s = (case s of
     c # cs \<Rightarrow>
       (if c = CHR ''e'' \<or> c = CHR ''E'' then
          let (neg, ds) = cutSign cs
          in if takeWhile is_digit ds = [] then (None, s)
             else (Some ((if neg then - 1 else 1) * int (dec_val (takeWhile is_digit ds))),
                   dropWhile is_digit ds)
        else (None, s))
   | [] \<Rightarrow> (None, []))"

definition quantityParts :: "string \<Rightarrow> quantityText option" where
  "quantityParts s =
     (let (neg, s) = cutSign s;
          ds = takeWhile is_digit s;
          s = dropWhile is_digit s;
          (frac, s) = cutFrac s;
          (ex, s) = cutExp s
      in if ds = [] \<or> \<not> list_all is_letter s then None
         else Some \<lparr>qNeg = neg, qInt = ds, qFrac = frac, qExp = ex, qSuffix = s\<rparr>)"

definition quantitySuffixes :: "(string \<times> int \<times> int) list" where
  "quantitySuffixes =
     [([], 1, 0), (''n'', 1000, -3), (''u'', 1000, -2), (''m'', 1000, -1),
      (''k'', 1000, 1), (''M'', 1000, 2), (''G'', 1000, 3), (''T'', 1000, 4), (''P'', 1000, 5), (''E'', 1000, 6),
      (''Ki'', 1024, 1), (''Mi'', 1024, 2), (''Gi'', 1024, 3), (''Ti'', 1024, 4), (''Pi'', 1024, 5),
      (''Ei'', 1024, 6)]"

text \<open>
  A \<open>big.Rat\<close> as numerator and positive denominator; \<open>SetString\<close> refuses exponents outside
  \<open>int64\<close> and, of a non-zero number, beyond a million.
\<close>

definition ratSetString :: "quantityText \<Rightarrow> (int \<times> int) option" where
  "ratSetString q =
     (let mant = (if qNeg q then - 1 else 1) * int (dec_val (qInt q @ qFrac q));
          ex = (case qExp q of None \<Rightarrow> 0 | Some e \<Rightarrow> e);
          exp10 = ex - int (length (qFrac q))
      in if \<not> in_int64 ex then None
         else if mant = 0 then Some (0, 1)
         else if \<bar>exp10\<bar> > 1000000 then None
         else if exp10 \<ge> 0 then Some (mant * 10 ^ nat exp10, 1)
         else Some (mant, 10 ^ nat (- exp10)))"

definition ratCmpEq :: "int \<times> int \<Rightarrow> int \<times> int \<Rightarrow> bool" where   \<comment> \<open>\<open>Cmp \<dots> == 0\<close>\<close>
  "ratCmpEq a b \<longleftrightarrow> fst a * snd b = fst b * snd a"

definition quantityRatText :: "string \<Rightarrow> ((int \<times> int) \<times> bool) option" where
  "quantityRatText s = (case quantityParts s of
     None \<Rightarrow> None
   | Some q \<Rightarrow>
       (case map_of quantitySuffixes (qSuffix q) of
          None \<Rightarrow> None
        | Some (mult, ex) \<Rightarrow>
            (case ratSetString q of
               None \<Rightarrow> None
             | Some (num, den) \<Rightarrow>
                 let scale = mult ^ nat \<bar>ex\<bar>;
                     marked = qSuffix q \<noteq> [] \<or> qExp q \<noteq> None
                 in if ex < 0 then Some ((num, den * scale), marked)
                    else Some ((num * scale, den), marked))))"

text \<open>The value, and whether it has a unit or an exponent; \<open>None\<close> where it is not a quantity.\<close>

definition quantityRat :: "json \<Rightarrow> ((int \<times> int) \<times> bool) option" where
  "quantityRat v = (case v of
     JStr s \<Rightarrow> quantityRatText s
   | JInt i \<Rightarrow> quantityRatText (int_dec i)
   | JFloat p g \<Rightarrow> quantityRatText p
   | _ \<Rightarrow> None)"

definition scalarText :: "json \<Rightarrow> string" where
  "scalarText v = (case v of
     JStr s \<Rightarrow> s
   | JFloat p g \<Rightarrow> p
   | JInt i \<Rightarrow> int_dec i
   | _ \<Rightarrow> fmt_v v)"

definition overlayScalarEqual :: "json \<Rightarrow> json \<Rightarrow> bool" where
  "overlayScalarEqual delivered decl =
     (case (quantityRat delivered, quantityRat decl) of
        (Some (ds, dm), Some (cs, cm)) \<Rightarrow>
          if dm \<or> cm then ratCmpEq ds cs else scalarText delivered = scalarText decl
      | _ \<Rightarrow> scalarText delivered = scalarText decl)"

subsection \<open>Delivery\<close>

text \<open>Match, the delivered text, and whether the field could be read.\<close>

definition overlayFieldDelivered :: "overlayField \<Rightarrow> json \<Rightarrow> json \<Rightarrow> bool \<times> string \<times> bool" where
  "overlayFieldDelivered f decl live =
     (case liveValue live (ofLive f) of (found, missedSelector) \<Rightarrow>
        if missedSelector then (False, [], False)
        else (case ofMatch f of
            MatchNonEmptyList \<Rightarrow>
              (let v = (case found of None \<Rightarrow> JNull | Some v \<Rightarrow> v);
                   (list, isList) = (case v of JArr l \<Rightarrow> (l, True) | _ \<Rightarrow> ([], False))
               in if found \<noteq> None \<and> v \<noteq> JNull \<and> \<not> isList then (False, fmt_v v, False)
                  else (case decl of
                      JBool want \<Rightarrow>
                        ((length list > 0) = want, msg [nat_dec (length list), '' entries''], True)
                    | _ \<Rightarrow> (False, msg [''declared '', fmt_v decl, '' ('', type_T decl, '', not a bool)''], False)))
          | MatchScalar \<Rightarrow>
              (case found of
                 None \<Rightarrow> (False, ''(absent)'', True)
               | Some v \<Rightarrow> (overlayScalarEqual v decl, fmt_v v, True))))"

definition priorOnObject :: "overlayField \<Rightarrow> json \<Rightarrow> json" where
  "priorOnObject f live = (case liveValue live (ofLive f) of
     (Some v, False) \<Rightarrow> v
   | _ \<Rightarrow> JStr ''(absent)'')"

subsection \<open>A probe about one field\<close>

definition under :: "string \<Rightarrow> string \<Rightarrow> string" where
  "under cur k = trim_prefix (cur @ ''.'' @ k) ''.''"

fun patchLeaves :: "json \<Rightarrow> string \<Rightarrow> string list" where
  "patchLeaves (JObj m) cur =
     (let leaves = concat (map (\<lambda>(k, v). patchLeaves v (under cur k)) m)
      in if length leaves = 0 then [cur] else leaves)"
| "patchLeaves _ cur = [cur]"

text \<open>The element the walk treats as the row's own: the first that the selector picks.\<close>

fun firstMatch :: "string \<Rightarrow> string \<Rightarrow> nat \<Rightarrow> json list \<Rightarrow> nat option" where
  "firstMatch field wantVal n [] = None"
| "firstMatch field wantVal n (e # es) = (case e of
     JObj m \<Rightarrow> if str_at m field = wantVal then Some n else firstMatch field wantVal (Suc n) es
   | _ \<Rightarrow> firstMatch field wantVal (Suc n) es)"

fun extraPatchWrites :: "json \<Rightarrow> string list \<Rightarrow> string \<Rightarrow> string \<Rightarrow> bool \<Rightarrow> string list" where
  "extraPatchWrites node [] cur allow inElement = []"
| "extraPatchWrites node (seg # live) cur allow inElement = (case node of
     JObj m \<Rightarrow>
       (let (key, sel, hasSel) = cut_at (CHR ''['') seg
        in concat (map (\<lambda>(k, v).
          let loc = under cur k
          in if k \<noteq> key then
               (if allow \<noteq> [] \<and> k = allow then []
                else if inElement \<and> \<not> is_JObj v then []
                else patchLeaves v loc)
             else if \<not> hasSel then extraPatchWrites v live loc [] inElement
             else
               let (field, wantVal, ok) = cut_at (CHR ''='') (trim_suffix sel '']'')
               in (case v of
                   JArr list \<Rightarrow>
                     if \<not> ok then patchLeaves v loc
                     else concat (map (\<lambda>(n, e).
                       let el = msg [loc, ''['', nat_dec n, '']'']
                       in if firstMatch field wantVal 0 list = Some n
                          then extraPatchWrites e live el field True
                          else patchLeaves e el) (enumerate 0 list))
                 | _ \<Rightarrow> patchLeaves v loc)) m))
   | _ \<Rightarrow> [cur])"

datatype patchError =
    NotJSON
  | WritesNothing
  | NotReadable string
  | NotDeclared string
  | AlsoWrites "string list"

text \<open>The decoded patch (\<open>None\<close> where the text is not a JSON object); \<open>None\<close> is \<open>nil\<close>.\<close>

definition patchTargetsField :: "(string \<times> json) list option \<Rightarrow> overlayField \<Rightarrow> json \<Rightarrow> patchError option" where
  "patchTargetsField patch f decl = (case patch of
     None \<Rightarrow> Some NotJSON
   | Some m \<Rightarrow>
       (case liveValue (JObj m) (ofLive f) of (found, missed) \<Rightarrow>
          if missed \<or> found = None then Some WritesNothing
          else (case overlayFieldDelivered f decl (JObj m) of (match, sent, readable) \<Rightarrow>
            if \<not> readable then Some (NotReadable sent)
            else if \<not> match then Some (NotDeclared sent)
            else let extra = extraPatchWrites (JObj m) (ofLive f) [] [] False
                 in if length extra > 0 then Some (AlsoWrites (sort extra)) else None)))"

definition patchErrorText :: "overlayField \<Rightarrow> json \<Rightarrow> patchError \<Rightarrow> string" where
  "patchErrorText f decl e =
     (let path = join ''.'' (ofLive f)
      in case e of
        NotJSON \<Rightarrow> msg [''the row'', sq, ''s Patch is not valid JSON'']
      | WritesNothing \<Rightarrow> msg [''the row'', sq, ''s Patch does not write anything at '', path, '', the path this row claims to '',
          ''test. Whatever the apiserver says about that patch is evidence about a DIFFERENT field '', em_dash, '' '',
          ''and for a StatefulSet the immutability refusal is a whole-spec message, so an unrelated '',
          ''spec key produces the identical text and would grade CREATE-ONLY'']
      | NotReadable sent \<Rightarrow> msg [''the row'', sq, ''s Patch writes something at '', path,
          '' that this row cannot read back ('', sent, '') '', em_dash,
          '' a probe whose own payload is unreadable is evidence about nothing'']
      | NotDeclared sent \<Rightarrow> msg [''the row'', sq, ''s Patch writes '', sent, '' at '', path, '', not the declared '', fmt_v decl,
          ''. The apiserver'', sq, ''s answer would be about a value nobody declared, and on the refused arm there is no '',
          ''returned object to notice it with'']
      | AlsoWrites extra \<Rightarrow> msg [''the row'', sq, ''s Patch also writes '', join '', '' extra, '', which this row does not claim to test. A '',
          ''StatefulSet'', sq, ''s immutability refusal is a WHOLE-SPEC message, identical for any '',
          ''non-whitelisted spec key '', em_dash, '' so an unrelated key alone produces a CREATE-ONLY verdict and '',
          ''the row would vouch for it. Send only '', path])"

subsection \<open>Lemmas on quantities\<close>

lemma quantityParts_unit:
  assumes "list_all is_letter suf"
  shows "quantityParts (nat_dec n @ suf) =
    Some \<lparr>qNeg = False, qInt = nat_dec n, qFrac = [], qExp = None, qSuffix = suf\<rparr>"
proof -
  have letter: "is_letter c \<Longrightarrow> \<not> is_digit c \<and> c \<noteq> CHR ''-'' \<and> c \<noteq> CHR ''+'' \<and> c \<noteq> CHR ''.''" for c
    by (auto simp: is_letter_def is_digit_def Let_def)
  have none: "takeWhile is_digit t = []" "dropWhile is_digit t = t" if "list_all is_letter t" for t
    using that letter by (cases t; simp)+
  have sign: "cutSign t = (False, t)" if "list_all is_letter t" for t
    using that letter by (cases t) (auto simp: cutSign_def)
  have digits: "\<forall>c \<in> set (nat_dec n). is_digit c" using nat_dec_digits by (simp add: list_all_iff)
  have "cutSign (nat_dec n @ suf) = (False, nat_dec n @ suf)"
    using nat_dec_hd [of n] nat_dec_not_Nil [of n] digit_not_sign
    by (cases "nat_dec n") (auto simp: cutSign_def)
  moreover have "takeWhile is_digit (nat_dec n @ suf) = nat_dec n" "dropWhile is_digit (nat_dec n @ suf) = suf"
    using digits none [OF assms] by (simp_all add: takeWhile_append2 dropWhile_append2)
  moreover have "cutFrac suf = ([], suf)" using assms letter by (cases suf) (auto simp: cutFrac_def)
  moreover have "cutExp suf = (None, suf)"
  proof (cases suf)
    case (Cons c cs)
    then have "list_all is_letter cs" using assms by simp
    with Cons none sign show ?thesis by (auto simp: cutExp_def)
  qed (simp add: cutExp_def)
  ultimately show ?thesis using assms by (simp add: quantityParts_def)
qed

lemma suffix_letters: "(suf, mult, ex) \<in> set quantitySuffixes \<Longrightarrow> list_all is_letter suf \<and> 0 < mult"
  by (auto simp: quantitySuffixes_def is_letter_def)

lemma suffix_map: "(suf, mult, ex) \<in> set quantitySuffixes \<Longrightarrow> map_of quantitySuffixes suf = Some (mult, ex)"
  by (rule map_of_is_SomeI) (simp_all add: quantitySuffixes_def)

text \<open>The unit of a suffix as a fraction.\<close>

definition unit_num :: "int \<Rightarrow> int \<Rightarrow> int" where
  "unit_num mult ex = (if ex < 0 then 1 else mult ^ nat ex)"

definition unit_den :: "int \<Rightarrow> int \<Rightarrow> int" where
  "unit_den mult ex = (if ex < 0 then mult ^ nat (- ex) else 1)"

lemma quantityRat_unit:
  assumes "(suf, mult, ex) \<in> set quantitySuffixes"
  shows "quantityRatText (nat_dec n @ suf) =
    Some ((int n * unit_num mult ex, unit_den mult ex), suf \<noteq> [])"
  using suffix_letters [OF assms] suffix_map [OF assms]
  by (auto simp: quantityRatText_def quantityParts_unit ratSetString_def unit_num_def unit_den_def Let_def
      in_int64_def min_int64_def max_int64_def)

lemma overlayScalarEqual_refl [simp]: "overlayScalarEqual v v"
  by (auto simp: overlayScalarEqual_def ratCmpEq_def split: option.split)

lemma overlayScalarEqual_sym: "overlayScalarEqual v w \<longleftrightarrow> overlayScalarEqual w v"
  by (auto simp: overlayScalarEqual_def ratCmpEq_def split: option.split)

subsection \<open>Lemmas on patches\<close>

lemma patchLeaves_not_Nil [simp]: "patchLeaves v cur \<noteq> []"
  by (cases v) (auto simp: Let_def)

text \<open>Objects as \<open>json.Unmarshal\<close> makes them: no key twice.\<close>

fun json_ok :: "json \<Rightarrow> bool" where
  "json_ok (JObj m) \<longleftrightarrow> distinct (map fst m) \<and> list_all (\<lambda>(k, v). json_ok v) m"
| "json_ok (JArr xs) \<longleftrightarrow> list_all json_ok xs"
| "json_ok _ \<longleftrightarrow> True"

fun nest :: "string list \<Rightarrow> json \<Rightarrow> json" where
  "nest [] v = v"
| "nest (k # ks) v = JObj [(k, nest ks v)]"

definition plain_path :: "string list \<Rightarrow> bool" where
  "plain_path path \<longleftrightarrow> list_all (\<lambda>seg. CHR ''['' \<notin> set seg) path"

lemma plain_path_simps [simp]:
  "plain_path []"
  "plain_path (seg # path) \<longleftrightarrow> CHR ''['' \<notin> set seg \<and> plain_path path"
  by (simp_all add: plain_path_def)

lemma liveValue_nest: "plain_path path \<Longrightarrow> liveValue (nest path v) path = (Some v, False)"
  by (induction path) (auto simp: cut_at_free)

lemma extraPatchWrites_nest: "plain_path path \<Longrightarrow> extraPatchWrites (nest path v) path cur allow b = []"
  by (induction path arbitrary: cur allow) (auto simp: cut_at_free Let_def)

lemma only_key:
  assumes "distinct (map fst m)" and "map_of m key = Some v" and "\<forall>(k, w) \<in> set m. k = key"
  shows "m = [(key, v)]"
proof -
  have "set (map fst m) \<subseteq> {key}" using assms(3) by auto
  then have "card (set (map fst m)) \<le> 1" using card_mono [of "{key}"] by simp
  then have "length m \<le> 1" using assms(1) distinct_card by fastforce
  then show ?thesis using assms(2) by (cases m) (auto split: if_splits)
qed

lemma no_extra_writes:
  assumes "plain_path path" and "json_ok node" and "liveValue node path = (Some v, False)"
    and "extraPatchWrites node path cur [] False = []"
  shows "node = nest path v"
  using assms
proof (induction path arbitrary: node cur)
  case (Cons key path)
  then obtain m where m: "node = JObj m" by (cases node) (auto simp: Let_def)
  have cut: "cut_at (CHR ''['') key = (key, [], False)" using Cons.prems(1) by (simp add: cut_at_free)
  obtain w where w: "map_of m key = Some w" "liveValue w path = (Some v, False)"
    using Cons.prems(3) by (auto simp: m cut split: option.splits)
  have all: "\<forall>(k, u) \<in> set m. k = key \<and> extraPatchWrites u path (under cur key) [] False = []"
    using Cons.prems(4) by (auto simp: m cut Let_def split: if_splits)
  with w Cons.prems(2) have "m = [(key, w)]" by (intro only_key) (auto simp: m)
  moreover have "w = nest path v"
    using Cons.IH [of w "under cur key"] Cons.prems(1,2) w(2) all \<open>m = [(key, w)]\<close> by (auto simp: m)
  ultimately show ?case by (simp add: m)
qed simp

subsection \<open>Properties\<close>

text \<open>a probe of a row without selectors, as the row whose object is deleted to land it, is
  accepted exactly when the patch consists of the row's path and nothing beside it, and the value at
  its end reads as the declared one.\<close>

theorem accepted_patch_is_the_field:
  assumes "plain_path (ofLive f)" and "json_ok (JObj m)"
  shows "patchTargetsField (Some m) f decl = None \<longleftrightarrow>
    (\<exists>v sent. JObj m = nest (ofLive f) v \<and>
       overlayFieldDelivered f decl (nest (ofLive f) v) = (True, sent, True))"
proof
  assume acc: "patchTargetsField (Some m) f decl = None"
  obtain found missed where l: "liveValue (JObj m) (ofLive f) = (found, missed)" by fastforce
  obtain match sent readable where d: "overlayFieldDelivered f decl (JObj m) = (match, sent, readable)"
    by (cases "overlayFieldDelivered f decl (JObj m)") auto
  from acc l d have "\<not> missed" "found \<noteq> None" "readable" "match"
    and "extraPatchWrites (JObj m) (ofLive f) [] [] False = []"
    by (auto simp: patchTargetsField_def Let_def split: if_splits)
  with l d no_extra_writes [OF assms] show "\<exists>v sent. JObj m = nest (ofLive f) v \<and>
       overlayFieldDelivered f decl (nest (ofLive f) v) = (True, sent, True)" by fastforce
next
  assume "\<exists>v sent. JObj m = nest (ofLive f) v \<and>
       overlayFieldDelivered f decl (nest (ofLive f) v) = (True, sent, True)"
  then show "patchTargetsField (Some m) f decl = None"
    using assms(1) by (auto simp: patchTargetsField_def liveValue_nest extraPatchWrites_nest)
qed

definition walRow :: overlayField where
  "walRow = overlayFields ! 4"

theorem accepted_patch_is_the_field_witness:
  "patchTargetsField (Some [(''spec'', JObj [(''volumeClaimTemplates'', JArr [JNull])])]) walRow (JBool True) = None"
proof -
  have p: "plain_path (ofLive walRow)" by code_simp
  show ?thesis
    by (rule accepted_patch_is_the_field [OF p, THEN iffD2])
      (code_simp, rule exI [of _ "JArr [JNull]"], rule exI [of _ "''1 entries''"], code_simp)
qed

lemma claimTemplates_length: "claimTemplates cs = Inl ts \<Longrightarrow> length ts = length cs"
  by (induction cs arbitrary: ts) (auto split: json.splits sum.splits)

lemma ingester_segment:
  obtains seg where "seg = msg [''containers[name='', lokiIngesterContainer, '']'']"
    "cut_at (CHR ''['') seg = (''containers'', ''name=ingester]'', True)"
  by (simp add: msg_def lokiIngesterContainer_def cut_at_def)

lemma ingester_selector:
  "has_suffix ''name=ingester]'' '']''"
  "cut_at (CHR ''='') (trim_suffix ''name=ingester]'' '']'') = (''name'', ''ingester'', True)"
  by (simp_all add: has_suffix_def trim_suffix_def cut_at_def)

text \<open>A patch with the given fields in the ingester container.\<close>

definition ingesterPatch :: "(string \<times> json) list \<Rightarrow> (string \<times> json) list" where
  "ingesterPatch kvs = [(''spec'', JObj [(''template'', JObj [(''spec'', JObj [(''containers'',
     JArr [JObj ((''name'', JStr ''ingester'') # kvs)])])])])]"

lemma resourcePatch_accepted:
  assumes "CHR ''['' \<notin> set sec" and "CHR ''['' \<notin> set res"
    and "list_all (\<lambda>(k, w). k \<noteq> ''resources'' \<and> \<not> is_JObj w) extra"
  shows "patchTargetsField (Some (ingesterPatch (extra @ [(''resources'', JObj [(sec, JObj [(res, JStr v)])])])))
    (lokiIngesterResource sec res prior) (JStr v) = None"
proof -
  obtain seg where seg: "seg = msg [''containers[name='', lokiIngesterContainer, '']'']"
    and cut: "cut_at (CHR ''['') seg = (''containers'', ''name=ingester]'', True)" by (rule ingester_segment)
  let ?f = "lokiIngesterResource sec res prior"
  let ?m = "ingesterPatch (extra @ [(''resources'', JObj [(sec, JObj [(res, JStr v)])])])"
  have live: "ofLive ?f = [''spec'', ''template'', ''spec'', seg, ''resources'', sec, res]" "ofMatch ?f = MatchScalar"
    by (simp_all add: lokiIngesterResource_def seg)
  have free: "CHR ''['' \<notin> set ''spec''" "CHR ''['' \<notin> set ''template''" "CHR ''['' \<notin> set ''resources''" by simp_all
  have none: "map_of extra ''resources'' = None"
    using assms(3) by (induction extra) auto
  have found: "liveValue (JObj ?m) (ofLive ?f) = (Some (JStr v), False)"
    unfolding live ingesterPatch_def
    by (simp add: cut_at_free free assms cut ingester_selector str_at_def map_add_def none Let_def)
  have "extraPatchWrites (JObj ?m) (ofLive ?f) [] [] False = []"
    unfolding live ingesterPatch_def
    using assms(3) by (auto simp: cut_at_free free assms(1,2) cut ingester_selector str_at_def list_all_iff Let_def)
  then show ?thesis
    by (simp add: patchTargetsField_def overlayFieldDelivered_def found live(2))
qed

text \<open>every row's own probe passes the check, whatever the overlay declares: a resource row
  always, the claim row when the declared switch says whether there are claims.\<close>

theorem rows_pass_their_own_check:
  assumes "f \<in> set overlayFields" and "ofPatch f rv = Inl (JObj m)" and "rawValue rv (ofValue f) = Some decl"
    and "ofMatch f = MatchNonEmptyList \<Longrightarrow> \<exists>claims. rawSlice rv [''ingester'', ''persistence'', ''claims''] = Inl claims
      \<and> decl = JBool (claims \<noteq> [])"
  shows "patchTargetsField (Some m) f decl = None"
proof -
  have resource: ?thesis if f: "f = lokiIngesterResource sec res prior"
    and k: "CHR ''['' \<notin> set sec" "CHR ''['' \<notin> set res" for sec res prior
  proof -
    obtain v where "decl = JStr v" and "m = ingesterPatch [(''resources'', JObj [(sec, JObj [(res, JStr v)])])]"
      using assms(2,3) by (auto simp: f lokiIngesterResource_def resourcePatch_def rawString_def ingesterPatch_def
          lokiIngesterContainer_def split: sum.splits option.splits json.splits)
    then show ?thesis using resourcePatch_accepted [OF k, of "[]" v prior] by (simp add: f)
  qed
  have wal: ?thesis if f: "f = walRow"
  proof -
    have live: "ofLive f = [''spec'', ''volumeClaimTemplates'']" "ofMatch f = MatchNonEmptyList" "ofPatch f = walPatch"
      by (simp_all add: f walRow_def overlayFields_def)
    from assms(4) live obtain claims where c: "rawSlice rv [''ingester'', ''persistence'', ''claims''] = Inl claims"
      "decl = JBool (claims \<noteq> [])" by auto
    with assms(2) live obtain ts where "claimTemplates claims = Inl ts"
      and "m = [(''spec'', JObj [(''volumeClaimTemplates'', JArr ts)])]"
      by (auto simp: walPatch_def split: sum.splits)
    then show ?thesis
      using c claimTemplates_length [of claims ts]
      by (auto simp: patchTargetsField_def overlayFieldDelivered_def live cut_at_free Let_def)
  qed
  have rows: "overlayFields = [lokiIngesterResource ''limits'' ''memory'' ''1Gi'',
      lokiIngesterResource ''limits'' ''cpu'' ''500m'', lokiIngesterResource ''requests'' ''memory'' ''512Mi'',
      lokiIngesterResource ''requests'' ''cpu'' ''250m'', walRow]"
    by (simp add: overlayFields_def walRow_def)
  have "f = lokiIngesterResource ''limits'' ''memory'' ''1Gi'' \<or>
      f = lokiIngesterResource ''limits'' ''cpu'' ''500m'' \<or> f = lokiIngesterResource ''requests'' ''memory'' ''512Mi'' \<or>
      f = lokiIngesterResource ''requests'' ''cpu'' ''250m'' \<or> f = walRow"
    using assms(1) unfolding rows list.set insert_iff empty_iff by blast
  then show ?thesis
    by (elim disjE) (erule resource, simp, simp, erule resource, simp, simp, erule resource, simp, simp,
      erule resource, simp, simp, erule wal)
qed

definition lokiValues :: json where
  "lokiValues = JObj [(''ingester'', JObj [(''persistence'', JObj [(''enabled'', JBool True),
     (''claims'', JArr [JObj [(''name'', JStr ''data''), (''size'', JStr ''10Gi'')]])])])]"

theorem rows_pass_their_own_check_witness:
  "\<exists>m. ofPatch walRow lokiValues = Inl (JObj m) \<and> patchTargetsField (Some m) walRow (JBool True) = None"
proof -
  have "walRow \<in> set overlayFields" by (simp add: walRow_def overlayFields_def)
  moreover obtain m where m: "ofPatch walRow lokiValues = Inl (JObj m)"
    by (simp add: walRow_def overlayFields_def walPatch_def lokiValues_def rawSlice_def)
  moreover have "rawValue lokiValues (ofValue walRow) = Some (JBool True)" by code_simp
  moreover have "\<exists>claims. rawSlice lokiValues [''ingester'', ''persistence'', ''claims''] = Inl claims
      \<and> JBool True = JBool (claims \<noteq> [])" by (simp add: lokiValues_def rawSlice_def)
  ultimately show ?thesis using rows_pass_their_own_check by blast
qed

text \<open>amounts compare by value: two numbers with units are the same declared value exactly
  when they are the same rational, so the apiserver's own spelling of an amount is not drift.\<close>

theorem amounts_compare_by_value:
  assumes "(s1, m1, e1) \<in> set quantitySuffixes" and "(s2, m2, e2) \<in> set quantitySuffixes"
    and "s1 \<noteq> [] \<or> s2 \<noteq> []"
  shows "overlayScalarEqual (JStr (nat_dec a @ s1)) (JStr (nat_dec b @ s2)) \<longleftrightarrow>
    int a * unit_num m1 e1 * unit_den m2 e2 = int b * unit_num m2 e2 * unit_den m1 e1"
  using assms(3) by (simp add: overlayScalarEqual_def quantityRat_def quantityRat_unit [OF assms(1)]
      quantityRat_unit [OF assms(2)] ratCmpEq_def)

theorem amounts_compare_by_value_witness:
  "overlayScalarEqual (JStr (nat_dec 3072 @ ''Mi'')) (JStr (nat_dec 3 @ ''Gi'')) \<and>
   \<not> overlayScalarEqual (JStr (nat_dec 1 @ ''G'')) (JStr (nat_dec 1 @ ''Gi''))"
  using amounts_compare_by_value [of "''Mi''" 1024 2 "''Gi''" 1024 3 3072 3]
    amounts_compare_by_value [of "''G''" 1000 3 "''Gi''" 1024 3 1 1]
  by (simp add: quantitySuffixes_def unit_num_def unit_den_def)

text \<open>inside the selected list element the check lets through more than scalars: a list
  beside the row's field is not reported, so the probe of a memory limit may also replace the
  container's command.\<close>

theorem element_lists_not_reported:
  "patchTargetsField (Some (ingesterPatch [(''command'', JArr xs),
     (''resources'', JObj [(''limits'', JObj [(''memory'', JStr v)])])]))
     (lokiIngesterResource ''limits'' ''memory'' prior) (JStr v) = None"
  using resourcePatch_accepted [of "''limits''" "''memory''" "[(''command'', JArr xs)]" v prior] by simp

end
