(* ===== verification/Brownfield.thy ===== *)
theory Brownfield
  imports Error_Text Kube_Probe Overlay_Fields
begin

text \<open>
  \<open>internal/shared/brownfield/brownfield.go\<close>: which overlay changes the live objects lack, and the
  unattended repair that deletes and lets Argo CD recreate them. What the cluster answers is the
  record \<open>bfCluster\<close>, one field per question; the writes of a pass are returned as a trace. YAML
  parsing (a third-party package) and reading a patch back from its JSON text are two of the
  fields. \<open>attempted\<close> is the caller's set of ids and warning keys of this run.
\<close>

subsection \<open>Migrations and their states\<close>

record migration =
  mgID :: string
  mgStrategy :: string
  mgWhy :: string
  mgThen :: string
  mgAuto :: bool

definition strategyOrphanRecreate :: string where
  "strategyOrphanRecreate = ''orphan-recreate''"

definition migrations :: "migration list" where
  "migrations = [\<lparr>mgID = lokiWALPVCMigration, mgStrategy = strategyOrphanRecreate,
     mgWhy = msg [
       ''the ingester'', sq, ''s WAL is on an emptyDir, so an ingester that OOMs mid-replay replays the '',
       ''identical WAL on every restart and the loop cannot self-heal '', em_dash, '' the only way out is deleting the '',
       ''pod, which discards un-flushed chunks. The claim template that fixes it cannot be added to a '',
       ''StatefulSet that already exists, and while it is pending Argo'', sq, ''s per-object diff also discards '',
       ''every other change to that StatefulSet, including the memory limit that would stop the OOM''],
     mgThen = msg [
       ''DELETE THE INGESTER PODS YOURSELF (kubectl -n monitoring delete pod -l '',
       ''app.kubernetes.io/component=ingester) '', em_dash, '' the StatefulSet will NOT roll them for you. The adopted '',
       ''pods carry an emptyDir where the recreated object declares a PVC, and a StatefulSet cannot roll '',
       ''a volume difference: it retries a forbidden in-place pod update forever and sits at '',
       ''availableReplicas=0. Each ingester'', sq, ''s un-flushed chunks go with its pod, which the crash loop '',
       ''this repairs is already destroying on every restart''],
     mgAuto = True\<rparr>]"

definition migrationFor :: "string \<Rightarrow> migration option" where
  "migrationFor ident = find (\<lambda>m. mgID m = ident) migrations"

datatype migrationState = MigrationDone | MigrationPending | MigrationNotHere | MigrationUnknown

record migrationStatus =
  msMigration :: migration
  msField :: overlayField
  msState :: migrationState
  msDetail :: string
  msDeclared :: json
  msAdvisory :: bool

definition objectLacksValue :: "migrationStatus \<Rightarrow> bool" where
  "objectLacksValue s \<longleftrightarrow> msState s = MigrationPending \<or> msState s = MigrationUnknown \<and> msAdvisory s"

subsection \<open>The owning Application\<close>

record appSource =
  asValues :: string
  asValuesObject :: "(string \<times> json) list"
  asParameters :: "(string \<times> string) list"
  asValueFiles :: "string list"

record ownerPolicy =
  opSelfHeal :: "bool option"   \<comment> \<open>\<open>None\<close>: no \<open>automated\<close> block\<close>
  opSource :: appSource
  opSources :: "appSource list"

text \<open>A Helm parameter's name: dots separate, \<open>\.\<close> is a dot.\<close>

fun helmLoop :: "string \<Rightarrow> string \<Rightarrow> string list" where
  "helmLoop cur [] = [cur]"
| "helmLoop cur [c] = (if c = CHR ''.'' then cur # helmLoop [] [] else helmLoop (cur @ [c]) [])"
| "helmLoop cur (c # d # cs) =
     (if c = CHR 0x5C \<and> d = CHR ''.'' then helmLoop (cur @ ''.'') cs
      else if c = CHR ''.'' then cur # helmLoop [] (d # cs)
      else helmLoop (cur @ [c]) (d # cs))"

definition splitHelmPath :: "string \<Rightarrow> string list" where
  "splitHelmPath name = helmLoop [] name"

text \<open>Setting one parameter: \<open>None\<close> where a value is in the way of the path.\<close>

fun setParam :: "(string \<times> json) list \<Rightarrow> string list \<Rightarrow> json \<Rightarrow> (string \<times> json) list option" where
  "setParam m [] v = Some m"
| "setParam m [k] v = Some (AList.update k v m)"
| "setParam m (seg # k # ks) v = (case map_of m seg of
     None \<Rightarrow> map_option (\<lambda>sub. AList.update seg (JObj sub) m) (setParam [] (k # ks) v)
   | Some (JObj sub) \<Rightarrow> map_option (\<lambda>sub. AList.update seg (JObj sub) m) (setParam sub (k # ks) v)
   | Some _ \<Rightarrow> None)"

definition parametersDoc :: "(string \<times> string) list \<Rightarrow> (string \<times> json) list option" where
  "parametersDoc params =
     (if length params = 0 then None
      else Some (fold (\<lambda>(name, val) doc. case setParam doc (splitHelmPath name) (JStr val) of
             None \<Rightarrow> doc | Some doc' \<Rightarrow> doc') params []))"

definition parseValues :: "(string \<Rightarrow> (string \<times> json) list option) \<Rightarrow> string \<Rightarrow> (string \<times> json) list option" where
  "parseValues yaml vals = (if trim_space vals = [] then None else yaml vals)"

definition sourceDocs :: "(string \<Rightarrow> (string \<times> json) list option) \<Rightarrow> appSource \<Rightarrow> (string \<times> json) list list" where
  "sourceDocs yaml s =
     (case parseValues yaml (asValues s) of Some doc \<Rightarrow> [doc] | None \<Rightarrow> [])
     @ (if length (asValuesObject s) > 0 then [asValuesObject s] else [])
     @ (case parametersDoc (asParameters s) of Some doc \<Rightarrow> [doc] | None \<Rightarrow> [])"

definition valueDocs :: "(string \<Rightarrow> (string \<times> json) list option) \<Rightarrow> ownerPolicy \<Rightarrow> (string \<times> json) list list" where
  "valueDocs yaml p = sourceDocs yaml (opSource p) @ concat (map (sourceDocs yaml) (opSources p))"

definition selfHealing :: "ownerPolicy \<Rightarrow> bool" where
  "selfHealing p \<longleftrightarrow> opSelfHeal p = Some True"

text \<open>The last document that has the path decides.\<close>

definition desiredValue :: "(string \<times> json) list list \<Rightarrow> string list \<Rightarrow> json option" where
  "desiredValue docs path =
     foldl (\<lambda>found doc. case rawValue (JObj doc) path of Some v \<Rightarrow> Some v | None \<Rightarrow> found) None docs"

definition unreadableSources :: "ownerPolicy \<Rightarrow> string list" where
  "unreadableSources p =
     map (\<lambda>s. msg [''helm.valueFiles ('', join '', '' (asValueFiles s), '')''])
       (filter (\<lambda>s. length (asValueFiles s) > 0) (opSource p # opSources p))"

subsection \<open>What the cluster answers\<close>

datatype objAnswer =
    ObjNoAnswer
  | ObjAbsent
  | ObjRead "(string \<times> json) list option" string   \<comment> \<open>decoded, or the decoder's error\<close>

text \<open>The Application: the error text, or its two decodings with the decoders' errors.\<close>

datatype appAnswer =
    AppUnread string
  | AppRead "argoAppJSON option" string "ownerPolicy option" string

record bfCluster =
  bcNow :: instant
  bcRaw :: "string \<rightharpoonup> (string \<times> json) list"   \<comment> \<open>\<open>AplAppRawValues\<close>\<close>
  bcObject :: "overlayField \<Rightarrow> objAnswer"
  bcAttempt :: "string \<Rightarrow> instant option"   \<comment> \<open>\<open>attemptRecord\<close>\<close>
  bcOwner :: "string \<Rightarrow> appAnswer"
  bcYaml :: "string \<Rightarrow> (string \<times> json) list option"
  bcReread :: "json \<Rightarrow> (string \<times> json) list option"   \<comment> \<open>\<open>json.Unmarshal\<close> of \<open>json.Marshal\<close>\<close>
  bcProbe :: "overlayField \<Rightarrow> json \<Rightarrow> string \<times> bool"   \<comment> \<open>the server dry run: output, accepted\<close>
  bcRecord :: "string \<Rightarrow> string option"   \<comment> \<open>error of persisting the attempt\<close>
  bcDelete :: "overlayField \<Rightarrow> string option"   \<comment> \<open>error of the delete\<close>

datatype bfWrite =
    RecordAttempt string
  | ClearAttempt string
  | DeleteOrphan string string string

subsection \<open>Status\<close>

text \<open>\<open>d.Round(time.Minute)\<close> as \<open>String\<close> prints it.\<close>

definition minuteText :: "int \<Rightarrow> string" where
  "minuteText d =
     (let n = (2 * \<bar>d\<bar> + 60 * second) div (120 * second); h = n div 60
      in if n = 0 then ''0s''
         else (if d < 0 then ''-'' else []) @ (if h > 0 then int_dec h @ ''h'' else [])
              @ int_dec (n mod 60) @ ''m0s'')"

definition migrationStatusOf :: "bfCluster \<Rightarrow> migration \<Rightarrow> overlayField \<Rightarrow> migrationStatus" where
  "migrationStatusOf c m f =
     (let st = \<lparr>msMigration = m, msField = f, msState = MigrationDone, msDetail = [], msDeclared = JNull, msAdvisory = False\<rparr>;
          obj = msg [ofKind f, '' '', ofNamespace f, ''/'', ofName f];
          rv = (case bcRaw c (ofApp f) of None \<Rightarrow> [] | Some rv \<Rightarrow> rv)
      in case rawValue (JObj rv) (ofValue f) of
        None \<Rightarrow> st\<lparr>msState := MigrationUnknown, msDetail := msg [''the overlay declares no '', overlayFieldPath f,
                  '' '', em_dash, '' there is no value for this migration to land'']\<rparr>
      | Some decl \<Rightarrow>
          let st = st\<lparr>msDeclared := decl\<rparr>
          in case bcObject c f of
            ObjNoAnswer \<Rightarrow> st\<lparr>msState := MigrationUnknown, msDetail := msg [''could not read '', obj, '' '', em_dash,
              '' '', sq, ''could not tell'', sq, '' is not '', sq, ''nothing to do'', sq]\<rparr>
          | ObjAbsent \<Rightarrow> st\<lparr>msState := MigrationNotHere, msDetail := msg [obj, '' does not exist here'']\<rparr>
          | ObjRead None err \<Rightarrow> st\<lparr>msState := MigrationUnknown, msDetail := msg [obj, '' did not decode: '', err]\<rparr>
          | ObjRead (Some live) _ \<Rightarrow>
              (case overlayFieldDelivered f decl (JObj live) of (match, delivered, readable) \<Rightarrow>
                let attempt = (if readable \<and> \<not> match then bcAttempt c (mgID m) else None)
                in if \<not> readable then st\<lparr>msState := MigrationUnknown, msDetail := msg [join ''.'' (ofLive f),
                       '' does not resolve on the live '', obj, '' '', em_dash,
                       '' the chart has moved what this migration aims at'']\<rparr>
                   else if match then st\<lparr>msState := MigrationDone, msDetail := msg [overlayFieldPath f, '' carries '', fmt_v decl]\<rparr>
                   else (case attempt of
                       Some attemptedAt \<Rightarrow> st\<lparr>msAdvisory := True, msState := MigrationUnknown, msDetail := msg [
                         ''this migration was already applied to '', obj, '' '', minuteText (time_sub (bcNow c) attemptedAt),
                         '' ago and '', overlayFieldPath f, '' is STILL '', delivered, ''. A recreate applies '',
                         ''the whole desired object, so a field missing after one is a field the chart is not '',
                         ''delivering; doing it again reproduces the same shape. Check the rendered values reached '',
                         ''apl-core, then `llz ci brownfield-migrate --id '', mgID m, '' --yes --force` if you disagree'']\<rparr>
                     | None \<Rightarrow> st\<lparr>msState := MigrationPending, msDetail := msg [overlayFieldPath f, '' declares '',
                         fmt_v decl, ''; '', obj, '' has '', delivered]\<rparr>)))"

definition fieldStatus :: "bfCluster \<Rightarrow> overlayField \<Rightarrow> migrationStatus option" where
  "fieldStatus c f =
     (if \<not> ofCreateOnly f \<or> ofMigration f = [] then None
      else case migrationFor (ofMigration f) of
        None \<Rightarrow> Some \<lparr>msMigration = \<lparr>mgID = ofMigration f, mgStrategy = [], mgWhy = [], mgThen = [], mgAuto = False\<rparr>,
          msField = f, msState = MigrationUnknown, msDetail = msg [overlayFieldPath f, '' names migration '',
            dq, ofMigration f, dq, '' and nothing registers it '', em_dash, '' the field can never be landed by anything here''],
          msDeclared = JNull, msAdvisory = False\<rparr>
      | Some m \<Rightarrow> Some (migrationStatusOf c m f))"

definition migrationStatuses :: "bfCluster \<Rightarrow> migrationStatus list" where
  "migrationStatuses c = List.map_filter (fieldStatus c) overlayFields"

subsection \<open>May the object be deleted?\<close>

definition ownerCanRecreate :: "bfCluster \<Rightarrow> overlayField \<Rightarrow> json \<Rightarrow> bool \<times> string" where
  "ownerCanRecreate c f decl =
     (if ofOwnerApp f = [] then
        (False, msg [''the field map names no owning Application for '', overlayFieldPath f,
           '', so nothing here can say whether the object would be recreated''])
      else case bcOwner c (ofOwnerApp f) of
        AppUnread out \<Rightarrow>
          (False, msg [''could not read Application '', argoNamespace, ''/'', ofOwnerApp f, '' ('', firstLine out, '') '', em_dash,
             '' '', sq, ''could not tell'', sq, '' is not '', sq, ''safe to delete'', sq])
      | AppRead raw appErr policy policyErr \<Rightarrow>
          let application = ''Application '' @ ofOwnerApp f
          in case parseArgoApp raw of
            None \<Rightarrow> (False, msg [application, '' did not parse: '', appErr])
          | Some app \<Rightarrow>
              if aSpecErr app \<noteq> [] then
                (False, msg [application, '' cannot compute its target state ('', firstLine (aSpecErr app), '') '', em_dash,
                   '' it could not recreate what this migration deletes''])
              else if aSync app \<noteq> ''Synced'' then
                (False, msg [application, '' is '', aSync app, '', not Synced '', em_dash,
                   '' deleting an object it is not currently applying risks leaving it deleted''])
              else case policy of
                None \<Rightarrow> (False, msg [application, '': could not read its sync policy or desired values: '', policyErr])
              | Some pol \<Rightarrow>
                  if \<not> selfHealing pol then
                    (False, msg [application, '' does not self-heal (syncPolicy.automated.selfHeal is not true) '', em_dash,
                       '' Argo would not put back what this migration deletes, so the delete would be permanent''])
                  else
                    let docs = valueDocs (bcYaml c) pol;
                        unreadable = unreadableSources pol
                    in if length docs = 0 then
                         (let why = ''no spec.source.helm.values/valuesObject/parameters and no spec.sources[] with one'';
                              why = (if length unreadable > 0 then
                                  msg [''its values live in '', join ''; '' unreadable,
                                    '', which are files in the source repo rather than fields on the Application'']
                                else why)
                          in (False, msg [application, '' carries no Helm values this check can read ('', why, '') '', em_dash,
                               '' the guard cannot tell whether recreating would deliver '', overlayFieldPath f,
                               '', so it will not delete. If apl-core has changed how it renders, ownerPolicy.valueDocs needs the new shape'']))
                       else case desiredValue docs (ofValue f) of
                         None \<Rightarrow>
                           if length unreadable > 0 then
                             (False, msg [application, '' does not declare '', overlayFieldPath f,
                                '' in the values this guard can read, and it also carries '', join ''; '' unreadable, '' '', em_dash,
                                '' files in the source repo that this cannot open, so '', dq, ''not declared'', dq, '' cannot be concluded''])
                           else
                             (False, msg [application, '' does not yet declare '', overlayFieldPath f, '' in its rendered values '', em_dash,
                                '' recreating the object would reproduce the same shape. The overlay has not reached apl-core'', sq, ''s render yet''])
                       | Some got \<Rightarrow>
                           if fmt_v got \<noteq> fmt_v decl then
                             (False, msg [application, '' declares '', overlayFieldPath f, '' = '', fmt_v got,
                                '', but this migration is landing '', fmt_v decl, '' '', em_dash,
                                '' recreating would deliver the Application'', sq, ''s value, not the overlay'', sq, ''s''])
                           else (True, []))"

text \<open>An error of the pre-delete check: \<open>Inconclusive\<close> where the cluster could not be asked.\<close>

datatype recreateError =
    ProbeInconclusive string
  | Refused string

definition createOnlyStillHolds :: "bfCluster \<Rightarrow> overlayField \<Rightarrow> recreateError option" where
  "createOnlyStillHolds c f =
     (let obj = msg [ofKind f, '' '', ofNamespace f, ''/'', ofName f]
      in case bcRaw c (ofApp f) of
        None \<Rightarrow> Some (Refused (msg [''the overlay declares no _rawValues for app '', ofApp f,
          '', so this migration'', sq, ''s CreateOnly claim cannot be checked against the cluster '', em_dash, '' refusing to delete '', obj,
          '' on a claim nothing can confirm'']))
      | Some rv \<Rightarrow>
          (case rawValue (JObj rv) (ofValue f) of
             None \<Rightarrow> Some (Refused (msg [''the overlay declares no '', overlayFieldPath f, '', so this migration'', sq,
               ''s CreateOnly claim cannot be checked against the cluster '', em_dash, '' refusing to delete '', obj,
               '' on a claim nothing can confirm'']))
           | Some decl \<Rightarrow>
               (case ofPatch f (JObj rv) of
                  Inr err \<Rightarrow> Some (Refused (msg [''could not build the probe that would confirm '', overlayFieldPath f,
                    '' is create-only ('', err, '') '', em_dash, '' refusing to delete '', obj, '' on a claim nothing can confirm'']))
                | Inl patch \<Rightarrow>
                    (case patchTargetsField (bcReread c patch) f decl of
                       Some err \<Rightarrow> Some (Refused (msg [''cannot confirm '', overlayFieldPath f,
                         '' is create-only before deleting '', obj, '': '', patchErrorText f decl err,
                         ''. Whatever the apiserver says about that patch is evidence about a DIFFERENT field'']))
                     | None \<Rightarrow>
                         (case bcProbe c f patch of (out, accepted) \<Rightarrow>
                            if accepted then Some (Refused (msg [overlayFieldPath f,
                              '' is declared CreateOnly, but this cluster'', sq, ''s apiserver ACCEPTED the change '',
                              ''as an ordinary patch to the existing '', obj, ''. Deleting it would recreate a live workload'', sq,
                              ''s controller to land a value a patch would have landed. Refusing. Either the field map'', sq,
                              ''s CreateOnly is wrong for this apiserver version, or the row'', sq, ''s Patch is not sending what it '',
                              ''claims '', em_dash, '' `llz ci assert-overlay-appliability` is the PR-time half of this question'']))
                            else if \<not> isImmutableFieldRejection out then
                              (let err = msg [''could not confirm '', overlayFieldPath f, '' is create-only before deleting '', obj,
                                    '': the apiserver refused the probe for a reason this does not classify as immutability, '',
                                    ''which may be a permission or transport fault rather than a verdict about the field. '', sq,
                                    ''Could not tell'', sq, '' is not '', sq, ''go ahead and delete'', sq, ''. The apiserver said: '', refusalText out]
                               in if isTransientFetchError out then Some (ProbeInconclusive err) else Some (Refused err))
                            else None)))))"

definition strategySupported :: "migration \<Rightarrow> string option" where
  "strategySupported m =
     (if mgStrategy m = strategyOrphanRecreate then None
      else Some (msg [mgID m, '' declares strategy '', dq, mgStrategy m, dq,
        '', which nothing here implements '', em_dash, '' refusing to guess at a repair for a live object'']))"

definition recreate :: "bfCluster \<Rightarrow> migration \<Rightarrow> overlayField \<Rightarrow> bfWrite list \<times> recreateError option" where
  "recreate c m f =
     (if mgStrategy m = strategyOrphanRecreate then
        (case createOnlyStillHolds c f of
           Some (ProbeInconclusive err) \<Rightarrow> ([], Some (ProbeInconclusive (mgID m @ '': '' @ err)))
         | Some (Refused err) \<Rightarrow> ([], Some (Refused (mgID m @ '': '' @ err)))
         | None \<Rightarrow>
             ([DeleteOrphan (ofNamespace f) (ofKind f) (ofName f)],
              map_option (\<lambda>e. Refused (msg [mgID m, '': deleting '', ofKind f, '' '', ofNamespace f, ''/'', ofName f,
                '' (--cascade=orphan): '', e])) (bcDelete c f)))
      else ([], map_option Refused (strategySupported m)))"

subsection \<open>The unattended pass\<close>

record applyResult =
  arApplied :: "string list"
  arDeferred :: "string list"
  arInconclusive :: "string list"
  arNotHere :: "string list"
  arErrs :: "string list"

definition empty_applyResult :: applyResult where
  "empty_applyResult = \<lparr>arApplied = [], arDeferred = [], arInconclusive = [], arNotHere = [], arErrs = []\<rparr>"

definition warnedKey :: "string \<Rightarrow> string" where
  "warnedKey ident = ''warned:'' @ ident"

text \<open>The body of the loop: result, attempted keys, writes.\<close>

definition applyStatus ::
  "bfCluster \<Rightarrow> migrationStatus \<Rightarrow> applyResult \<times> string set \<times> bfWrite list \<Rightarrow> applyResult \<times> string set \<times> bfWrite list" where
  "applyStatus c st s = (case s of (r, attempted, writes) \<Rightarrow>
     let m = msMigration st; ident = mgID m; f = msField st
     in if ident \<in> attempted then (r, attempted, writes)
        else if msState st = MigrationNotHere then (r\<lparr>arNotHere := arNotHere r @ [ident]\<rparr>, attempted, writes)
        else if msState st = MigrationUnknown then
          (r\<lparr>arInconclusive := arInconclusive r @ [ident]\<rparr>, insert (warnedKey ident) attempted, writes)
        else if msState st \<noteq> MigrationPending then (r, attempted, writes)
        else if \<not> mgAuto m then
          (r\<lparr>arDeferred := arDeferred r @ [ident]\<rparr>, insert (warnedKey ident) attempted, writes)
        else if \<not> fst (ownerCanRecreate c f (msDeclared st)) then
          (r\<lparr>arInconclusive := arInconclusive r @ [ident]\<rparr>, insert (warnedKey ident) attempted, writes)
        else
          let attempted = insert ident attempted
          in case strategySupported m of
            Some err \<Rightarrow> (r\<lparr>arErrs := arErrs r @ [err]\<rparr>, attempted, writes)
          | None \<Rightarrow>
              (case bcRecord c ident of
                 Some err \<Rightarrow> (r\<lparr>arErrs := arErrs r @ [err]\<rparr>, attempted, writes)
               | None \<Rightarrow>
                   let writes = writes @ [RecordAttempt ident]
                   in (case recreate c m f of
                       (ws, Some (ProbeInconclusive _)) \<Rightarrow>
                         (r\<lparr>arInconclusive := arInconclusive r @ [ident]\<rparr>, attempted, writes @ ws @ [ClearAttempt ident])
                     | (ws, Some (Refused err)) \<Rightarrow>
                         (r\<lparr>arErrs := arErrs r @ [err]\<rparr>, attempted, writes @ ws @ [ClearAttempt ident])
                     | (ws, None) \<Rightarrow> (r\<lparr>arApplied := arApplied r @ [ident]\<rparr>, attempted, writes @ ws))))"

definition applyPending :: "bfCluster \<Rightarrow> string set \<Rightarrow> applyResult \<times> string set \<times> bfWrite list" where
  "applyPending c attempted =
     fold (applyStatus c) (migrationStatuses c) (empty_applyResult, attempted, [])"

subsection \<open>Lemmas\<close>

text \<open>The last row of the field map is the only one with a migration.\<close>

lemma migrationStatuses_wal: "migrationStatuses c = [migrationStatusOf c (hd migrations) walRow]"
  by (simp add: migrationStatuses_def overlayFields_def walRow_def lokiIngesterResource_def fieldStatus_def
      migrationFor_def migrations_def map_filter_simps lokiWALPVCMigration_def)

lemma migrationStatusOf_sel [simp]:
  "msMigration (migrationStatusOf c m f) = m" "msField (migrationStatusOf c m f) = f"
  by (auto simp: migrationStatusOf_def Let_def split: option.splits objAnswer.splits prod.splits)

lemma hd_migrations [simp]: "mgID (hd migrations) = lokiWALPVCMigration" "mgAuto (hd migrations)"
  "strategySupported (hd migrations) = None"
  by (simp_all add: migrations_def strategySupported_def)

text \<open>When is a migration pending, and when is its owner trusted to recreate the object?\<close>

lemma pending_iff:
  "msState (migrationStatusOf c m f) = MigrationPending \<longleftrightarrow>
     (\<exists>rv decl live err sent. bcRaw c (ofApp f) = rv
        \<and> rawValue (JObj (case rv of None \<Rightarrow> [] | Some rv \<Rightarrow> rv)) (ofValue f) = Some decl
        \<and> msDeclared (migrationStatusOf c m f) = decl \<and> bcObject c f = ObjRead (Some live) err
        \<and> overlayFieldDelivered f decl (JObj live) = (False, sent, True) \<and> bcAttempt c (mgID m) = None)"
  by (auto simp: migrationStatusOf_def Let_def split: option.splits objAnswer.splits prod.splits if_splits)

lemma ownerCanRecreate_iff:
  "fst (ownerCanRecreate c f decl) \<longleftrightarrow> ofOwnerApp f \<noteq> [] \<and>
     (\<exists>raw e1 pol e2 app got. bcOwner c (ofOwnerApp f) = AppRead raw e1 (Some pol) e2 \<and>
        parseArgoApp raw = Some app \<and> aSpecErr app = [] \<and> aSync app = ''Synced'' \<and> selfHealing pol \<and>
        valueDocs (bcYaml c) pol \<noteq> [] \<and>
        desiredValue (valueDocs (bcYaml c) pol) (ofValue f) = Some got \<and> fmt_v got = fmt_v decl)"
  by (cases "bcOwner c (ofOwnerApp f)")
    (auto simp: ownerCanRecreate_def Let_def split: option.splits if_splits)

lemma createOnlyStillHolds_None:
  "createOnlyStillHolds c f = None \<longleftrightarrow>
     (\<exists>rv decl patch out. bcRaw c (ofApp f) = Some rv \<and> rawValue (JObj rv) (ofValue f) = Some decl \<and>
        ofPatch f (JObj rv) = Inl patch \<and> patchTargetsField (bcReread c patch) f decl = None \<and>
        bcProbe c f patch = (out, False) \<and> isImmutableFieldRejection out)"
  by (auto simp: createOnlyStillHolds_def Let_def split: option.splits sum.splits prod.splits if_splits)

lemma createOnlyStillHolds_inconclusive:
  "createOnlyStillHolds c f = Some (ProbeInconclusive e) \<Longrightarrow>
     \<exists>rv patch out. bcRaw c (ofApp f) = Some rv \<and> ofPatch f (JObj rv) = Inl patch \<and>
        bcProbe c f patch = (out, False) \<and> isTransientFetchError out"
  by (auto simp: createOnlyStillHolds_def Let_def split: option.splits sum.splits prod.splits if_splits)

text \<open>One step of the pass: what it tries, what it writes, what it remembers.\<close>

definition tries :: "bfCluster \<Rightarrow> migrationStatus \<Rightarrow> string set \<Rightarrow> bool" where
  "tries c st attempted \<longleftrightarrow> mgID (msMigration st) \<notin> attempted \<and> msState st = MigrationPending \<and>
     mgAuto (msMigration st) \<and> fst (ownerCanRecreate c (msField st) (msDeclared st))"

definition newWrites :: "bfCluster \<Rightarrow> migrationStatus \<Rightarrow> string set \<Rightarrow> bfWrite list" where
  "newWrites c st attempted =
     (let ident = mgID (msMigration st); f = msField st
      in if \<not> tries c st attempted \<or> strategySupported (msMigration st) \<noteq> None \<or> bcRecord c ident \<noteq> None then []
         else RecordAttempt ident #
           (if createOnlyStillHolds c f \<noteq> None then [ClearAttempt ident]
            else DeleteOrphan (ofNamespace f) (ofKind f) (ofName f) #
              (if bcDelete c f \<noteq> None then [ClearAttempt ident] else [])))"

lemma applyStatus_writes:
  "snd (snd (applyStatus c st (r, attempted, ws))) = ws @ newWrites c st attempted"
  by (auto simp: applyStatus_def newWrites_def tries_def recreate_def Let_def strategySupported_def
      split: option.splits recreateError.splits if_splits migrationState.splits)

lemma applyStatus_tries:
  "tries c st attempted \<Longrightarrow> fst (snd (applyStatus c st (r, attempted, ws))) = insert (mgID (msMigration st)) attempted"
  by (auto simp: applyStatus_def tries_def Let_def split: option.splits recreateError.splits prod.splits)

lemma applyStatus_attempted:
  "mgID (msMigration st) \<in> attempted \<Longrightarrow> applyStatus c st (r, attempted, ws) = (r, attempted, ws)"
  by (simp add: applyStatus_def Let_def)

lemma applyPending_wal:
  "applyPending c attempted =
     applyStatus c (migrationStatusOf c (hd migrations) walRow) (empty_applyResult, attempted, [])"
  by (simp add: applyPending_def migrationStatuses_wal)

subsection \<open>Helm parameter paths\<close>

text \<open>Escaping the dots of a segment.\<close>

fun escapeDots :: "string \<Rightarrow> string" where
  "escapeDots [] = []"
| "escapeDots (c # cs) = (if c = CHR ''.'' then CHR 0x5C # CHR ''.'' # escapeDots cs else c # escapeDots cs)"

lemma helmLoop_end:
  "CHR 0x5C \<notin> set seg \<Longrightarrow> helmLoop cur (escapeDots seg) = [cur @ seg]"
proof (induction seg arbitrary: cur)
  case (Cons c seg)
  then show ?case
    by (cases "escapeDots seg"; cases seg) (auto split: if_splits)
qed simp

lemma helmLoop_segment:
  "CHR 0x5C \<notin> set seg \<Longrightarrow> helmLoop cur (escapeDots seg @ CHR ''.'' # rest) = (cur @ seg) # helmLoop [] rest"
proof (induction seg arbitrary: cur)
  case Nil
  show ?case by (cases rest) auto
next
  case (Cons c seg)
  obtain d ds where d: "escapeDots seg @ CHR ''.'' # rest = d # ds" by (cases "escapeDots seg") auto
  show ?case
  proof (cases "c = CHR ''.''")
    case True
    then show ?thesis using Cons by simp
  next
    case False
    then have "helmLoop cur (escapeDots (c # seg) @ CHR ''.'' # rest) = helmLoop (cur @ [c]) (escapeDots seg @ CHR ''.'' # rest)"
      using Cons.prems by (auto simp: d)
    then show ?thesis using Cons by simp
  qed
qed

lemma splitHelmPath_join:
  assumes "segs \<noteq> []" and "\<forall>seg \<in> set segs. CHR 0x5C \<notin> set seg"
  shows "splitHelmPath (join ''.'' (map escapeDots segs)) = segs"
  using assms
proof (induction segs rule: list_nonempty_induct)
  case (single seg)
  then show ?case using helmLoop_end [of seg "[]"] by (simp add: splitHelmPath_def)
next
  case (cons seg segs)
  then show ?case
    using helmLoop_segment [of seg "[]"] by (simp add: splitHelmPath_def join_Cons)
qed

lemma setParam_get: "ks \<noteq> [] \<Longrightarrow> setParam m ks v = Some m' \<Longrightarrow> rawValue (JObj m') ks = Some v"
proof (induction m ks v arbitrary: m' rule: setParam.induct)
  case (2 m k v)
  then show ?case by (auto simp: update_conv')
next
  case (3 m seg k ks v)
  from "3.prems"(2) obtain base sub where sub: "setParam base (k # ks) v = Some sub"
    and m': "m' = AList.update seg (JObj sub) m"
    and base: "base = [] \<and> map_of m seg = None \<or> map_of m seg = Some (JObj base)"
    by (auto split: option.splits json.splits)
  have "rawValue (JObj sub) (k # ks) = Some v" using "3.IH" sub base by auto
  then show ?case by (simp add: m' update_conv' del: rawValue.simps(2)) (simp add: update_conv')
qed simp

subsection \<open>Properties\<close>

text \<open>A cluster with the old StatefulSet; the argument is the answer to the probe.\<close>

definition lokiRaw :: "(string \<times> json) list" where
  "lokiRaw = [(''ingester'', JObj [(''persistence'', JObj [(''enabled'', JBool True),
     (''claims'', JArr [JObj [(''name'', JStr ''data''), (''size'', JStr ''10Gi'')]])])])]"

definition oldLoki :: "string \<Rightarrow> bfCluster" where
  "oldLoki out =
     (let src = \<lparr>asValues = [], asValuesObject = lokiRaw, asParameters = [], asValueFiles = []\<rparr>;
          app = \<lparr>jName = ''monitoring-loki'', jProject = [], jDestNamespace = [], jAutomated = ''{}'', jSync = ''Synced'',
            jHealth = ''Healthy'', jConditions = [], jOpPhase = [], jOpMessage = [], jResources = []\<rparr>
      in \<lparr>bcNow = 0, bcRaw = [''loki'' \<mapsto> lokiRaw], bcObject = (\<lambda>_. ObjRead (Some [(''spec'', JObj [])]) []),
          bcAttempt = (\<lambda>_. None),
          bcOwner = (\<lambda>_. AppRead (Some app) [] (Some \<lparr>opSelfHeal = Some True, opSource = src, opSources = []\<rparr>) []),
          bcYaml = (\<lambda>_. None),
          bcReread = (\<lambda>p. case p of JObj m \<Rightarrow> Some m | _ \<Rightarrow> None),
          bcProbe = (\<lambda>_ _. (out, False)), bcRecord = (\<lambda>_. None), bcDelete = (\<lambda>_. None)\<rparr>)"



text \<open>a probe that the cluster did not answer is reported as inconclusive, to be asked again,
  but the id stays among the attempted ones: whatever the cluster answers later in the run, no
  later pass tries it again or even reports it.\<close>

theorem inconclusive_probe_not_asked_again:
  assumes "tries c (migrationStatusOf c (hd migrations) walRow) attempted"
    and "bcRecord c lokiWALPVCMigration = None" and "createOnlyStillHolds c walRow = Some (ProbeInconclusive e)"
  shows "case applyPending c attempted of (r, attempted', ws) \<Rightarrow>
    arInconclusive r = [lokiWALPVCMigration] \<and> arErrs r = [] \<and>
    (\<forall>later. applyPending later attempted' = (empty_applyResult, attempted', []))"
proof -
  obtain r attempted' ws where p: "applyPending c attempted = (r, attempted', ws)"
    by (cases "applyPending c attempted") auto
  have "attempted' = insert lokiWALPVCMigration attempted"
    using applyStatus_tries [OF assms(1), of empty_applyResult "[]"] p by (simp add: applyPending_wal)
  then have "\<forall>later. applyPending later attempted' = (empty_applyResult, attempted', [])"
    by (simp add: applyPending_wal applyStatus_attempted)
  moreover have "arInconclusive r = [lokiWALPVCMigration] \<and> arErrs r = []"
    using p assms by (auto simp: applyPending_wal applyStatus_def tries_def Let_def recreate_def strategySupported_def
        empty_applyResult_def migrations_def split: if_splits)
  ultimately show ?thesis by (simp add: p)
qed

theorem inconclusive_probe_not_asked_again_witness:
  "\<exists>attempted'. fst (snd (applyPending (oldLoki ''dial tcp: i/o timeout'') {})) = attempted' \<and>
     applyPending (oldLoki ''spec: field is immutable'') attempted' = (empty_applyResult, attempted', [])"
proof -
  let ?c = "oldLoki ''dial tcp: i/o timeout''"
  have t: "tries ?c (migrationStatusOf ?c (hd migrations) walRow) {}" by code_simp
  have h: "createOnlyStillHolds ?c walRow = Some (ProbeInconclusive
      (case createOnlyStillHolds ?c walRow of Some (ProbeInconclusive e) \<Rightarrow> e | _ \<Rightarrow> []))" by code_simp
  have "bcRecord ?c lokiWALPVCMigration = None" by (simp add: oldLoki_def Let_def)
  from inconclusive_probe_not_asked_again [OF t this h] show ?thesis by (auto split: prod.splits)
qed

text \<open>Helm parameter names: a name made of escaped segments splits into exactly these segments,
  and the value set under it is the one read back at that path.\<close>

theorem helm_parameter_read_back:
  assumes "segs \<noteq> []" and "\<forall>seg \<in> set segs. CHR 0x5C \<notin> set seg"
    and "setParam doc (splitHelmPath (join ''.'' (map escapeDots segs))) v = Some doc'"
  shows "desiredValue (docs @ [doc']) segs = Some v"
  using assms setParam_get [of segs doc v doc'] splitHelmPath_join [OF assms(1,2)]
  by (simp add: desiredValue_def)

theorem helm_parameter_read_back_witness:
  "desiredValue [[(''labels'', JObj [(''app.kubernetes.io/name'', JStr ''loki'')])]] [''labels'', ''app.kubernetes.io/name'']
     = Some (JStr ''loki'')"
  using helm_parameter_read_back [of "[''labels'', ''app.kubernetes.io/name'']" "[]" "JStr ''loki''"
      "[(''labels'', JObj [(''app.kubernetes.io/name'', JStr ''loki'')])]" "[]"]
    splitHelmPath_join [of "[''labels'', ''app.kubernetes.io/name'']"] by simp

end
