(* ===== verification/Ownership.thy ===== *)
theory Ownership
  imports Argo_Apps "HOL-Library.AList"
begin

text \<open>
  \<open>internal/shared/health/ownership.go\<close>: which cluster resources belong to the instance
  (and so never gate the platform verdict). A Go map used as a set is a set; a map iterated in
  random order is only used for what does not depend on the order. \<open>generated\<close> is
  \<open>None\<close> for the nil map of the zero value.
\<close>

subsection \<open>The index\<close>

record ownershipIndex =
  ixOwned :: "resourceRef set"
  ixGenerated :: "(resourceRef \<rightharpoonup> resourceRef) option"
  ixStatefulSets :: "(string \<times> string) set"   \<comment> \<open>namespace and name\<close>
  ixPlatformDeclared :: "resourceRef set"
  ixPlatformNamespaces :: "string set"
  ixPlatformOccupied :: "string set"
  ixInstanceNamespaces :: "string set"
  ixPlatformUnresolved :: "string list"
  ixPlatformUnresolvedNS :: "string set"
  ixPlatformUnresolvedAnywhere :: bool
  ixInstanceDeclaredNS :: "string set"
  ixPlatformAppNS :: "(string \<times> string list) list"
  ixMisprojected :: "string list"
  ixContested :: nat
  ixUnresolved :: "string list"

definition zero_index :: ownershipIndex where
  "zero_index = \<lparr>ixOwned = {}, ixGenerated = None, ixStatefulSets = {}, ixPlatformDeclared = {},
     ixPlatformNamespaces = {}, ixPlatformOccupied = {}, ixInstanceNamespaces = {},
     ixPlatformUnresolved = [], ixPlatformUnresolvedNS = {}, ixPlatformUnresolvedAnywhere = False,
     ixInstanceDeclaredNS = {}, ixPlatformAppNS = [], ixMisprojected = [], ixContested = 0,
     ixUnresolved = []\<rparr>"

definition argoCompared :: "argoApp \<Rightarrow> bool" where
  "argoCompared a \<longleftrightarrow> aSync a = ''Synced'' \<or> aSync a = ''OutOfSync''"

definition append_at :: "'k \<Rightarrow> 'v \<Rightarrow> ('k \<times> 'v list) list \<Rightarrow> ('k \<times> 'v list) list" where
  "append_at k v m =
     AList.update k ((case map_of m k of None \<Rightarrow> [] | Some vs \<Rightarrow> vs) @ [v]) m"

definition declarePlatform :: "string \<Rightarrow> resourceRef \<Rightarrow> ownershipIndex \<Rightarrow> ownershipIndex" where
  "declarePlatform app res idx =
     (let idx = idx\<lparr>ixPlatformDeclared := insert res (ixPlatformDeclared idx)\<rparr>
      in if rNamespace res \<noteq> []
         then idx\<lparr>ixPlatformOccupied := insert (rNamespace res) (ixPlatformOccupied idx),
                   ixPlatformAppNS := append_at app (rNamespace res) (ixPlatformAppNS idx)\<rparr>
         else idx)"

definition declareInstance :: "resourceRef \<Rightarrow> ownershipIndex \<Rightarrow> ownershipIndex" where
  "declareInstance res idx =
     (let idx = idx\<lparr>ixOwned := insert res (ixOwned idx)\<rparr>
      in if rNamespace res \<noteq> []
         then idx\<lparr>ixInstanceDeclaredNS := insert (rNamespace res) (ixInstanceDeclaredNS idx)\<rparr>
         else idx)"

text \<open>The body of the first loop of \<open>NewOwnershipIndex\<close>.\<close>

definition indexApp :: "argoApp \<Rightarrow> ownershipIndex \<Rightarrow> ownershipIndex" where
  "indexApp a idx =
     (if \<not> isInstanceOwnedApp a then
        let idx = (if length (aResources a) = 0 \<and> \<not> argoCompared a then
                     let idx = idx\<lparr>ixPlatformUnresolved := ixPlatformUnresolved idx @ [aName a]\<rparr>
                     in if aDestNamespace a = []
                        then idx\<lparr>ixPlatformUnresolvedAnywhere := True\<rparr>
                        else idx\<lparr>ixPlatformUnresolvedNS :=
                                   insert (aDestNamespace a) (ixPlatformUnresolvedNS idx)\<rparr>
                   else idx);
            idx = (if aDestNamespace a \<noteq> []
                   then idx\<lparr>ixPlatformOccupied := insert (aDestNamespace a) (ixPlatformOccupied idx)\<rparr>
                   else idx)
        in fold (declarePlatform (aName a)) (aResources a) idx
      else if length (aResources a) = 0 then
        (if \<not> argoCompared a then idx\<lparr>ixUnresolved := ixUnresolved idx @ [aName a]\<rparr> else idx)
      else fold declareInstance (aResources a) idx)"

definition newOwnershipIndex :: "argoApp list \<Rightarrow> ownershipIndex" where
  "newOwnershipIndex apps =
     (let idx = fold indexApp apps (zero_index\<lparr>ixGenerated := Some Map.empty\<rparr>);
          clash = {ref \<in> ixPlatformDeclared idx. ref \<in> ixOwned idx};
          idx = idx\<lparr>ixOwned := ixOwned idx - clash, ixContested := card clash\<rparr>
      in idx\<lparr>ixStatefulSets :=
           (\<lambda>ref. (rNamespace ref, rName ref)) ` {ref \<in> ixOwned idx. rKind ref = ''StatefulSet''}\<rparr>)"

definition platformReservedNamespaces :: "string set" where
  "platformReservedNamespaces = {''kube-system''}"

definition indexNamespaces :: "ownershipIndex \<Rightarrow> string list" where
  "indexNamespaces i = sorted_list_of_set (rNamespace ` {ref \<in> ixOwned i. rNamespace ref \<noteq> []})"

definition misprojectedApps :: "ownershipIndex \<Rightarrow> string list" where
  "misprojectedApps i =
     sort (map fst (filter (\<lambda>(name, namespaces).
       length namespaces > 0 \<and>
       list_all (\<lambda>ns. \<not> (ns \<notin> ixInstanceDeclaredNS i \<or> ns \<in> ixPlatformNamespaces i
                        \<or> ns \<in> platformReservedNamespaces)) namespaces) (ixPlatformAppNS i)))"

definition withPlatformNamespaces :: "string list \<Rightarrow> ownershipIndex \<Rightarrow> ownershipIndex" where
  "withPlatformNamespaces ns i =
     (let i = i\<lparr>ixPlatformNamespaces := set ns\<rparr>;
          i = i\<lparr>ixInstanceNamespaces :=
                  set (filter (\<lambda>n. n \<notin> ixPlatformNamespaces i \<and> n \<notin> ixPlatformOccupied i
                                 \<and> n \<notin> platformReservedNamespaces) (indexNamespaces i))\<rparr>
      in i\<lparr>ixMisprojected := misprojectedApps i\<rparr>)"

definition instanceNamespaces :: "ownershipIndex \<Rightarrow> string list" where
  "instanceNamespaces i = sorted_list_of_set (ixInstanceNamespaces i)"

definition platformUnresolvedNamespaces :: "ownershipIndex \<Rightarrow> string list" where
  "platformUnresolvedNamespaces i = sorted_list_of_set (ixPlatformUnresolvedNS i)"

definition recordGenerated :: "resourceRef \<Rightarrow> resourceRef \<Rightarrow> ownershipIndex \<Rightarrow> ownershipIndex" where
  "recordGenerated child parent i = (case ixGenerated i of
     None \<Rightarrow> i
   | Some g \<Rightarrow> if rKind child = [] \<or> rName child = [] then i
               else i\<lparr>ixGenerated := Some (g(child \<mapsto> parent))\<rparr>)"

definition platformMayClaim :: "ownershipIndex \<Rightarrow> string \<Rightarrow> bool" where
  "platformMayClaim i ns =
     (if length (ixPlatformUnresolved i) = 0 then False
      else if ixPlatformUnresolvedAnywhere i \<and> ns \<in> ixPlatformNamespaces i then True
      else ns \<in> ixPlatformUnresolvedNS i)"

definition ownsStatefulSetPVC :: "ownershipIndex \<Rightarrow> resourceRef \<Rightarrow> bool" where
  "ownsStatefulSetPVC i ref =
     (if rKind ref \<noteq> ''PersistentVolumeClaim'' then False
      else case last_index_of (CHR ''-'') (rName ref) of
        None \<Rightarrow> False
      | Some k \<Rightarrow>
          if k = 0 then False
          else (case atoi (drop (Suc k) (rName ref)) of
              None \<Rightarrow> False
            | Some _ \<Rightarrow>
                (\<exists>p \<in> ixStatefulSets i. fst p = rNamespace ref
                   \<and> has_suffix (take k (rName ref)) (''-'' @ snd p))))"

definition generatedParent :: "ownershipIndex \<Rightarrow> resourceRef \<Rightarrow> resourceRef option" where
  "generatedParent i ref = (case ixGenerated i of None \<Rightarrow> None | Some g \<Rightarrow> g ref)"

definition owns :: "ownershipIndex \<Rightarrow> resourceRef \<Rightarrow> bool" where
  "owns i ref =
     (if rKind ref = [] \<or> rName ref = [] then False
      else if rNamespace ref \<in> platformReservedNamespaces then False
      else if platformMayClaim i (rNamespace ref) then False
      else if ref \<in> ixOwned i then True
      else if (case generatedParent i ref of None \<Rightarrow> False | Some parent \<Rightarrow> parent \<in> ixOwned i) then True
      else if ownsStatefulSetPVC i ref then True
      else if length (ixPlatformUnresolved i) > 0 then False
      else rNamespace ref \<in> ixInstanceNamespaces i \<and> ref \<notin> ixPlatformDeclared i)"

definition instanceOwnedSuffix :: string where
  "instanceOwnedSuffix = msg [
     ''  '', dbl_arrow,
       '' instance-owned (operator escape hatch); reported, does NOT gate platform '',
       ''convergence'']"

subsection \<open>Owners of pods and workflows\<close>

record ownerRef =
  oKind :: string
  oName :: string
  oAPIVersion :: string
  oController :: "bool option"

fun controllerOwnerLoop :: "ownerRef option \<Rightarrow> ownerRef list \<Rightarrow> ownerRef option" where
  "controllerOwnerLoop first [] = first"
| "controllerOwnerLoop first (w # ws) =
     (if oKind w = [] \<or> oName w = [] then controllerOwnerLoop first ws
      else if oController w = Some True then Some w
      else controllerOwnerLoop (if first = None then Some w else first) ws)"

definition controllerOwner :: "ownerRef list \<Rightarrow> ownerRef option" where
  "controllerOwner owners = controllerOwnerLoop None owners"

definition ownerGroup :: "string \<Rightarrow> string" where
  "ownerGroup apiVersion = (case index_of (CHR ''/'') apiVersion of
     Some i \<Rightarrow> if i > 0 then take i apiVersion else []
   | None \<Rightarrow> [])"

definition podTemplateHashAlphabet :: string where
  "podTemplateHashAlphabet = ''bcdfghjklmnpqrstvwxz2456789''"

definition isPodTemplateHash :: "string \<Rightarrow> bool" where
  "isPodTemplateHash s =
     (if length s < 5 \<or> length s > 10 then False
      else list_all (\<lambda>c. c \<in> set podTemplateHashAlphabet) s)"

definition deploymentFromReplicaSet :: "string \<Rightarrow> string option" where
  "deploymentFromReplicaSet rs = (case last_index_of (CHR ''-'') rs of
     None \<Rightarrow> None
   | Some i \<Rightarrow>
       if i = 0 \<or> i = length rs - 1 then None
       else if \<not> isPodTemplateHash (drop (Suc i) rs) then None
       else Some (take i rs))"

definition podWorkloadOwner :: "ownerRef list \<Rightarrow> string \<Rightarrow> resourceRef option" where
  "podWorkloadOwner owners namespace = (case controllerOwner owners of
     None \<Rightarrow> None
   | Some w \<Rightarrow>
       let group = ownerGroup (oAPIVersion w);
           direct = \<lparr>rGroup = group, rKind = oKind w, rNamespace = namespace, rName = oName w\<rparr>
       in if oKind w = ''ReplicaSet''
          then (case deploymentFromReplicaSet (oName w) of
              Some deploy \<Rightarrow> Some \<lparr>rGroup = group, rKind = ''Deployment'',
                                   rNamespace = namespace, rName = deploy\<rparr>
            | None \<Rightarrow> Some direct)
          else Some direct)"

definition workflowsGroup :: string where
  "workflowsGroup = ''argoproj.io''"

definition workflowTemplateLabel :: string where
  "workflowTemplateLabel = ''workflows.argoproj.io/workflow-template''"

definition clusterWorkflowTemplateLabel :: string where
  "clusterWorkflowTemplateLabel = ''workflows.argoproj.io/cluster-workflow-template''"

definition label_at :: "(string \<rightharpoonup> string) \<Rightarrow> string \<Rightarrow> string" where
  "label_at labels k = (case labels k of None \<Rightarrow> [] | Some v \<Rightarrow> v)"

definition workflowDeclaredOwner ::
  "ownerRef list \<Rightarrow> string \<Rightarrow> bool \<Rightarrow> (string \<rightharpoonup> string) \<Rightarrow> string \<Rightarrow> resourceRef option" where
  "workflowDeclaredOwner owners templateRef clusterScope labels namespace =
     (case podWorkloadOwner owners namespace of
        Some owner \<Rightarrow> Some owner
      | None \<Rightarrow>
          let (templateRef, clusterScope) =
                (if templateRef = [] then
                   let t = label_at labels workflowTemplateLabel
                   in if t = [] then (label_at labels clusterWorkflowTemplateLabel, True)
                      else (t, False)
                 else (templateRef, clusterScope))
          in if templateRef = [] then None
             else if clusterScope then
               Some \<lparr>rGroup = workflowsGroup, rKind = ''ClusterWorkflowTemplate'',
                     rNamespace = [], rName = templateRef\<rparr>
             else Some \<lparr>rGroup = workflowsGroup, rKind = ''WorkflowTemplate'',
                        rNamespace = namespace, rName = templateRef\<rparr>)"

subsection \<open>What the first loop computes\<close>

text \<open>
  The fields of the index after the loop over the Applications, as sets over the list. They only
  depend on which Applications there are, not on their order.
\<close>

definition platformApps :: "argoApp list \<Rightarrow> argoApp set" where
  "platformApps apps = {a \<in> set apps. \<not> isInstanceOwnedApp a}"

definition instanceApps :: "argoApp list \<Rightarrow> argoApp set" where
  "instanceApps apps = {a \<in> set apps. isInstanceOwnedApp a}"

definition declared :: "argoApp set \<Rightarrow> resourceRef set" where
  "declared as = (\<Union>a \<in> as. set (aResources a))"

definition uncompared :: "argoApp \<Rightarrow> bool" where
  "uncompared a \<longleftrightarrow> aResources a = [] \<and> \<not> argoCompared a"

definition namespacesOf :: "resourceRef set \<Rightarrow> string set" where
  "namespacesOf rs = rNamespace ` rs - {[]}"

lemma platformApps_simps [simp]:
  "platformApps [] = {}"
  "platformApps (a # apps) =
     (if isInstanceOwnedApp a then platformApps apps else insert a (platformApps apps))"
  "platformApps (apps @ apps') = platformApps apps \<union> platformApps apps'"
  by (auto simp: platformApps_def)

lemma instanceApps_simps [simp]:
  "instanceApps [] = {}"
  "instanceApps (a # apps) =
     (if isInstanceOwnedApp a then insert a (instanceApps apps) else instanceApps apps)"
  "instanceApps (apps @ apps') = instanceApps apps \<union> instanceApps apps'"
  by (auto simp: instanceApps_def)

lemma declared_simps [simp]:
  "declared {} = {}"
  "declared (insert a as) = set (aResources a) \<union> declared as"
  by (auto simp: declared_def)

lemma namespacesOf_simps [simp]:
  "namespacesOf {} = {}"
  "namespacesOf (insert r rs) =
     (if rNamespace r = [] then namespacesOf rs else insert (rNamespace r) (namespacesOf rs))"
  "namespacesOf (rs \<union> rs') = namespacesOf rs \<union> namespacesOf rs'"
  by (auto simp: namespacesOf_def)

lemma fold_declarePlatform:
  "ixOwned (fold (declarePlatform n) rs i) = ixOwned i"
  "ixPlatformDeclared (fold (declarePlatform n) rs i) = ixPlatformDeclared i \<union> set rs"
  "ixPlatformOccupied (fold (declarePlatform n) rs i) = ixPlatformOccupied i \<union> namespacesOf (set rs)"
  "ixPlatformUnresolved (fold (declarePlatform n) rs i) = ixPlatformUnresolved i"
  "ixPlatformUnresolvedNS (fold (declarePlatform n) rs i) = ixPlatformUnresolvedNS i"
  "ixPlatformUnresolvedAnywhere (fold (declarePlatform n) rs i) = ixPlatformUnresolvedAnywhere i"
  "ixGenerated (fold (declarePlatform n) rs i) = ixGenerated i"
  by (induction rs arbitrary: i) (auto simp: declarePlatform_def Let_def)

lemma fold_declareInstance:
  "ixOwned (fold declareInstance rs i) = ixOwned i \<union> set rs"
  "ixPlatformDeclared (fold declareInstance rs i) = ixPlatformDeclared i"
  "ixPlatformOccupied (fold declareInstance rs i) = ixPlatformOccupied i"
  "ixPlatformUnresolved (fold declareInstance rs i) = ixPlatformUnresolved i"
  "ixPlatformUnresolvedNS (fold declareInstance rs i) = ixPlatformUnresolvedNS i"
  "ixPlatformUnresolvedAnywhere (fold declareInstance rs i) = ixPlatformUnresolvedAnywhere i"
  "ixGenerated (fold declareInstance rs i) = ixGenerated i"
  by (induction rs arbitrary: i) (auto simp: declareInstance_def Let_def)

lemma indexApp_fields:
  "ixOwned (indexApp a i) = ixOwned i \<union> declared (instanceApps [a])"
  "ixPlatformDeclared (indexApp a i) = ixPlatformDeclared i \<union> declared (platformApps [a])"
  "ixPlatformOccupied (indexApp a i) = ixPlatformOccupied i
     \<union> (aDestNamespace ` platformApps [a] - {[]}) \<union> namespacesOf (declared (platformApps [a]))"
  "set (ixPlatformUnresolved (indexApp a i)) = set (ixPlatformUnresolved i)
     \<union> aName ` {b \<in> platformApps [a]. uncompared b}"
  "ixPlatformUnresolvedNS (indexApp a i) = ixPlatformUnresolvedNS i
     \<union> (aDestNamespace ` {b \<in> platformApps [a]. uncompared b} - {[]})"
  "ixPlatformUnresolvedAnywhere (indexApp a i) \<longleftrightarrow> ixPlatformUnresolvedAnywhere i
     \<or> (\<exists>b \<in> platformApps [a]. uncompared b \<and> aDestNamespace b = [])"
  "ixGenerated (indexApp a i) = ixGenerated i"
  by (auto simp: indexApp_def Let_def fold_declarePlatform fold_declareInstance uncompared_def)

lemma fold_indexApp_fields:
  "ixOwned (fold indexApp apps i) = ixOwned i \<union> declared (instanceApps apps)"
  "ixPlatformDeclared (fold indexApp apps i) = ixPlatformDeclared i \<union> declared (platformApps apps)"
  "ixPlatformOccupied (fold indexApp apps i) = ixPlatformOccupied i
     \<union> (aDestNamespace ` platformApps apps - {[]}) \<union> namespacesOf (declared (platformApps apps))"
  "set (ixPlatformUnresolved (fold indexApp apps i)) = set (ixPlatformUnresolved i)
     \<union> aName ` {b \<in> platformApps apps. uncompared b}"
  "ixPlatformUnresolvedNS (fold indexApp apps i) = ixPlatformUnresolvedNS i
     \<union> (aDestNamespace ` {b \<in> platformApps apps. uncompared b} - {[]})"
  "ixPlatformUnresolvedAnywhere (fold indexApp apps i) \<longleftrightarrow> ixPlatformUnresolvedAnywhere i
     \<or> (\<exists>b \<in> platformApps apps. uncompared b \<and> aDestNamespace b = [])"
  "ixGenerated (fold indexApp apps i) = ixGenerated i"
  by (induction apps arbitrary: i) (auto simp: indexApp_fields split: if_splits)

subsection \<open>The finished index\<close>

definition fullIndex :: "string list \<Rightarrow> argoApp list \<Rightarrow> ownershipIndex" where
  "fullIndex ns apps = withPlatformNamespaces ns (newOwnershipIndex apps)"

definition keptOwned :: "argoApp list \<Rightarrow> resourceRef set" where
  "keptOwned apps = declared (instanceApps apps) - declared (platformApps apps)"

lemma finite_declared [simp]: "finite (declared (instanceApps apps))"
  by (simp add: declared_def instanceApps_def)

lemma finite_keptOwned [simp]: "finite (keptOwned apps)"
  by (simp add: keptOwned_def)

lemma newOwnershipIndex_fields:
  "ixOwned (newOwnershipIndex apps) = keptOwned apps"
  "ixPlatformDeclared (newOwnershipIndex apps) = declared (platformApps apps)"
  "ixPlatformOccupied (newOwnershipIndex apps) =
     (aDestNamespace ` platformApps apps - {[]}) \<union> namespacesOf (declared (platformApps apps))"
  "set (ixPlatformUnresolved (newOwnershipIndex apps)) =
     aName ` {b \<in> platformApps apps. uncompared b}"
  "ixPlatformUnresolvedNS (newOwnershipIndex apps) =
     aDestNamespace ` {b \<in> platformApps apps. uncompared b} - {[]}"
  "ixPlatformUnresolvedAnywhere (newOwnershipIndex apps) \<longleftrightarrow>
     (\<exists>b \<in> platformApps apps. uncompared b \<and> aDestNamespace b = [])"
  "ixGenerated (newOwnershipIndex apps) = Some Map.empty"
  "ixStatefulSets (newOwnershipIndex apps) =
     (\<lambda>ref. (rNamespace ref, rName ref)) ` {ref \<in> keptOwned apps. rKind ref = ''StatefulSet''}"
  "ixContested (newOwnershipIndex apps) =
     card (declared (platformApps apps) \<inter> declared (instanceApps apps))"
  by (auto simp: newOwnershipIndex_def Let_def fold_indexApp_fields zero_index_def keptOwned_def
      intro!: arg_cong [where f = card])

lemma withPlatformNamespaces_fields [simp]:
  "ixOwned (withPlatformNamespaces ns i) = ixOwned i"
  "ixPlatformDeclared (withPlatformNamespaces ns i) = ixPlatformDeclared i"
  "ixPlatformOccupied (withPlatformNamespaces ns i) = ixPlatformOccupied i"
  "ixPlatformUnresolved (withPlatformNamespaces ns i) = ixPlatformUnresolved i"
  "ixPlatformUnresolvedNS (withPlatformNamespaces ns i) = ixPlatformUnresolvedNS i"
  "ixPlatformUnresolvedAnywhere (withPlatformNamespaces ns i) = ixPlatformUnresolvedAnywhere i"
  "ixGenerated (withPlatformNamespaces ns i) = ixGenerated i"
  "ixStatefulSets (withPlatformNamespaces ns i) = ixStatefulSets i"
  "ixPlatformNamespaces (withPlatformNamespaces ns i) = set ns"
  by (simp_all add: withPlatformNamespaces_def Let_def)

lemma withPlatformNamespaces_instance:
  "finite (ixOwned i) \<Longrightarrow> ixInstanceNamespaces (withPlatformNamespaces ns i) =
     namespacesOf (ixOwned i) - set ns - ixPlatformOccupied i - platformReservedNamespaces"
  by (auto simp: withPlatformNamespaces_def Let_def indexNamespaces_def namespacesOf_def)

lemmas fullIndex_fields =
  withPlatformNamespaces_fields newOwnershipIndex_fields withPlatformNamespaces_instance

lemma fullIndex_unresolved:
  "ixPlatformUnresolved (fullIndex ns apps) = [] \<longleftrightarrow> \<not> (\<exists>b \<in> platformApps apps. uncompared b)"
proof -
  have "ixPlatformUnresolved (fullIndex ns apps) = [] \<longleftrightarrow>
      set (ixPlatformUnresolved (newOwnershipIndex apps)) = {}"
    by (simp add: fullIndex_def)
  then show ?thesis unfolding newOwnershipIndex_fields by auto
qed

lemma platformMayClaim_fullIndex:
  "platformMayClaim (fullIndex ns apps) n \<longleftrightarrow>
     (\<exists>b \<in> platformApps apps. uncompared b \<and>
        (aDestNamespace b = [] \<and> n \<in> set ns
         \<or> aDestNamespace b \<noteq> [] \<and> aDestNamespace b = n))"
  using fullIndex_unresolved [of ns apps]
  by (auto simp: platformMayClaim_def) (auto simp: fullIndex_def newOwnershipIndex_fields)

text \<open>
  The specification of ownership: a set-level predicate over the Applications, without the index.
\<close>

definition owns_spec :: "string list \<Rightarrow> argoApp set \<Rightarrow> argoApp set \<Rightarrow> resourceRef \<Rightarrow> bool" where
  "owns_spec ns plat inst ref \<longleftrightarrow>
     rKind ref \<noteq> [] \<and> rName ref \<noteq> [] \<and> rNamespace ref \<notin> platformReservedNamespaces \<and>
     \<not> (\<exists>b \<in> plat. uncompared b \<and>
          (aDestNamespace b = [] \<and> rNamespace ref \<in> set ns
           \<or> aDestNamespace b \<noteq> [] \<and> aDestNamespace b = rNamespace ref)) \<and>
     (ref \<in> declared inst - declared plat
      \<or> (\<exists>s \<in> declared inst - declared plat. rKind s = ''StatefulSet''
           \<and> rNamespace s = rNamespace ref \<and> rKind ref = ''PersistentVolumeClaim''
           \<and> (\<exists>k. last_index_of (CHR ''-'') (rName ref) = Some k \<and> k \<noteq> 0
                \<and> atoi (drop (Suc k) (rName ref)) \<noteq> None
                \<and> has_suffix (take k (rName ref)) (''-'' @ rName s)))
      \<or> \<not> (\<exists>b \<in> plat. uncompared b) \<and> ref \<notin> declared plat
          \<and> rNamespace ref \<in> namespacesOf (declared inst - declared plat) - set ns
              - (aDestNamespace ` plat - {[]}) - namespacesOf (declared plat)
              - platformReservedNamespaces)"

lemma ownsStatefulSetPVC_fullIndex:
  "ownsStatefulSetPVC (fullIndex ns apps) ref \<longleftrightarrow>
     (\<exists>s \<in> keptOwned apps. rKind s = ''StatefulSet''
        \<and> rNamespace s = rNamespace ref \<and> rKind ref = ''PersistentVolumeClaim''
        \<and> (\<exists>k. last_index_of (CHR ''-'') (rName ref) = Some k \<and> k \<noteq> 0
             \<and> atoi (drop (Suc k) (rName ref)) \<noteq> None
             \<and> has_suffix (take k (rName ref)) (''-'' @ rName s)))"
  by (auto simp: ownsStatefulSetPVC_def fullIndex_def newOwnershipIndex_fields split: option.splits)

lemma owns_fullIndex:
  "owns (fullIndex ns apps) ref \<longleftrightarrow> owns_spec ns (platformApps apps) (instanceApps apps) ref"
proof -
  have k: "ixOwned (fullIndex ns apps) = keptOwned apps"
    and p: "ixPlatformDeclared (fullIndex ns apps) = declared (platformApps apps)"
    and g: "generatedParent (fullIndex ns apps) ref = None"
    by (simp_all add: fullIndex_def newOwnershipIndex_fields generatedParent_def)
  have n: "ixInstanceNamespaces (fullIndex ns apps) = namespacesOf (keptOwned apps) - set ns
      - (aDestNamespace ` platformApps apps - {[]}) - namespacesOf (declared (platformApps apps))
      - platformReservedNamespaces"
    by (auto simp: fullIndex_def newOwnershipIndex_fields withPlatformNamespaces_instance)
  have u: "0 < length (ixPlatformUnresolved (fullIndex ns apps)) \<longleftrightarrow>
      (\<exists>b \<in> platformApps apps. uncompared b)"
    using fullIndex_unresolved [of ns apps] by simp
  show ?thesis
    unfolding owns_def owns_spec_def k p g n u ownsStatefulSetPVC_fullIndex
      platformMayClaim_fullIndex keptOwned_def option.case(1) if_bool_eq_conj
    by blast
qed

text \<open>More platform Applications never make the instance own more.\<close>

lemma namespacesOf_mono: "rs \<subseteq> rs' \<Longrightarrow> namespacesOf rs \<subseteq> namespacesOf rs'"
  by (auto simp: namespacesOf_def)

lemma declared_mono: "as \<subseteq> bs \<Longrightarrow> declared as \<subseteq> declared bs"
  by (auto simp: declared_def)

lemma owns_spec_antimono:
  assumes "owns_spec ns plat' inst ref" and "plat \<subseteq> plat'"
  shows "owns_spec ns plat inst ref"
proof -
  have "declared plat \<subseteq> declared plat'" using assms(2) by (rule declared_mono)
  moreover from this have "namespacesOf (declared plat) \<subseteq> namespacesOf (declared plat')"
    and "namespacesOf (declared inst - declared plat') \<subseteq> namespacesOf (declared inst - declared plat)"
    by (intro namespacesOf_mono; blast)+
  ultimately show ?thesis
    using assms unfolding owns_spec_def by blast
qed

lemma fullIndex_disjoint: "ixOwned (fullIndex ns apps) \<inter> ixPlatformDeclared (fullIndex ns apps) = {}"
  by (auto simp: fullIndex_def newOwnershipIndex_fields keptOwned_def)

subsection \<open>Properties\<close>

lemma last_index_of_append: "c \<notin> set t \<Longrightarrow> last_index_of c (s @ c # t) = Some (length s)"
  using index_of_append [of c "rev t" "rev s"] by (simp add: last_index_of_def)

text \<open>ownership does not depend on the order in which the API server lists the
  Applications, nor on duplicates, although the index is built by a loop over them.\<close>

theorem owns_order_independent:
  assumes "set apps = set apps'"
  shows "owns (fullIndex ns apps) = owns (fullIndex ns apps')"
  using assms by (simp add: fun_eq_iff owns_fullIndex platformApps_def instanceApps_def)

text \<open>the boundary is fail-closed: adding platform Applications never makes the instance own
  a resource it did not own before.\<close>

theorem platform_apps_never_add_ownership:
  assumes "list_all (\<lambda>a. \<not> isInstanceOwnedApp a) extra" and "owns (fullIndex ns (apps @ extra)) ref"
  shows "owns (fullIndex ns apps) ref"
proof -
  have "instanceApps extra = {}" using assms(1) by (auto simp: instanceApps_def list_all_iff)
  then show ?thesis
    using assms(2) owns_spec_antimono [of ns "platformApps apps \<union> platformApps extra" "instanceApps apps"
        ref "platformApps apps"] by (simp add: owns_fullIndex)
qed


text \<open>the exception of the last property is real: a claim with the generated name
  template-statefulset-ordinal is owned as soon as the instance declares the StatefulSet, even
  where a platform Application declares that very claim.\<close>

theorem platform_declared_claim_still_owned:
  assumes "s \<in> declared (instanceApps apps)" and "s \<notin> declared (platformApps apps)"
    and "rKind s = ''StatefulSet''" and "rNamespace s \<noteq> ''kube-system''"
    and "\<forall>b \<in> platformApps apps. \<not> uncompared b" and "int k \<le> max_int64"
    and "ref = \<lparr>rGroup = [], rKind = ''PersistentVolumeClaim'', rNamespace = rNamespace s,
      rName = t @ ''-'' @ rName s @ ''-'' @ nat_dec k\<rparr>"
  shows "owns (fullIndex ns apps) ref"
proof -
  have "CHR ''-'' \<notin> set (nat_dec k)"
    using nat_dec_digits [of k] digit_not_sign by (auto simp: list_all_iff)
  from last_index_of_append [OF this, of "t @ ''-'' @ rName s"]
  have l: "last_index_of (CHR ''-'') (t @ ''-'' @ rName s @ ''-'' @ nat_dec k) = Some (length (t @ ''-'' @ rName s))"
    by simp
  have "has_suffix (t @ CHR ''-'' # rName s) (CHR ''-'' # rName s)" by (auto simp: has_suffix_iff)
  then have "\<exists>i. last_index_of (CHR ''-'') (rName ref) = Some i \<and> i \<noteq> 0 \<and>
      atoi (drop (Suc i) (rName ref)) \<noteq> None \<and> has_suffix (take i (rName ref)) (''-'' @ rName s)"
    using assms(6) atoi_nat_dec [of k] l
    by (intro exI [of _ "length (t @ ''-'' @ rName s)"]) (simp add: assms(7))
  moreover have "s \<in> declared (instanceApps apps) - declared (platformApps apps)" using assms by blast
  moreover have "rKind ref = ''PersistentVolumeClaim''" "rName ref \<noteq> []" "rNamespace ref = rNamespace s"
    using assms(7) by simp_all
  ultimately show ?thesis
    using assms(3-5) unfolding owns_fullIndex owns_spec_def platformReservedNamespaces_def by auto
qed

text \<open>An instance Application with a StatefulSet, and a platform Application with its claim.\<close>

definition claim_apps :: "argoApp list" where
  "claim_apps =
     (let app = \<lambda>name project res. \<lparr>aName = name, aSync = ''Synced'', aHealth = ''Healthy'', aAutomated = True,
            aSpecErr = [], aOpErr = [], aDrifted = [], aSyncErr = [], aProject = project,
            aResources = [res], aDestNamespace = ''team''\<rparr>
      in [app ''db'' ''instance-custom''
            \<lparr>rGroup = ''apps'', rKind = ''StatefulSet'', rNamespace = ''team'', rName = ''db''\<rparr>,
          app ''backup'' ''platform''
            \<lparr>rGroup = [], rKind = ''PersistentVolumeClaim'', rNamespace = ''team'', rName = ''data-db-0''\<rparr>])"

lemma claim_apps_split:
  "platformApps claim_apps = {claim_apps ! 1}" "instanceApps claim_apps = {claim_apps ! 0}"
  "\<not> uncompared (claim_apps ! 1)" "rNamespace ` set (aResources (claim_apps ! 0)) = {''team''}"
  by code_simp+

definition claim_ref :: resourceRef where
  "claim_ref = \<lparr>rGroup = [], rKind = ''PersistentVolumeClaim'', rNamespace = ''team'', rName = ''data-db-0''\<rparr>"

theorem platform_declared_claim_still_owned_witness:
  "claim_ref \<in> declared (platformApps claim_apps) \<and> owns (fullIndex [] claim_apps) claim_ref"
proof
  show "claim_ref \<in> declared (platformApps claim_apps)" by code_simp
  have "nat_dec 0 = ''0''" by code_simp
  then show "owns (fullIndex [] claim_apps) claim_ref"
    by (intro platform_declared_claim_still_owned
        [where s = "hd (aResources (hd claim_apps))" and t = "''data''" and k = 0]) code_simp+
qed

theorem owns_order_independent_witness:
  "set claim_apps = set (rev claim_apps) \<and>
   owns (fullIndex [] claim_apps) = owns (fullIndex [] (rev claim_apps))"
  using owns_order_independent [of claim_apps "rev claim_apps" "[]"] by simp

theorem platform_apps_never_add_ownership_witness:
  "owns (fullIndex [] ([hd claim_apps] @ tl claim_apps)) claim_ref \<and> owns (fullIndex [] [hd claim_apps]) claim_ref"
proof -
  have h: "list_all (\<lambda>a. \<not> isInstanceOwnedApp a) (tl claim_apps)"
    "owns (fullIndex [] ([hd claim_apps] @ tl claim_apps)) claim_ref" by code_simp+
  from platform_apps_never_add_ownership [OF h] h show ?thesis by blast
qed


end
