(* ===== verification/Routing.thy ===== *)
theory Routing
  imports Ownership
begin

text \<open>
  \<open>internal/shared/health/routing.go\<close>: the funnel every finding passes through. First the
  konnectivity downgrade (a hard failure with the tunnel signature becomes pending), then the
  ownership boundary (a gating finding on instance-owned content is demoted, at its severity, to
  the app verdict). A pointer receiver returns the updated report first. The locale states what
  every route promises; each route of the code interprets it.
\<close>

subsection \<open>The two remaps\<close>

definition isTunnelBlocked :: "string \<Rightarrow> bool" where   \<comment> \<open>\<open>infra.go\<close>\<close>
  "isTunnelBlocked m = contains m ''No agent available''"

definition normalizeTunnel :: "category \<Rightarrow> string \<Rightarrow> report \<Rightarrow> report \<times> category" where
  "normalizeTunnel cat m r =
     (if cat = CatFail \<and> isTunnelBlocked m then (r\<lparr>TunnelDown := True\<rparr>, CatPending)
      else (r, cat))"

definition instanceDemotion :: "category \<Rightarrow> bool \<Rightarrow> string \<Rightarrow> category \<times> string \<times> bool" where
  "instanceDemotion cat owned m =
     (if \<not> owned \<or> (cat \<noteq> CatFail \<and> cat \<noteq> CatPending) then (cat, m, False)
      else (CatInstance, m @ instanceOwnedSuffix, True))"

definition demote :: "ownershipIndex \<Rightarrow> category \<Rightarrow> resourceRef \<Rightarrow> string \<Rightarrow> category \<times> string \<times> bool" where
  "demote i cat ref m = instanceDemotion cat (owns i ref) m"

subsection \<open>The routes\<close>

definition reportRoute :: "category \<Rightarrow> string \<Rightarrow> report \<Rightarrow> report \<times> category \<times> string" where
  "reportRoute cat m r =
     (let (r, cat) = normalizeTunnel cat m r
      in (add cat m r, cat, m))"

definition ixRoute :: "ownershipIndex \<Rightarrow> category \<Rightarrow> resourceRef \<Rightarrow> string \<Rightarrow> report
    \<Rightarrow> report \<times> category \<times> string" where
  "ixRoute i cat ref m r =
     (let (r, cat) = normalizeTunnel cat m r;
          (newCat, newMsg, demoted) = demote i cat ref m
      in if demoted then (addInstanceOf cat newMsg r, newCat, newMsg)
         else (add cat m r, cat, m))"

definition routeOwned :: "ownershipIndex \<Rightarrow> category \<Rightarrow> ownerRef list \<Rightarrow> resourceRef \<Rightarrow> string \<Rightarrow> report
    \<Rightarrow> report \<times> category \<times> string" where
  "routeOwned i cat owners self m r =
     (let ref = self;
          ref = (case podWorkloadOwner owners (rNamespace self) of
                   Some owner \<Rightarrow> owner
                 | None \<Rightarrow> ref)
      in ixRoute i cat ref m r)"

definition routeApp :: "bool \<Rightarrow> argoApp \<Rightarrow> bool \<Rightarrow> report \<Rightarrow> report \<times> category \<times> string" where
  "routeApp budgeted a phase1 r =
     (let (cat, m) = classifyArgoApp budgeted a phase1;
          (r, cat) = normalizeTunnel cat m r;
          (newCat, newMsg, demoted) = instanceDemotion cat (isInstanceOwnedApp a) m
      in if demoted then (addInstanceOf cat newMsg r, newCat, newMsg)
         else (add cat m r, cat, m))"

definition routeInconclusive :: "string \<Rightarrow> report \<Rightarrow> report \<times> category \<times> string" where
  "routeInconclusive kind r =
     reportRoute CatPending (msg [
       ''could not list '', kind, '' '', em_dash,
       '' cluster read failed after retries; treating as inconclusive rather than '', sq,
         ''none found'', sq])
       (r\<lparr>Inconclusive := True\<rparr>)"

subsection \<open>What a route promises\<close>

text \<open>The severity a finding keeps after the konnectivity downgrade.\<close>

definition gates :: "category \<Rightarrow> string \<Rightarrow> verdict" where
  "gates cat m = (if cat = CatFail \<and> isTunnelBlocked m then InProgress else severity cat)"

lemma gates_cases:
  "gates CatFail m = (if isTunnelBlocked m then InProgress else HardFailed)"
  "gates CatPending m = InProgress"
  "cat \<noteq> CatFail \<Longrightarrow> gates cat m = severity cat"
  by (simp_all add: gates_def)

locale router =
  fixes step :: "'f \<Rightarrow> report \<Rightarrow> report \<times> category \<times> string"
    and owned :: "'f \<Rightarrow> bool"
    and sev :: "'f \<Rightarrow> verdict"
    and tunnel :: "'f \<Rightarrow> bool"
  assumes platform: "verdict (fst (step f r)) = (if owned f then verdict r else max (sev f) (verdict r))"
    and app: "appVerdict (fst (step f r)) = (if owned f then max (sev f) (appVerdict r) else appVerdict r)"
    and tunnelDown: "TunnelDown (fst (step f r)) \<longleftrightarrow> TunnelDown r \<or> tunnel f"
begin

definition run :: "'f list \<Rightarrow> report \<Rightarrow> report" where
  "run fs r = fold (\<lambda>f r. fst (step f r)) fs r"

lemma run_simps [simp]: "run [] r = r" "run (f # fs) r = run fs (fst (step f r))"
  by (simp_all add: run_def)

lemma run_verdict:
  "verdict (run fs r) = Max (insert (verdict r) (sev ` {f \<in> set fs. \<not> owned f}))"
proof (induction fs arbitrary: r)
  case (Cons f fs)
  have "Max (insert (max s v) A) = Max (insert v (insert s A))" if "finite A" for s v and A :: "verdict set"
    using that by (cases "A = {}") (simp_all add: max.commute max.left_commute)
  moreover have "{g \<in> set (f # fs). \<not> owned g} =
      (if owned f then {g \<in> set fs. \<not> owned g} else insert f {g \<in> set fs. \<not> owned g})"
    by auto
  ultimately show ?case using Cons.IH by (simp add: platform)
qed simp

lemma run_appVerdict:
  "appVerdict (run fs r) = Max (insert (appVerdict r) (sev ` {f \<in> set fs. owned f}))"
proof (induction fs arbitrary: r)
  case (Cons f fs)
  have "Max (insert (max s v) A) = Max (insert v (insert s A))" if "finite A" for s v and A :: "verdict set"
    using that by (cases "A = {}") (simp_all add: max.commute max.left_commute)
  moreover have "{g \<in> set (f # fs). owned g} =
      (if owned f then insert f {g \<in> set fs. owned g} else {g \<in> set fs. owned g})"
    by auto
  ultimately show ?case using Cons.IH by (simp add: app)
qed simp

lemma run_tunnelDown: "TunnelDown (run fs r) \<longleftrightarrow> TunnelDown r \<or> (\<exists>f \<in> set fs. tunnel f)"
  by (induction fs arbitrary: r) (auto simp: tunnelDown)

lemma run_mono: "verdict r \<le> verdict (run fs r)" "appVerdict r \<le> appVerdict (run fs r)"
  by (simp_all add: run_verdict run_appVerdict)

lemma run_not_lost:
  "f \<in> set fs \<Longrightarrow> sev f \<le> (if owned f then appVerdict (run fs r) else verdict (run fs r))"
  by (auto simp: run_verdict run_appVerdict intro!: Max_ge)

lemma run_order:
  "set fs = set gs \<Longrightarrow> verdict (run fs r) = verdict (run gs r) \<and> appVerdict (run fs r) = appVerdict (run gs r)"
  by (simp add: run_verdict run_appVerdict)

lemma run_owned_only: "(\<forall>f \<in> set fs. owned f) \<Longrightarrow> verdict (run fs r) = verdict r"
proof -
  assume "\<forall>f \<in> set fs. owned f"
  then have e: "sev ` {f \<in> set fs. \<not> owned f} = {}" by blast
  show ?thesis unfolding run_verdict e by simp
qed

end

subsection \<open>The routes of the code keep the promise\<close>

lemma report_flag_updates [simp]:
  "verdict (r\<lparr>TunnelDown := b\<rparr>) = verdict r"
  "appVerdict (r\<lparr>TunnelDown := b\<rparr>) = appVerdict r"
  "verdict (r\<lparr>Inconclusive := b\<rparr>) = verdict r"
  by (simp_all add: verdict_def appVerdict_def Let_def)

lemma TunnelDown_ops [simp]:
  "TunnelDown (add cat m r) = TunnelDown r"
  "TunnelDown (addInstanceOf cat m r) = TunnelDown r"
  by (cases cat; simp add: report_ops)+

lemmas route_simps = normalizeTunnel_def instanceDemotion_def demote_def gates_def
  verdict_add appVerdict_addInstanceOf

interpretation global_route: router
  "\<lambda>(cat, m). reportRoute cat m" "\<lambda>_. False" "\<lambda>(cat, m). gates cat m"
  "\<lambda>(cat, m). cat = CatFail \<and> isTunnelBlocked m"
  by unfold_locales (auto simp: reportRoute_def route_simps split: if_splits)

lemma severity_not_gating: "cat \<noteq> CatFail \<Longrightarrow> cat \<noteq> CatPending \<Longrightarrow> severity cat = Converged"
  by (cases cat) auto

interpretation resource_route: router
  "\<lambda>(i, cat, ref, m). ixRoute i cat ref m" "\<lambda>(i, cat, ref, m). owns i ref"
  "\<lambda>(i, cat, ref, m). gates cat m" "\<lambda>(i, cat, ref, m). cat = CatFail \<and> isTunnelBlocked m"
  by unfold_locales
    (auto simp: ixRoute_def route_simps severity_not_gating split: if_splits prod.splits)

text \<open>The reference a generated object is judged under.\<close>

definition ownedRef :: "ownerRef list \<Rightarrow> resourceRef \<Rightarrow> resourceRef" where
  "ownedRef owners self = (case podWorkloadOwner owners (rNamespace self) of
     Some owner \<Rightarrow> owner | None \<Rightarrow> self)"

lemma routeOwned_ixRoute: "routeOwned i cat owners self m = ixRoute i cat (ownedRef owners self) m"
  by (simp add: routeOwned_def ownedRef_def fun_eq_iff Let_def)

interpretation generated_route: router
  "\<lambda>(i, cat, owners, self, m). routeOwned i cat owners self m"
  "\<lambda>(i, cat, owners, self, m). owns i (ownedRef owners self)"
  "\<lambda>(i, cat, owners, self, m). gates cat m"
  "\<lambda>(i, cat, owners, self, m). cat = CatFail \<and> isTunnelBlocked m"
  by unfold_locales
    (use resource_route.platform resource_route.app resource_route.tunnelDown in
      \<open>fastforce simp: routeOwned_ixRoute\<close>)+

definition appGates :: "bool \<Rightarrow> argoApp \<Rightarrow> bool \<Rightarrow> verdict" where
  "appGates budgeted a phase1 =
     gates (fst (classifyArgoApp budgeted a phase1)) (snd (classifyArgoApp budgeted a phase1))"

interpretation app_route: router
  "\<lambda>(budgeted, a, phase1). routeApp budgeted a phase1" "\<lambda>(budgeted, a, phase1). isInstanceOwnedApp a"
  "\<lambda>(budgeted, a, phase1). appGates budgeted a phase1"
  "\<lambda>(budgeted, a, phase1). fst (classifyArgoApp budgeted a phase1) = CatFail
     \<and> isTunnelBlocked (snd (classifyArgoApp budgeted a phase1))"
  by unfold_locales
    (auto simp: routeApp_def appGates_def route_simps severity_not_gating split: if_splits prod.splits)

text \<open>A corpus that could not be read leaves neither verdict converged.\<close>

lemma appVerdict_inconclusive: "appVerdict (r\<lparr>Inconclusive := True\<rparr>) = max InProgress (appVerdict r)"
  by (auto simp: appVerdict_def Let_def max_def verdict_cases_le)

lemma routeInconclusive_verdicts:
  "verdict (fst (routeInconclusive kind r)) = max InProgress (verdict r)"
  "appVerdict (fst (routeInconclusive kind r)) = max InProgress (appVerdict r)"
  by (simp_all add: routeInconclusive_def reportRoute_def normalizeTunnel_def verdict_add
      appVerdict_inconclusive Let_def)

subsection \<open>Properties\<close>

text \<open>C15: what a sequence of findings on cluster resources leaves behind: the platform verdict
  is the worst of what the findings on resources the instance does not own gate, the app verdict
  the worst of the findings on resources it owns. So a finding is demoted, never dropped, instance
  content cannot fail the platform, and the order of the sections does not matter.\<close>

theorem findings_split_by_owner:
  "verdict (fold (\<lambda>(i, cat, ref, m) r. fst (ixRoute i cat ref m r)) fs r) =
     Max (insert (verdict r) {gates cat m |i cat ref m. (i, cat, ref, m) \<in> set fs \<and> \<not> owns i ref})
   \<and> appVerdict (fold (\<lambda>(i, cat, ref, m) r. fst (ixRoute i cat ref m r)) fs r) =
     Max (insert (appVerdict r) {gates cat m |i cat ref m. (i, cat, ref, m) \<in> set fs \<and> owns i ref})"
proof -
  have run: "fold (\<lambda>(i, cat, ref, m) r. fst (ixRoute i cat ref m r)) fs = resource_route.run fs"
    unfolding resource_route.run_def by (simp add: fun_eq_iff case_prod_beta')
  have "{gates cat m |i cat ref m. (i, cat, ref, m) \<in> set fs \<and> P (owns i ref)} =
      (\<lambda>(i, cat, ref, m). gates cat m) ` {f \<in> set fs. P (case f of (i, cat, ref, m) \<Rightarrow> owns i ref)}" for P
    by force
  from this [of Not] this [of "\<lambda>b. b"] show ?thesis
    unfolding run resource_route.run_verdict resource_route.run_appVerdict by simp
qed

text \<open>a broken konnectivity tunnel is never a hard failure: a finding with its signature is
  recorded as pending, the report says that the tunnel is down, and no other finding is
  downgraded.\<close>

theorem tunnel_never_hard_fails:
  "verdict (fst (reportRoute cat m r)) =
     max (if cat = CatFail \<and> isTunnelBlocked m then InProgress else severity cat) (verdict r) \<and>
   (TunnelDown (fst (reportRoute cat m r)) \<longleftrightarrow> TunnelDown r \<or> cat = CatFail \<and> isTunnelBlocked m)"
  using global_route.platform [of "(cat, m)" r] global_route.tunnelDown [of "(cat, m)" r]
  by (simp add: gates_def)

end
