(* ===== verification/Pods.thy ===== *)
theory Pods
  imports Ownership
begin

text \<open>
  Pod predicates: \<open>internal/shared/health/pod.go\<close>, \<open>pod_starting.go\<close> and
  \<open>LokiPodReady\<close> of \<open>readiness.go\<close>. A nil pointer is \<open>None\<close>; \<open>Running\<close>
  points to an empty struct, so only its presence counts. The lemmas relate the four questions
  the sources ask of a pod: is it failing, is it starting, is it warming up, what blocks it.
\<close>

subsection \<open>Conditions (\<open>certs.go\<close>)\<close>

record condition =
  coType :: string
  coStatus :: string
  coReason :: string
  coMessage :: string

fun findReady :: "condition list \<Rightarrow> string \<times> string \<times> string" where
  "findReady [] = (''Unknown'', [], [])"
| "findReady (c # cs) =
     (if coType c = ''Ready'' then (coStatus c, coReason c, coMessage c) else findReady cs)"

subsection \<open>The pod status\<close>

record stateDetail =
  sdReason :: string

record containerState =
  Waiting :: "stateDetail option"
  Running :: "unit option"
  Terminated :: "stateDetail option"

record containerStatus =
  csName :: string
  Ready :: bool
  RestartCount :: int
  State :: containerState

record podStatus =
  Phase :: string
  Conditions :: "condition list"
  ContainerStatuses :: "containerStatus list"
  InitContainerStatuses :: "containerStatus list"

fun isJobControlled :: "ownerRef list \<Rightarrow> bool" where
  "isJobControlled [] = False"
| "isJobControlled (r # rs) = (if oKind r = ''Job'' then True else isJobControlled rs)"

definition readyCount :: "containerStatus list \<Rightarrow> nat" where
  "readyCount cs = foldl (\<lambda>ready c. if Ready c then Suc ready else ready) 0 cs"

definition podIsFailing :: "podStatus \<Rightarrow> bool" where
  "podIsFailing s =
     (if Phase s = ''Succeeded'' then False
      else if Phase s \<noteq> ''Running'' then True
      else let total = length (ContainerStatuses s);
               ready = readyCount (ContainerStatuses s)
           in total > 0 \<and> ready < total)"

definition readyRatio :: "podStatus \<Rightarrow> string" where
  "readyRatio s =
     nat_dec (readyCount (ContainerStatuses s)) @ ''/'' @ nat_dec (length (ContainerStatuses s))"

definition reasonOr :: "string \<Rightarrow> string" where
  "reasonOr r = (if r = [] then ''?'' else r)"

definition summarizeState :: "string \<Rightarrow> containerStatus \<Rightarrow> string" where
  "summarizeState pre c =
     (case Waiting (State c) of
        Some w \<Rightarrow> msg [pre, ''/'', csName c, '':waiting:'', reasonOr (sdReason w)]
      | None \<Rightarrow>
     (case Terminated (State c) of
        Some t \<Rightarrow> msg [pre, ''/'', csName c, '':terminated:'', reasonOr (sdReason t)]
      | None \<Rightarrow>
     (if Running (State c) \<noteq> None then msg [pre, ''/'', csName c, '':running'']
      else msg [pre, ''/'', csName c, '':?''])))"

definition summarizeStates :: "podStatus \<Rightarrow> string" where
  "summarizeStates s = join '',''
     (map (summarizeState ''init'') (InitContainerStatuses s)
      @ map (summarizeState ''main'') (ContainerStatuses s))"

definition flappingContainers :: "podStatus \<Rightarrow> int \<Rightarrow> string" where
  "flappingContainers s threshold = join '',''
     (map (\<lambda>c. csName c @ ''='' @ int_dec (RestartCount c))
       (filter (\<lambda>c. RestartCount c > threshold) (ContainerStatuses s @ InitContainerStatuses s)))"

subsection \<open>Blocked, starting, warming up (\<open>pod_starting.go\<close>)\<close>

definition startingWaitReasons :: "string set" where
  "startingWaitReasons = {''ContainerCreating'', ''PodInitializing''}"

fun blockedLoop :: "containerStatus list \<Rightarrow> string option" where
  "blockedLoop [] = None"
| "blockedLoop (c # cs) =
     (case Waiting (State c) of
        None \<Rightarrow> blockedLoop cs
      | Some w \<Rightarrow>
          if sdReason w \<noteq> [] \<and> sdReason w \<notin> startingWaitReasons
          then Some (csName c @ '':'' @ sdReason w)
          else blockedLoop cs)"

definition podBlockedReason :: "podStatus \<Rightarrow> string" where
  "podBlockedReason s =
     (case blockedLoop (InitContainerStatuses s) of
        Some m \<Rightarrow> m
      | None \<Rightarrow> (case blockedLoop (ContainerStatuses s) of Some m \<Rightarrow> m | None \<Rightarrow> []))"

definition waitReasonIsStartup :: "string \<Rightarrow> bool" where
  "waitReasonIsStartup reason \<longleftrightarrow> reason = [] \<or> reason \<in> startingWaitReasons"

definition initContainerIsStarting :: "containerStatus \<Rightarrow> bool" where
  "initContainerIsStarting c =
     (if Ready c \<or> Running (State c) \<noteq> None then True
      else case Waiting (State c) of
        Some w \<Rightarrow> waitReasonIsStartup (sdReason w)
      | None \<Rightarrow>
          (case Terminated (State c) of
             Some t \<Rightarrow> sdReason t = ''Completed''
           | None \<Rightarrow> True))"

definition mainContainerIsStarting :: "containerStatus \<Rightarrow> bool" where
  "mainContainerIsStarting c =
     (if Ready c then True
      else if Running (State c) \<noteq> None then False
      else case Waiting (State c) of
        Some w \<Rightarrow> waitReasonIsStartup (sdReason w)
      | None \<Rightarrow>
          (case Terminated (State c) of
             Some t \<Rightarrow> sdReason t = ''Completed''
           | None \<Rightarrow> True))"

definition podIsStarting :: "podStatus \<Rightarrow> bool" where
  "podIsStarting s =
     (if Phase s = ''Succeeded'' \<or> Phase s = ''Failed'' then False
      else if list_ex (\<lambda>c. coType c = ''PodScheduled'' \<and> coStatus c = ''False'') (Conditions s) then False
      else if length (InitContainerStatuses s) = 0 \<and> length (ContainerStatuses s) = 0
        then Phase s = ''Pending''
      else if \<not> list_all initContainerIsStarting (InitContainerStatuses s) then False
      else list_all mainContainerIsStarting (ContainerStatuses s))"

text \<open>The loop of \<open>PodIsWarmingUp\<close>, with its flag \<open>notReady\<close>.\<close>

fun warmingLoop :: "bool \<Rightarrow> containerStatus list \<Rightarrow> bool" where
  "warmingLoop notReady [] = notReady"
| "warmingLoop notReady (c # cs) =
     (if Ready c then warmingLoop notReady cs
      else if RestartCount c > 0 then False
      else if (case Waiting (State c) of
                 Some w \<Rightarrow> \<not> waitReasonIsStartup (sdReason w) | None \<Rightarrow> False) then False
      else warmingLoop True cs)"

definition podIsWarmingUp :: "podStatus \<Rightarrow> bool" where
  "podIsWarmingUp s =
     (if Phase s \<noteq> ''Running'' then False
      else warmingLoop False (InitContainerStatuses s @ ContainerStatuses s))"

definition lokiPodReady :: "podStatus \<Rightarrow> bool" where   \<comment> \<open>\<open>readiness.go\<close>\<close>
  "lokiPodReady s =
     (if Phase s \<noteq> ''Running'' \<and> Phase s \<noteq> ''Succeeded'' then False
      else list_all Ready (ContainerStatuses s))"

subsection \<open>Lemmas\<close>

lemma readyCount_filter: "readyCount cs = length (filter Ready cs)"
proof -
  have "foldl (\<lambda>ready c. if Ready c then Suc ready else ready) n cs = n + length (filter Ready cs)" for n
    by (induction cs arbitrary: n) auto
  then show ?thesis by (simp add: readyCount_def)
qed

lemma readyCount_less: "readyCount cs < length cs \<longleftrightarrow> (\<exists>c \<in> set cs. \<not> Ready c)"
  unfolding readyCount_filter using length_filter_le [of Ready cs]
  by (metis filter_True length_filter_less nless_le)

lemma podIsFailing_running:
  "Phase s = ''Running'' \<Longrightarrow> podIsFailing s \<longleftrightarrow> (\<exists>c \<in> set (ContainerStatuses s). \<not> Ready c)"
  by (auto simp: podIsFailing_def Let_def readyCount_less)

lemma isJobControlled_iff: "isJobControlled rs \<longleftrightarrow> (\<exists>r \<in> set rs. oKind r = ''Job'')"
  by (induction rs) auto

definition blockedContainer :: "containerStatus \<Rightarrow> bool" where
  "blockedContainer c \<longleftrightarrow> (\<exists>w. Waiting (State c) = Some w \<and> \<not> waitReasonIsStartup (sdReason w))"

lemma blockedLoop_None: "blockedLoop cs = None \<longleftrightarrow> (\<forall>c \<in> set cs. \<not> blockedContainer c)"
  by (induction cs) (auto simp: blockedContainer_def waitReasonIsStartup_def split: option.splits)

lemma blockedLoop_Some:
  "blockedLoop cs = Some m \<Longrightarrow> \<exists>c \<in> set cs. blockedContainer c \<and>
     m = csName c @ '':'' @ sdReason (the (Waiting (State c)))"
  by (induction cs) (auto simp: blockedContainer_def waitReasonIsStartup_def split: option.splits if_splits)

lemma podBlockedReason_iff:
  "podBlockedReason s \<noteq> [] \<longleftrightarrow>
     (\<exists>c \<in> set (InitContainerStatuses s) \<union> set (ContainerStatuses s). blockedContainer c)"
  using blockedLoop_None [of "InitContainerStatuses s"] blockedLoop_None [of "ContainerStatuses s"]
  by (auto simp: podBlockedReason_def split: option.splits dest!: blockedLoop_Some)

lemma warmingLoop_iff:
  "warmingLoop b cs \<longleftrightarrow>
     (\<forall>c \<in> set cs. Ready c \<or> RestartCount c \<le> 0 \<and> \<not> blockedContainer c) \<and>
     (b \<or> (\<exists>c \<in> set cs. \<not> Ready c))"
  by (induction b cs rule: warmingLoop.induct)
    (auto simp: blockedContainer_def waitReasonIsStartup_def split: option.splits)

lemma starting_not_blocked:
  "initContainerIsStarting c \<Longrightarrow> blockedContainer c \<Longrightarrow> Ready c \<or> Running (State c) \<noteq> None"
  "mainContainerIsStarting c \<Longrightarrow> blockedContainer c \<Longrightarrow> Ready c"
  by (auto simp: initContainerIsStarting_def mainContainerIsStarting_def blockedContainer_def
      split: if_splits)

text \<open>
  What the Kubernetes API promises of a container status: at most one of the three states is
  set, and a container is ready only while it is not waiting.
\<close>

definition wf_container :: "containerStatus \<Rightarrow> bool" where
  "wf_container c \<longleftrightarrow> (Waiting (State c) \<noteq> None \<longrightarrow>
     \<not> Ready c \<and> Running (State c) = None \<and> Terminated (State c) = None)"

definition wf_pod :: "podStatus \<Rightarrow> bool" where
  "wf_pod s \<longleftrightarrow> list_all wf_container (InitContainerStatuses s @ ContainerStatuses s)"

lemma podIsStarting_containers:
  "podIsStarting s \<Longrightarrow>
     (\<forall>c \<in> set (InitContainerStatuses s). initContainerIsStarting c) \<and>
     (\<forall>c \<in> set (ContainerStatuses s). mainContainerIsStarting c)"
  by (auto simp: podIsStarting_def list_all_iff split: if_splits)

subsection \<open>Properties\<close>

text \<open>a pod the gate excuses as starting or warming up has no container the kubelet has
  given up on: nothing that \<open>wait-pods\<close> would report as wedged is excused.\<close>

lemma excused_pod_not_blocked:
  assumes "wf_pod s" and "podIsStarting s \<or> podIsWarmingUp s"
  shows "podBlockedReason s = []"
proof -
  have wf: "\<not> Ready c \<and> Running (State c) = None"
    if "c \<in> set (InitContainerStatuses s) \<union> set (ContainerStatuses s)" "blockedContainer c" for c
    using that assms(1) by (auto simp: wf_pod_def list_all_iff wf_container_def blockedContainer_def)
  have "\<not> blockedContainer c"
    if "c \<in> set (InitContainerStatuses s) \<union> set (ContainerStatuses s)" for c
    using assms(2)
  proof
    assume "podIsStarting s"
    then show ?thesis using podIsStarting_containers [of s] starting_not_blocked wf that by blast
  next
    assume "podIsWarmingUp s"
    then show ?thesis using wf that
      by (fastforce simp: podIsWarmingUp_def warmingLoop_iff split: if_splits)
  qed
  then show ?thesis using podBlockedReason_iff by blast
qed

definition starting_example :: podStatus where
  "starting_example = \<lparr>Phase = ''Pending'', Conditions = [],
     ContainerStatuses = [\<lparr>csName = ''c'', Ready = False, RestartCount = 0,
       State = \<lparr>Waiting = Some \<lparr>sdReason = ''ContainerCreating''\<rparr>, Running = None, Terminated = None\<rparr>\<rparr>],
     InitContainerStatuses = []\<rparr>"

lemma excused_pod_not_blocked_witness: "podBlockedReason starting_example = []"
  by (rule excused_pod_not_blocked)
    (simp_all add: starting_example_def wf_pod_def wf_container_def podIsStarting_def
      mainContainerIsStarting_def waitReasonIsStartup_def startingWaitReasons_def)

text \<open>the excuse of warming up is exactly: the phase is Running, some container (init or
  main) is not ready, and none of the unready ones has restarted or waits for a non-startup
  reason. A container that cycles is never excused.\<close>

lemma podIsWarmingUp_iff:
  "podIsWarmingUp s \<longleftrightarrow> Phase s = ''Running'' \<and>
     (\<exists>c \<in> set (InitContainerStatuses s) \<union> set (ContainerStatuses s). \<not> Ready c) \<and>
     (\<forall>c \<in> set (InitContainerStatuses s) \<union> set (ContainerStatuses s).
        \<not> Ready c \<longrightarrow> RestartCount c \<le> 0 \<and>
          \<not> (\<exists>w. Waiting (State c) = Some w \<and> \<not> waitReasonIsStartup (sdReason w)))"
  by (auto simp: podIsWarmingUp_def warmingLoop_iff blockedContainer_def)

lemma podIsWarmingUp_iff_witness:
  "\<not> podIsWarmingUp starting_example \<and> podIsWarmingUp (starting_example\<lparr>Phase := ''Running''\<rparr>)"
  by (simp add: podIsWarmingUp_iff starting_example_def waitReasonIsStartup_def startingWaitReasons_def)

end
