(* ===== verification/Workloads.thy ===== *)
theory Workloads
  imports Pods
begin

text \<open>
  The section classifiers: \<open>internal/shared/health/workloads.go\<close> (Deployments, StatefulSets,
  DaemonSets, PVCs, leases) and \<open>sections.go\<close> (NetworkPolicies, Jobs, CronWorkflows, Services,
  PodDisruptionBudgets, Ingresses, Workflows, stuck finalizers). Counts are Go \<open>int\<close>s; ages in
  seconds that the sources hold as floating-point numbers are nanosecond counts here (they are
  only compared with whole seconds). \<open>budgeted\<close> is the package variable \<open>Budgeted\<close>.
\<close>

subsection \<open>\<open>workloads.go\<close>\<close>

definition expectedLinodeBlockStoragePVCs :: "depEntry list" where
  "expectedLinodeBlockStoragePVCs = [
     litDep ''gitea/valkey-data-gitea-valkey-primary-0'' (msg [
       ''gitea-valkey (present only when the opt-in gitea component is enabled) '',
         ''hardcodes linode-block-storage; the pvc-force-encrypted-storage-class Kyverno '',
         ''policy rewrites it to the encrypted block-storage-retain class, but on a cold '',
         ''bootstrap the webhook can lag the chart-install and the PVC binds unencrypted '',
         ''first. Re-roll (STS scale-down + PVC delete + scale-up), or live with the '',
         ''unencrypted ephemeral cache.'']),
     litDep ''istio-system/data-oauth2-proxy-redis-ha-server-0'' (msg [
       ''oauth2-proxy redis-HA hardcodes linode-block-storage; same remediation as '',
         ''gitea-valkey.''])]"

definition classifyWorkload ::
  "string \<Rightarrow> string \<Rightarrow> string \<Rightarrow> int \<Rightarrow> int \<Rightarrow> string \<Rightarrow> string \<Rightarrow> bool \<Rightarrow> category \<times> string" where
  "classifyWorkload kind ns name desired ready progressingReason progressingMsg phase1 =
     (let label = msg [kind, '' '', ns, ''/'', name, '' ('', int_dec ready, ''/'', int_dec desired, '')'']
      in if desired = 0 \<or> ready = desired then (CatOK, label)
      else let key = ns @ ''/'' @ name
      in if phase1 \<and> matchPrefix key phase1PendingWorkloads then
           (CatPending, msg [label, '' '', em_dash, '' waiting on OpenBao bootstrap''])
         else (case matchExternalDep key externalDepWorkloads of
             Some reason \<Rightarrow> (CatDeferred, msg [label, dash, reason])
           | None \<Rightarrow>
               let extra = (if progressingReason \<noteq> [] then
                     let extra = msg ['' '', em_dash, '' Progressing='', progressingReason]
                     in if progressingReason = ''ProgressDeadlineExceeded'' \<and> progressingMsg \<noteq> []
                        then msg [extra, '': '', progressingMsg] else extra
                   else [])
               in (CatFail, label @ extra)))"

definition classifyDaemonSet ::
  "string \<Rightarrow> string \<Rightarrow> int \<Rightarrow> int \<Rightarrow> int \<Rightarrow> int \<Rightarrow> category \<times> string" where
  "classifyDaemonSet ns name desired ready updated missched =
     (let base = msg [''DaemonSet '', ns, ''/'', name]
      in if ready \<noteq> desired then
           (CatFail, msg [base, '' ('', int_dec ready, ''/'', int_dec desired, '' ready)''])
         else if updated \<noteq> desired then
           (CatFail, msg [base, '' rolling update stalled (updated='', int_dec updated, '' desired='',
              int_dec desired, '') '', em_dash, '' check PDB / pod schedulability''])
         else if missched \<noteq> 0 then
           (CatFail, msg [base, '' has '', int_dec missched, '' misscheduled pod(s) '', em_dash,
              '' selector drift or stale tolerations''])
         else
           (CatOK, msg [base, '' ('', int_dec ready, ''/'', int_dec desired, '' ready, '',
              int_dec updated, '' updated, 0 misscheduled)'']))"

definition classifyPVC :: "string \<Rightarrow> string \<Rightarrow> string \<Rightarrow> string \<Rightarrow> category \<times> string" where
  "classifyPVC ns name status cls =
     (if status \<noteq> ''Bound'' then
        (CatFail, msg [''PVC '', ns, ''/'', name, '' ('', cls, '') status='', status])
      else if cls = ''linode-block-storage'' \<or> cls = ''linode-block-storage-retain'' then
        (case matchExternalDep (ns @ ''/'' @ name) expectedLinodeBlockStoragePVCs of
           Some reason \<Rightarrow>
             (CatDeferred, msg [''PVC '', ns, ''/'', name, '' Bound on '', cls, '' (expected) '', em_dash,
                '' '', reason])
         | None \<Rightarrow>
             (CatWarn, msg [''PVC '', ns, ''/'', name, '' Bound on '', cls,
                '' '', em_dash,
                  '' not block-storage-retain; Kyverno mutation may have lagged the chart-install; '',
                  ''re-roll to encrypted+tagged storage.'']))
      else (CatOK, msg [''PVC '', ns, ''/'', name, '' ('', cls, '') Bound'']))"

definition leaseStale :: "instant \<Rightarrow> instant \<Rightarrow> int \<Rightarrow> bool" where
  "leaseStale renew now durationSeconds =
     (let durationSeconds = (if durationSeconds \<le> 0 then 15 else durationSeconds)
      in time_sub now renew > i64 (durationSeconds * 4) * second)"

subsection \<open>\<open>sections.go\<close>\<close>

definition classifyPVPhase :: "string \<Rightarrow> category" where
  "classifyPVPhase phase =
     (if phase = ''Failed'' \<or> phase = ''Pending'' then CatFail
      else if phase = ''Bound'' \<or> phase = ''Available'' \<or> phase = ''Released'' then CatOK
      else CatWarn)"

definition netpolExemptNamespace :: "string \<Rightarrow> bool" where
  "netpolExemptNamespace ns \<longleftrightarrow> ns = ''argocd'' \<or> ns = ''kube-system''"

definition classifyNamespaceNetpol :: "string \<Rightarrow> int \<Rightarrow> category \<times> string" where
  "classifyNamespaceNetpol ns count =
     (if count \<ge> 1 then (CatOK, msg [''Namespace '', ns, '' has '', int_dec count, '' NetworkPolicy(s)''])
      else case matchExternalDep ns npExternalDepNamespaces of
        Some r \<Rightarrow> (CatDeferred, msg [''Namespace '', ns, '' has NO NetworkPolicies '', em_dash, '' '', r])
      | None \<Rightarrow>
          (CatFail, msg [''Namespace '', ns, '' has NO NetworkPolicies '', em_dash,
             '' default-deny missing (workloads run unrestricted)'']))"

definition classifyJob ::
  "string \<Rightarrow> bool \<Rightarrow> bool \<Rightarrow> int \<Rightarrow> int \<Rightarrow> int \<Rightarrow> bool \<Rightarrow> category \<times> string" where
  "classifyJob key complete failed active succeeded failedCount phase1Pending =
     (if complete then (CatOK, msg [''Job '', key, '' Complete ('', int_dec succeeded, '' succeeded)''])
      else if failed then
        (if phase1Pending then
           (CatPending, msg [''Job '', key, '' Failed '', em_dash, '' waiting on OpenBao bootstrap''])
         else
           (CatFail, msg [''Job '', key, '' Failed (succeeded='', int_dec succeeded, '' failed='',
              int_dec failedCount, '')'']))
      else if active = 0 \<and> succeeded = 0 \<and> failedCount = 0 then
        (if phase1Pending then
           (CatPending, msg [''Job '', key, '' not started '', em_dash, '' waiting on OpenBao bootstrap''])
         else
           (CatWarn, msg [''Job '', key, '' no active/succeeded/failed pods (stuck pre-admission?)'']))
      else
        (CatOK, msg [''Job '', key, '' active='', int_dec active, '' succeeded='', int_dec succeeded,
           '' failed='', int_dec failedCount, '' (in progress)'']))"

record jobRun =
  jrKey :: string
  jrCronOwner :: string
  jrCreated :: instant
  jrComplete :: bool
  jrFailed :: bool

fun latestOKLoop :: "(string \<rightharpoonup> instant) \<Rightarrow> jobRun list \<Rightarrow> (string \<rightharpoonup> instant)" where
  "latestOKLoop latestOK [] = latestOK"
| "latestOKLoop latestOK (j # js) =
     (if jrComplete j \<and> jrCronOwner j \<noteq> [] then
        (if (case latestOK (jrCronOwner j) of None \<Rightarrow> True | Some t \<Rightarrow> jrCreated j > t)
         then latestOKLoop (latestOK(jrCronOwner j \<mapsto> jrCreated j)) js
         else latestOKLoop latestOK js)
      else latestOKLoop latestOK js)"

definition supersededFailedJobs :: "jobRun list \<Rightarrow> string set" where
  "supersededFailedJobs jobs =
     (let latestOK = latestOKLoop Map.empty jobs
      in set (map jrKey (filter (\<lambda>j. jrFailed j \<and> \<not> jrComplete j \<and> jrCronOwner j \<noteq> [] \<and>
           (case latestOK (jrCronOwner j) of None \<Rightarrow> False | Some t \<Rightarrow> \<not> (jrCreated j > t))) jobs)))"

definition classifyCronWorkflow ::
  "string \<Rightarrow> string \<Rightarrow> bool \<Rightarrow> int \<Rightarrow> int \<Rightarrow> category \<times> string" where
  "classifyCronWorkflow key submissionErr suspended ageDays staleDays =
     (if submissionErr \<noteq> [] then
        (CatFail, msg [''CronWorkflow '', key, '' SubmissionError '', em_dash, '' '', submissionErr])
      else if suspended then (CatWarn, msg [''CronWorkflow '', key, '' suspended (spec.suspend=true)''])
      else if ageDays < 0 then (CatOK, msg [''CronWorkflow '', key, '' has not yet scheduled a run''])
      else if ageDays > staleDays then
        (CatFail, msg [''CronWorkflow '', key, '' lastScheduledTime is '', int_dec ageDays, ''d old (> '',
           int_dec staleDays, ''d) '', em_dash, '' schedule isn'', sq, ''t firing''])
      else
        (CatOK, msg [''CronWorkflow '', key, '' ('', int_dec ageDays, ''d ago, no SubmissionError)'']))"

definition classifyServiceEndpoints ::
  "bool \<Rightarrow> string \<Rightarrow> int \<Rightarrow> int \<Rightarrow> bool \<Rightarrow> category \<times> string" where
  "classifyServiceEndpoints budgeted key ready tot phase1Pending =
     (if ready > 0 then (CatOK, msg [''Service '', key, '' ('', int_dec ready, '' ready endpoint(s))''])
      else if phase1Pending then
        (CatPending, msg [''Service '', key, '' has 0 ready endpoints '', em_dash,
           '' waiting on OpenBao bootstrap''])
      else case matchExternalDep key externalDepWorkloads of
        Some r \<Rightarrow> (CatDeferred, msg [''Service '', key, '' has 0 ready endpoints '', em_dash, '' '', r])
      | None \<Rightarrow>
      if tot > 0 then
        pendingIfBudgeted budgeted
          (msg [''Service '', key, '' has '', int_dec tot, '' endpoint(s) but none Ready yet '', em_dash,
             '' backing pods still starting''])
          (msg [''Service '', key, '' has '', int_dec tot, '' endpoint(s) and NONE Ready '', em_dash,
             '' this is a steady-state check, so the backing pods are not starting, they are '',
               ''failing their readiness probe''])
      else
        pendingIfBudgeted budgeted
          (msg [''Service '', key, '' has no endpoints yet '', em_dash,
             '' backing pods not created, or selector drift; the budget decides''])
          (msg [''Service '', key, '' has no endpoints (selector drift, or nothing backing it) '', em_dash,
             '' this is a steady-state check, so there is no budget left for it to be '',
               sq, ''not yet'', sq]))"

definition classifyPDB ::
  "bool \<Rightarrow> string \<Rightarrow> int \<Rightarrow> int \<Rightarrow> int \<Rightarrow> int \<Rightarrow> bool \<Rightarrow> category \<times> string" where
  "classifyPDB budgeted key cur des allow exp phase1 =
     (let label = msg [''PDB '', key, '' (currentHealthy='', int_dec cur, '' desiredHealthy='', int_dec des,
            '' disruptionsAllowed='', int_dec allow, '')'']
      in if exp = 0 then
           (CatOK, msg [''PDB '', key, '' expectedPods=0 (selector matches nothing '', em_dash, '' orphan PDB?)''])
         else if cur \<ge> des \<and> allow \<noteq> 0 then (CatOK, label)
         else if cur \<ge> des \<and> exp = 1 then
           (CatOK, msg [''PDB '', key, '' (single-replica, drain blocks until reschedule)''])
         else if cur \<ge> des \<and> des < exp then
           (CatOK, msg [''PDB '', key, '' (over-provisioned, permits drains once healed)''])
         else case matchExternalDep key externalDepWorkloads of
           Some r \<Rightarrow> (CatDeferred, msg [label, dash, r])
         | None \<Rightarrow>
         if phase1 then (CatPending, msg [label, '' '', em_dash, '' support plane still installing''])
         else if exp > 1 \<and> des \<ge> exp then
           pendingIfBudgeted budgeted
             (msg [label, '' '', em_dash, '' desiredHealthy '', geq_sign, '' expectedPods='', int_dec exp,
                '', which permits no drain; still budgeted in case the workload is mid-scale-up '',
                  ''and expectedPods has yet to rise''])
             (msg [''PDB '', key, '' (currentHealthy='', int_dec cur, '' desiredHealthy='', int_dec des,
                '' disruptionsAllowed='', int_dec allow, '' expectedPods='', int_dec exp,
                '') '', em_dash, '' node drains will block: minAvailable '', geq_sign,
                  '' replicas, so disruptionsAllowed can never rise above 0 even at full health. '',
                  ''Lower minAvailable or raise replicas.''])
         else
           pendingIfBudgeted budgeted
             (msg [label, '' '', em_dash, '' budget is satisfiable (desiredHealthy < expectedPods='',
                int_dec exp, ''); backing pods still starting''])
             (msg [''PDB '', key, '' (currentHealthy='', int_dec cur, '' desiredHealthy='', int_dec des,
                '' disruptionsAllowed='', int_dec allow, '' expectedPods='', int_dec exp,
                '') '', em_dash, '' the budget is fine (minAvailable < replicas); '', int_dec cur, '' of '', int_dec exp,
                '' pods are healthy, so the BACKING WORKLOAD is unhealthy '', em_dash,
                  '' this is a steady-state check, so they are not starting. Its own section '',
                  ''carries the verdict.'']))"

definition classifyIngress :: "string \<Rightarrow> int \<Rightarrow> bool \<Rightarrow> category \<times> string" where
  "classifyIngress key addressCount phase1 =
     (if addressCount > 0 then (CatOK, msg [''Ingress '', key, '' programmed''])
      else if phase1 then
        (CatPending, msg [''Ingress '', key, '' has no address '', em_dash,
           '' ingress controller may not yet be Ready''])
      else
        (CatFail, msg [''Ingress '', key,
           '' has no .status.loadBalancer.ingress (controller down / IngressClass mismatch / '',
             ''webhook rejection)'']))"

definition isEphemeralE2EProbe :: "string \<Rightarrow> bool" where
  "isEphemeralE2EProbe name \<longleftrightarrow>
     has_prefix name ''e2e-assert-health-'' \<or> name = ''broad-pat-rotator-e2e''"

definition baseName :: "string \<Rightarrow> string" where   \<comment> \<open>\<open>key[strings.LastIndex(key, "/")+1:]\<close>\<close>
  "baseName key = (case last_index_of (CHR ''/'') key of None \<Rightarrow> key | Some i \<Rightarrow> drop (Suc i) key)"

definition classifyWorkflowPhase :: "string \<Rightarrow> string \<Rightarrow> bool \<Rightarrow> category \<times> string" where
  "classifyWorkflowPhase key phase phase1 =
     (if isEphemeralE2EProbe (baseName key) then
        (CatOK, msg [''Workflow '', key, '' (ephemeral e2e probe '', em_dash, '' not a convergence signal)''])
      else if phase = ''Failed'' \<or> phase = ''Error'' then
        (if phase1 then
           (CatPending, msg [''Workflow '', key, '' phase='', phase, '' '', em_dash,
              '' cert-automation gated on OpenBao bootstrap''])
         else (CatFail, msg [''Workflow '', key, '' phase='', phase]))
      else if phase = ''Succeeded'' then (CatOK, msg [''Workflow '', key, '' Succeeded''])
      else (CatOK, msg [''Workflow '', key, '' '', phase, '' (in flight)'']))"

definition stuckFinalizer :: "bool \<Rightarrow> int \<Rightarrow> int \<Rightarrow> bool" where
  "stuckFinalizer hasDeletionTimestamp finalizerCount age \<longleftrightarrow>
     hasDeletionTimestamp \<and> finalizerCount > 0 \<and> age > 300 * second"

definition stuckKinds :: "(string \<times> string) list" where
  "stuckKinds =
     [(''pv'', ''PersistentVolume''), (''pvc'', ''PersistentVolumeClaim''),
      (''certificates'', ''Certificate''), (''certificaterequests'', ''CertificateRequest''),
      (''workflows'', ''Workflow''), (''externalsecrets'', ''ExternalSecret''),
      (''clustersecretstores'', ''ClusterSecretStore''), (''clusterissuers'', ''ClusterIssuer''),
      (''issuers'', ''Issuer'')]"

definition stuckResourceRef :: "string \<Rightarrow> string \<Rightarrow> string \<Rightarrow> resourceRef option" where
  "stuckResourceRef plural namespace name =
     (case cut_at (CHR ''.'') plural of (res, grp, _) \<Rightarrow>
        (case map_of stuckKinds res of
           None \<Rightarrow> None
         | Some kind \<Rightarrow>
             Some \<lparr>rGroup = grp, rKind = kind, rNamespace = namespace, rName = name\<rparr>))"

definition stuckResourceKinds :: "string list" where
  "stuckResourceKinds =
     [''pv|'', ''pvc|-A'', ''certificates.cert-manager.io|-A'',
      ''certificaterequests.cert-manager.io|-A'', ''workflows.argoproj.io|-A'',
      ''externalsecrets.external-secrets.io|-A'', ''clustersecretstores.external-secrets.io|'',
      ''clusterissuers.cert-manager.io|'', ''issuers.cert-manager.io|-A'']"

subsection \<open>Lemmas\<close>

lemma pendingIfBudgeted_fst:
  "fst (pendingIfBudgeted b m n) = (if b then CatPending else CatFail)"
  by (simp add: pendingIfBudgeted_def)

lemma latestOKLoop_le:
  "(\<exists>t. latestOKLoop m js w = Some t \<and> c \<le> t) \<longleftrightarrow>
     (\<exists>t. m w = Some t \<and> c \<le> t) \<or>
     (\<exists>s \<in> set js. jrComplete s \<and> jrCronOwner s = w \<and> w \<noteq> [] \<and> c \<le> jrCreated s)"
proof (induction m js rule: latestOKLoop.induct)
  case (2 m j js)
  have "(\<exists>t. (m(jrCronOwner j \<mapsto> jrCreated j)) w = Some t \<and> c \<le> t) \<longleftrightarrow>
      (\<exists>t. m w = Some t \<and> c \<le> t) \<or> jrCronOwner j = w \<and> c \<le> jrCreated j"
    if "case m (jrCronOwner j) of None \<Rightarrow> True | Some t \<Rightarrow> jrCreated j > t"
    using that by (auto split: option.splits)
  moreover have "jrCronOwner j = w \<and> c \<le> jrCreated j \<longrightarrow> (\<exists>t. m w = Some t \<and> c \<le> t)"
    if "\<not> (case m (jrCronOwner j) of None \<Rightarrow> True | Some t \<Rightarrow> jrCreated j > t)"
    using that by (auto split: option.splits)
  ultimately show ?case using 2 by (auto simp del: fun_upd_apply)
qed auto

lemma supersededFailedJobs_iff:
  "k \<in> supersededFailedJobs jobs \<longleftrightarrow>
     (\<exists>j \<in> set jobs. jrKey j = k \<and> jrFailed j \<and> \<not> jrComplete j \<and> jrCronOwner j \<noteq> [] \<and>
        (\<exists>s \<in> set jobs. jrComplete s \<and> jrCronOwner s = jrCronOwner j \<and> jrCreated j \<le> jrCreated s))"
proof -
  have "(case latestOKLoop Map.empty jobs (jrCronOwner j) of None \<Rightarrow> False | Some t \<Rightarrow> \<not> (jrCreated j > t)) \<longleftrightarrow>
      (\<exists>s \<in> set jobs. jrComplete s \<and> jrCronOwner s = jrCronOwner j \<and> jrCronOwner j \<noteq> [] \<and> jrCreated j \<le> jrCreated s)"
    for j
    using latestOKLoop_le [of Map.empty jobs "jrCronOwner j" "jrCreated j"]
    by (auto split: option.splits)
  then show ?thesis by (auto simp: supersededFailedJobs_def Let_def)
qed

text \<open>The categories alone.\<close>

lemma fst_classifyServiceEndpoints:
  "fst (classifyServiceEndpoints budgeted key ready tot p1) =
     (if ready > 0 then CatOK else if p1 then CatPending
      else if matchExternalDep key externalDepWorkloads \<noteq> None then CatDeferred
      else if budgeted then CatPending else CatFail)"
  by (cases "matchExternalDep key externalDepWorkloads")
    (simp_all add: classifyServiceEndpoints_def pendingIfBudgeted_fst)

lemma fst_classifyPDB:
  "fst (classifyPDB budgeted key cur des allow expd p1) =
     (if expd = 0 \<or> cur \<ge> des \<and> (allow \<noteq> 0 \<or> expd = 1 \<or> des < expd) then CatOK
      else if matchExternalDep key externalDepWorkloads \<noteq> None then CatDeferred
      else if p1 \<or> budgeted then CatPending else CatFail)"
  by (cases "matchExternalDep key externalDepWorkloads")
    (auto simp: classifyPDB_def Let_def pendingIfBudgeted_fst)

lemma fst_classifyWorkload:
  "fst (classifyWorkload kind ns name desired ready why m p1) =
     (if desired = 0 \<or> ready = desired then CatOK
      else if p1 \<and> matchPrefix (ns @ ''/'' @ name) phase1PendingWorkloads then CatPending
      else if matchExternalDep (ns @ ''/'' @ name) externalDepWorkloads \<noteq> None then CatDeferred
      else CatFail)"
  by (cases "matchExternalDep (ns @ ''/'' @ name) externalDepWorkloads")
    (simp_all add: classifyWorkload_def Let_def)

subsection \<open>Properties\<close>

text \<open>a failed CronJob run is excused only by a completed run of the same owner that was
  created no earlier: a current regression, whose failure is newer than every success of its
  owner, is never excused, nor is a Job without a CronJob owner.\<close>

lemma superseded_only_by_newer_success:
  assumes "j \<in> set jobs" and "\<And>i. i \<in> set jobs \<Longrightarrow> jrKey i = jrKey j \<Longrightarrow> i = j"
    and "jrCronOwner j = [] \<or>
      (\<forall>s \<in> set jobs. jrComplete s \<and> jrCronOwner s = jrCronOwner j \<longrightarrow> jrCreated s < jrCreated j)"
  shows "jrKey j \<notin> supersededFailedJobs jobs"
proof
  assume "jrKey j \<in> supersededFailedJobs jobs"
  then obtain i s where i: "i \<in> set jobs" "jrKey i = jrKey j" "jrCronOwner i \<noteq> []" and
    s: "s \<in> set jobs" "jrComplete s" "jrCronOwner s = jrCronOwner i" "jrCreated i \<le> jrCreated s"
    unfolding supersededFailedJobs_iff by blast
  have "i = j" using assms(2) i by blast
  with i s assms(3) show False by force
qed

definition tick :: "string \<Rightarrow> instant \<Rightarrow> bool \<Rightarrow> jobRun" where
  "tick key t ok = \<lparr>jrKey = key, jrCronOwner = ''nudger'', jrCreated = t, jrComplete = ok, jrFailed = \<not> ok\<rparr>"

lemma superseded_only_by_newer_success_witness:
  "''argocd/nudger-2'' \<notin> supersededFailedJobs [tick ''argocd/nudger-1'' 1 True, tick ''argocd/nudger-2'' 2 False]"
proof -
  have "jrKey (tick ''argocd/nudger-2'' 2 False)
      \<notin> supersededFailedJobs [tick ''argocd/nudger-1'' 1 True, tick ''argocd/nudger-2'' 2 False]"
    by (rule superseded_only_by_newer_success) (auto simp: tick_def)
  then show ?thesis by (simp add: tick_def)
qed

text \<open>the owner of a run is its CronJob's bare name, so a success of a CronJob of another
  namespace excuses a failure: here the platform's failing \<open>argocd/nudger\<close> run, which has no
  successful sibling, is excused by a run of \<open>team-a/nudger\<close>.\<close>

lemma superseded_across_namespaces:
  "''argocd/nudger-7'' \<in> supersededFailedJobs
     [tick ''argocd/nudger-7'' 10 False, tick ''team-a/nudger-3'' 11 True]"
  unfolding supersededFailedJobs_iff by (simp add: tick_def)

text \<open>the budget decides what "not yet" means. With a budget no Service and no
  PodDisruptionBudget hard-fails; without one (steady state, support plane installed) none is
  pending, so a Service without ready endpoints cannot stay "still starting" for ever.\<close>

lemma budget_decides:
  "(budgeted \<longrightarrow> fst (classifyServiceEndpoints budgeted key ready tot p1) \<noteq> CatFail
      \<and> fst (classifyPDB budgeted key cur des allow expd p1) \<noteq> CatFail) \<and>
   (\<not> budgeted \<longrightarrow> fst (classifyServiceEndpoints budgeted key ready tot False) \<noteq> CatPending
      \<and> fst (classifyPDB budgeted key cur des allow expd False) \<noteq> CatPending)"
  by (simp add: fst_classifyServiceEndpoints fst_classifyPDB)

lemma budget_decides_witness:
  "fst (classifyServiceEndpoints False ''harbor/harbor-core'' 0 2 False) \<noteq> CatPending"
  using budget_decides [of False] by simp

text \<open>a PodDisruptionBudget that selects pods passes exactly when it is healthy and either
  permits a disruption now or would once healed (or guards a single replica).\<close>

lemma classifyPDB_ok_iff:
  "fst (classifyPDB budgeted key cur des allow expd p1) = CatOK \<longleftrightarrow>
     expd = 0 \<or> des \<le> cur \<and> \<not> (allow = 0 \<and> expd \<noteq> 1 \<and> expd \<le> des)"
  by (auto simp: fst_classifyPDB)

text \<open>every kind the stuck-finalizer scan lists has a resource identity, so a stuck object
  of any of them can be attributed to its owner.\<close>

lemma stuck_kinds_resolve:
  "list_all (\<lambda>spec. stuckResourceRef (takeWhile (\<lambda>c. c \<noteq> CHR ''|'') spec) ns name \<noteq> None)
     stuckResourceKinds"
  by (simp add: stuckResourceKinds_def stuckResourceRef_def stuckKinds_def cut_at_def)

end
