(* ===== verification/Linode_Fleet.thy ===== *)
theory Linode_Fleet
  imports Regexp "HOL-Library.List_Lexorder"
begin

text \<open>
  The Linode account's resources: which are orphans of a deleted cluster
  (\<open>internal/shared/linode/reap.go\<close>), the control-plane ACL edits of \<open>acl.go\<close> and the Volume
  tag merge of \<open>volumetags.go\<close>. A Go map used as a set of live cluster ids is the predicate
  \<open>live\<close>. What the sweeps delete rests on these decisions.
\<close>

subsection \<open>Cluster ids in labels and tags (\<open>reap.go\<close>)\<close>

definition isAllDigits :: "string \<Rightarrow> bool" where
  "isAllDigits s = (if list_all is_digit s then s \<noteq> [] else False)"

definition lkeIDFromLabel :: "string \<Rightarrow> string" where
  "lkeIDFromLabel label =
     (if \<not> has_prefix label ''lke'' then []
      else let rest = drop (length ''lke'') label
           in if rest = [] \<or> \<not> isAllDigits rest then [] else rest)"

text \<open>\<open>^lke-?([0-9]+)$\<close>; the submatch is what follows the prefix and the optional dash.\<close>

definition nbTagRe :: rx where
  "nbTagRe = RSeq (rlits ''lke'') (RSeq (ropt (rlit CHR ''-''))
     (RSeq (RChar is_digit) (RStar (RChar is_digit))))"

fun lkeIDFromTags :: "string list \<Rightarrow> string" where
  "lkeIDFromTags [] = []"
| "lkeIDFromTags (t # ts) =
     (if rx_match nbTagRe t then trim_prefix (trim_prefix t ''lke'') ''-''
      else lkeIDFromTags ts)"

datatype nbDecision = NBKeep | NBOrphan | NBCheckBackends

definition containsStr :: "string list \<Rightarrow> string \<Rightarrow> bool" where
  "containsStr ss want = list_ex (\<lambda>s. s = want) ss"

definition classifyNodeBalancer ::
  "string \<Rightarrow> string list \<Rightarrow> string \<Rightarrow> (string \<Rightarrow> bool) \<Rightarrow> nbDecision" where
  "classifyNodeBalancer lkeClusterID tags label live =
     (if lkeClusterID \<noteq> [] then (if live lkeClusterID then NBKeep else NBOrphan)
      else let cid = lkeIDFromTags tags
           in if cid \<noteq> [] then (if live cid then NBKeep else NBOrphan)
              else if has_prefix label ''ccm-'' \<or> containsStr tags ''kubernetes'' then NBCheckBackends
              else NBKeep)"

definition vpcIsOrphan :: "string \<Rightarrow> (string \<Rightarrow> bool) \<Rightarrow> bool" where
  "vpcIsOrphan label live = (let cid = lkeIDFromLabel label in cid \<noteq> [] \<and> \<not> live cid)"

definition csiDefaultVolumePrefix :: string where
  "csiDefaultVolumePrefix = ''pvc-''"

definition regionShort :: "string \<Rightarrow> string" where
  "regionShort env = (if length env < 3 then env else take 3 env)"

definition volumeLabelPrefixes :: "string \<Rightarrow> string list" where
  "volumeLabelPrefixes env =
     (if env = [] then [csiDefaultVolumePrefix]
      else [csiDefaultVolumePrefix, regionShort env @ ''-''])"

definition hasAnyPrefix :: "string \<Rightarrow> string list \<Rightarrow> bool" where
  "hasAnyPrefix s ps = list_ex (\<lambda>p. p \<noteq> [] \<and> has_prefix s p) ps"

definition volumeIsCandidate ::
  "bool \<Rightarrow> string \<Rightarrow> string \<Rightarrow> string list \<Rightarrow> string \<Rightarrow> string set \<Rightarrow> string \<Rightarrow> string \<Rightarrow> string list \<Rightarrow> bool" where
  "volumeIsCandidate linodeIDNull label region tags regionFilter idAllow volID tagMustInclude labelPrefixes =
     (if \<not> linodeIDNull then False
      else let labelPrefixes = (if length labelPrefixes = 0 then [csiDefaultVolumePrefix] else labelPrefixes)
      in if \<not> hasAnyPrefix label labelPrefixes then False
      else if regionFilter \<noteq> [] \<and> region \<noteq> regionFilter then False
      else if idAllow \<noteq> {} \<and> volID \<notin> idAllow then False
      else if tagMustInclude \<noteq> [] \<and> \<not> containsStr tags tagMustInclude then False
      else True)"

lemma nbTagRe_lang:
  "rx_match nbTagRe t \<longleftrightarrow> (\<exists>ds. isAllDigits ds \<and> (t = ''lke'' @ ds \<or> t = ''lke-'' @ ds))"
proof -
  have digits: "rx_lang (RSeq (RChar is_digit) (RStar (RChar is_digit))) u \<longleftrightarrow> isAllDigits u" for u
    by (cases u) (auto simp: rx_lang_lit_Seq rx_lang_Star_Char isAllDigits_def)
  have lit: "rx_lang (RSeq (rlit c) r) u \<longleftrightarrow> (\<exists>t. u = c # t \<and> rx_lang r t)" for c r u
    by (auto simp: rx_lang_lit_Seq)
  have "rx_lang (RSeq (ropt (rlit CHR ''-'')) (RSeq (RChar is_digit) (RStar (RChar is_digit)))) u
      \<longleftrightarrow> (\<exists>ds. isAllDigits ds \<and> (u = ds \<or> u = ''-'' @ ds))" for u
    unfolding rx_lang_opt_Seq digits lit by auto
  then show ?thesis
    unfolding rx_match_iff nbTagRe_def rx_lang_lits_Seq by auto
qed

subsection \<open>The control-plane ACL (\<open>acl.go\<close>)\<close>

record controlPlaneACL =
  aclEnabled :: bool
  aclIPv4 :: "string list"
  aclIPv6 :: "string list"
  aclRevisionID :: string

definition aclEnforced :: "controlPlaneACL \<Rightarrow> string \<Rightarrow> bool" where
  "aclEnforced a revision \<longleftrightarrow> revision \<noteq> [] \<and> aclRevisionID a = revision"

definition containsIP :: "controlPlaneACL \<Rightarrow> string \<Rightarrow> bool" where
  "containsIP a ip = list_ex (\<lambda>e. e = ip \<or> e = ip @ ''/32'') (aclIPv4 a)"

fun collapseLoop :: "string option \<Rightarrow> string list \<Rightarrow> string list" where   \<comment> \<open>\<open>None\<close>: \<open>i == 0\<close>\<close>
  "collapseLoop prev [] = []"
| "collapseLoop prev (s # ss) =
     (if prev = None \<or> prev \<noteq> Some s then s # collapseLoop (Some s) ss
      else collapseLoop (Some s) ss)"

definition collapseAdjacentInPlace :: "string list \<Rightarrow> string list" where
  "collapseAdjacentInPlace ss = collapseLoop None ss"

definition withIP :: "controlPlaneACL \<Rightarrow> string \<Rightarrow> controlPlaneACL \<times> bool" where
  "withIP a ip =
     (if containsIP a ip then (a, False)
      else let merged = sort (aclIPv4 a @ [ip])
           in (\<lparr>aclEnabled = True, aclIPv4 = collapseAdjacentInPlace merged,
                aclIPv6 = aclIPv6 a, aclRevisionID = []\<rparr>, True))"

definition withoutIP :: "controlPlaneACL \<Rightarrow> string \<Rightarrow> controlPlaneACL \<times> bool" where
  "withoutIP a ip =
     (let keep = filter (\<lambda>e. \<not> (e = ip \<or> e = ip @ ''/32'')) (aclIPv4 a)
      in if length keep = length (aclIPv4 a) then (a, False)
         else (\<lparr>aclEnabled = aclEnabled a, aclIPv4 = keep, aclIPv6 = aclIPv6 a,
                aclRevisionID = []\<rparr>, True))"

lemma collapseLoop_set:
  "set (collapseLoop prev ss) \<subseteq> set ss \<and> set ss \<subseteq> set (collapseLoop prev ss) \<union> set_option prev"
  by (induction prev ss rule: collapseLoop.induct) auto

lemma collapseAdjacent_set [simp]: "set (collapseAdjacentInPlace ss) = set ss"
  using collapseLoop_set [of None ss] by (auto simp: collapseAdjacentInPlace_def)

lemma collapseLoop_sorted:
  "sorted ss \<Longrightarrow> (\<forall>s \<in> set ss. \<forall>p. prev = Some p \<longrightarrow> p \<le> s) \<Longrightarrow>
     sorted (collapseLoop prev ss) \<and> distinct (collapseLoop prev ss)
     \<and> (\<forall>s \<in> set (collapseLoop prev ss). \<forall>p. prev = Some p \<longrightarrow> p < s)"
proof (induction prev ss rule: collapseLoop.induct)
  case (2 prev s ss)
  then have IH: "sorted (collapseLoop (Some s) ss) \<and> distinct (collapseLoop (Some s) ss)
      \<and> (\<forall>t \<in> set (collapseLoop (Some s) ss). s < t)"
    by (cases "prev = None \<or> prev \<noteq> Some s") auto
  show ?case
  proof (cases "prev = None \<or> prev \<noteq> Some s")
    case True
    have "p < s" if "prev = Some p" for p
      using that True 2(4) by force
    then show ?thesis using IH True by (force simp: less_imp_le)
  next
    case False
    then show ?thesis using IH by auto
  qed
qed auto

lemma collapse_sort: "sorted (collapseAdjacentInPlace (sort ss)) \<and> distinct (collapseAdjacentInPlace (sort ss))"
  using collapseLoop_sorted [of "sort ss" None] by (simp add: collapseAdjacentInPlace_def)

lemma containsIP_iff: "containsIP a ip \<longleftrightarrow> ip \<in> set (aclIPv4 a) \<or> ip @ ''/32'' \<in> set (aclIPv4 a)"
  by (auto simp: containsIP_def list_ex_iff)

lemma withoutIP_set:
  "set (aclIPv4 (fst (withoutIP a ip))) = set (aclIPv4 a) - {ip, ip @ ''/32''}"
  by (auto simp: withoutIP_def Let_def length_filter_same)

lemma withoutIP_changed: "snd (withoutIP a ip) \<longleftrightarrow> containsIP a ip"
  by (auto simp: withoutIP_def Let_def length_filter_same containsIP_iff)

subsection \<open>Volume tags (\<open>volumetags.go\<close>)\<close>

text \<open>The loop over the desired tags, with \<open>have\<close> and \<open>out\<close>.\<close>

fun mergeLoop :: "string set \<Rightarrow> string list \<Rightarrow> bool \<Rightarrow> string list \<Rightarrow> string list \<times> bool" where
  "mergeLoop hv acc changed [] = (acc, changed)"
| "mergeLoop hv acc changed (d # ds) =
     (if d = [] \<or> d \<in> hv then mergeLoop hv acc changed ds
      else mergeLoop (insert d hv) (acc @ [d]) True ds)"

definition mergeTags :: "string list \<Rightarrow> string list \<Rightarrow> string list \<times> bool" where
  "mergeTags tags desired = mergeLoop (set tags) tags False desired"

lemma mergeLoop_spec:
  "set acc = hv \<Longrightarrow> mergeLoop hv acc changed ds = (res, ch) \<Longrightarrow>
     (\<exists>new. res = acc @ new \<and> distinct new \<and> set new = set ds - {[]} - hv
        \<and> (ch \<longleftrightarrow> changed \<or> new \<noteq> []))"
proof (induction hv acc changed ds arbitrary: res ch rule: mergeLoop.induct)
  case (2 hv acc changed d ds)
  show ?case
  proof (cases "d = [] \<or> d \<in> hv")
    case True
    then show ?thesis using 2 by fastforce
  next
    case False
    have s: "set (acc @ [d]) = insert d hv" using 2(3) by simp
    have m: "mergeLoop (insert d hv) (acc @ [d]) True ds = (res, ch)" using 2(4) False by simp
    from 2(2) [OF False s m] obtain new where
      "res = (acc @ [d]) @ new" "distinct new" "set new = set ds - {[]} - insert d hv" "ch"
      by blast
    then show ?thesis using False by (intro exI [of _ "d # new"]) auto
  qed
qed auto

subsection \<open>Properties\<close>

text \<open>nothing of a live cluster is reaped. A NodeBalancer is classified an orphan exactly
  when a cluster id is known for it (its own field first, then its tags) and that cluster is
  gone; a VPC exactly when its label is \<open>lke\<close> and an id of a cluster that is gone.\<close>

lemma reap_only_gone_clusters:
  "(classifyNodeBalancer lke tags label live = NBOrphan \<longleftrightarrow>
      (let owner = (if lke \<noteq> [] then lke else lkeIDFromTags tags) in owner \<noteq> [] \<and> \<not> live owner)) \<and>
   (vpcIsOrphan label live \<longleftrightarrow> (\<exists>cid. isAllDigits cid \<and> label = ''lke'' @ cid \<and> \<not> live cid))"
  by (auto simp: classifyNodeBalancer_def vpcIsOrphan_def lkeIDFromLabel_def Let_def has_prefix_iff
      isAllDigits_def)

text \<open>the two readings of the ownership mark agree, and read back what was written: a
  resource tagged or labelled \<open>lke<id>\<close> is attributed to cluster \<open>id\<close> by both, in the older
  \<open>lke-<id>\<close> form by its tag.\<close>

lemma lkeID_roundtrip:
  assumes "isAllDigits cid"
  shows "lkeIDFromTags ((''lke'' @ cid) # ts) = cid \<and> lkeIDFromTags ((''lke-'' @ cid) # ts) = cid
    \<and> lkeIDFromLabel (''lke'' @ cid) = cid"
proof -
  have d: "hd cid \<noteq> CHR ''-''" "cid \<noteq> []"
    using assms digit_not_sign by (cases cid; auto simp: isAllDigits_def split: if_splits)+
  then have "\<not> has_prefix cid ''-''" by (cases cid) (auto simp: has_prefix_def)
  moreover have "rx_match nbTagRe (''lke'' @ cid)" "rx_match nbTagRe (''lke-'' @ cid)"
    using assms unfolding nbTagRe_lang by blast+
  moreover have "trim_prefix (''lke'' @ cid) ''lke'' = cid" by (rule trim_prefix_append)
  moreover have "trim_prefix (''lke-'' @ cid) ''lke'' = ''-'' @ cid"
    using trim_prefix_append [of "''lke''" "''-'' @ cid"] by simp
  ultimately show ?thesis
    using assms d trim_prefix_append [of "''-''" cid]
    by (simp add: trim_prefix_id lkeIDFromLabel_def has_prefix_def del: trim_prefix_append)
qed

lemma lkeID_roundtrip_witness:
  "lkeIDFromTags [''lke-12345''] = ''12345'' \<and> lkeIDFromLabel ''lke12345'' = ''12345''"
proof -
  have "isAllDigits ''12345''" by code_simp
  from lkeID_roundtrip [OF this, of "[]"] show ?thesis by simp
qed

text \<open>opening and closing the ACL for a runner's address: \<open>WithIP\<close> lets the address in,
  keeps every other entry and IPv6, and leaves the list sorted and duplicate-free when it
  changes it; \<open>WithoutIP\<close> shuts it out in both spellings, and after \<open>WithIP\<close> added it restores
  exactly the addresses there were. Each reports a change exactly when the entries change.\<close>

lemma acl_edits:
  "containsIP (fst (withIP a ip)) ip \<and>
   set (aclIPv4 (fst (withIP a ip))) \<subseteq> insert ip (set (aclIPv4 a)) \<and>
   set (aclIPv4 a) \<subseteq> set (aclIPv4 (fst (withIP a ip))) \<and>
   aclIPv6 (fst (withIP a ip)) = aclIPv6 a \<and>
   (snd (withIP a ip) \<longleftrightarrow> \<not> containsIP a ip) \<and>
   (snd (withIP a ip) \<longrightarrow> aclEnabled (fst (withIP a ip)) \<and>
      sorted (aclIPv4 (fst (withIP a ip))) \<and> distinct (aclIPv4 (fst (withIP a ip))) \<and>
      set (aclIPv4 (fst (withoutIP (fst (withIP a ip)) ip))) = set (aclIPv4 a)) \<and>
   \<not> containsIP (fst (withoutIP a ip)) ip \<and>
   (snd (withoutIP a ip) \<longleftrightarrow> containsIP a ip) \<and>
   aclEnabled (fst (withoutIP a ip)) = aclEnabled a \<and> aclIPv6 (fst (withoutIP a ip)) = aclIPv6 a"
proof -
  have out: "\<not> containsIP (fst (withoutIP a ip)) ip" "aclEnabled (fst (withoutIP a ip)) = aclEnabled a"
    "aclIPv6 (fst (withoutIP a ip)) = aclIPv6 a"
    by (simp_all add: containsIP_iff withoutIP_set) (simp_all add: withoutIP_def Let_def)
  show ?thesis
  proof (cases "containsIP a ip")
    case True
    then have "withIP a ip = (a, False)" by (simp add: withIP_def)
    with True out show ?thesis by (auto simp: withoutIP_changed)
  next
    case False
    define b where "b = fst (withIP a ip)"
    have w: "withIP a ip = (b, True)" and b: "set (aclIPv4 b) = insert ip (set (aclIPv4 a))"
      "aclIPv6 b = aclIPv6 a" "aclEnabled b" "sorted (aclIPv4 b)" "distinct (aclIPv4 b)"
      using False collapse_sort by (simp_all add: b_def withIP_def Let_def)
    have "set (aclIPv4 (fst (withoutIP b ip))) = set (aclIPv4 a)"
      using False by (auto simp: withoutIP_set b(1) containsIP_iff)
    with False out b show ?thesis by (auto simp: w withoutIP_changed containsIP_iff [of b])
  qed
qed

lemma acl_edits_witness:
  "snd (withIP \<lparr>aclEnabled = True, aclIPv4 = [''10.0.0.9''], aclIPv6 = [], aclRevisionID = []\<rparr> ''1.2.3.4'')"
  using acl_edits [of "\<lparr>aclEnabled = True, aclIPv4 = [''10.0.0.9''], aclIPv6 = [], aclRevisionID = []\<rparr>" "''1.2.3.4''"]
  by (simp add: containsIP_iff)

text \<open>a tag merge never drops or reorders a tag a Volume already carries, adds exactly the
  missing desired ones once each, and reports a change exactly when it added one, so that
  merging again changes nothing.\<close>

lemma mergeTags_spec:
  "case mergeTags tags desired of (res, changed) \<Rightarrow>
     (\<exists>new. res = tags @ new \<and> distinct new \<and> set new = set desired - {[]} - set tags
        \<and> (changed \<longleftrightarrow> new \<noteq> []))
     \<and> mergeTags res desired = (res, False)"
proof -
  obtain res ch where m: "mergeTags tags desired = (res, ch)" by fastforce
  obtain new where new: "res = tags @ new" "distinct new" "set new = set desired - {[]} - set tags"
      "ch \<longleftrightarrow> new \<noteq> []"
    using mergeLoop_spec [OF refl m [unfolded mergeTags_def]] by blast
  obtain res' ch' where m': "mergeTags res desired = (res', ch')" by fastforce
  obtain new' where new': "res' = res @ new'" "set new' = set desired - {[]} - set res" "ch' \<longleftrightarrow> new' \<noteq> []"
    using mergeLoop_spec [OF refl m' [unfolded mergeTags_def]] by blast
  have "set new' = {}" unfolding new'(2) new(1) using new(3) by auto
  then have "mergeTags res desired = (res, False)" using m' new'(1,3) by simp
  then show ?thesis using m new by auto
qed

text \<open>the destructive Volume sweep only ever considers a detached Volume whose label has a
  known, non-empty prefix, in the requested region, among the allowed ids and with the
  required tag, when these are given.\<close>

lemma volumeIsCandidate_iff:
  "volumeIsCandidate detached label region tags regionFilter idAllow volID tagMust ps \<longleftrightarrow>
     detached \<and> (\<exists>p \<in> set (if ps = [] then [csiDefaultVolumePrefix] else ps). p \<noteq> [] \<and> has_prefix label p) \<and>
     (regionFilter = [] \<or> region = regionFilter) \<and> (idAllow = {} \<or> volID \<in> idAllow) \<and>
     (tagMust = [] \<or> tagMust \<in> set tags)"
  by (auto simp: volumeIsCandidate_def Let_def hasAnyPrefix_def containsStr_def list_ex_iff)

end
