(* ===== verification/Foundations.thy ===== *)
theory Foundations
  imports Pods Linode_Fleet
begin

text \<open>
  The classifiers of the cluster's foundations, under \<open>internal/shared/health/\<close>:
  \<open>certs.go\<close> (Ready conditions), \<open>foundations.go\<close> (nodes, API services, CRDs, storage classes),
  \<open>infra.go\<close> (OpenBao seal and leaders, webhooks, firewall), \<open>sla.go\<close> (credential ages) and
  \<open>aplcorelookup.go\<close> (the realm's nameless client). \<open>time.Parse\<close> is not modelled: the PAT
  classifier takes the parsed expiry.
\<close>

subsection \<open>Ready conditions (\<open>certs.go\<close>)\<close>

definition classifyReady ::
  "string \<Rightarrow> string \<Rightarrow> string \<Rightarrow> string \<Rightarrow> string \<Rightarrow> bool \<Rightarrow> depEntry list \<Rightarrow> category \<times> string" where
  "classifyReady kind key status reason m phase1Pending extDep =
     (if status = ''True'' then (CatOK, msg [kind, '' '', key, '' Ready''])
      else let detail = msg [kind, '' '', key, '' (Ready='', status, '' reason='', reason, '')'']
      in if phase1Pending then (CatPending, msg [detail, '' '', em_dash, '' waiting on OpenBao bootstrap''])
      else case matchExternalDep key extDep of
        Some r \<Rightarrow> (CatDeferred, msg [detail, dash, r])
      | None \<Rightarrow>
          (CatFail, msg [kind, '' '', key, '' (Ready='', status, '' reason='', reason, '' message='', m, '')'']))"

definition classifyCertificateRequest ::
  "string \<Rightarrow> string \<Rightarrow> string \<Rightarrow> string \<Rightarrow> bool \<Rightarrow> depEntry list \<Rightarrow> category \<times> string" where
  "classifyCertificateRequest key status reason m phase1Pending extDep =
     (if status = ''True'' then (CatOK, msg [''CertificateRequest '', key, '' Ready''])
      else let detail = msg [''CertificateRequest '', key, '' (Ready='', status, '' reason='', reason, '')'']
      in if phase1Pending then (CatPending, msg [detail, '' '', em_dash, '' waiting on OpenBao bootstrap''])
      else case matchExternalDep key extDep of
        Some r \<Rightarrow> (CatDeferred, msg [detail, dash, r])
      | None \<Rightarrow>
          if reason = ''Pending'' then
            (CatOK, msg [''CertificateRequest '', key, '' pending issuer signature''])
          else
            (CatFail, msg [''CertificateRequest '', key, '' (Ready='', status, '' reason='', reason,
               '' message='', m, '')'']))"

definition phase1PendingIssuers :: "string list" where
  "phase1PendingIssuers = [''platform-app-ca'']"

definition phase1PendingCerts :: "string list" where
  "phase1PendingCerts = [''openbao/openbao-tls'']"

definition externalDepIssuers :: "depEntry list" where
  "externalDepIssuers = [
     \<lparr>Pattern = Some (RSeq (rlits ''llz-letsencrypt-'') (RAlt (rlits ''production'') (rlits ''staging''))),
      Reason = msg [''ACME registration is deferred until the operator provisions dns.acmeEmail '',
        ''(spec) + LINODE_DNS_TOKEN '', em_dash,
        '' the ClusterIssuers ship Argo-synced with a REPLACE_PER_ENV email and sit '',
        ''Ready=False until then (same deferral class as external-dns). cert-manager '',
        ''retries registration on its own once the email is rendered.'']\<rparr>]"

definition externalDepCerts :: "depEntry list" where
  "externalDepCerts = []"

definition externalDepExternalSecrets :: "depEntry list" where   \<comment> \<open>\<open>allowlists.go\<close>\<close>
  "externalDepExternalSecrets = [
     litDep ''llz-cert-automation/harbor-docker-config'' (msg [
       ''reads the Harbor robot creds at secret/harbor/robot, which are seeded by the '',
         ''harbor-robot-provisioner CronJob (schedule */5) only AFTER Harbor'', sq,
         ''s registry is up '', em_dash,
         '' so on a fresh bootstrap it sits Ready=False (SecretSyncedError: could not get '',
         ''secret data from provider) for the first few minutes until the CronJob'', sq,
         ''s first tick writes the path and the ExternalSecret re-syncs (refreshInterval '',
         ''1m). It feeds ONLY the cert-automation HAProxy-rebuild workflow, which runs on '',
         ''cert rotation (~80 days out), so it is off the bootstrap critical path and must '',
         ''not pin the convergence gate. Deferred; it converges shortly after Harbor '',
         ''without operator action.''])]"

subsection \<open>Nodes, API services, storage classes (\<open>foundations.go\<close>)\<close>

record nodeCondition =
  ncType :: string
  ncStatus :: string

record taint =
  tKey :: string
  tValue :: string
  tEffect :: string

record node =
  nName :: string
  nTaints :: "taint list"
  nConditions :: "nodeCondition list"

fun nodeConditionLoop :: "string \<Rightarrow> nodeCondition list \<Rightarrow> string" where
  "nodeConditionLoop t [] = ''?''"
| "nodeConditionLoop t (c # cs) = (if ncType c = t then ncStatus c else nodeConditionLoop t cs)"

definition nodeConditionOf :: "node \<Rightarrow> string \<Rightarrow> string" where   \<comment> \<open>\<open>Node.Condition\<close>\<close>
  "nodeConditionOf n t = nodeConditionLoop t (nConditions n)"

definition nodeHealthy :: "node \<Rightarrow> bool \<times> string \<times> string \<times> string \<times> string" where
  "nodeHealthy n =
     (let ready = nodeConditionOf n ''Ready''; mem = nodeConditionOf n ''MemoryPressure'';
          disk = nodeConditionOf n ''DiskPressure''; pid = nodeConditionOf n ''PIDPressure'';
          ok = (ready = ''True'' \<and> mem = ''False'' \<and> disk = ''False'' \<and> pid = ''False'')
      in (ok, ready, mem, disk, pid))"

definition unexpectedTaints :: "node \<Rightarrow> taint list" where
  "unexpectedTaints n =
     filter (\<lambda>t. \<not> (tEffect t \<noteq> ''NoSchedule'' \<and> tEffect t \<noteq> ''NoExecute'') \<and>
       \<not> (has_prefix (tKey t) ''node-role.kubernetes.io/'' \<or> has_prefix (tKey t) ''node.kubernetes.io/''))
       (nTaints n)"

definition namespaceTerminating :: "string \<Rightarrow> bool" where
  "namespaceTerminating phase \<longleftrightarrow> phase = ''Terminating''"

fun apiServiceUnavailable :: "condition list \<Rightarrow> bool \<times> string" where
  "apiServiceUnavailable [] = (False, [])"
| "apiServiceUnavailable (c # cs) =
     (if coType c = ''Available'' \<and> coStatus c \<noteq> ''True'' then
        (True, coReason c @ '': '' @ coMessage c)
      else apiServiceUnavailable cs)"

definition requiredCRDs :: "string list" where
  "requiredCRDs =
     [''applications.argoproj.io'', ''appprojects.argoproj.io'', ''certificates.cert-manager.io'',
      ''clusterissuers.cert-manager.io'', ''issuers.cert-manager.io'',
      ''externalsecrets.external-secrets.io'', ''clustersecretstores.external-secrets.io'',
      ''secretstores.external-secrets.io'', ''gateways.networking.istio.io'',
      ''virtualservices.networking.istio.io'', ''prometheusrules.monitoring.coreos.com'']"

definition conditionalCRDs :: "(string \<times> string) list" where
  "conditionalCRDs =
     [(''workflows.argoproj.io'', ''argo-workflows''),
      (''workflowtemplates.argoproj.io'', ''argo-workflows''),
      (''cronworkflows.argoproj.io'', ''argo-workflows''),
      (''eventbus.argoproj.io'', ''argo-events''),
      (''eventsources.argoproj.io'', ''argo-events''),
      (''sensors.argoproj.io'', ''argo-events'')]"

definition requiredStorageClasses :: "string list" where
  "requiredStorageClasses = [''block-storage-retain'']"

definition defaultStorageClassAnnotation :: string where
  "defaultStorageClassAnnotation = ''storageclass.kubernetes.io/is-default-class''"

record storageClass =
  scName :: string
  scAnnotations :: "string \<rightharpoonup> string"
  scProvisioner :: string
  scParameters :: "string \<rightharpoonup> string"

definition blockStorageProvisioner :: string where
  "blockStorageProvisioner = ''linodebs.csi.linode.com''"

definition csiEncryptedKey :: string where
  "csiEncryptedKey = ''linodebs.csi.linode.com/encrypted''"

definition csiVolumeTagsKey :: string where
  "csiVolumeTagsKey = ''linodebs.csi.linode.com/volumeTags''"

definition csiEncryptedKeyIgnored :: string where
  "csiEncryptedKeyIgnored = ''linodebs.csi.linode.com/encryption''"

definition csiVolumeTagsKeyIgnored :: string where
  "csiVolumeTagsKeyIgnored = ''linodebs.csi.linode.com/volume-tags''"

definition blockStorageSweepTag :: string where
  "blockStorageSweepTag = ''block-storage''"

definition reapOwnershipTagPrefix :: string where
  "reapOwnershipTagPrefix = ''lke''"

definition canonicalBlockStorageClass :: string where
  "canonicalBlockStorageClass = ''block-storage-retain''"

definition lkeStockStorageClasses :: "string set" where
  "lkeStockStorageClasses = {''linode-block-storage'', ''linode-block-storage-retain''}"

definition splitTags :: "string \<Rightarrow> string list" where
  "splitTags csv = filter (\<lambda>t. t \<noteq> []) (map trim_space (split_on (CHR '','') csv))"

definition quoted :: "string \<Rightarrow> string" where   \<comment> \<open>\<open>q\<close>\<close>
  "quoted s = msg [dq, s, dq]"

definition classifyBlockStorageParams :: "storageClass \<Rightarrow> (category \<times> string) list" where
  "classifyBlockStorageParams sc =
     (let f = [];
          f = f @ (if scProvisioner sc \<noteq> blockStorageProvisioner then
              [(CatFail, msg [''provisioner '', quoted (scProvisioner sc), '' '', em_dash, '' expected '',
                 quoted blockStorageProvisioner])]
            else [(CatOK, msg [''provisioner '', blockStorageProvisioner])]);
          f = f @ (if scParameters sc csiEncryptedKeyIgnored \<noteq> None then
              [(CatFail, msg [''parameter '', csiEncryptedKeyIgnored, '' is SILENTLY IGNORED (use '',
                 csiEncryptedKey, '') '', em_dash, '' Volumes provisioned UNENCRYPTED''])]
            else []);
          enc = label_at (scParameters sc) csiEncryptedKey;
          f = f @ (if enc = ''true'' then [(CatOK, msg [csiEncryptedKey, ''=true''])]
            else if enc = [] then
              [(CatFail, msg [csiEncryptedKey, '' unset '', em_dash, '' Volumes provisioned unencrypted''])]
            else [(CatFail, msg [csiEncryptedKey, ''='', quoted enc, '' '', em_dash, '' driver only honors '',
                 dq, ''true'', dq])]);
          f = f @ (if scParameters sc csiVolumeTagsKeyIgnored \<noteq> None then
              [(CatFail, msg [''parameter '', csiVolumeTagsKeyIgnored, '' is SILENTLY IGNORED (use '',
                 csiVolumeTagsKey, '') '', em_dash, '' Volumes provisioned UNTAGGED''])]
            else []);
          tags = splitTags (label_at (scParameters sc) csiVolumeTagsKey)
      in if length tags = 0 then
           f @ [(CatFail, msg [csiVolumeTagsKey, '' unset '', em_dash,
                  '' Volumes untagged; reap can neither attribute nor sweep them''])]
         else
           let f = f @ (if containsStr tags blockStorageSweepTag then
                   [(CatOK, msg [csiVolumeTagsKey, '' carries '', blockStorageSweepTag])]
                 else [(CatFail, msg [csiVolumeTagsKey, '' missing '', quoted blockStorageSweepTag, '' '',
                      em_dash, '' the destroy-time Volume sweep filters on it''])])
           in f @ (if lkeIDFromTags tags \<noteq> [] then
                   [(CatOK, msg [csiVolumeTagsKey, '' carries an '', reapOwnershipTagPrefix,
                      ''<id> ownership tag''])]
                 else [(CatFail, msg [csiVolumeTagsKey, '' has no '', reapOwnershipTagPrefix,
                      ''<id> ownership tag '', em_dash, '' reap can'', sq,
                        ''t attribute these Volumes; the cluster_id likely rendered empty (params are '',
                        ''immutable '', em_dash, '' recreate the class)''])]))"

definition auditStorageClass :: "storageClass \<Rightarrow> (category \<times> string) list" where
  "auditStorageClass sc =
     (if scProvisioner sc \<noteq> blockStorageProvisioner then []
      else let name = scName sc
      in if name = canonicalBlockStorageClass then
           map (\<lambda>(c, m). (c, msg [name, '': '', m])) (classifyBlockStorageParams sc)
         else if name \<in> lkeStockStorageClasses then
           [(CatOK, msg [name, '': LKE stock class present (recreated by bootstrap-cluster with encryption + '',
             ''lke<id> volumeTags, so a PVC landing here is still encrypted and attributable)''])]
         else if lkeIDFromTags (splitTags (label_at (scParameters sc) csiVolumeTagsKey)) \<noteq> [] then
           [(CatOK, msg [name, '': non-default linodebs class carries an '', reapOwnershipTagPrefix,
              ''<id> ownership tag''])]
         else
           [(CatWarn, msg [name, '': non-default linodebs class has no '', reapOwnershipTagPrefix,
              ''<id> volumeTags '', em_dash, '' PVCs on it get Volumes reap can'', sq,
                ''t attribute; add the tag or ensure nothing uses it''])])"

definition auditLinodeStorageClasses :: "storageClass list \<Rightarrow> (category \<times> string) list" where
  "auditLinodeStorageClasses classes = concat (map auditStorageClass classes)"

definition defaultStorageClasses :: "storageClass list \<Rightarrow> string list" where
  "defaultStorageClasses classes =
     map scName (filter (\<lambda>sc. label_at (scAnnotations sc) defaultStorageClassAnnotation = ''true'') classes)"

subsection \<open>OpenBao, webhooks, firewall (\<open>infra.go\<close>)\<close>

record baoStatus =
  bInitialized :: bool
  bSealed :: bool
  bHAMode :: string

record baoStatusJSON =
  bjInitialized :: "bool option"
  bjSealed :: "bool option"
  bjIsSelf :: "bool option"
  bjHAEnabled :: "bool option"

definition parseBaoStatus :: "baoStatusJSON option \<Rightarrow> baoStatus option" where
  "parseBaoStatus raw = (case raw of
     None \<Rightarrow> None
   | Some j \<Rightarrow>
       Some \<lparr>bInitialized = (bjInitialized j = Some True),
             bSealed = (bjSealed j = None \<or> bjSealed j = Some True),
             bHAMode = (if bjIsSelf j = Some True then ''active''
                        else if bjHAEnabled j = Some True then ''standby''
                        else ''standalone'')\<rparr>)"

definition classifyBaoSeal :: "baoStatus \<Rightarrow> category \<times> string" where
  "classifyBaoSeal s =
     (if bInitialized s \<and> \<not> bSealed s then
        (CatOK, msg [''initialized, unsealed, HA Mode='', bHAMode s])
      else if \<not> bInitialized s then
        (CatFail, msg [''NOT initialized '', em_dash,
          '' not part of the Raft cluster; needs raft join + unseal''])
      else
        (CatFail, msg [''sealed '', em_dash,
          '' pods auto-unseal from the static seal key at boot; check the '',
          ''openbao-unseal-key Secret and Raft storage'']))"

definition classifyLeaderCount :: "int \<Rightarrow> int \<Rightarrow> category \<times> string" where
  "classifyLeaderCount replicas activeCount =
     (if replicas > 0 \<and> activeCount = 0 then
        (CatFail, ''OpenBao has no active leader (HA Mode=active not observed on any pod)'')
      else if activeCount > 1 then
        (CatFail, msg [''OpenBao has '', int_dec activeCount, '' active leaders (split-brain '', em_dash,
           '' Raft writes will diverge)''])
      else (CatOK, ''exactly one active OpenBao leader''))"

text \<open>An EndpointSlice is the list of its endpoints' \<open>ready\<close> pointers.\<close>

type_synonym endpointSlice = "bool option list"

definition countReadyEndpoints :: "endpointSlice list \<Rightarrow> nat" where
  "countReadyEndpoints slices =
     foldl (\<lambda>n s. foldl (\<lambda>n e. if e = None \<or> e = Some True then Suc n else n) n s) 0 slices"

definition countEndpoints :: "endpointSlice list \<Rightarrow> nat" where
  "countEndpoints slices = foldl (\<lambda>n s. n + length s) 0 slices"

definition classifyWebhookBackend :: "bool \<Rightarrow> int \<Rightarrow> category \<times> string" where
  "classifyWebhookBackend serviceExists ready =
     (if \<not> serviceExists then (CatFail, ''backing Service MISSING (configured but not present)'')
      else if ready = 0 then
        (CatFail, ''0 ready endpoints (controller down / NP blocking / selector drift)'')
      else (CatOK, msg [int_dec ready, '' ready endpoint(s)'']))"

definition classifyFirewallToken :: "bool \<Rightarrow> string \<Rightarrow> category \<times> string" where
  "classifyFirewallToken secretExists token =
     (if \<not> secretExists then
        (CatFail, msg [''Secret kube-system/linode missing '', em_dash, '' bootstrap step did not seed it''])
      else if token = [] then (CatFail, ''Secret kube-system/linode exists but token key is empty'')
      else (CatOK, ''Secret kube-system/linode has non-empty token''))"

definition classifyFirewallConfigKey :: "string \<Rightarrow> string \<Rightarrow> category" where
  "classifyFirewallConfigKey key val =
     (if val \<noteq> [] then CatOK
      else if key = ''LKE_CLUSTER_ID'' then CatOK
      else CatDeferred)"

subsection \<open>Credential ages (\<open>sla.go\<close>)\<close>

definition secondsPerDay :: int where
  "secondsPerDay = 86400 * second"

definition daysSince :: "instant \<Rightarrow> instant \<Rightarrow> int" where
  "daysSince t now = quot (time_sub now t) secondsPerDay"

definition daysUntil :: "instant \<Rightarrow> instant \<Rightarrow> int" where
  "daysUntil t now = quot (time_sub t now) secondsPerDay"

fun maxTimeLoop :: "instant \<Rightarrow> instant list \<Rightarrow> instant" where
  "maxTimeLoop m [] = m"
| "maxTimeLoop m (t # ts) = (if t > m then maxTimeLoop t ts else maxTimeLoop m ts)"

definition maxTime :: "instant list \<Rightarrow> instant option" where
  "maxTime ts = (case ts of [] \<Rightarrow> None | t # ts \<Rightarrow> Some (maxTimeLoop t ts))"

definition classifyRotationAge :: "int \<Rightarrow> int \<Rightarrow> int \<Rightarrow> category" where
  "classifyRotationAge ageDays warnDays criticalDays =
     (if criticalDays > 0 \<and> ageDays \<ge> criticalDays then CatFail
      else if ageDays \<ge> warnDays then CatWarn
      else CatOK)"

datatype patCheckState =
    PATNotSet
  | PATUnreachable
  | PATInvalid
  | PATNoExpiry
  | PATUnparseable
  | PATExpired
  | PATOverPolicy
  | PATWarn
  | PATOK

definition patCategory :: "patCheckState \<Rightarrow> category" where
  "patCategory s =
     (if s \<in> {PATInvalid, PATNoExpiry, PATExpired, PATOverPolicy} then CatFail
      else if s \<in> {PATNotSet, PATUnreachable, PATUnparseable, PATWarn} then CatWarn
      else CatOK)"

text \<open>\<open>parse\<close> is \<open>ParseExpiryTime\<close>.\<close>

definition classifyPATResponse ::
  "(string \<Rightarrow> instant option) \<Rightarrow> bool \<Rightarrow> int \<Rightarrow> string \<Rightarrow> instant \<Rightarrow> int \<Rightarrow> int \<Rightarrow> patCheckState \<times> int" where
  "classifyPATResponse parse tokenPresent httpCode expHeader now maxDays warnDays =
     (if \<not> tokenPresent then (PATNotSet, 0)
      else if httpCode = 0 then (PATUnreachable, 0)
      else if httpCode = 401 \<or> httpCode = 403 then (PATInvalid, 0)
      else if trim_space expHeader = [] then (PATNoExpiry, 0)
      else (case parse expHeader of
          None \<Rightarrow> (PATUnparseable, 0)
        | Some exp \<Rightarrow>
            let daysLeft = daysUntil exp now
            in if daysLeft \<le> 0 then (PATExpired, daysLeft)
               else if daysLeft > maxDays then (PATOverPolicy, daysLeft)
               else if daysLeft \<le> warnDays then (PATWarn, daysLeft)
               else (PATOK, daysLeft)))"

subsection \<open>apl-core's nameless client (\<open>aplcorelookup.go\<close>)\<close>

record realmClient =
  rcClientID :: string
  rcName :: string

definition aplCoreClientID :: string where
  "aplCoreClientID = ''otomi''"

definition ticked :: "string \<Rightarrow> string" where   \<comment> \<open>between back quotes\<close>
  "ticked s = msg [[CHR 0x60], s, [CHR 0x60]]"

definition joinIDs :: "string list \<Rightarrow> string" where
  "joinIDs ids = join '', '' (map ticked ids)"

definition aplCoreOtomiLookup :: "realmClient list \<Rightarrow> string list \<times> bool" where
  "aplCoreOtomiLookup clients =
     (if length clients = 0 then
        ([msg [''FAIL: read 0 clients from the realm '', em_dash, '' cannot vouch that apl-core'', sq,
            ''s '', ticked ''otomi'', '' lookup resolves'']], True)
      else
        let ordered = sort_key rcClientID clients;
            nameless = filter (\<lambda>c. rcName c = []) ordered;
            otomiPresent = list_ex (\<lambda>c. rcClientID c = aplCoreClientID) ordered
        in if \<not> otomiPresent then
             ([msg [''FAIL: realm has no '', ticked aplCoreClientID, '' client '', em_dash,
                 '' apl-core has not converged this realm'']], True)
           else if length nameless = 0 then
             ([msg [''FAIL: every client in the realm has a name, including '', ticked aplCoreClientID,
                 '' '', em_dash, '' apl-core'', sq,
                 ''s lookup returns nothing and its create branch will 409; clear the name on '',
                 ticked aplCoreClientID]], True)
           else
             let first = hd nameless
             in if rcClientID first \<noteq> aplCoreClientID then
                  ([msg [''FAIL: client '', ticked (rcClientID first), '' has no name and sorts before '',
                      ticked aplCoreClientID, '' '', em_dash, '' apl-core'', sq,
                      ''s realm reconcile is resolving its '', ticked aplCoreClientID,
                      '' lookup to it and halting on '', dq,
                      ''Only confidential clients are allowed to set authorization settings'', dq,
                      ''; APL console users are not being written to the realm. Give '',
                      ticked (rcClientID first), '' a name.'']], True)
                else
                  let msgs = [msg [''OK: apl-core'', sq, ''s nameless lookup resolves to '',
                                 ticked aplCoreClientID]]
                  in if length nameless > 1 then
                       (msgs @ [msg [''  caveat: '', joinIDs (map rcClientID (tl nameless)),
                          '' also have no name (they sort after '', ticked aplCoreClientID,
                          '', so the lookup holds today) '', em_dash,
                          '' name them before one sorts earlier'']], False)
                     else (msgs, False))"

subsection \<open>Lemmas\<close>

lemma findReady_find:
  "findReady cs = (case find (\<lambda>c. coType c = ''Ready'') cs of
     None \<Rightarrow> (''Unknown'', [], []) | Some c \<Rightarrow> (coStatus c, coReason c, coMessage c))"
  by (induction cs) auto

lemma fst_classifyReady:
  "fst (classifyReady kind key status reason m p1 ext) =
     (if status = ''True'' then CatOK else if p1 then CatPending
      else if matchExternalDep key ext \<noteq> None then CatDeferred else CatFail)"
  by (cases "matchExternalDep key ext") (simp_all add: classifyReady_def Let_def)

lemma countReadyEndpoints_le: "countReadyEndpoints slices \<le> countEndpoints slices"
proof -
  have inner: "foldl (\<lambda>n e. if e = None \<or> e = Some True then Suc n else n) m s \<le> m + length s"
    for m and s :: endpointSlice
  proof (induction s arbitrary: m)
    case (Cons e s)
    show ?case using Cons [of m] Cons [of "Suc m"] by auto
  qed simp
  have mono: "m \<le> k \<Longrightarrow>
      foldl (\<lambda>n s. foldl (\<lambda>n e. if e = None \<or> e = Some True then Suc n else n) n s) m slices
      \<le> foldl (\<lambda>n s. n + length s) k slices" for m k
  proof (induction slices arbitrary: m k)
    case (Cons s slices)
    show ?case using Cons.prems inner [of m s] by (simp, intro Cons.IH) simp
  qed simp
  then show ?thesis by (simp add: countReadyEndpoints_def countEndpoints_def)
qed

lemma maxTimeLoop_Max: "maxTimeLoop m ts = Max (insert m (set ts))"
proof (induction m ts rule: maxTimeLoop.induct)
  case (2 m t ts)
  have "Max (insert m (insert t (set ts))) = max (max m t) (Max (set ts))" if "ts \<noteq> []"
    using that by (simp add: max.assoc)
  with 2 show ?case by (cases "ts = []") (auto simp: max_def)
qed simp

subsection \<open>Properties\<close>

text \<open>the first client without a name, in the order of ids, decides: the lookup passes
  exactly when the realm has \<open>otomi\<close> nameless and no client with a smaller id is nameless.\<close>

lemma aplCoreOtomiLookup_passes_iff:
  "\<not> snd (aplCoreOtomiLookup clients) \<longleftrightarrow>
     (\<exists>c \<in> set clients. rcClientID c = aplCoreClientID \<and> rcName c = []) \<and>
     (\<forall>c \<in> set clients. rcName c = [] \<longrightarrow> aplCoreClientID \<le> rcClientID c)"
proof -
  let ?nameless = "filter (\<lambda>c. rcName c = []) (sort_key rcClientID clients)"
  have sorted: "sorted (map rcClientID ?nameless)"
    by (metis (no_types) sorted_filter sorted_sort_key)
  show ?thesis
  proof (cases ?nameless)
    case Nil
    then have "\<not> (\<exists>c \<in> set clients. rcName c = [])"
      by (auto simp: filter_empty_conv)
    with Nil show ?thesis by (auto simp: aplCoreOtomiLookup_def Let_def)
  next
    case (Cons f rest)
    then have f: "f \<in> set clients" "rcName f = []" by (auto dest: filter_eq_ConsD) (metis filter_eq_ConsD in_set_conv_decomp set_sort)+
    have le: "rcClientID f \<le> rcClientID c" if "c \<in> set clients" "rcName c = []" for c
    proof -
      have "c \<in> set ?nameless" using that by simp
      then show ?thesis using sorted unfolding Cons by auto
    qed
    have "\<not> snd (aplCoreOtomiLookup clients) \<longleftrightarrow>
        list_ex (\<lambda>c. rcClientID c = aplCoreClientID) (sort_key rcClientID clients)
        \<and> rcClientID f = aplCoreClientID"
      using Cons by (auto simp: aplCoreOtomiLookup_def Let_def)
    also have "\<dots> \<longleftrightarrow> rcClientID f = aplCoreClientID"
      using f(1) by (auto simp: list_ex_iff)
    also have "\<dots> \<longleftrightarrow> (\<exists>c \<in> set clients. rcClientID c = aplCoreClientID \<and> rcName c = []) \<and>
        (\<forall>c \<in> set clients. rcName c = [] \<longrightarrow> aplCoreClientID \<le> rcClientID c)"
      using f le by (metis order.antisym order_refl)
    finally show ?thesis .
  qed
qed

lemma aplCoreOtomiLookup_passes_iff_witness:
  "\<not> snd (aplCoreOtomiLookup [\<lparr>rcClientID = ''otomi'', rcName = []\<rparr>, \<lparr>rcClientID = ''account'', rcName = ''Account''\<rparr>]) \<and>
   snd (aplCoreOtomiLookup [\<lparr>rcClientID = ''otomi'', rcName = []\<rparr>, \<lparr>rcClientID = ''llz'', rcName = []\<rparr>])"
proof -
  have le: "aplCoreClientID \<le> ''otomi''" "\<not> aplCoreClientID \<le> ''llz''" by code_simp+
  show ?thesis
    using aplCoreOtomiLookup_passes_iff [of "[\<lparr>rcClientID = ''otomi'', rcName = []\<rparr>, \<lparr>rcClientID = ''account'', rcName = ''Account''\<rparr>]"]
      aplCoreOtomiLookup_passes_iff [of "[\<lparr>rcClientID = ''otomi'', rcName = []\<rparr>, \<lparr>rcClientID = ''llz'', rcName = []\<rparr>]"]
      le by (simp add: aplCoreClientID_def)
qed

text \<open>a storage class that passes every parameter check has Volumes that are encrypted and
  that the destroy-time sweep finds and attributes: the encrypted key is exactly \<open>true\<close>, the tags
  contain the sweep tag and one naming a cluster id, and neither ignored key is used.\<close>

lemma classifyBlockStorageParams_ok_iff:
  "list_all (\<lambda>(c, m). c = CatOK) (classifyBlockStorageParams sc) \<longleftrightarrow>
     scProvisioner sc = blockStorageProvisioner \<and>
     label_at (scParameters sc) csiEncryptedKey = ''true'' \<and>
     scParameters sc csiEncryptedKeyIgnored = None \<and> scParameters sc csiVolumeTagsKeyIgnored = None \<and>
     blockStorageSweepTag \<in> set (splitTags (label_at (scParameters sc) csiVolumeTagsKey)) \<and>
     lkeIDFromTags (splitTags (label_at (scParameters sc) csiVolumeTagsKey)) \<noteq> []"
proof -
  have c: "containsStr ts t \<longleftrightarrow> t \<in> set ts" for ts t
    by (auto simp: containsStr_def list_ex_iff)
  have n: "length ts = 0 \<Longrightarrow> t \<notin> set ts" for ts :: "string list" and t
    by simp
  show ?thesis
    unfolding classifyBlockStorageParams_def Let_def
    by (cases "length (splitTags (label_at (scParameters sc) csiVolumeTagsKey)) = 0")
      (simp_all only: if_True if_False list_all_append if_distrib [of "list_all (\<lambda>(c, m). c = CatOK)"]
        list.pred_inject prod.case category.distinct c, simp_all)
qed

text \<open>a token check never passes a token that is rejected, has no expiry, has expired or
  outlives the policy, and a token it could not judge is a warning, never a pass.\<close>

lemma classifyPATResponse_category:
  "case classifyPATResponse parse present code hdr now maxDays warnDays of (s, days) \<Rightarrow>
     (patCategory s = CatOK \<longleftrightarrow> present \<and> code \<notin> {0, 401, 403} \<and> trim_space hdr \<noteq> [] \<and>
        (\<exists>e. parse hdr = Some e \<and> 0 < daysUntil e now \<and> daysUntil e now \<le> maxDays
           \<and> warnDays < daysUntil e now)) \<and>
     (patCategory s = CatWarn \<longleftrightarrow> \<not> present \<or> code = 0 \<or> code \<notin> {401, 403} \<and> trim_space hdr \<noteq> [] \<and>
        (parse hdr = None \<or> (\<exists>e. parse hdr = Some e \<and> 0 < daysUntil e now
           \<and> daysUntil e now \<le> maxDays \<and> daysUntil e now \<le> warnDays)))"
  by (cases "parse hdr") (auto simp: classifyPATResponse_def patCategory_def Let_def)

lemma classifyPATResponse_category_witness:
  "patCategory (fst (classifyPATResponse (\<lambda>_. Some (40 * secondsPerDay)) True 200 ''x'' 0 90 14)) = CatOK"
proof -
  have "daysUntil (40 * secondsPerDay) 0 = 40"
    by (simp add: daysUntil_def secondsPerDay_def second_def time_sub_def sat_int64_def max_int64_def
        min_int64_def quot_def)
  moreover have "trim_space ''x'' \<noteq> []" by code_simp
  ultimately show ?thesis
    using classifyPATResponse_category [where parse = "\<lambda>_. Some (40 * secondsPerDay)" and present = True
        and code = 200 and hdr = "''x''" and now = 0 and maxDays = 90 and warnDays = 14]
    by (auto split: prod.splits)
qed

end
