(* ===== verification/Scan_Cluster.thy ===== *)
theory Scan_Cluster
  imports Routing Workloads Foundations Kube_Probe
begin

text \<open>
  \<open>internal/extensions/lifecycle/converge/health.go\<close>, first half of the sections: what a scan
  reads (\<open>cluster\<close>, one field per \<open>kubectl\<close> question, \<open>None\<close> where the cluster did not
  answer), the inventory, and the sections on nodes, CRDs, storage, Loki, the firewall, Ready
  conditions, OpenBao, webhooks, leases and Argo CD. A section is a function on the report.
  Printing and section headers are left out; timestamps are fields as \<open>time.Parse\<close> reads
  them.
\<close>

subsection \<open>What the cluster answers\<close>

datatype stamp = NoStamp | BadStamp | At instant

record meta =
  mNamespace :: string
  mName :: string
  mLabels :: "string \<rightharpoonup> string"
  mAnnotations :: "string \<rightharpoonup> string"
  mDeletion :: stamp
  mFinalizers :: "string list"
  mOwners :: "ownerRef list"

record namespaceItem = meta +
  nsPhase :: string

record readyResourceItem = meta +
  rrConditions :: "condition list"

record apiService =
  asName :: string
  asConditions :: "condition list"

record webhookConfigItem =
  whName :: string
  whServices :: "(string \<times> string) option list"   \<comment> \<open>each webhook's service: namespace, name\<close>

record leaseItem =
  liName :: string
  liHolder :: string
  liDuration :: int
  liRenew :: stamp

record deploymentItem = meta +
  dReplicas :: int
  dReady :: int
  dConditions :: "condition list"

record statefulSetItem = meta +
  sReplicas :: int
  sReady :: int

record daemonSetItem = meta +
  dsDesired :: int
  dsReady :: int
  dsUpdated :: int
  dsMisscheduled :: int

record pvcItem = meta +
  pvcClass :: string
  pvcPhase :: string

record pvItem = meta +
  pvPhase :: string

record jobItem =
  jbNamespace :: string
  jbName :: string
  jbCreated :: stamp
  jbOwners :: "ownerRef list"
  jbSucceeded :: int
  jbFailed :: int
  jbActive :: int
  jbConditions :: "condition list"

record cronWorkflowItem = meta +
  cwSuspend :: bool
  cwConditions :: "condition list"
  cwLastScheduled :: stamp

record serviceItem = meta +
  svType :: string
  svClusterIP :: string

record pdbItem = meta +
  pdbCurrent :: int
  pdbDesired :: int
  pdbAllowed :: int
  pdbExpected :: int

record ingressItem = meta +
  igAddresses :: nat

record workflowItem = meta +
  wfTemplate :: string
  wfClusterScope :: bool
  wfPhase :: string

record podItem =
  pdNamespace :: string
  pdName :: string
  pdOwners :: "ownerRef list"
  pdStatus :: podStatus

record cluster =
  clNow :: instant
  clReachable :: bool
  clCRDs :: "string list"
  clNamespaces :: "namespaceItem list option"
  clBootstrapApp :: bool
  clCASecret :: bool
  clStoreReady :: "nat \<Rightarrow> bool"   \<comment> \<open>the ClusterSecretStore probe, per attempt\<close>
  clNodes :: "node list option"
  clAPIServices :: "apiService list option"
  clAppExists :: "string \<Rightarrow> bool"
  clStorageClassExists :: "string \<Rightarrow> bool"
  clStorageClasses :: "storageClass list option"
  clObjSecrets :: "bool option"
  clLokiConfig :: "string option"
  clLokiCreds :: bool
  clFwDeployment :: "bool option"
  clFwConfigMap :: "bool option"
  clFwConfigMapAgain :: bool
  clFwConfigMapName :: string
  clLinodeSecret :: bool
  clLinodeToken :: string
  clFwKey :: "string \<Rightarrow> string"
  clClusterIssuers :: "readyResourceItem list option"
  clCertificates :: "readyResourceItem list option"
  clCertRequests :: "readyResourceItem list option"
  clSecretStores :: "readyResourceItem list option"
  clExternalSecrets :: "readyResourceItem list option"
  clBaoReplicas :: "string option"
  clBaoPod :: "string \<Rightarrow> bool"
  clBaoReady :: "string \<Rightarrow> string"
  clBaoStatus :: "string \<Rightarrow> baoStatusJSON option \<times> string"   \<comment> \<open>parsed output, error text\<close>
  clBaoAudit :: "string \<Rightarrow> bool"
  clWebhooks :: "string \<Rightarrow> webhookConfigItem list option"
  clSvcExists :: "string \<Rightarrow> string \<Rightarrow> bool"
  clEndpoints :: "string \<Rightarrow> string \<Rightarrow> endpointSlice list"
  clAppProject :: "string \<Rightarrow> bool"
  clLeases :: "string \<Rightarrow> leaseItem list option"
  clApps :: "argoAppJSON option list option"   \<comment> \<open>per item, \<open>None\<close> where it does not parse\<close>
  clDeployments :: "string \<Rightarrow> deploymentItem list option"
  clStatefulSets :: "string \<Rightarrow> statefulSetItem list option"
  clDaemonSets :: "string \<Rightarrow> daemonSetItem list option"
  clPVCs :: "pvcItem list option"
  clPVs :: "pvItem list option"
  clFoundationApp :: "bool option"
  clNetpols :: "string \<Rightarrow> nat option"
  clJobs :: "jobItem list option"
  clCronWorkflows :: "cronWorkflowItem list option"
  clServices :: "string \<Rightarrow> serviceItem list option"
  clPDBs :: "pdbItem list option"
  clIngresses :: "ingressItem list option"
  clWorkflows :: "workflowItem list option"
  clStuck :: "string \<Rightarrow> meta list option"
  clPods :: "podItem list option"

subsection \<open>Recording\<close>

definition recordFinding :: "category \<Rightarrow> string \<Rightarrow> report \<Rightarrow> report" where
  "recordFinding cat m r = fst (reportRoute cat m r)"

definition recordRes :: "ownershipIndex \<Rightarrow> category \<Rightarrow> resourceRef \<Rightarrow> string \<Rightarrow> report \<Rightarrow> report" where
  "recordRes i cat ref m r = fst (ixRoute i cat ref m r)"

definition recordOwned ::
  "ownershipIndex \<Rightarrow> category \<Rightarrow> ownerRef list \<Rightarrow> resourceRef \<Rightarrow> string \<Rightarrow> report \<Rightarrow> report" where
  "recordOwned i cat owners self m r = fst (routeOwned i cat owners self m r)"

definition recordApp :: "bool \<Rightarrow> argoApp \<Rightarrow> bool \<Rightarrow> report \<Rightarrow> report" where
  "recordApp budgeted a phase1 r = fst (routeApp budgeted a phase1 r)"

definition sectionItems :: "string \<Rightarrow> 'a list option \<Rightarrow> report \<Rightarrow> report \<times> 'a list" where
  "sectionItems kind answer r = (case answer of
     None \<Rightarrow> (fst (routeInconclusive kind r), [])
   | Some items \<Rightarrow> (r, items))"

record clusterInventory =
  invCRDs :: "string set"
  invNsExists :: "string set"
  invNamespaces :: "namespaceItem list"

definition scanCRDs :: "cluster \<Rightarrow> clusterInventory" where
  "scanCRDs c = \<lparr>invCRDs = set (clCRDs c), invNsExists = {}, invNamespaces = []\<rparr>"

definition addNamespaces :: "cluster \<Rightarrow> clusterInventory \<Rightarrow> clusterInventory option" where
  "addNamespaces c iv = (case clNamespaces c of
     None \<Rightarrow> None
   | Some items \<Rightarrow> Some (iv\<lparr>invNamespaces := items,
       invNsExists := invNsExists iv \<union> set (map mName items)\<rparr>))"

definition healthNamespaces :: "string list" where
  "healthNamespaces =
     [''argocd'', ''kube-system'', ''cert-manager'', ''llz-cert-automation'', ''external-secrets'',
      ''llz-openbao'', ''llz-observability'', ''harbor'', ''istio-system'']"

definition scannedNamespaces :: "ownershipIndex \<Rightarrow> string list" where
  "scannedNamespaces i =
     healthNamespaces @ filter (\<lambda>ns. ns \<notin> set healthNamespaces) (instanceNamespaces i)"

subsection \<open>Nodes, namespaces, API services, CRDs\<close>

definition checkNode :: "node \<Rightarrow> report \<Rightarrow> report" where
  "checkNode n r =
     (let (ok, ready, mem, disk, pid) = nodeHealthy n;
          r = (if ok then recordFinding CatOK (msg [''Node '', nName n, '' (Ready, no pressure)'']) r
               else recordFinding CatFail (msg [''Node '', nName n, '' (Ready='', ready, '' MemPressure='', mem,
                      '' DiskPressure='', disk, '' PIDPressure='', pid, '')'']) r)
      in fold (\<lambda>t r.
           let val = (if tValue t \<noteq> [] then ''='' @ tValue t else [])
           in recordFinding CatFail (msg [''Node '', nName n, '' has unexpected taint '', tKey t, val, '':'',
                tEffect t, '' (blocks scheduling)'']) r) (unexpectedTaints n) r)"

definition checkNodes :: "cluster \<Rightarrow> report \<Rightarrow> report" where
  "checkNodes c r = (case sectionItems ''Nodes'' (clNodes c) r of (r, ns) \<Rightarrow> fold checkNode ns r)"

definition checkNamespaces :: "clusterInventory \<Rightarrow> report \<Rightarrow> report" where
  "checkNamespaces iv r =
     (let (r, stuck) = fold (\<lambda>ns (r, stuck).
            if namespaceTerminating (nsPhase ns) then
              (recordFinding CatFail (msg [''Namespace '', mName ns,
                 '' stuck Terminating (check .spec.finalizers and stuck CRs)'']) r, True)
            else (r, stuck)) (invNamespaces iv) (r, False)
      in if \<not> stuck then recordFinding CatOK ''no namespaces in Terminating state'' r else r)"

definition checkAPIServices :: "cluster \<Rightarrow> report \<Rightarrow> report" where
  "checkAPIServices c r = (case sectionItems ''APIServices'' (clAPIServices c) r of (r, as) \<Rightarrow>
     fold (\<lambda>a r. case apiServiceUnavailable (asConditions a) of (bad, m) \<Rightarrow>
       if bad then recordFinding CatFail (msg [''APIService '', asName a, '' not Available '', em_dash, '' '', m]) r
       else r) as r)"

text \<open>The conditional CRDs are a map, visited in random order; the order is that of the list here.\<close>

definition checkRequiredCRDs :: "cluster \<Rightarrow> clusterInventory \<Rightarrow> report \<Rightarrow> report" where
  "checkRequiredCRDs c iv r =
     (let r = fold (\<lambda>crd r.
            if crd \<in> invCRDs iv then recordFinding CatOK (msg [''CRD '', crd, '' installed'']) r
            else recordFinding CatFail (msg [''CRD '', crd, '' missing '', em_dash,
                   '' owning ArgoCD Application has not installed it'']) r) requiredCRDs r
      in fold (\<lambda>(crd, app) r.
           if crd \<in> invCRDs iv then recordFinding CatOK (msg [''CRD '', crd, '' installed'']) r
           else if clAppExists c app then
             recordFinding CatFail (msg [''CRD '', crd, '' missing '', em_dash, '' owning ArgoCD Application '', app,
               '' has not installed it'']) r
           else recordFinding CatOK (msg [''CRD '', crd, '' not required ('', app,
                  '' Application not deployed)'']) r) conditionalCRDs r)"

subsection \<open>Storage, Loki, firewall\<close>

definition checkStorageClasses :: "cluster \<Rightarrow> report \<Rightarrow> report" where
  "checkStorageClasses c r =
     (let r = fold (\<lambda>sc r.
            if clStorageClassExists c sc then recordFinding CatOK (msg [''StorageClass '', sc, '' present'']) r
            else recordFinding CatFail (msg [''StorageClass '', sc, '' missing'']) r) requiredStorageClasses r;
          (r, classes) = sectionItems ''StorageClasses'' (clStorageClasses c) r;
          def = defaultStorageClasses classes;
          r = (if length def = 1 then
                 recordFinding CatOK (msg [''exactly one default StorageClass ('', hd def, '')'']) r
               else if length def = 0 then
                 recordFinding CatFail (msg [''no default StorageClass '', em_dash,
                   '' PVCs without an explicit storageClassName will stay Pending'']) r
               else
                 recordFinding CatPending (msg [nat_dec (length def), '' default StorageClasses ('', join '','' def,
                   '') '', em_dash, '' non-deterministic; awaiting sc-demote reconciler'']) r)
      in fold (\<lambda>(cat, m) r. recordFinding cat (''  '' @ m) r) (auditLinodeStorageClasses classes) r)"

definition checkLokiObjStorage :: "bool \<Rightarrow> cluster \<Rightarrow> bool \<Rightarrow> report \<Rightarrow> report" where
  "checkLokiObjStorage budgeted c phase1 r =
     (if phase1 then r
      else case clObjSecrets c of
        None \<Rightarrow>
          (case pendingIfBudgeted budgeted
              (msg [''apl-overlay: could not read apl-secrets/obj-secrets, so whether this deployment '',
                ''uses obj storage is unknown '', em_dash, '' retrying against the budget''])
              (msg [''apl-overlay: apl-secrets/obj-secrets could not be read after retries, so this '',
                ''section rendered no verdict on whether Loki is S3-backed''])
           of (cat, m) \<Rightarrow> recordFinding cat m r)
      | Some objSeeded \<Rightarrow>
          if \<not> objSeeded then r
          else (case clLokiConfig c of
              None \<Rightarrow>
                (case pendingIfBudgeted budgeted
                    (msg [''apl-overlay: ConfigMaps unreadable '', em_dash,
                      '' cannot yet tell whether Loki is deployed; retrying against the budget''])
                    (msg [''apl-overlay: ConfigMaps could not be read after retries, so whether Loki is '',
                      ''S3-backed is UNKNOWN '', em_dash,
                      '' this is not evidence that Loki is undeployed''])
                 of (cat, m) \<Rightarrow> recordFinding cat m r)
            | Some cfg \<Rightarrow>
                if trim_space cfg = [] then
                  recordFinding CatOK (msg [''Loki not deployed '', em_dash, '' no obj overlay to await'']) r
                else if lokiConfigUsesS3 cfg then
                  recordFinding CatOK (msg [''Loki config references S3 '', em_dash, '' apl-overlay obj converged'']) r
                else
                  let stage = msg [''reconciler push / apl-operator apply pending '', em_dash,
                    '' loki-s3-linode-credentials not built yet''];
                      stage = (if clLokiCreds c then
                          msg [''creds built (loki-s3-linode-credentials present) '', em_dash,
                            '' Loki re-rendering/restarting onto S3'']
                        else stage)
                  in recordFinding CatPending (msg [''apl-overlay: Loki not yet S3-backed '', em_dash, '' '', stage,
                       '' (obj chain settling; check llz-reconciler llz_apl_overlay_synced)'']) r))"

definition firewallKeys :: "string list" where
  "firewallKeys = [''LINODE_FIREWALL_ID'', ''LKE_CLUSTER_ID'', ''FIREWALL_TEMPLATE_ID'',
     ''RECONCILE_INTERVAL_SECS'', ''VPC_CIDR'']"

definition checkFirewallBootstrap :: "cluster \<Rightarrow> report \<Rightarrow> report" where
  "checkFirewallBootstrap c r =
     (case (clFwDeployment c, clFwConfigMap c) of
        (Some depExists, Some cmExists) \<Rightarrow>
          if \<not> depExists \<and> \<not> cmExists then
            recordFinding CatOK (msg [''firewall-controller not installed (cidrFirewall component disabled) '',
              em_dash, '' skipped'']) r
          else
            let r = (if depExists then
                  let token = (if clLinodeSecret c then clLinodeToken c else []);
                      (cat, m) = classifyFirewallToken (clLinodeSecret c) token
                  in recordFinding cat m r
                else recordFinding CatOK (msg [''firewall-controller Deployment absent '', em_dash,
                  '' self-discovery ConfigMap only; kube-system/linode token not required'']) r)
            in if \<not> clFwConfigMapAgain c then
                 recordFinding CatFail (msg [''ConfigMap kube-system/'', clFwConfigMapName c, '' missing'']) r
               else
                 let r = recordFinding CatOK (msg [''ConfigMap kube-system/'', clFwConfigMapName c, '' exists'']) r
                 in fold (\<lambda>key r.
                      let val = clFwKey c key
                      in if classifyFirewallConfigKey key val = CatOK then
                           recordFinding CatOK (msg [''  '', key, '' = '', val]) r
                         else recordFinding CatDeferred (msg [''  '', key,
                                '' empty (set when the firewall bootstrap / Argo app runs)'']) r) firewallKeys r
      | _ \<Rightarrow> recordFinding CatPending (msg [''could not read kube-system firewall-controller Deployment/ConfigMap '', em_dash,
        '' cannot tell '', sq, ''component disabled'', sq, '' from '', sq,
        ''unreadable cluster'', sq]) r)"

end
