(* ===== verification/Scan_Sections.thy ===== *)
theory Scan_Sections
  imports Scan_Cluster
begin

text \<open>
  \<open>internal/extensions/lifecycle/converge/health.go\<close>, the other sections of the scan: Ready
  resources, OpenBao, webhooks, leases, Argo CD Applications, workloads, storage claims,
  NetworkPolicies, Jobs, Workflows, Services, budgets, Ingresses, stuck finalizers and pods. The
  map of generated objects is shared by all copies of the index, so \<open>checkWorkflows\<close> returns the
  updated index.
\<close>

subsection \<open>Ready conditions\<close>

definition readyKind ::
  "ownershipIndex \<Rightarrow> string \<Rightarrow> string \<Rightarrow> readyResourceItem list option \<Rightarrow> bool \<Rightarrow> (string \<Rightarrow> bool)
    \<Rightarrow> depEntry list \<Rightarrow> report \<Rightarrow> report" where
  "readyKind i grp kind answer namespaced phase1Pending extDep r =
     (case sectionItems (kind @ ''s'') answer r of (r, items) \<Rightarrow>
        fold (\<lambda>it r.
          let key = (if namespaced then mNamespace it @ ''/'' @ mName it else mName it);
              (status, reason, m) = findReady (rrConditions it);
              (cat, line) = classifyReady kind key status reason m (phase1Pending key) extDep
          in recordRes i cat \<lparr>rGroup = grp, rKind = kind, rNamespace = mNamespace it, rName = mName it\<rparr>
               line r) items r)"

definition certRequests :: "ownershipIndex \<Rightarrow> cluster \<Rightarrow> bool \<Rightarrow> report \<Rightarrow> report" where
  "certRequests i c phase1 r =
     (case sectionItems ''CertificateRequests'' (clCertRequests c) r of (r, items) \<Rightarrow>
        fold (\<lambda>it r.
          let key = mNamespace it @ ''/'' @ mName it;
              (status, reason, m) = findReady (rrConditions it);
              p1 = (phase1 \<and> matchPrefix key phase1PendingCerts);
              (cat, line) = classifyCertificateRequest key status reason m p1 externalDepCerts
          in recordOwned i cat (mOwners it)
               \<lparr>rGroup = ''cert-manager.io'', rKind = ''CertificateRequest'',
                 rNamespace = mNamespace it, rName = mName it\<rparr> line r) items r)"

definition checkReadyResources :: "ownershipIndex \<Rightarrow> cluster \<Rightarrow> bool \<Rightarrow> report \<Rightarrow> report" where
  "checkReadyResources i c phase1 r =
     (let r = readyKind i ''cert-manager.io'' ''ClusterIssuer'' (clClusterIssuers c) False
                (\<lambda>key. phase1 \<and> matchPrefix key phase1PendingIssuers) externalDepIssuers r;
          r = readyKind i ''cert-manager.io'' ''Certificate'' (clCertificates c) True
                (\<lambda>key. phase1 \<and> matchPrefix key phase1PendingCerts) externalDepCerts r;
          r = certRequests i c phase1 r;
          r = readyKind i ''external-secrets.io'' ''ClusterSecretStore'' (clSecretStores c) False
                (\<lambda>_. phase1) [] r
      in readyKind i ''external-secrets.io'' ''ExternalSecret'' (clExternalSecrets c) True
           (\<lambda>_. phase1) externalDepExternalSecrets r)"

subsection \<open>OpenBao\<close>

text \<open>One pod of the loop: the report, the number of active leaders, the tunnel flag.\<close>

definition checkBaoPod :: "cluster \<Rightarrow> bool \<Rightarrow> nat \<Rightarrow> report \<times> int \<times> bool \<Rightarrow> report \<times> int \<times> bool" where
  "checkBaoPod c phase1 n s = (case s of (r, active, tunnelBlocked) \<Rightarrow>
     let pod = msg [''platform-openbao-'', nat_dec n]
     in if \<not> clBaoPod c pod then
          (recordFinding CatFail (msg [''Pod openbao/'', pod, '' missing'']) r, active, tunnelBlocked)
        else if clBaoReady c pod \<noteq> ''true'' then
          (recordFinding CatPending (msg [''Pod openbao/'', pod,
             '' (openbao container not Ready '', em_dash, '' can'', sq,
               ''t query seal status)'']) r, active, tunnelBlocked)
        else case clBaoStatus c pod of (out, errText) \<Rightarrow>
          (case parseBaoStatus out of
             None \<Rightarrow>
               let m = msg [''Pod openbao/'', pod, '' (could not parse bao status JSON''];
                   detail = trim_space errText;
                   m = (if detail \<noteq> [] then m @ '' '' @ em_dash @ '' '' @ detail else m)
               in (recordFinding CatFail (m @ '')'') r, active, tunnelBlocked \<or> isTunnelBlocked m)
           | Some st \<Rightarrow>
               let (cat, m) = classifyBaoSeal st;
                   r = recordFinding cat (msg [''Pod openbao/'', pod, '' ('', m, '')'']) r;
                   active = (if cat = CatOK \<and> bHAMode st = ''active'' then active + 1 else active);
                   r = (if cat = CatOK \<and> \<not> phase1 then
                          (if clBaoAudit c pod then
                             recordFinding CatOK (msg [''  audit device active on '', pod]) r
                           else recordFinding CatFail (msg [''  audit device inactive on '', pod, '' '', em_dash,
                                  '' /openbao/audit/audit.log missing or empty'']) r)
                        else r)
               in (r, active, tunnelBlocked)))"

definition checkOpenBao :: "cluster \<Rightarrow> bool \<Rightarrow> report \<Rightarrow> report" where
  "checkOpenBao c phase1 r = (case clBaoReplicas c of
     None \<Rightarrow> recordFinding CatPending (msg [''could not read openbao/platform-openbao StatefulSet '', em_dash,
       '' seal check inconclusive'']) r
   | Some specReplicas \<Rightarrow>
       (case atoi (trim_space specReplicas) of
          None \<Rightarrow> recordFinding CatWarn (msg [''OpenBao StatefulSet not present '', em_dash, '' skipping seal check'']) r
        | Some replicas \<Rightarrow>
            if replicas = 0 then
              recordFinding CatWarn (msg [''OpenBao StatefulSet not present '', em_dash, '' skipping seal check'']) r
            else
              let (r, active, tunnelBlocked) =
                    fold (checkBaoPod c phase1) [0..<nat replicas] (r, 0, False);
                  (cat, m) = classifyLeaderCount replicas active
              in if cat \<noteq> CatOK then
                   (if tunnelBlocked \<and> cat = CatFail then
                      recordFinding CatPending (msg [m, '' '', em_dash, '' seal state unread on '', geq_sign,
                        ''1 pod (konnectivity tunnel down); leader count inconclusive'']) r
                    else recordFinding cat m r)
                 else r))"

subsection \<open>Webhooks, projects, leases\<close>

definition checkWebhook :: "cluster \<Rightarrow> string \<Rightarrow> string \<Rightarrow> (string \<times> string) option \<Rightarrow> report \<Rightarrow> report" where
  "checkWebhook c kind cfg svc r = (case svc of
     None \<Rightarrow> r
   | Some (ns, svc) \<Rightarrow>
       if ns = [] \<or> svc = [] then r
       else case classifyWebhookBackend (clSvcExists c ns svc)
                  (int (countReadyEndpoints (clEndpoints c ns svc))) of (cat, m) \<Rightarrow>
         recordFinding cat (msg [kind, '' '', cfg, '' '', r_arrow, '' '', ns, ''/'', svc, '' '', m]) r)"

definition checkWebhooks :: "cluster \<Rightarrow> report \<Rightarrow> report" where
  "checkWebhooks c r =
     fold (\<lambda>kind r. case sectionItems kind (clWebhooks c kind) r of (r, cfgs) \<Rightarrow>
       fold (\<lambda>cfg r. fold (checkWebhook c kind (whName cfg)) (whServices cfg) r) cfgs r)
     [''validatingwebhookconfigurations'', ''mutatingwebhookconfigurations''] r"

definition checkAppProjects :: "cluster \<Rightarrow> clusterInventory \<Rightarrow> report \<Rightarrow> report" where
  "checkAppProjects c iv r =
     (if ''appprojects.argoproj.io'' \<notin> invCRDs iv then r
      else fold (\<lambda>ap r.
        if clAppProject c ap then recordFinding CatOK (msg [''AppProject argocd/'', ap, '' present'']) r
        else recordFinding CatFail (msg [''AppProject argocd/'', ap, '' missing '', em_dash,
               '' child Applications will ComparisonError '', sq, ''project not found'', sq]) r)
        [''platform-support''] r)"

definition checkLease :: "cluster \<Rightarrow> string \<Rightarrow> leaseItem \<Rightarrow> report \<times> bool \<Rightarrow> report \<times> bool" where
  "checkLease c ns it s = (case s of (r, stale) \<Rightarrow>
     (case liRenew it of
        NoStamp \<Rightarrow> (r, stale)
      | t \<Rightarrow>
          if trim_space (liHolder it) = [] then (r, stale)
          else (case t of
              At renew \<Rightarrow>
                if leaseStale renew (clNow c) (liDuration it) then
                  (recordFinding CatFail (msg [''Lease '', ns, ''/'', liName it, '' stale (holder='', liHolder it,
                     '') '', em_dash, '' leader-elected controller silently stopped'']) r, True)
                else (r, stale)
            | _ \<Rightarrow> (r, stale))))"

definition checkLeasesIn :: "bool \<Rightarrow> cluster \<Rightarrow> clusterInventory \<Rightarrow> string
    \<Rightarrow> report \<times> bool \<times> nat \<Rightarrow> report \<times> bool \<times> nat" where
  "checkLeasesIn budgeted c iv ns s = (case s of (r, stale, read) \<Rightarrow>
     if ns \<notin> invNsExists iv then (r, stale, read)
     else (case clLeases c ns of
         None \<Rightarrow>
           (case pendingIfBudgeted budgeted
               (msg [''could not list Leases in '', ns, '' '', em_dash, '' retrying against the budget''])
               (msg [''could not list Leases in '', ns,
                  '' after retries, so whether its leader-elected controllers are still renewing is '',
                    ''UNKNOWN''])
            of (cat, m) \<Rightarrow> (recordFinding cat m r, stale, read))
       | Some items \<Rightarrow>
           (case fold (checkLease c ns) items (r, stale) of (r, stale) \<Rightarrow> (r, stale, Suc read))))"

definition checkLeases :: "bool \<Rightarrow> cluster \<Rightarrow> clusterInventory \<Rightarrow> report \<Rightarrow> report" where
  "checkLeases budgeted c iv r =
     (case fold (checkLeasesIn budgeted c iv) healthNamespaces (r, False, 0) of (r, stale, read) \<Rightarrow>
        if \<not> stale \<and> read > 0 then
          recordFinding CatOK (msg [''all controller Leases renewed within 4'', [CHR 0xC3, CHR 0x97],
            '' leaseDuration ('', nat_dec read, '' namespace(s) read)'']) r
        else r)"

subsection \<open>Argo CD Applications\<close>

definition fetchArgoApps :: "cluster \<Rightarrow> argoApp list \<times> bool" where
  "fetchArgoApps c = (case clApps c of
     None \<Rightarrow> ([], False)
   | Some raws \<Rightarrow> (List.map_filter parseArgoApp raws, True))"

definition checkArgoApp :: "bool \<Rightarrow> bool \<Rightarrow> argoApp \<Rightarrow> report \<Rightarrow> report" where
  "checkArgoApp budgeted phase1 a r =
     (let r = recordApp budgeted a phase1 r;
          r = (if isRepoServerCacheAuthError (aSpecErr a) then r\<lparr>RedisAuthSplit := True\<rparr> else r);
          r = (if \<not> isInstanceOwnedApp a \<and> isGitAuthError (aSpecErr a) then r\<lparr>GitAuthFailure := True\<rparr>
               else r)
      in if isAnnotationLimitError (aOpErr a) then r\<lparr>AnnotationLimitWedge := True\<rparr> else r)"

definition checkArgoApps :: "bool \<Rightarrow> argoApp list \<Rightarrow> bool \<Rightarrow> bool \<Rightarrow> report \<Rightarrow> report" where
  "checkArgoApps budgeted apps fetched phase1 r =
     (let r = (if \<not> fetched then fst (routeInconclusive ''ArgoCD Applications'' r) else r)
      in fold (checkArgoApp budgeted phase1) apps r)"

subsection \<open>Workloads and claims\<close>

fun progressingCondition :: "condition list \<Rightarrow> string \<times> string" where
  "progressingCondition [] = ([], [])"
| "progressingCondition (c # cs) =
     (if coType c = ''Progressing'' then (coReason c, coMessage c) else progressingCondition cs)"

abbreviation appsRef :: "string \<Rightarrow> string \<Rightarrow> string \<Rightarrow> resourceRef" where
  "appsRef kind ns name \<equiv> \<lparr>rGroup = ''apps'', rKind = kind, rNamespace = ns, rName = name\<rparr>"

definition checkWorkloadsIn ::
  "cluster \<Rightarrow> clusterInventory \<Rightarrow> ownershipIndex \<Rightarrow> bool \<Rightarrow> string \<Rightarrow> report \<Rightarrow> report" where
  "checkWorkloadsIn c iv i phase1 ns r =
     (if ns \<notin> invNsExists iv then r
      else
        let (r, ds) = sectionItems (''Deployments in '' @ ns) (clDeployments c ns) r;
            r = fold (\<lambda>d r.
              let (preason, pmsg) = progressingCondition (dConditions d);
                  (cat, m) = classifyWorkload ''Deployment'' ns (mName d) (dReplicas d) (dReady d)
                               preason pmsg phase1
              in recordRes i cat (appsRef ''Deployment'' ns (mName d)) m r) ds r;
            (r, ss) = sectionItems (''StatefulSets in '' @ ns) (clStatefulSets c ns) r;
            r = fold (\<lambda>s r.
              let (cat, m) = classifyWorkload ''StatefulSet'' ns (mName s) (sReplicas s) (sReady s)
                               [] [] phase1
              in recordRes i cat (appsRef ''StatefulSet'' ns (mName s)) m r) ss r;
            (r, dss) = sectionItems (''DaemonSets in '' @ ns) (clDaemonSets c ns) r
        in fold (\<lambda>d r.
             let (cat, m) = classifyDaemonSet ns (mName d) (dsDesired d) (dsReady d) (dsUpdated d)
                              (dsMisscheduled d)
             in recordRes i cat (appsRef ''DaemonSet'' ns (mName d)) m r) dss r)"

definition checkWorkloads ::
  "cluster \<Rightarrow> clusterInventory \<Rightarrow> ownershipIndex \<Rightarrow> bool \<Rightarrow> report \<Rightarrow> report" where
  "checkWorkloads c iv i phase1 r =
     fold (checkWorkloadsIn c iv i phase1) (scannedNamespaces i) r"

definition checkPVCs :: "ownershipIndex \<Rightarrow> cluster \<Rightarrow> report \<Rightarrow> report" where
  "checkPVCs i c r = (case sectionItems ''PVCs'' (clPVCs c) r of (r, ps) \<Rightarrow>
     fold (\<lambda>p r.
       let (cat, m) = classifyPVC (mNamespace p) (mName p) (pvcPhase p) (pvcClass p)
       in recordOwned i cat (mOwners p)
            \<lparr>rGroup = [], rKind = ''PersistentVolumeClaim'', rNamespace = mNamespace p, rName = mName p\<rparr>
            m r) ps r)"

definition checkPVs :: "cluster \<Rightarrow> report \<Rightarrow> report" where
  "checkPVs c r = (case sectionItems ''PVs'' (clPVs c) r of (r, ps) \<Rightarrow>
     (case fold (\<lambda>p (r, released).
         (case classifyPVPhase (pvPhase p) of
            CatFail \<Rightarrow> (recordFinding CatFail (msg [''PV '', mName p, '' '', pvPhase p, '' '', em_dash,
                '' provisioner/CSI issue; dependent PVC will stay Pending'']) r, released)
          | CatWarn \<Rightarrow> (recordFinding CatWarn (msg [''PV '', mName p, '' unrecognized phase='', pvPhase p]) r,
                released)
          | _ \<Rightarrow> (r, if pvPhase p = ''Released'' then Suc released else released))) ps (r, 0)
      of (r, released) \<Rightarrow>
        if released > 0 then
          recordFinding CatWarn (msg [nat_dec released, '' Released PV(s) '', em_dash,
            '' expected with Retain; run orphan-cleanup so leaked Volumes don'', sq,
            ''t count against quota'']) r
        else recordFinding CatOK ''no Released/Failed/Pending PVs'' r))"

definition netpolSkipped :: "string \<Rightarrow> string" where
  "netpolSkipped ns = msg [''Namespace '', ns, '' NetworkPolicy check skipped (cluster-foundation not deployed '', em_dash,
    '' apl-core owns NPs on managed)'']"

definition checkNetworkPoliciesIn ::
  "bool \<Rightarrow> cluster \<Rightarrow> clusterInventory \<Rightarrow> string \<Rightarrow> report \<Rightarrow> report" where
  "checkNetworkPoliciesIn budgeted c iv ns r =
     (let ownsNetpols = (clFoundationApp c = Some True);
          ownsAnswered = (clFoundationApp c \<noteq> None)
      in if ns \<notin> invNsExists iv \<or> netpolExemptNamespace ns then r
      else if ownsAnswered \<and> \<not> ownsNetpols then recordFinding CatOK (netpolSkipped ns) r
      else case clNetpols c ns of
        None \<Rightarrow>
          (case pendingIfBudgeted budgeted
              (msg [''Namespace '', ns, '' NetworkPolicy list unreadable '', em_dash, '' retrying against the budget''])
              (msg [''Namespace '', ns, '' NetworkPolicy list could not be read after retries '', em_dash,
                '' this check rendered no verdict, so the default-deny posture of '',
                 ns, '' is UNKNOWN, not confirmed''])
           of (cat, m) \<Rightarrow> recordFinding cat m r)
      | Some n \<Rightarrow>
          (case classifyNamespaceNetpol ns (int n) of (cat, m) \<Rightarrow>
             if cat = CatFail \<and> \<not> ownsNetpols then
               (if \<not> ownsAnswered then
                  (case pendingIfBudgeted budgeted
                      (msg [m, '' '', em_dash,
                        '' and whether cluster-foundation is deployed could not be read, so the '',
                        ''managed-cluster skip cannot be applied; retrying against the budget''])
                      (msg [m, '' '', em_dash,
                        '' and whether cluster-foundation is deployed could not be read after retries, so '',
                        ''this cannot be dismissed as apl-core owning NPs on a managed cluster''])
                   of (cat, m) \<Rightarrow> recordFinding cat m r)
                else recordFinding CatOK (netpolSkipped ns) r)
             else recordFinding cat m r))"

definition checkNetworkPolicies :: "bool \<Rightarrow> cluster \<Rightarrow> clusterInventory \<Rightarrow> report \<Rightarrow> report" where
  "checkNetworkPolicies budgeted c iv r =
     fold (checkNetworkPoliciesIn budgeted c iv) healthNamespaces r"

subsection \<open>Jobs and workflows\<close>

definition zeroTime :: instant where   \<comment> \<open>\<open>time.Time{}\<close>: year 1, in nanoseconds from the epoch\<close>
  "zeroTime = - 62135596800 * second"

definition jobRunOf :: "jobItem \<Rightarrow> jobRun" where
  "jobRunOf j =
     \<lparr>jrKey = jbNamespace j @ ''/'' @ jbName j,
      jrCronOwner = foldl (\<lambda>w ow. if oKind ow = ''CronJob'' then oName ow else w) [] (jbOwners j),
      jrCreated = (case jbCreated j of At t \<Rightarrow> t | _ \<Rightarrow> zeroTime),
      jrComplete = list_ex (\<lambda>c. coType c = ''Complete'' \<and> coStatus c = ''True'') (jbConditions j),
      jrFailed = list_ex (\<lambda>c. coType c = ''Failed'' \<and> coStatus c = ''True'') (jbConditions j)\<rparr>"

definition checkJob :: "ownershipIndex \<Rightarrow> bool \<Rightarrow> string set \<Rightarrow> jobItem \<Rightarrow> report \<Rightarrow> report" where
  "checkJob i phase1 superseded j r =
     (let run = jobRunOf j
      in if jrFailed run \<and> \<not> jrComplete run \<and> jrKey run \<in> superseded then
           recordFinding CatOK (msg [''Job '', jrKey run, '' Failed but superseded by a newer successful '',
             jrCronOwner run, '' CronJob run'']) r
         else
           let p1 = (phase1 \<and> matchPrefix (jrKey run) phase1PendingWorkloads);
               (cat, m) = classifyJob (jrKey run) (jrComplete run) (jrFailed run) (jbActive j)
                            (jbSucceeded j) (jbFailed j) p1
           in recordOwned i cat (jbOwners j)
                \<lparr>rGroup = ''batch'', rKind = ''Job'', rNamespace = jbNamespace j, rName = jbName j\<rparr> m r)"

definition checkJobs :: "ownershipIndex \<Rightarrow> cluster \<Rightarrow> bool \<Rightarrow> report \<Rightarrow> report" where
  "checkJobs i c phase1 r = (case sectionItems ''Jobs'' (clJobs c) r of (r, js) \<Rightarrow>
     let items = filter (\<lambda>j. \<not> isEphemeralE2EProbe (jbName j)) js;
         superseded = supersededFailedJobs (map jobRunOf items)
     in fold (checkJob i phase1 superseded) items r)"

definition checkCronWorkflows ::
  "cluster \<Rightarrow> clusterInventory \<Rightarrow> ownershipIndex \<Rightarrow> report \<Rightarrow> report" where
  "checkCronWorkflows c iv i r =
     (if ''cronworkflows.argoproj.io'' \<notin> invCRDs iv then r
      else case sectionItems ''CronWorkflows'' (clCronWorkflows c) r of (r, cws) \<Rightarrow>
        fold (\<lambda>cw r.
          let key = mNamespace cw @ ''/'' @ mName cw;
              submissionErr = foldl (\<lambda>e c. if coType c = ''SubmissionError'' then coMessage c else e) []
                                (cwConditions cw);
              ageDays = (case cwLastScheduled cw of
                  At t \<Rightarrow> quot (time_sub (clNow c) t) secondsPerDay | _ \<Rightarrow> -1);
              (cat, m) = classifyCronWorkflow key submissionErr (cwSuspend cw) ageDays 30
          in recordRes i cat \<lparr>rGroup = ''argoproj.io'', rKind = ''CronWorkflow'',
               rNamespace = mNamespace cw, rName = mName cw\<rparr> m r) cws r)"

definition checkWorkflow ::
  "bool \<Rightarrow> workflowItem \<Rightarrow> report \<times> ownershipIndex \<Rightarrow> report \<times> ownershipIndex" where
  "checkWorkflow phase1 w s = (case s of (r, i) \<Rightarrow>
     let self = \<lparr>rGroup = workflowsGroup, rKind = ''Workflow'', rNamespace = mNamespace w, rName = mName w\<rparr>;
         i = (case workflowDeclaredOwner (mOwners w) (wfTemplate w) (wfClusterScope w) (mLabels w)
                     (mNamespace w) of
                Some parent \<Rightarrow> recordGenerated self parent i
              | None \<Rightarrow> i);
         key = mNamespace w @ ''/'' @ mName w;
         (cat, m) = classifyWorkflowPhase key (wfPhase w) phase1
     in if cat \<noteq> CatOK then (recordRes i cat self m r, i) else (r, i))"

definition checkWorkflows ::
  "cluster \<Rightarrow> clusterInventory \<Rightarrow> bool \<Rightarrow> report \<times> ownershipIndex \<Rightarrow> report \<times> ownershipIndex" where
  "checkWorkflows c iv phase1 s = (case s of (r, i) \<Rightarrow>
     if ''workflows.argoproj.io'' \<notin> invCRDs iv then (r, i)
     else case sectionItems ''Workflows'' (clWorkflows c) r of (r, wfs) \<Rightarrow>
       fold (checkWorkflow phase1) wfs (r, i))"

subsection \<open>Services, budgets, Ingresses\<close>

definition checkServicesIn ::
  "bool \<Rightarrow> cluster \<Rightarrow> clusterInventory \<Rightarrow> ownershipIndex \<Rightarrow> bool \<Rightarrow> string \<Rightarrow> report \<Rightarrow> report" where
  "checkServicesIn budgeted c iv i phase1 ns r =
     (if ns \<notin> invNsExists iv then r
      else case sectionItems (''Services in '' @ ns) (clServices c ns) r of (r, svcs) \<Rightarrow>
        fold (\<lambda>s r.
          if svType s = ''ExternalName'' \<or> svClusterIP s = ''None'' then r
          else
            let key = ns @ ''/'' @ mName s;
                p1 = (phase1 \<and> matchPrefix key phase1PendingWorkloads);
                slices = clEndpoints c ns (mName s);
                (cat, m) = classifyServiceEndpoints budgeted key (int (countReadyEndpoints slices))
                             (int (countEndpoints slices)) p1
            in if cat \<noteq> CatOK then
                 recordRes i cat \<lparr>rGroup = [], rKind = ''Service'', rNamespace = ns, rName = mName s\<rparr> m r
               else r) svcs r)"

definition checkServices ::
  "bool \<Rightarrow> cluster \<Rightarrow> clusterInventory \<Rightarrow> ownershipIndex \<Rightarrow> bool \<Rightarrow> report \<Rightarrow> report" where
  "checkServices budgeted c iv i phase1 r =
     fold (checkServicesIn budgeted c iv i phase1) (scannedNamespaces i) r"

definition checkPDBs :: "bool \<Rightarrow> ownershipIndex \<Rightarrow> cluster \<Rightarrow> bool \<Rightarrow> report \<Rightarrow> report" where
  "checkPDBs budgeted i c phase1 r = (case sectionItems ''PDBs'' (clPDBs c) r of (r, ps) \<Rightarrow>
     fold (\<lambda>p r.
       let key = mNamespace p @ ''/'' @ mName p;
           (cat, m) = classifyPDB budgeted key (pdbCurrent p) (pdbDesired p) (pdbAllowed p) (pdbExpected p)
                        phase1
       in if cat \<noteq> CatOK then
            recordRes i cat \<lparr>rGroup = ''policy'', rKind = ''PodDisruptionBudget'',
              rNamespace = mNamespace p, rName = mName p\<rparr> m r
          else r) ps r)"

definition checkIngresses :: "ownershipIndex \<Rightarrow> cluster \<Rightarrow> bool \<Rightarrow> report \<Rightarrow> report" where
  "checkIngresses i c phase1 r = (case sectionItems ''Ingresses'' (clIngresses c) r of (r, igs) \<Rightarrow>
     fold (\<lambda>ig r.
       let key = mNamespace ig @ ''/'' @ mName ig;
           (cat, m) = classifyIngress key (int (igAddresses ig)) phase1
       in recordRes i cat \<lparr>rGroup = ''networking.k8s.io'', rKind = ''Ingress'',
            rNamespace = mNamespace ig, rName = mName ig\<rparr> m r) igs r)"

subsection \<open>Stuck finalizers\<close>

definition checkStuckMeta ::
  "cluster \<Rightarrow> ownershipIndex \<Rightarrow> string \<Rightarrow> meta \<Rightarrow> report \<times> bool \<Rightarrow> report \<times> bool" where
  "checkStuckMeta c i kind m s = (case s of (r, found) \<Rightarrow>
     (case mDeletion m of
        At del \<Rightarrow>
          if stuckFinalizer True (int (length (mFinalizers m))) (time_sub (clNow c) del) then
            let ns = (if mNamespace m = [] then ''<cluster>'' else mNamespace m);
                text = msg [kind, '' '', ns, ''/'', mName m, '' stuck Terminating (finalizers: '',
                         join '','' (mFinalizers m), '')'']
            in (case stuckResourceRef kind (mNamespace m) (mName m) of
                  Some ref \<Rightarrow> (recordOwned i CatFail (mOwners m) ref text r, True)
                | None \<Rightarrow> (recordFinding CatFail text r, True))
          else (r, found)
      | _ \<Rightarrow> (r, found)))"

definition checkStuckKind ::
  "cluster \<Rightarrow> clusterInventory \<Rightarrow> ownershipIndex \<Rightarrow> string \<Rightarrow> report \<times> bool \<Rightarrow> report \<times> bool" where
  "checkStuckKind c iv i spec s = (case s of (r, found) \<Rightarrow>
     (case cut_at (CHR ''|'') spec of (kind, scope, _) \<Rightarrow>
        if kind \<noteq> ''pv'' \<and> kind \<noteq> ''pvc'' \<and> kind \<notin> invCRDs iv then (r, found)
        else case sectionItems (''stuck-finalizer '' @ kind) (clStuck c kind) r of (r, ms) \<Rightarrow>
          fold (checkStuckMeta c i kind) ms (r, found)))"

definition checkStuckFinalizers ::
  "cluster \<Rightarrow> clusterInventory \<Rightarrow> ownershipIndex \<Rightarrow> report \<Rightarrow> report" where
  "checkStuckFinalizers c iv i r =
     (case fold (checkStuckKind c iv i) stuckResourceKinds (r, False) of (r, found) \<Rightarrow>
        if \<not> found then
          recordFinding CatOK ''no resources stuck Terminating (>5min with non-empty finalizers)'' r
        else r)"

subsection \<open>Pods\<close>

definition podRef :: "podItem \<Rightarrow> resourceRef" where
  "podRef p = \<lparr>rGroup = [], rKind = [], rNamespace = pdNamespace p, rName = []\<rparr>"

definition checkPod ::
  "bool \<Rightarrow> ownershipIndex \<Rightarrow> bool \<Rightarrow> podItem \<Rightarrow> report \<times> bool \<Rightarrow> report \<times> bool" where
  "checkPod budgeted i phase1 p s = (case s of (r, bad) \<Rightarrow>
     if isJobControlled (pdOwners p) then (r, bad)
     else if isEphemeralE2EProbe (pdName p) then (r, bad)
     else
       let key = pdNamespace p @ ''/'' @ pdName p;
           (r, bad) = (if podIsFailing (pdStatus p) then
               let detail = msg [''Pod '', key, '' phase='', Phase (pdStatus p), '' ready='',
                      readyRatio (pdStatus p), '' state='', summarizeStates (pdStatus p)];
                   r = (if phase1 \<and> matchPrefix key phase1PendingWorkloads then
                          recordOwned i CatPending (pdOwners p) (podRef p)
                            (msg [detail, '' '', em_dash, '' waiting on OpenBao bootstrap'']) r
                        else case matchExternalDep key externalDepWorkloads of
                          Some reason \<Rightarrow>
                            recordOwned i CatDeferred (pdOwners p) (podRef p) (msg [detail, dash, reason]) r
                        | None \<Rightarrow>
                            if budgeted \<and> (podIsStarting (pdStatus p) \<or> podIsWarmingUp (pdStatus p)) then
                              recordOwned i CatPending (pdOwners p) (podRef p)
                                (msg [detail, '' '', em_dash, '' still starting'']) r
                            else recordOwned i CatFail (pdOwners p) (podRef p) detail r)
               in (r, True)
             else (r, bad));
           hot = flappingContainers (pdStatus p) 5
       in if hot \<noteq> [] then
            (recordFinding CatWarn (msg [''Pod '', key, '' has flapping containers: '', hot]) r, bad)
          else (r, bad))"

definition checkPods :: "bool \<Rightarrow> ownershipIndex \<Rightarrow> cluster \<Rightarrow> bool \<Rightarrow> report \<Rightarrow> report" where
  "checkPods budgeted i c phase1 r = (case sectionItems ''Pods'' (clPods c) r of (r, ps) \<Rightarrow>
     (case fold (checkPod budgeted i phase1) ps (r, False) of (r, bad) \<Rightarrow>
        if \<not> bad then recordFinding CatOK ''no pods in a failing state'' r else r))"

end
