(* ===== verification/Health_Scan.thy ===== *)
theory Health_Scan
  imports Scan_Sections
begin

text \<open>
  \<open>internal/extensions/lifecycle/converge/health.go\<close>: one health pass
  (\<open>healthExitCodeState\<close>), which runs every section over one report and turns it into the two
  exit codes. The lemmas show that every section only makes the report worse, so that nothing a
  section found is lost by a later one.
\<close>

subsection \<open>The pass\<close>

record healthResult =
  hrCode :: int
  hrNonOK :: "string list"
  hrNonOKApps :: "string list"
  hrRedisAuthSplit :: bool
  hrAnnotationWedge :: bool
  hrAppCode :: int

definition bothScopes :: "int \<Rightarrow> healthResult" where
  "bothScopes code = \<lparr>hrCode = code, hrNonOK = [], hrNonOKApps = [], hrRedisAuthSplit = False,
     hrAnnotationWedge = False, hrAppCode = code\<rparr>"

definition longPoleCandidates :: "report \<Rightarrow> string list" where
  "longPoleCandidates r = Pending r @ Failed r"

definition appLongPoleCandidates :: "report \<Rightarrow> string list" where
  "appLongPoleCandidates r = InstanceFailed r @ InstancePending r"

fun storeReadyLoop :: "(nat \<Rightarrow> bool) \<Rightarrow> nat list \<Rightarrow> bool" where
  "storeReadyLoop ready [] = False"
| "storeReadyLoop ready (n # ns) = (if ready n then True else storeReadyLoop ready ns)"

definition openBaoClusterSecretStoreReadyWithRetry :: "nat \<Rightarrow> cluster \<Rightarrow> bool" where
  "openBaoClusterSecretStoreReadyWithRetry retries c = storeReadyLoop (clStoreReady c) [0..<retries]"

definition phase1OpenBaoBootstrapPending :: "nat \<Rightarrow> cluster \<Rightarrow> bool" where
  "phase1OpenBaoBootstrapPending retries c =
     (if clCASecret c then False else \<not> openBaoClusterSecretStoreReadyWithRetry retries c)"

text \<open>The sections, in the order of the source; \<open>Budgeted\<close> is the package variable.\<close>

definition runSections ::
  "bool \<Rightarrow> cluster \<Rightarrow> clusterInventory \<Rightarrow> bool \<Rightarrow> report \<times> ownershipIndex" where
  "runSections budgeted c iv phase1 =
     (let r = empty_report;
          r = checkNodes c r;
          r = checkNamespaces iv r;
          r = checkAPIServices c r;
          r = checkRequiredCRDs c iv r;
          r = checkStorageClasses c r;
          r = checkLokiObjStorage budgeted c phase1 r;
          r = checkFirewallBootstrap c r;
          r = checkOpenBao c phase1 r;
          (argoApps, argoOK) = fetchArgoApps c;
          owned = withPlatformNamespaces healthNamespaces (newOwnershipIndex argoApps);
          r = checkReadyResources owned c phase1 r;
          r = checkWebhooks c r;
          r = checkAppProjects c iv r;
          r = checkLeases budgeted c iv r;
          r = checkArgoApps budgeted argoApps argoOK phase1 r;
          r = checkWorkloads c iv owned phase1 r;
          r = checkPVCs owned c r;
          r = checkPVs c r;
          r = checkNetworkPolicies budgeted c iv r;
          r = checkJobs owned c phase1 r;
          r = checkCronWorkflows c iv owned r;
          r = checkServices budgeted c iv owned phase1 r;
          r = checkPDBs budgeted owned c phase1 r;
          r = checkIngresses owned c phase1 r;
          (r, owned) = checkWorkflows c iv phase1 (r, owned);
          r = checkStuckFinalizers c iv owned r;
          r = checkPods budgeted owned c phase1 r
      in (r, owned))"

text \<open>The converge state is \<open>Some phase1Done\<close>; \<open>None\<close> is the nil pointer of a one-shot scan.\<close>

definition scanResult :: "bool \<Rightarrow> report \<Rightarrow> healthResult" where
  "scanResult phase1 r =
     (let demotePhase1 = (phase1 \<and> \<not> GitAuthFailure r)
      in \<lparr>hrCode = phaseAwareExitCode (reportExitCode r) demotePhase1,
          hrNonOK = longPoleCandidates r, hrNonOKApps = appLongPoleCandidates r,
          hrRedisAuthSplit = RedisAuthSplit r, hrAnnotationWedge = AnnotationLimitWedge r,
          hrAppCode = exitCode (appVerdict r)\<rparr>)"

definition healthExitCodeState ::
  "bool \<Rightarrow> nat \<Rightarrow> cluster \<Rightarrow> bool option \<Rightarrow> healthResult \<times> bool option" where
  "healthExitCodeState budgeted retries c st =
     (if \<not> clReachable c then (bothScopes 3, st)
      else
        let iv = scanCRDs c
        in if ''applications.argoproj.io'' \<notin> invCRDs iv \<or> \<not> clBootstrapApp c then (bothScopes 2, st)
      else (case addNamespaces c iv of
          None \<Rightarrow> (bothScopes 3, st)
        | Some iv \<Rightarrow>
            let (phase1, st) =
                  (if st = None \<or> st = Some False then
                     let phase1 = phase1OpenBaoBootstrapPending retries c
                     in (phase1, if st \<noteq> None \<and> \<not> phase1 then Some True else st)
                   else (False, st));
                (r, _) = runSections budgeted c iv phase1
            in (scanResult phase1 r, st)))"

subsection \<open>Sections only make the report worse\<close>

definition grows :: "(report \<Rightarrow> report) \<Rightarrow> bool" where
  "grows f \<longleftrightarrow> (\<forall>r. verdict r \<le> verdict (f r) \<and> appVerdict r \<le> appVerdict (f r))"

definition grows_st :: "(report \<times> 'x \<Rightarrow> report \<times> 'x) \<Rightarrow> bool" where
  "grows_st f \<longleftrightarrow> (\<forall>r x. verdict r \<le> verdict (fst (f (r, x))) \<and> appVerdict r \<le> appVerdict (fst (f (r, x))))"

named_theorems growth \<open>sections that only make the report worse\<close>

lemma growsD: "grows f \<Longrightarrow> verdict r \<le> verdict (f r)" "grows f \<Longrightarrow> appVerdict r \<le> appVerdict (f r)"
  by (simp_all add: grows_def)

lemma grows_stD:
  "grows_st f \<Longrightarrow> verdict (fst s) \<le> verdict (fst (f s))"
  "grows_st f \<Longrightarrow> appVerdict (fst s) \<le> appVerdict (fst (f s))"
  by (cases s; simp add: grows_st_def)+

lemma grows_id [growth]: "grows (\<lambda>r. r)"
  by (simp add: grows_def)

lemma grows_comp: "grows f \<Longrightarrow> grows g \<Longrightarrow> grows (\<lambda>r. g (f r))"
  unfolding grows_def by (meson order_trans)

lemma grows_if [growth]: "(b \<Longrightarrow> grows f) \<Longrightarrow> (\<not> b \<Longrightarrow> grows g) \<Longrightarrow> grows (\<lambda>r. if b then f r else g r)"
  by (cases b) auto

lemma grows_fold [growth]: "(\<And>x. x \<in> set xs \<Longrightarrow> grows (f x)) \<Longrightarrow> grows (\<lambda>r. fold f xs r)"
proof (induction xs)
  case (Cons x xs)
  then have "grows (f x)" "grows (\<lambda>r. fold f xs r)" by simp_all
  then show ?case unfolding fold_simps by (rule grows_comp)
qed (simp add: grows_def)

lemma grows_st_fold: "(\<And>x. x \<in> set xs \<Longrightarrow> grows_st (f x)) \<Longrightarrow> grows_st (\<lambda>s. fold f xs s)"
proof (induction xs)
  case (Cons x xs)
  then have x: "grows_st (f x)" and xs: "grows_st (\<lambda>s. fold f xs s)" by simp_all
  show ?case
    unfolding grows_st_def fold_simps
    using grows_stD [OF x] grows_stD [OF xs] by (metis fst_conv order_trans)
qed (simp add: grows_st_def)

lemma recordFinding_verdict:
  "verdict (recordFinding cat m r) = max (gates cat m) (verdict r)"
  "appVerdict (recordFinding cat m r) = appVerdict r"
  using global_route.platform [of "(cat, m)" r] global_route.app [of "(cat, m)" r]
  by (simp_all add: recordFinding_def)

lemma recordRes_verdict:
  "verdict (recordRes i cat ref m r) = (if owns i ref then verdict r else max (gates cat m) (verdict r))"
  "appVerdict (recordRes i cat ref m r) = (if owns i ref then max (gates cat m) (appVerdict r) else appVerdict r)"
  using resource_route.platform [of "(i, cat, ref, m)" r] resource_route.app [of "(i, cat, ref, m)" r]
  by (simp_all add: recordRes_def)

lemma recordOwned_verdict:
  "verdict (recordOwned i cat ws self m r) =
     (if owns i (ownedRef ws self) then verdict r else max (gates cat m) (verdict r))"
  "appVerdict (recordOwned i cat ws self m r) =
     (if owns i (ownedRef ws self) then max (gates cat m) (appVerdict r) else appVerdict r)"
  using generated_route.platform [of "(i, cat, ws, self, m)" r]
    generated_route.app [of "(i, cat, ws, self, m)" r]
  by (simp_all add: recordOwned_def)

lemma recordApp_verdict:
  "verdict (recordApp b a p r) = (if isInstanceOwnedApp a then verdict r else max (appGates b a p) (verdict r))"
  "appVerdict (recordApp b a p r) = (if isInstanceOwnedApp a then max (appGates b a p) (appVerdict r) else appVerdict r)"
  using app_route.platform [of "(b, a, p)" r] app_route.app [of "(b, a, p)" r]
  by (simp_all add: recordApp_def)

lemmas recorded = recordFinding_verdict recordRes_verdict recordOwned_verdict recordApp_verdict

lemma grows_record [growth]:
  "grows (recordFinding cat m)" "grows (recordRes i cat ref m)" "grows (recordOwned i cat ws self m)"
  "grows (recordApp b a p)"
  by (simp_all add: grows_def recorded)

lemma grows_inconclusive [growth]: "grows (\<lambda>r. fst (routeInconclusive kind r))"
  by (simp add: grows_def routeInconclusive_verdicts)

text \<open>Introduction rules along the shapes of the sections.\<close>

lemma grows_seq [growth]: "grows f \<Longrightarrow> grows g \<Longrightarrow> grows (\<lambda>r. Let (f r) g)"
  unfolding Let_def by (rule grows_comp)

lemma grows_const [growth]: "(\<And>x. grows (f x)) \<Longrightarrow> grows (\<lambda>r. Let p (\<lambda>x. f x r))"
  by simp

lemma grows_pair [growth]: "(\<And>a b. grows (f a b)) \<Longrightarrow> grows (\<lambda>r. case p of (a, b) \<Rightarrow> f a b r)"
  by (cases p) simp

lemma grows_pair_fun [growth]: "(\<And>a b. grows (f a b)) \<Longrightarrow> grows (case p of (a, b) \<Rightarrow> f a b)"
  by (cases p) simp

lemma grows_let_pair [growth]: "(\<And>a b. grows (f a b)) \<Longrightarrow> grows (\<lambda>r. Let p (\<lambda>(a, b). f a b r))"
  by (cases p) simp

lemma grows_option [growth]:
  "grows f \<Longrightarrow> (\<And>x. grows (g x)) \<Longrightarrow> grows (\<lambda>r. case p of None \<Rightarrow> f r | Some x \<Rightarrow> g x r)"
  by (cases p) simp_all

lemma grows_sectionItems [growth]:
  "(\<And>items. grows (f items)) \<Longrightarrow> grows (\<lambda>r. case sectionItems kind answer r of (r, items) \<Rightarrow> f items r)"
  by (cases answer) (auto simp: sectionItems_def intro: grows_comp [OF grows_inconclusive])

lemma grows_let_items [growth]:
  "(\<And>items. grows (f items)) \<Longrightarrow>
     grows (\<lambda>r. Let (sectionItems kind answer r) (\<lambda>(r, items). f items r))"
  unfolding Let_def by (rule grows_sectionItems)

lemma grows_from_st:
  assumes "grows_st f" and "\<And>x. grows (g x)"
  shows "grows (\<lambda>r. case f (r, x0) of (r, x) \<Rightarrow> g x r)"
proof -
  have "verdict r \<le> verdict (g (snd (f (r, x0))) (fst (f (r, x0))))
      \<and> appVerdict r \<le> appVerdict (g (snd (f (r, x0))) (fst (f (r, x0))))" for r
    using grows_stD [OF assms(1), of "(r, x0)"] growsD [OF assms(2)]
    by (metis fst_conv order_trans)
  then show ?thesis by (simp add: grows_def case_prod_beta)
qed

subsection \<open>Each section\<close>

lemma grows_checkNodes [growth]: "grows (checkNodes c)"
  unfolding checkNodes_def checkNode_def by (intro growth)

lemma grows_checkAPIServices [growth]: "grows (checkAPIServices c)"
  unfolding checkAPIServices_def by (intro growth)

lemma grows_checkRequiredCRDs [growth]: "grows (checkRequiredCRDs c iv)"
  unfolding checkRequiredCRDs_def by (intro growth)

lemma grows_checkStorageClasses [growth]: "grows (checkStorageClasses c)"
  unfolding checkStorageClasses_def by (intro growth)

lemma grows_checkLoki [growth]: "grows (checkLokiObjStorage budgeted c phase1)"
  unfolding checkLokiObjStorage_def by (intro growth)

lemma grows_checkFirewall [growth]: "grows (checkFirewallBootstrap c)"
  unfolding checkFirewallBootstrap_def by (intro growth)

lemma grows_checkReadyResources [growth]: "grows (checkReadyResources i c phase1)"
  unfolding checkReadyResources_def readyKind_def certRequests_def by (intro growth)

lemma grows_checkWebhooks [growth]: "grows (checkWebhooks c)"
  unfolding checkWebhooks_def checkWebhook_def by (intro growth)

lemma grows_checkAppProjects [growth]: "grows (checkAppProjects c iv)"
  unfolding checkAppProjects_def by (intro growth)

lemma grows_checkWorkloads [growth]: "grows (checkWorkloads c iv i phase1)"
  unfolding checkWorkloads_def checkWorkloadsIn_def by (intro growth)

lemma grows_checkPVCs [growth]: "grows (checkPVCs i c)"
  unfolding checkPVCs_def by (intro growth)

lemma grows_checkNetworkPolicies [growth]: "grows (checkNetworkPolicies budgeted c iv)"
  unfolding checkNetworkPolicies_def checkNetworkPoliciesIn_def by (intro growth)

lemma grows_checkJobs [growth]: "grows (checkJobs i c phase1)"
  unfolding checkJobs_def checkJob_def by (intro growth)

lemma grows_checkCronWorkflows [growth]: "grows (checkCronWorkflows c iv i)"
  unfolding checkCronWorkflows_def by (intro growth)

lemma grows_checkServices [growth]: "grows (checkServices budgeted c iv i phase1)"
  unfolding checkServices_def checkServicesIn_def by (intro growth)

lemma grows_checkPDBs [growth]: "grows (checkPDBs budgeted i c phase1)"
  unfolding checkPDBs_def by (intro growth)

lemma grows_checkIngresses [growth]: "grows (checkIngresses i c phase1)"
  unfolding checkIngresses_def by (intro growth)

text \<open>Sections that thread more state than the report.\<close>

lemma grows_st_fold_from [growth]:
  "(\<And>x. x \<in> set xs \<Longrightarrow> grows_st (f x)) \<Longrightarrow> (\<And>x. grows (g x)) \<Longrightarrow>
     grows (\<lambda>r. case fold f xs (r, x0) of (r, x) \<Rightarrow> g x r)"
  by (rule grows_from_st [where f = "\<lambda>s. fold f xs s"]) (rule grows_st_fold)

lemma grows_st_fold_let [growth]:
  "(\<And>x. x \<in> set xs \<Longrightarrow> grows_st (f x)) \<Longrightarrow> (\<And>x. grows (g x)) \<Longrightarrow>
     grows (\<lambda>r. Let (fold f xs (r, x0)) (\<lambda>(r, x). g x r))"
  unfolding Let_def by (rule grows_st_fold_from)

lemma grows_st_I:
  "(\<And>r x. verdict r \<le> verdict (fst (f (r, x))) \<and> appVerdict r \<le> appVerdict (fst (f (r, x)))) \<Longrightarrow> grows_st f"
  by (simp add: grows_st_def)

lemma growsI_point: "grows f \<Longrightarrow> verdict r \<le> verdict (f r) \<and> appVerdict r \<le> appVerdict (f r)"
  by (simp add: grows_def)

lemma grows_checkNamespaces [growth]: "grows (checkNamespaces iv)"
proof -
  have step: "grows_st (\<lambda>(r, stuck). if namespaceTerminating (nsPhase ns) then
      (recordFinding CatFail (msg [''Namespace '', mName ns,
         '' stuck Terminating (check .spec.finalizers and stuck CRs)'']) r, True) else (r, stuck))" for ns
    by (rule grows_st_I) (simp add: recorded)
  show ?thesis unfolding checkNamespaces_def by (intro growth step)
qed

lemma grows_st_checkBaoPod: "grows_st (checkBaoPod c phase1 n)"
proof (rule grows_st_I)
  fix r and x :: "int \<times> bool"
  obtain active tb where x: "x = (active, tb)" by fastforce
  obtain out err where o: "clBaoStatus c (msg [''platform-openbao-'', nat_dec n]) = (out, err)" by fastforce
  show "verdict r \<le> verdict (fst (checkBaoPod c phase1 n (r, x))) \<and>
      appVerdict r \<le> appVerdict (fst (checkBaoPod c phase1 n (r, x)))"
  proof (cases "parseBaoStatus out")
    case None
    then show ?thesis by (simp add: checkBaoPod_def x o Let_def recorded)
  next
    case (Some st)
    obtain cat m where cm: "classifyBaoSeal st = (cat, m)" by fastforce
    show ?thesis by (simp add: checkBaoPod_def x o Some cm Let_def recorded le_max_iff_disj)
  qed
qed

lemma grows_checkOpenBao [growth]: "grows (checkOpenBao c phase1)"
proof -
  have step: "grows (\<lambda>r. case fold (checkBaoPod c phase1) ns (r, (0, False)) of
      (r, (active, tb)) \<Rightarrow> g active tb r)" if "\<And>a b. grows (g a b)" for ns g
    by (rule grows_st_fold_from) (auto intro: grows_st_checkBaoPod growth that)
  show ?thesis
    unfolding checkOpenBao_def Let_def
    by (intro growth step [unfolded Let_def])
qed

lemma grows_st_checkLease: "grows_st (checkLease c ns it)"
  by (rule grows_st_I) (simp add: checkLease_def recorded split: stamp.split)

lemma grows_checkLeases [growth]: "grows (checkLeases budgeted c iv)"
proof -
  have "grows_st (checkLeasesIn budgeted c iv ns)" for ns
  proof (rule grows_st_I)
    fix r and x :: "bool \<times> nat"
    obtain stale read where x: "x = (stale, read)" by fastforce
    show "verdict r \<le> verdict (fst (checkLeasesIn budgeted c iv ns (r, x))) \<and>
        appVerdict r \<le> appVerdict (fst (checkLeasesIn budgeted c iv ns (r, x)))"
    proof (cases "clLeases c ns")
      case None
      then show ?thesis
        by (simp add: checkLeasesIn_def x pendingIfBudgeted_def recorded)
    next
      case (Some items)
      have "grows_st (\<lambda>s. fold (checkLease c ns) items s)"
        by (rule grows_st_fold) (rule grows_st_checkLease)
      then show ?thesis
        using Some grows_stD [of "\<lambda>s. fold (checkLease c ns) items s" "(r, stale)"]
        by (simp add: checkLeasesIn_def x split: prod.split) (metis fst_conv)
    qed
  qed
  then show ?thesis
    unfolding checkLeases_def
    by (intro grows_st_fold_from) (auto intro!: growth)
qed

lemma grows_checkArgoApps [growth]: "grows (checkArgoApps budgeted apps fetched phase1)"
proof -
  have flags: "verdict (r\<lparr>RedisAuthSplit := b\<rparr>) = verdict r" "verdict (r\<lparr>GitAuthFailure := b\<rparr>) = verdict r"
    "verdict (r\<lparr>AnnotationLimitWedge := b\<rparr>) = verdict r" "appVerdict (r\<lparr>RedisAuthSplit := b\<rparr>) = appVerdict r"
    "appVerdict (r\<lparr>GitAuthFailure := b\<rparr>) = appVerdict r"
    "appVerdict (r\<lparr>AnnotationLimitWedge := b\<rparr>) = appVerdict r" for r b
    by (simp_all add: verdict_def appVerdict_def Let_def)
  have step: "grows (checkArgoApp budgeted phase1 a)" for a
    by (simp add: grows_def checkArgoApp_def Let_def flags recorded)
  show ?thesis unfolding checkArgoApps_def by (intro growth step)
qed

lemma grows_checkPVs [growth]: "grows (checkPVs c)"
  unfolding checkPVs_def
proof (intro growth)
  fix p :: pvItem and x
  show "grows_st (\<lambda>(r, released). case classifyPVPhase (pvPhase p) of
      CatFail \<Rightarrow> (recordFinding CatFail (msg [''PV '', mName p, '' '', pvPhase p, '' '', em_dash,
          '' provisioner/CSI issue; dependent PVC will stay Pending'']) r, released)
    | CatWarn \<Rightarrow> (recordFinding CatWarn (msg [''PV '', mName p, '' unrecognized phase='', pvPhase p]) r,
          released)
    | _ \<Rightarrow> (r, if pvPhase p = ''Released'' then Suc released else released))"
    by (rule grows_st_I) (simp add: recorded split: category.split)
qed

lemma grows_st_checkWorkflows: "grows_st (checkWorkflows c iv phase1)"
proof (rule grows_st_I)
  fix r i
  have step: "grows_st (checkWorkflow phase1 w)" for w
    by (rule grows_st_I) (simp add: checkWorkflow_def Let_def recorded split: prod.split)
  have st: "grows_st (\<lambda>s. fold (checkWorkflow phase1) wfs s)" for wfs
    by (rule grows_st_fold) (rule step)
  show "verdict r \<le> verdict (fst (checkWorkflows c iv phase1 (r, i))) \<and>
      appVerdict r \<le> appVerdict (fst (checkWorkflows c iv phase1 (r, i)))"
  proof (cases "clWorkflows c")
    case None
    then show ?thesis
      by (simp add: checkWorkflows_def sectionItems_def routeInconclusive_verdicts)
  next
    case (Some wfs)
    then show ?thesis
      using grows_stD [OF st, of "(r, i)" wfs] by (simp add: checkWorkflows_def sectionItems_def)
  qed
qed

lemma grows_checkStuckFinalizers [growth]: "grows (checkStuckFinalizers c iv i)"
proof -
  have m: "grows_st (checkStuckMeta c i kind m)" for kind m
    by (rule grows_st_I)
      (simp add: checkStuckMeta_def Let_def recorded split: stamp.split option.split)
  have st: "grows_st (\<lambda>s. fold (checkStuckMeta c i kind) ms s)" for kind ms
    by (rule grows_st_fold) (rule m)
  have step: "grows_st (checkStuckKind c iv i spec)" for spec
  proof (rule grows_st_I)
    fix r and x :: bool
    obtain kind scope fl where k: "cut_at (CHR ''|'') spec = (kind, scope, fl)" by (metis prod_cases3)
    show "verdict r \<le> verdict (fst (checkStuckKind c iv i spec (r, x))) \<and>
        appVerdict r \<le> appVerdict (fst (checkStuckKind c iv i spec (r, x)))"
    proof (cases "clStuck c kind")
      case None
      then show ?thesis
        by (simp add: checkStuckKind_def k sectionItems_def routeInconclusive_verdicts)
    next
      case (Some ms)
      then show ?thesis
        using grows_stD [OF st, of "(r, x)" kind ms] by (simp add: checkStuckKind_def k sectionItems_def)
    qed
  qed
  show ?thesis unfolding checkStuckFinalizers_def by (intro growth step)
qed

text \<open>How a failing pod is recorded.\<close>

definition podCategory :: "bool \<Rightarrow> bool \<Rightarrow> podItem \<Rightarrow> category" where
  "podCategory budgeted phase1 p =
     (let key = pdNamespace p @ ''/'' @ pdName p
      in if phase1 \<and> matchPrefix key phase1PendingWorkloads then CatPending
         else if matchExternalDep key externalDepWorkloads \<noteq> None then CatDeferred
         else if budgeted \<and> (podIsStarting (pdStatus p) \<or> podIsWarmingUp (pdStatus p)) then CatPending
         else CatFail)"

definition podSkipped :: "podItem \<Rightarrow> bool" where
  "podSkipped p \<longleftrightarrow> isJobControlled (pdOwners p) \<or> isEphemeralE2EProbe (pdName p)"

lemma checkPod_verdict:
  "\<exists>m. verdict (fst (checkPod budgeted i phase1 p (r, bad))) =
       (if podSkipped p \<or> \<not> podIsFailing (pdStatus p) \<or> owns i (ownedRef (pdOwners p) (podRef p))
        then verdict r else max (gates (podCategory budgeted phase1 p) m) (verdict r)) \<and>
     appVerdict r \<le> appVerdict (fst (checkPod budgeted i phase1 p (r, bad)))"
proof -
  let ?hot = "flappingContainers (pdStatus p) 5"
  have w: "verdict (fst (if ?hot \<noteq> [] then (recordFinding CatWarn m r', b') else (r', b'))) = verdict r'"
    "appVerdict (fst (if ?hot \<noteq> [] then (recordFinding CatWarn m r', b') else (r', b'))) = appVerdict r'"
    for m r' and b' :: bool
    by (simp_all add: recorded gates_def)
  show ?thesis
  proof (cases "podSkipped p \<or> \<not> podIsFailing (pdStatus p)")
    case True
    then show ?thesis
      by (auto simp: checkPod_def podSkipped_def Let_def recorded gates_def)
  next
    case False
    then have f: "\<not> isJobControlled (pdOwners p)" "\<not> isEphemeralE2EProbe (pdName p)"
      "podIsFailing (pdStatus p)" by (simp_all add: podSkipped_def)
    show ?thesis
    proof (cases "matchExternalDep (pdNamespace p @ ''/'' @ pdName p) externalDepWorkloads")
      case None
      with f False show ?thesis
        by (simp add: checkPod_def podCategory_def Let_def recorded gates_def) blast
    next
      case (Some reason)
      with f False show ?thesis
        by (simp add: checkPod_def podCategory_def Let_def recorded gates_def)
    qed
  qed
qed

lemma grows_st_checkPod: "grows_st (checkPod budgeted i phase1 p)"
proof (rule grows_st_I)
  fix r and x :: bool
  obtain m where "verdict (fst (checkPod budgeted i phase1 p (r, x))) =
       (if podSkipped p \<or> \<not> podIsFailing (pdStatus p) \<or> owns i (ownedRef (pdOwners p) (podRef p))
        then verdict r else max (gates (podCategory budgeted phase1 p) m) (verdict r))"
    "appVerdict r \<le> appVerdict (fst (checkPod budgeted i phase1 p (r, x)))"
    using checkPod_verdict by blast
  then show "verdict r \<le> verdict (fst (checkPod budgeted i phase1 p (r, x))) \<and>
      appVerdict r \<le> appVerdict (fst (checkPod budgeted i phase1 p (r, x)))"
    by (auto split: if_splits)
qed

lemma grows_checkPods [growth]: "grows (checkPods budgeted i c phase1)"
  unfolding checkPods_def by (intro growth grows_st_checkPod)

subsection \<open>What a converged pass has seen\<close>

lemma grows_fold_Converged:
  assumes "\<And>x. grows (f x)" and "verdict (fold f xs r) = Converged"
  shows "verdict r = Converged" and "\<forall>x \<in> set xs. \<exists>r0. verdict (f x r0) = Converged"
proof -
  have le: "verdict r \<le> verdict (fold f xs r)" for xs r
    using grows_fold [of xs f] assms(1) by (simp add: grows_def)
  then show "verdict r = Converged" using assms(2) by (metis verdict_le(1) antisym)
  show "\<forall>x \<in> set xs. \<exists>r0. verdict (f x r0) = Converged"
    using assms(2)
  proof (induction xs arbitrary: r)
    case (Cons x xs)
    then have "verdict (f x r) = Converged"
      using le [of "f x r" xs] by (simp add: verdict_cases_le)
    with Cons show ?case by auto
  qed simp
qed

lemma grows_st_fold_Converged:
  assumes "\<And>x. grows_st (f x)" and "verdict (fst (fold f xs s)) = Converged"
  shows "\<forall>x \<in> set xs. \<exists>s0. verdict (fst (f x s0)) = Converged"
  using assms(2)
proof (induction xs arbitrary: s)
  case (Cons x xs)
  have "grows_st (\<lambda>s. fold f xs s)" by (rule grows_st_fold) (rule assms(1))
  then have "verdict (fst (f x s)) = Converged"
    using grows_stD(1) [of "\<lambda>s. fold f xs s" "f x s"] Cons.prems by (simp add: verdict_cases_le)
  with Cons.IH [of "f x s"] Cons.prems show ?case by (metis fold_simps(2) set_ConsD)
qed simp

lemma Converged_le: "verdict r \<le> verdict r' \<Longrightarrow> verdict r' = Converged \<Longrightarrow> verdict r = Converged"
  by (simp add: verdict_cases_le)

lemma gates_not_Converged: "gates CatFail m \<noteq> Converged" "gates CatPending m \<noteq> Converged"
  by (simp_all add: gates_def)

lemma max_Converged: "max v w = Converged \<longleftrightarrow> v = Converged \<and> w = Converged"
  by (cases v; cases w) (auto simp: max_def less_eq_verdict_def)

lemma sectionItems_Converged:
  "verdict (fst (sectionItems kind answer r)) = Converged \<Longrightarrow> answer = Some (snd (sectionItems kind answer r))"
  by (cases answer) (auto simp: sectionItems_def routeInconclusive_verdicts max_Converged)

lemma section_fold_Converged:
  assumes "\<And>x. grows (f x)"
    and "verdict (case sectionItems kind answer r of (r, items) \<Rightarrow> fold f items r) = Converged"
  obtains items where "answer = Some items" "\<forall>x \<in> set items. \<exists>r0. verdict (f x r0) = Converged"
proof -
  obtain r' items where s: "sectionItems kind answer r = (r', items)" by fastforce
  then have "verdict (fold f items r') = Converged" using assms(2) by simp
  from grows_fold_Converged [OF assms(1) this]
  have "verdict r' = Converged" "\<forall>x \<in> set items. \<exists>r0. verdict (f x r0) = Converged" .
  then show thesis using that sectionItems_Converged [of kind answer r] s by auto
qed

lemma checkNodes_Converged:
  assumes "verdict (checkNodes c r) = Converged"
  obtains ns where "clNodes c = Some ns" "\<forall>n \<in> set ns. fst (nodeHealthy n) \<and> unexpectedTaints n = []"
proof -
  have g: "grows (checkNode n)" for n unfolding checkNode_def by (intro growth)
  obtain ns where ns: "clNodes c = Some ns" "\<forall>n \<in> set ns. \<exists>r0. verdict (checkNode n r0) = Converged"
    using section_fold_Converged [of checkNode "''Nodes''" "clNodes c" r, OF g]
      assms by (auto simp: checkNodes_def)
  have "fst (nodeHealthy n) \<and> unexpectedTaints n = []" if v: "verdict (checkNode n r0) = Converged" for n r0
  proof -
    obtain ok ready mem disk pid where h: "nodeHealthy n = (ok, ready, mem, disk, pid)" by (metis prod_cases5)
    define f :: "taint \<Rightarrow> report \<Rightarrow> report" where "f t = recordFinding CatFail (msg [''Node '', nName n, '' has unexpected taint '', tKey t,
        (if tValue t \<noteq> [] then ''='' @ tValue t else []), '':'', tEffect t, '' (blocks scheduling)''])" for t
    define r1 where "r1 = (if ok then recordFinding CatOK (msg [''Node '', nName n, '' (Ready, no pressure)'']) r0
        else recordFinding CatFail (msg [''Node '', nName n, '' (Ready='', ready, '' MemPressure='', mem,
               '' DiskPressure='', disk, '' PIDPressure='', pid, '')'']) r0)"
    have "checkNode n r0 = fold f (unexpectedTaints n) r1"
      by (simp add: checkNode_def h r1_def f_def [abs_def] Let_def)
    with v have "verdict (fold f (unexpectedTaints n) r1) = Converged" by simp
    moreover have "grows (f t)" for t unfolding f_def by (intro growth)
    ultimately have "verdict r1 = Converged" "\<forall>t \<in> set (unexpectedTaints n). \<exists>r0. verdict (f t r0) = Converged"
      using grows_fold_Converged [of f] by blast+
    then show ?thesis
      by (auto simp: r1_def f_def recorded max_Converged gates_not_Converged h split: if_splits)
  qed
  with ns that show thesis by blast
qed

lemma checkNamespaces_Converged:
  assumes "verdict (checkNamespaces iv r) = Converged"
  shows "\<forall>ns \<in> set (invNamespaces iv). \<not> namespaceTerminating (nsPhase ns)"
proof -
  define f :: "namespaceItem \<Rightarrow> report \<times> bool \<Rightarrow> report \<times> bool" where
    "f ns = (\<lambda>(r, stuck). if namespaceTerminating (nsPhase ns) then
      (recordFinding CatFail (msg [''Namespace '', mName ns,
         '' stuck Terminating (check .spec.finalizers and stuck CRs)'']) r, True) else (r, stuck))" for ns
  have g: "grows_st (f ns)" for ns by (rule grows_st_I) (simp add: f_def recorded)
  obtain r' stuck where p: "fold f (invNamespaces iv) (r, False) = (r', stuck)" by fastforce
  have "checkNamespaces iv r = (if \<not> stuck then recordFinding CatOK ''no namespaces in Terminating state'' r' else r')"
    using p by (simp add: checkNamespaces_def f_def [abs_def] Let_def)
  with assms have "verdict r' = Converged" by (auto simp: recorded max_Converged split: if_splits)
  with p have "verdict (fst (fold f (invNamespaces iv) (r, False))) = Converged" by simp
  from grows_st_fold_Converged [OF g this] show ?thesis
    by (force simp: f_def recorded max_Converged gates_not_Converged split: if_splits)
qed

lemma checkRequiredCRDs_Converged:
  assumes "verdict (checkRequiredCRDs c iv r) = Converged"
  shows "set requiredCRDs \<subseteq> invCRDs iv"
proof -
  define f where "f crd = (\<lambda>r. if crd \<in> invCRDs iv then recordFinding CatOK (msg [''CRD '', crd, '' installed'']) r
            else recordFinding CatFail (msg [''CRD '', crd, '' missing '', em_dash,
                   '' owning ArgoCD Application has not installed it'']) r)" for crd
  have g: "grows (f crd)" for crd unfolding f_def by (intro growth)
  define h where "h = (\<lambda>(crd, app) r.
           if crd \<in> invCRDs iv then recordFinding CatOK (msg [''CRD '', crd, '' installed'']) r
           else if clAppExists c app then
             recordFinding CatFail (msg [''CRD '', crd, '' missing '', em_dash, '' owning ArgoCD Application '', app,
               '' has not installed it'']) r
           else recordFinding CatOK (msg [''CRD '', crd, '' not required ('', app,
                  '' Application not deployed)'']) r)"
  have "grows (\<lambda>r. fold h conditionalCRDs r)" unfolding h_def by (intro growth)
  from growsD(1) [OF this, of "fold f requiredCRDs r"]
  have "verdict (fold f requiredCRDs r) \<le> verdict (checkRequiredCRDs c iv r)"
    unfolding checkRequiredCRDs_def Let_def h_def f_def .
  then have "verdict (fold f requiredCRDs r) = Converged" using assms by (rule Converged_le)
  from grows_fold_Converged(2) [OF g this] show ?thesis
    by (auto simp: f_def recorded max_Converged gates_not_Converged split: if_splits)
qed

lemma report_flags [simp]:
  "verdict (r\<lparr>RedisAuthSplit := b\<rparr>) = verdict r" "verdict (r\<lparr>GitAuthFailure := b\<rparr>) = verdict r"
  "verdict (r\<lparr>AnnotationLimitWedge := b\<rparr>) = verdict r"
  "appVerdict (r\<lparr>RedisAuthSplit := b\<rparr>) = appVerdict r"
  "appVerdict (r\<lparr>GitAuthFailure := b\<rparr>) = appVerdict r"
  "appVerdict (r\<lparr>AnnotationLimitWedge := b\<rparr>) = appVerdict r"
  by (simp_all add: verdict_def appVerdict_def Let_def)

lemma checkArgoApp_verdict:
  "verdict (checkArgoApp b p a r) =
     (if isInstanceOwnedApp a then verdict r else max (appGates b a p) (verdict r))"
  by (simp add: checkArgoApp_def Let_def recorded)

lemma checkArgoApps_Converged:
  assumes "verdict (checkArgoApps b apps fetched p r) = Converged"
  shows "fetched \<and> (\<forall>a \<in> set apps. isInstanceOwnedApp a \<or> appGates b a p = Converged)"
proof -
  have g: "grows (checkArgoApp b p a)" for a
    by (simp add: grows_def checkArgoApp_def Let_def recorded)
  define r1 where "r1 = (if \<not> fetched then fst (routeInconclusive ''ArgoCD Applications'' r) else r)"
  have v: "verdict (fold (checkArgoApp b p) apps r1) = Converged"
    using assms by (simp add: checkArgoApps_def r1_def Let_def)
  have "verdict r1 = Converged" by (rule grows_fold_Converged(1) [OF g v])
  moreover have "\<forall>a \<in> set apps. \<exists>r0. verdict (checkArgoApp b p a r0) = Converged"
    by (rule grows_fold_Converged(2) [OF g v])
  ultimately show ?thesis
    by (auto simp: r1_def routeInconclusive_verdicts max_Converged checkArgoApp_verdict split: if_splits)
qed

text \<open>A Deployment the platform gate accepts.\<close>

definition deploymentFine :: "ownershipIndex \<Rightarrow> string \<Rightarrow> deploymentItem \<Rightarrow> bool" where
  "deploymentFine i ns d \<longleftrightarrow> dReplicas d = 0 \<or> dReady d = dReplicas d
     \<or> matchExternalDep (ns @ ''/'' @ mName d) externalDepWorkloads \<noteq> None
     \<or> owns i (appsRef ''Deployment'' ns (mName d))"

lemma checkWorkloads_Converged:
  assumes "verdict (checkWorkloads c iv i p r) = Converged"
    and "ns \<in> set (scannedNamespaces i)" and "ns \<in> invNsExists iv"
  obtains ds where "clDeployments c ns = Some ds" "\<forall>d \<in> set ds. deploymentFine i ns d"
proof -
  have g: "grows (checkWorkloadsIn c iv i p n)" for n
    unfolding checkWorkloadsIn_def by (intro growth)
  obtain r0 where v: "verdict (checkWorkloadsIn c iv i p ns r0) = Converged"
    using grows_fold_Converged(2) [where f = "checkWorkloadsIn c iv i p", OF g] assms(1,2)
    unfolding checkWorkloads_def by blast
  define f :: "deploymentItem \<Rightarrow> report \<Rightarrow> report" where "f = (\<lambda>d r.
      let (preason, pmsg) = progressingCondition (dConditions d);
          (cat, m) = classifyWorkload ''Deployment'' ns (mName d) (dReplicas d) (dReady d) preason pmsg p
      in recordRes i cat (appsRef ''Deployment'' ns (mName d)) m r)"
  define h where "h = (\<lambda>r.
      let (r, ss) = sectionItems (''StatefulSets in '' @ ns) (clStatefulSets c ns) r;
          r = fold (\<lambda>s r.
            let (cat, m) = classifyWorkload ''StatefulSet'' ns (mName s) (sReplicas s) (sReady s)
                             [] [] p
            in recordRes i cat (appsRef ''StatefulSet'' ns (mName s)) m r) ss r;
          (r, dss) = sectionItems (''DaemonSets in '' @ ns) (clDaemonSets c ns) r
      in fold (\<lambda>d r.
           let (cat, m) = classifyDaemonSet ns (mName d) (dsDesired d) (dsReady d) (dsUpdated d)
                            (dsMisscheduled d)
           in recordRes i cat (appsRef ''DaemonSet'' ns (mName d)) m r) dss r)"
  have gf: "grows (f d)" for d unfolding f_def by (intro growth)
  have gh: "grows h" unfolding h_def by (intro growth)
  obtain r1 ds where s: "sectionItems (''Deployments in '' @ ns) (clDeployments c ns) r0 = (r1, ds)"
    by fastforce
  have "checkWorkloadsIn c iv i p ns r0 = h (fold f ds r1)"
    using assms(3) s by (simp add: checkWorkloadsIn_def f_def h_def Let_def)
  with v have "verdict (fold f ds r1) = Converged"
    using growsD(1) [OF gh] Converged_le by metis
  from grows_fold_Converged [OF gf this]
  have "verdict r1 = Converged" and d: "\<forall>d \<in> set ds. \<exists>r0. verdict (f d r0) = Converged" .
  with s have a: "clDeployments c ns = Some ds"
    using sectionItems_Converged [of "''Deployments in '' @ ns" "clDeployments c ns" r0] by simp
  have "deploymentFine i ns d" if v: "verdict (f d r0) = Converged" for d r0
  proof -
    obtain pr pm where pc: "progressingCondition (dConditions d) = (pr, pm)" by fastforce
    obtain cat m where cm: "classifyWorkload ''Deployment'' ns (mName d) (dReplicas d) (dReady d) pr pm p = (cat, m)"
      by fastforce
    have "owns i (appsRef ''Deployment'' ns (mName d)) \<or> cat \<noteq> CatFail \<and> cat \<noteq> CatPending"
      using v by (auto simp: f_def pc cm recorded max_Converged gates_not_Converged split: if_splits)
    moreover have "cat = fst (classifyWorkload ''Deployment'' ns (mName d) (dReplicas d) (dReady d) pr pm p)"
      by (simp add: cm)
    ultimately show ?thesis
      by (auto simp: fst_classifyWorkload deploymentFine_def split: if_splits)
  qed
  with d a that show thesis by blast
qed

text \<open>A pod the platform gate accepts.\<close>

definition podFine :: "ownershipIndex \<Rightarrow> podItem \<Rightarrow> bool" where
  "podFine i p \<longleftrightarrow> podSkipped p \<or> \<not> podIsFailing (pdStatus p)
     \<or> matchExternalDep (pdNamespace p @ ''/'' @ pdName p) externalDepWorkloads \<noteq> None
     \<or> owns i (ownedRef (pdOwners p) (podRef p))"

lemma checkPods_Converged:
  assumes "verdict (checkPods budgeted i c p r) = Converged"
  obtains ps where "clPods c = Some ps" "\<forall>x \<in> set ps. podFine i x"
proof -
  obtain r1 ps where s: "sectionItems ''Pods'' (clPods c) r = (r1, ps)" by fastforce
  obtain r2 bad where f: "fold (checkPod budgeted i p) ps (r1, False) = (r2, bad)" by fastforce
  have "verdict r2 = Converged"
    using assms s f by (auto simp: checkPods_def recorded max_Converged split: if_splits)
  then have v: "verdict (fst (fold (checkPod budgeted i p) ps (r1, False))) = Converged" by (simp add: f)
  have "grows_st (\<lambda>s. fold (checkPod budgeted i p) ps s)"
    by (rule grows_st_fold) (rule grows_st_checkPod)
  from grows_stD(1) [OF this, of "(r1, False)"] v have "verdict r1 = Converged"
    by (simp add: verdict_cases_le)
  then have a: "clPods c = Some ps"
    using sectionItems_Converged [of "''Pods''" "clPods c" r] s by simp
  have "podFine i x" if v: "verdict (fst (checkPod budgeted i p x st)) = Converged" for x st
  proof -
    obtain r0 b where st: "st = (r0, b)" by fastforce
    obtain m where "verdict (fst (checkPod budgeted i p x (r0, b))) =
       (if podSkipped x \<or> \<not> podIsFailing (pdStatus x) \<or> owns i (ownedRef (pdOwners x) (podRef x))
        then verdict r0 else max (gates (podCategory budgeted p x) m) (verdict r0))"
      using checkPod_verdict by blast
    with v show ?thesis
      by (auto simp: st podFine_def podCategory_def Let_def max_Converged gates_not_Converged
          split: if_splits)
  qed
  then show thesis using grows_st_fold_Converged [OF grows_st_checkPod v] a that by blast
qed

text \<open>Every section of the pass contributes to the final report.\<close>

lemmas verdict_le_sections =
  grows_checkNodes [THEN growsD(1), THEN [2] order_trans]
  grows_checkNamespaces [THEN growsD(1), THEN [2] order_trans]
  grows_checkAPIServices [THEN growsD(1), THEN [2] order_trans]
  grows_checkRequiredCRDs [THEN growsD(1), THEN [2] order_trans]
  grows_checkStorageClasses [THEN growsD(1), THEN [2] order_trans]
  grows_checkLoki [THEN growsD(1), THEN [2] order_trans]
  grows_checkFirewall [THEN growsD(1), THEN [2] order_trans]
  grows_checkOpenBao [THEN growsD(1), THEN [2] order_trans]
  grows_checkReadyResources [THEN growsD(1), THEN [2] order_trans]
  grows_checkWebhooks [THEN growsD(1), THEN [2] order_trans]
  grows_checkAppProjects [THEN growsD(1), THEN [2] order_trans]
  grows_checkLeases [THEN growsD(1), THEN [2] order_trans]
  grows_checkArgoApps [THEN growsD(1), THEN [2] order_trans]
  grows_checkWorkloads [THEN growsD(1), THEN [2] order_trans]
  grows_checkPVCs [THEN growsD(1), THEN [2] order_trans]
  grows_checkPVs [THEN growsD(1), THEN [2] order_trans]
  grows_checkNetworkPolicies [THEN growsD(1), THEN [2] order_trans]
  grows_checkJobs [THEN growsD(1), THEN [2] order_trans]
  grows_checkCronWorkflows [THEN growsD(1), THEN [2] order_trans]
  grows_checkServices [THEN growsD(1), THEN [2] order_trans]
  grows_checkPDBs [THEN growsD(1), THEN [2] order_trans]
  grows_checkIngresses [THEN growsD(1), THEN [2] order_trans]
  grows_checkStuckFinalizers [THEN growsD(1), THEN [2] order_trans]
  grows_checkPods [THEN growsD(1), THEN [2] order_trans]

lemma runSections_chain:
  assumes "runSections budgeted c iv p = (r, i')"
  defines "apps \<equiv> fst (fetchArgoApps c)" and "ok \<equiv> snd (fetchArgoApps c)"
  defines "i \<equiv> fullIndex healthNamespaces apps"
  shows "(\<exists>r0. verdict (checkNodes c r0) \<le> verdict r) \<and> (\<exists>r0. verdict (checkNamespaces iv r0) \<le> verdict r) \<and>
    (\<exists>r0. verdict (checkRequiredCRDs c iv r0) \<le> verdict r) \<and>
    (\<exists>r0. verdict (checkStorageClasses c r0) \<le> verdict r) \<and>
    (\<exists>r0. verdict (checkArgoApps budgeted apps ok p r0) \<le> verdict r) \<and>
    (\<exists>r0. verdict (checkWorkloads c iv i p r0) \<le> verdict r) \<and>
    (\<exists>r0. verdict (checkPods budgeted i' c p r0) \<le> verdict r)"
proof -
  define r1 where "r1 = checkNodes c empty_report"
  define r2 where "r2 = checkNamespaces iv r1"
  define r3 where "r3 = checkRequiredCRDs c iv (checkAPIServices c r2)"
  define r4 where "r4 = checkStorageClasses c r3"
  define r5 where "r5 = checkLeases budgeted c iv (checkAppProjects c iv (checkWebhooks c
    (checkReadyResources i c p (checkOpenBao c p (checkFirewallBootstrap c
      (checkLokiObjStorage budgeted c p r4))))))"
  define r6 where "r6 = checkArgoApps budgeted apps ok p r5"
  define r7 where "r7 = checkWorkloads c iv i p r6"
  define r8 where "r8 = checkIngresses i c p (checkPDBs budgeted i c p (checkServices budgeted c iv i p
    (checkCronWorkflows c iv i (checkJobs i c p (checkNetworkPolicies budgeted c iv (checkPVs c
      (checkPVCs i c r7)))))))"
  define r9 where "r9 = fst (checkWorkflows c iv p (r8, i))"
  define r10 where "r10 = checkStuckFinalizers c iv i' r9"
  have a: "fetchArgoApps c = (apps, ok)" by (simp add: apps_def ok_def)
  have "runSections budgeted c iv p = (case checkWorkflows c iv p (r8, i) of (r, ow) \<Rightarrow>
      (checkPods budgeted ow c p (checkStuckFinalizers c iv ow r), ow))"
    by (simp add: runSections_def Let_def a fullIndex_def [symmetric] i_def [symmetric] r1_def r2_def
        r3_def r4_def r5_def r6_def r7_def r8_def)
  with assms(1) have w: "r = checkPods budgeted i' c p r10"
    by (auto simp: r10_def r9_def split: prod.splits)
  have le: "verdict r1 \<le> verdict r2" "verdict r2 \<le> verdict r3" "verdict r3 \<le> verdict r4"
    "verdict r4 \<le> verdict r5" "verdict r5 \<le> verdict r6" "verdict r6 \<le> verdict r7"
    "verdict r7 \<le> verdict r8" "verdict r8 \<le> verdict r9" "verdict r9 \<le> verdict r10" "verdict r10 \<le> verdict r"
    using w grows_stD(1) [OF grows_st_checkWorkflows, of "(r8, i)"]
    unfolding r2_def r3_def r4_def r5_def r6_def r7_def r8_def r9_def r10_def
    by (simp_all only: fst_conv, (intro verdict_le_sections order_refl)+)
  then show ?thesis
    using w unfolding r1_def r2_def r3_def r4_def r6_def r7_def
    by (meson order_trans order_refl)
qed

lemma reportExitCode_0: "phaseAwareExitCode (reportExitCode r) b = 0 \<longleftrightarrow> verdict r = Converged"
  by (cases "verdict r") (auto simp: phaseAwareExitCode_def reportExitCode_def)

lemma healthExitCodeState_full:
  assumes "healthExitCodeState budgeted retries c st = (res, st')" and "hrCode res = 0 \<or> hrAppCode res = 0"
  obtains iv p where "clReachable c" "addNamespaces c (scanCRDs c) = Some iv"
    "res = scanResult p (fst (runSections budgeted c iv p))"
proof (cases "clReachable c \<and> ''applications.argoproj.io'' \<in> invCRDs (scanCRDs c) \<and> clBootstrapApp c")
  case False
  then show thesis using assms
    by (auto simp: healthExitCodeState_def bothScopes_def Let_def split: if_splits)
next
  case True
  show thesis
  proof (cases "addNamespaces c (scanCRDs c)")
    case None
    with True show thesis using assms by (auto simp: healthExitCodeState_def bothScopes_def Let_def)
  next
    case (Some iv)
    define p where "p = (if st = None \<or> st = Some False then phase1OpenBaoBootstrapPending retries c else False)"
    obtain r i' where run: "runSections budgeted c iv p = (r, i')" by fastforce
    have "res = scanResult p r"
      using assms(1) True Some run
      by (auto simp: healthExitCodeState_def Let_def p_def split: if_splits prod.splits)
    with True Some run that show thesis by (metis fst_conv)
  qed
qed

subsection \<open>Properties of the pass\<close>

text \<open>A small converged cluster: one node, one namespace with one Deployment, one pod.\<close>

definition quiet :: cluster where
  "quiet = \<lparr>clNow = 0, clReachable = True, clCRDs = requiredCRDs,
     clNamespaces = Some [\<lparr>mNamespace = [], mName = ''kube-system'', mLabels = Map.empty, mAnnotations = Map.empty,
       mDeletion = NoStamp, mFinalizers = [], mOwners = [], nsPhase = ''Active''\<rparr>],
     clBootstrapApp = True, clCASecret = True, clStoreReady = (\<lambda>_. True),
     clNodes = Some [\<lparr>nName = ''n1'', nTaints = [], nConditions =
       [\<lparr>ncType = ''MemoryPressure'', ncStatus = ''False''\<rparr>, \<lparr>ncType = ''DiskPressure'', ncStatus = ''False''\<rparr>,
        \<lparr>ncType = ''PIDPressure'', ncStatus = ''False''\<rparr>, \<lparr>ncType = ''Ready'', ncStatus = ''True''\<rparr>]\<rparr>],
     clAPIServices = Some [], clAppExists = (\<lambda>_. False), clStorageClassExists = (\<lambda>_. True),
     clStorageClasses = Some [\<lparr>scName = ''block-storage-retain'',
       scAnnotations = [defaultStorageClassAnnotation \<mapsto> ''true''], scProvisioner = ''other'', scParameters = Map.empty\<rparr>],
     clObjSecrets = Some False, clLokiConfig = None, clLokiCreds = False,
     clFwDeployment = Some False, clFwConfigMap = Some False, clFwConfigMapAgain = False, clFwConfigMapName = [],
     clLinodeSecret = False, clLinodeToken = [], clFwKey = (\<lambda>_. []),
     clClusterIssuers = Some [], clCertificates = Some [], clCertRequests = Some [], clSecretStores = Some [],
     clExternalSecrets = Some [], clBaoReplicas = Some [], clBaoPod = (\<lambda>_. True), clBaoReady = (\<lambda>_. ''true''),
     clBaoStatus = (\<lambda>_. (None, [])), clBaoAudit = (\<lambda>_. True), clWebhooks = (\<lambda>_. Some []),
     clSvcExists = (\<lambda>_ _. True), clEndpoints = (\<lambda>_ _. []), clAppProject = (\<lambda>_. True),
     clLeases = (\<lambda>_. Some []), clApps = Some [],
     clDeployments = (\<lambda>_. Some [\<lparr>mNamespace = ''kube-system'', mName = ''coredns'', mLabels = Map.empty,
       mAnnotations = Map.empty, mDeletion = NoStamp, mFinalizers = [], mOwners = [], dReplicas = 2, dReady = 2,
       dConditions = []\<rparr>]),
     clStatefulSets = (\<lambda>_. Some []), clDaemonSets = (\<lambda>_. Some []), clPVCs = Some [], clPVs = Some [],
     clFoundationApp = Some False, clNetpols = (\<lambda>_. Some 1), clJobs = Some [], clCronWorkflows = Some [],
     clServices = (\<lambda>_. Some []), clPDBs = Some [], clIngresses = Some [], clWorkflows = Some [],
     clStuck = (\<lambda>_. Some []),
     clPods = Some [\<lparr>pdNamespace = ''kube-system'', pdName = ''coredns-1'', pdOwners = [],
       pdStatus = \<lparr>Phase = ''Running'', Conditions = [], ContainerStatuses = [], InitContainerStatuses = []\<rparr>\<rparr>]\<rparr>"

lemma quiet_pass: "hrCode (fst (healthExitCodeState False 3 quiet (Some True))) = 0"
  by code_simp



text \<open>an in-progress support plane never spends a hard strike: while phase 1 is pending the
  pass does not exit 1, except where Argo CD is refused by the git remote, which polling cannot
  fix. The exit code is always one of 0 to 3, so the loop never sees an unknown code.\<close>

lemma exit_code_contract:
  assumes "healthExitCodeState budgeted retries c st = (res, st')"
  shows "hrCode res \<in> {0, 1, 2, 3} \<and> convergeStep (hrCode res) \<noteq> ConvergeAbort \<and>
    (hrCode res = 1 \<longrightarrow> st' = Some True \<or> st' = None \<and> \<not> phase1OpenBaoBootstrapPending retries c
       \<or> (\<exists>iv p. GitAuthFailure (fst (runSections budgeted c iv p))))"
proof -
  have codes: "exitCode v \<in> {0, 1, 2}" for v by (cases v) auto
  show ?thesis
  proof (cases "\<not> clReachable c \<or> ''applications.argoproj.io'' \<notin> invCRDs (scanCRDs c)
      \<or> \<not> clBootstrapApp c \<or> addNamespaces c (scanCRDs c) = None")
    case True
    then have "hrCode res \<in> {2, 3}"
      using assms by (auto simp: healthExitCodeState_def bothScopes_def Let_def split: if_splits)
    then show ?thesis by (auto simp: convergeStep_def)
  next
    case False
    then obtain iv where iv: "addNamespaces c (scanCRDs c) = Some iv" by blast
    define p where "p = (if st = None \<or> st = Some False then phase1OpenBaoBootstrapPending retries c else False)"
    obtain r i' where run: "runSections budgeted c iv p = (r, i')" by fastforce
    have res: "res = scanResult p r"
      "st' = (if (st = None \<or> st = Some False) \<and> st \<noteq> None \<and> \<not> p then Some True else st)"
      using assms False iv run
      by (auto simp: healthExitCodeState_def Let_def p_def split: if_splits prod.splits)
    have c: "hrCode res = phaseAwareExitCode (exitCode (verdict r)) (p \<and> \<not> GitAuthFailure r)"
      by (simp add: res scanResult_def Let_def reportExitCode_def)
    have "hrCode res \<in> {0, 1, 2}"
      using codes [of "verdict r"] unfolding c phaseAwareExitCode_def by auto
    moreover have "st' = Some True \<or> st' = None \<and> \<not> phase1OpenBaoBootstrapPending retries c
       \<or> (\<exists>iv p. GitAuthFailure (fst (runSections budgeted c iv p)))" if "hrCode res = 1"
    proof (cases p)
      case True
      then have "GitAuthFailure r" using that by (auto simp: c phaseAwareExitCode_def split: if_splits)
      then show ?thesis using run by (metis fst_conv)
    next
      case False
      then show ?thesis by (cases st) (auto simp: res p_def split: if_splits)
    qed
    ultimately show ?thesis by (auto simp: convergeStep_def)
  qed
qed

lemma exit_code_contract_witness:
  "\<exists>res st'. healthExitCodeState False 3 quiet (Some True) = (res, st') \<and> hrCode res = 0 \<and>
     convergeStep (hrCode res) \<noteq> ConvergeAbort"
  using exit_code_contract [OF prod.collapse [symmetric], of False 3 quiet "Some True"] quiet_pass
  by (metis prod.collapse)

text \<open>an unreadable list of storage classes is recorded as a hard failure, although an
  unanswered list is meant to be inconclusive: the section goes on with the empty list, finds no
  default class in it and fails the platform.\<close>

lemma unreadable_storage_classes_hard_fail:
  assumes "clStorageClasses c = None"
  shows "verdict (checkStorageClasses c r) = HardFailed"
proof -
  have t: "\<not> isTunnelBlocked (msg [''no default StorageClass '', em_dash,
      '' PVCs without an explicit storageClassName will stay Pending''])" by code_simp
  show ?thesis
    using assms t
    by (simp add: checkStorageClasses_def sectionItems_def defaultStorageClasses_def
        auditLinodeStorageClasses_def recorded gates_def Let_def)
qed

lemma unreadable_storage_classes_hard_fail_witness:
  "clStorageClasses (quiet\<lparr>clStorageClasses := None\<rparr>) = None \<and>
   verdict (checkStorageClasses (quiet\<lparr>clStorageClasses := None\<rparr>) empty_report) = HardFailed"
  using unreadable_storage_classes_hard_fail [of "quiet\<lparr>clStorageClasses := None\<rparr>" empty_report] by simp

lemma openbao_key_not_pending: "matchPrefix (''llz-openbao'' @ ''/'' @ name) phase1PendingWorkloads = False"
  by (simp add: phase1PendingWorkloads_def has_prefix_def)

text \<open>the phase-1 allow list of workloads names the namespace \<open>openbao\<close>, and the scan looks
  for OpenBao in \<open>llz-openbao\<close>: in that namespace pods, Deployments, StatefulSets, DaemonSets and
  Services are judged in phase 1 exactly as in a steady state, so the list excuses none of them.\<close>

theorem phase1_excuses_nothing_in_openbao:
  "checkPod budgeted i True (p\<lparr>pdNamespace := ''llz-openbao''\<rparr>) s =
     checkPod budgeted i False (p\<lparr>pdNamespace := ''llz-openbao''\<rparr>) s \<and>
   checkWorkloadsIn c iv i True ''llz-openbao'' r = checkWorkloadsIn c iv i False ''llz-openbao'' r \<and>
   checkServicesIn budgeted c iv i True ''llz-openbao'' r = checkServicesIn budgeted c iv i False ''llz-openbao'' r"
proof (intro conjI)
  have k: "pdNamespace (p\<lparr>pdNamespace := ''llz-openbao''\<rparr>) = ''llz-openbao''" by simp
  show "checkPod budgeted i True (p\<lparr>pdNamespace := ''llz-openbao''\<rparr>) s =
      checkPod budgeted i False (p\<lparr>pdNamespace := ''llz-openbao''\<rparr>) s"
    unfolding checkPod_def k Let_def openbao_key_not_pending simp_thms if_False ..
  have "classifyWorkload kind ''llz-openbao'' name d rd pr pm True =
      classifyWorkload kind ''llz-openbao'' name d rd pr pm False" for kind name d rd pr pm
    unfolding classifyWorkload_def Let_def openbao_key_not_pending simp_thms if_False ..
  then show "checkWorkloadsIn c iv i True ''llz-openbao'' r = checkWorkloadsIn c iv i False ''llz-openbao'' r"
    unfolding checkWorkloadsIn_def by simp
  show "checkServicesIn budgeted c iv i True ''llz-openbao'' r = checkServicesIn budgeted c iv i False ''llz-openbao'' r"
    unfolding checkServicesIn_def Let_def openbao_key_not_pending simp_thms if_False ..
qed

end
