(* ===== verification/Fuel_Loop.thy ===== *)
theory Fuel_Loop
  imports Main
begin

text \<open>
  A loop whose turn either goes on or leaves, run on fuel, and what the development proves about
  such loops once: a kept invariant holds where the loop leaves, a clock that every turn moves
  makes it leave, and a loop that another simulates gives the same outcome. Each is a locale over
  the turn; the loops of the code interpret them.
\<close>

fun runLoop :: "('s \<Rightarrow> 's \<times> 'e option) \<Rightarrow> nat \<Rightarrow> 's \<Rightarrow> ('s \<times> 'e) option" where
  "runLoop turn 0 s = None"
| "runLoop turn (Suc fuel) s = (case turn s of
     (s', Some e) \<Rightarrow> Some (s', e)
   | (s', None) \<Rightarrow> runLoop turn fuel s')"

lemma runLoop_more: "runLoop turn n s = Some r \<Longrightarrow> n \<le> m \<Longrightarrow> runLoop turn m s = Some r"
proof (induction n arbitrary: s m)
  case (Suc n)
  then obtain k where k: "m = Suc k" "n \<le> k" by (cases m) auto
  from Suc.prems(1) k(2) show ?case
    by (auto simp: k(1) intro: Suc.IH split: prod.splits option.splits)
qed simp

lemma runLoop_unique: "runLoop turn n s = Some r \<Longrightarrow> runLoop turn m s = Some r' \<Longrightarrow> r = r'"
  using runLoop_more [of turn n s r m] runLoop_more [of turn m s r' n] by (cases "n \<le> m") auto

text \<open>An invariant of the turns: it holds before the last turn and where the loop leaves.\<close>

locale kept_invariant =
  fixes turn :: "'s \<Rightarrow> 's \<times> 'e option" and inv :: "'s \<Rightarrow> bool"
  assumes keeps: "inv s \<Longrightarrow> turn s = (s', out) \<Longrightarrow> inv s'"
begin

lemma last_turn: "inv s \<Longrightarrow> runLoop turn n s = Some (s', e) \<Longrightarrow> \<exists>t. inv t \<and> turn t = (s', Some e)"
proof (induction n arbitrary: s)
  case (Suc n)
  then show ?case using keeps by (auto split: prod.splits option.splits) blast
qed simp

lemma at_exit: "inv s \<Longrightarrow> runLoop turn n s = Some (s', e) \<Longrightarrow> inv s'"
  using last_turn keeps by blast

end

text \<open>A turn that goes on was taken before the deadline and moves the clock by at least \<open>d\<close>.\<close>

locale clocked_loop =
  fixes turn :: "'s \<Rightarrow> 's \<times> 'e option" and inv :: "'s \<Rightarrow> bool"
    and clock :: "'s \<Rightarrow> int" and deadline d :: int
  assumes moves: "inv s \<Longrightarrow> turn s = (s', None) \<Longrightarrow>
      0 < d \<and> clock s \<le> deadline \<and> clock s + d \<le> clock s' \<and> inv s'"
begin

lemma leaves:
  "inv s \<Longrightarrow> 0 < n \<Longrightarrow> deadline - clock s < (int n - 1) * d \<Longrightarrow> \<exists>r. runLoop turn n s = Some r"
proof (induction n arbitrary: s)
  case (Suc n)
  obtain s' out where t: "turn s = (s', out)" by fastforce
  show ?case
  proof (cases out)
    case None
    then have m: "0 < d" "clock s \<le> deadline" "clock s + d \<le> clock s'" "inv s'"
      using moves Suc.prems(1) t by auto
    have "0 < n" using Suc.prems(3) m(1,2) by (cases n) auto
    moreover have "deadline - clock s' < (int n - 1) * d"
      using Suc.prems(3) m(3) by (auto simp: algebra_simps)
    ultimately show ?thesis using Suc.IH [OF m(4)] t None by auto
  qed (use t in auto)
qed simp

text \<open>Enough fuel: one turn more than the steps of \<open>d\<close> that fit, and the turn that leaves.\<close>

lemma enough_fuel:
  assumes "inv s" and "0 < d" and "nat ((deadline - clock s) div d) + 2 \<le> n"
  shows "\<exists>r. runLoop turn n s = Some r"
proof (rule leaves [OF assms(1)])
  let ?b = "deadline - clock s"
  have "?b < (?b div d + 1) * d"
    using assms(2) by (metis div_mult_mod_eq add.commute distrib_right mult_1 pos_mod_bound add_less_cancel_left)
  also have "\<dots> \<le> (int n - 1) * d"
    using assms(2,3) by (intro mult_right_mono) linarith+
  finally show "?b < (int n - 1) * d" .
qed (use assms(3) in simp)

end

text \<open>A turn that the turn of another loop simulates.\<close>

locale simulated_loop =
  fixes turn :: "'s \<Rightarrow> 's \<times> 'e option" and abs_turn :: "'a \<Rightarrow> 'a \<times> 'e option"
    and inv :: "'s \<Rightarrow> bool" and view :: "'s \<Rightarrow> 'a"
  assumes simulates: "inv s \<Longrightarrow> turn s = (s', out) \<Longrightarrow> abs_turn (view s) = (view s', out) \<and> inv s'"
begin

lemma same_run:
  "inv s \<Longrightarrow> runLoop abs_turn n (view s) = map_option (\<lambda>(s', e). (view s', e)) (runLoop turn n s)"
proof (induction n arbitrary: s)
  case (Suc n)
  obtain s' out where t: "turn s = (s', out)" by fastforce
  with simulates Suc.prems have "abs_turn (view s) = (view s', out)" "inv s'" by auto
  with t Suc.IH show ?case by (cases out) auto
qed simp

end

end
