(* ===== verification/Converge_Loop.thy ===== *)
theory Converge_Loop
  imports Brownfield Health_Scan Fuel_Loop
begin

text \<open>
  \<open>internal/extensions/lifecycle/converge/health.go\<close>: the converge loop (\<open>runConverge\<close>), which
  polls the health pass until it converges, hard-fails twice or runs out of budget, and on the way
  repairs what it can. The world is the record \<open>loopEnv\<close>: the answers to the \<open>n\<close>-th question the
  loop asks and the time it takes. The clock only moves in questions and sleeps. One turn of the
  \<open>for\<close> loop is \<open>loopStep\<close>; the loop itself runs on fuel, and \<open>converge_returns\<close> says how much is
  enough.
\<close>

subsection \<open>The world and the loop's variables\<close>

record loopEnv =
  leScan :: "nat \<Rightarrow> cluster"
  leBf :: "nat \<Rightarrow> bfCluster"
  leTook :: "nat \<Rightarrow> int"

record loopArgs =
  laBudget :: int
  laInterval :: int
  laRetryDelay :: int
  laScope :: string
  laMigrate :: bool

datatype loopWrite =
    RealignRedis
  | StripCRDAnnotations
  | Migrate bfWrite

record loopState =
  lsNow :: int
  lsAsked :: nat
  lsPhase1Done :: bool
  lsAttempt :: nat
  lsPrevNonOK :: "string list"
  lsPrevAttempt :: nat
  lsRealigned :: bool
  lsStripped :: bool
  lsAttempted :: "string set"
  lsFailed :: string
  lsSettled :: bool
  lsReported :: bool
  lsApplied :: "string list"
  lsWrites :: "loopWrite list"

datatype loopError =
    StillInProgress
  | HardFailedLate
  | HardFailedTwice
  | StillUnreachable
  | UnknownExitCode
  | MigrationFailed string
  | NotRecreated "string list"
  | AppliedTooLate

datatype loopEnd = Success | Failure loopError

definition scopePlatform :: string where "scopePlatform = ''platform''"

definition scopeApps :: string where "scopeApps = ''apps''"

definition seconds :: "int \<Rightarrow> int" where
  "seconds n = i64 (n * second)"

definition convergeSleep :: "int \<Rightarrow> int \<Rightarrow> int" where
  "convergeSleep interval elapsed =
     (let remaining = i64 (interval - elapsed) in if remaining > 0 then remaining else 0)"

definition scoped :: "loopArgs \<Rightarrow> healthResult \<Rightarrow> int" where
  "scoped a res = (if laScope a = scopeApps then hrAppCode res else hrCode res)"

definition scopedNonOK :: "loopArgs \<Rightarrow> healthResult \<Rightarrow> string list" where
  "scopedNonOK a res = (if laScope a = scopeApps then hrNonOKApps res else hrNonOK res)"

text \<open>A question takes its time; a sleep takes at least what was asked.\<close>

definition passTime :: "loopEnv \<Rightarrow> loopState \<Rightarrow> loopState" where
  "passTime env s = s\<lparr>lsNow := lsNow s + leTook env (lsAsked s), lsAsked := Suc (lsAsked s)\<rparr>"

definition sleepFor :: "loopEnv \<Rightarrow> int \<Rightarrow> loopState \<Rightarrow> loopState" where
  "sleepFor env d s = passTime env (s\<lparr>lsNow := lsNow s + max 0 d\<rparr>)"

text \<open>\<open>Retries = 1\<close> and \<open>Budgeted = true\<close> for the whole loop.\<close>

definition convergePoll :: "loopEnv \<Rightarrow> loopState \<Rightarrow> healthResult \<times> loopState" where
  "convergePoll env s =
     (case healthExitCodeState True 1 (leScan env (lsAsked s)) (Some (lsPhase1Done s)) of (res, st) \<Rightarrow>
        (res, (passTime env s)\<lparr>lsPhase1Done := (st = Some True)\<rparr>))"

subsection \<open>Migrations\<close>

definition failedMigrationVerdict :: "string \<Rightarrow> loopError option" where
  "failedMigrationVerdict failed = (if failed = [] then None else Some (MigrationFailed failed))"

definition reportBrownfieldOnly :: "bfCluster \<Rightarrow> bool" where
  "reportBrownfieldOnly c =
     (\<not> list_ex (\<lambda>st. msState st = MigrationUnknown \<and> \<not> msAdvisory st) (migrationStatuses c))"

definition pendingRecreates :: "bfCluster \<Rightarrow> string list \<Rightarrow> string list" where
  "pendingRecreates c applied =
     (if applied = [] then []
      else let done = fold (\<lambda>st done. done(mgID (msMigration st) \<mapsto> (msState st = MigrationDone)))
                   (migrationStatuses c) Map.empty
           in filter (\<lambda>i. done i \<noteq> Some True) applied)"

definition applyBrownfieldMigrations ::
  "bfCluster \<Rightarrow> string set \<Rightarrow> (string list \<times> string \<times> bool) \<times> string set \<times> bfWrite list" where
  "applyBrownfieldMigrations c attempted =
     (case applyPending c attempted of (r, attempted, ws) \<Rightarrow>
        let failed = (case arErrs r of [] \<Rightarrow> [] | e # _ \<Rightarrow> firstLine e);
            attempted = (if arDeferred r \<noteq> [] then insert ''summary:deferred'' attempted else attempted);
            attempted = (if arInconclusive r \<noteq> [] then insert ''summary:inconclusive'' attempted else attempted);
            settled = (arDeferred r = [] \<and> arInconclusive r = [] \<and> arNotHere r = [])
        in ((arApplied r, failed, settled), attempted, ws))"

subsection \<open>One turn of the loop\<close>

definition selfHeal :: "loopArgs \<Rightarrow> loopEnv \<Rightarrow> healthResult \<Rightarrow> loopState \<Rightarrow> loopState" where
  "selfHeal a env res s =
     (let s = (if laScope a = scopePlatform \<and> hrRedisAuthSplit res \<and> \<not> lsRealigned s
               then passTime env (s\<lparr>lsRealigned := True, lsWrites := lsWrites s @ [RealignRedis]\<rparr>) else s)
      in if laScope a = scopePlatform \<and> hrAnnotationWedge res \<and> \<not> lsStripped s
         then passTime env (s\<lparr>lsStripped := True, lsWrites := lsWrites s @ [StripCRDAnnotations]\<rparr>) else s)"

definition reportOnly :: "loopArgs \<Rightarrow> loopEnv \<Rightarrow> loopState \<Rightarrow> loopState" where
  "reportOnly a env s =
     (if laScope a = scopePlatform \<and> \<not> laMigrate a \<and> \<not> lsReported s
      then (passTime env s)\<lparr>lsReported := reportBrownfieldOnly (leBf env (lsAsked s))\<rparr> else s)"

definition mayMigrate :: "loopArgs \<Rightarrow> int \<Rightarrow> convergeAction \<Rightarrow> healthResult \<Rightarrow> loopState \<Rightarrow> bool" where
  "mayMigrate a deadline step res s \<longleftrightarrow>
     laScope a = scopePlatform \<and> laMigrate a \<and> \<not> lsSettled s \<and>
     step \<noteq> ConvergeRetryHard \<and> step \<noteq> ConvergeUnreachable \<and>
     \<not> hrRedisAuthSplit res \<and> \<not> hrAnnotationWedge res \<and> \<not> lsNow s > deadline"

text \<open>The migration pass and how many it applied.\<close>

definition migrateNow :: "loopEnv \<Rightarrow> loopState \<Rightarrow> nat \<times> loopState" where
  "migrateNow env s =
     (case applyBrownfieldMigrations (leBf env (lsAsked s)) (lsAttempted s) of
        ((ids, failed, settled), attempted, ws) \<Rightarrow>
          (length ids,
           (passTime env s)\<lparr>lsAttempted := attempted, lsSettled := settled, lsApplied := lsApplied s @ ids,
             lsFailed := (if failed \<noteq> [] then failed else lsFailed s),
             lsWrites := lsWrites s @ map Migrate ws\<rparr>))"

text \<open>A pass that converged: a failed migration vetoes it, a missing recreate keeps polling.\<close>

definition onConverged ::
  "loopArgs \<Rightarrow> loopEnv \<Rightarrow> int \<Rightarrow> int \<Rightarrow> loopState \<Rightarrow> loopState \<times> loopEnd option" where
  "onConverged a env deadline pollDur s = (case failedMigrationVerdict (lsFailed s) of
     Some err \<Rightarrow> (s, Some (Failure err))
   | None \<Rightarrow>
       let waiting = pendingRecreates (leBf env (lsAsked s)) (lsApplied s);
           s = (if lsApplied s = [] then s else passTime env s)
       in if waiting \<noteq> [] then
            (if lsNow s > deadline then (s, Some (Failure (NotRecreated waiting)))
             else (sleepFor env (convergeSleep (seconds (laInterval a)) pollDur) s, None))
          else (s, Some Success))"

definition decide ::
  "loopArgs \<Rightarrow> loopEnv \<Rightarrow> int \<Rightarrow> convergeAction \<Rightarrow> healthResult \<Rightarrow> int \<Rightarrow> loopState \<Rightarrow> loopState \<times> loopEnd option" where
  "decide a env deadline step res pollDur s = (case step of
     ConvergeDone \<Rightarrow> onConverged a env deadline pollDur s
   | ConvergePoll \<Rightarrow>
       let s = s\<lparr>lsPrevNonOK := scopedNonOK a res, lsPrevAttempt := lsAttempt s\<rparr>
       in if lsNow s > deadline then (s, Some (Failure StillInProgress))
          else (sleepFor env (convergeSleep (seconds (laInterval a)) pollDur) s, None)
   | ConvergeRetryHard \<Rightarrow>
       if lsNow s > deadline then (s, Some (Failure HardFailedLate))
       else
         let s = sleepFor env (seconds (laRetryDelay a)) s;
             (recheck, s) = convergePoll env s
         in (case convergeStep (scoped a recheck) of
               ConvergeRetryHard \<Rightarrow> (s, Some (Failure HardFailedTwice))
             | ConvergeDone \<Rightarrow> onConverged a env deadline pollDur s
             | _ \<Rightarrow> (s, None))
   | ConvergeUnreachable \<Rightarrow>
       if lsNow s > deadline then (s, Some (Failure StillUnreachable))
       else (sleepFor env (seconds (laRetryDelay a)) s, None)
   | ConvergeAbort \<Rightarrow> (s, Some (Failure UnknownExitCode)))"

definition loopStep :: "loopArgs \<Rightarrow> loopEnv \<Rightarrow> int \<Rightarrow> loopState \<Rightarrow> loopState \<times> loopEnd option" where
  "loopStep a env deadline s =
     (let s = s\<lparr>lsAttempt := Suc (lsAttempt s)\<rparr>;
          pollStart = lsNow s;
          (res, s) = convergePoll env s;
          step = convergeStep (scoped a res);
          pollDur = time_sub (lsNow s) pollStart;
          s = selfHeal a env res s;
          s = reportOnly a env s
      in if mayMigrate a deadline step res s then
           (case migrateNow env s of (applied, s) \<Rightarrow>
              if applied > 0 then
                (let s = sleepFor env (convergeSleep (seconds (laInterval a)) pollDur) s
                 in if lsNow s > deadline then (s, Some (Failure AppliedTooLate)) else (s, None))
              else decide a env deadline step res pollDur s)
         else decide a env deadline step res pollDur s)"

definition initState :: "int \<Rightarrow> loopState" where
  "initState now = \<lparr>lsNow = now, lsAsked = 0, lsPhase1Done = False, lsAttempt = 0, lsPrevNonOK = [],
     lsPrevAttempt = 0, lsRealigned = False, lsStripped = False, lsAttempted = {}, lsFailed = [],
     lsSettled = False, lsReported = False, lsApplied = [], lsWrites = []\<rparr>"

definition runConverge :: "nat \<Rightarrow> loopArgs \<Rightarrow> loopEnv \<Rightarrow> int \<Rightarrow> (loopState \<times> loopEnd) option" where
  "runConverge fuel a env start =
     runLoop (loopStep a env (start + seconds (laBudget a))) fuel (initState start)"

subsection \<open>The clock\<close>

text \<open>Time does not run backwards, and a turn that goes on takes an interval or a retry delay.\<close>

definition steady :: "loopEnv \<Rightarrow> bool" where
  "steady env \<longleftrightarrow> (\<forall>n. 0 \<le> leTook env n)"

definition turnTime :: "loopArgs \<Rightarrow> int" where
  "turnTime a = min (seconds (laInterval a)) (seconds (laRetryDelay a))"

lemma steadyD [simp]: "steady env \<Longrightarrow> 0 \<le> leTook env n"
  by (simp add: steady_def)

lemma now_passTime [simp]: "lsNow (passTime env s) = lsNow s + leTook env (lsAsked s)"
  by (simp add: passTime_def)

lemma now_sleepFor: "steady env \<Longrightarrow> lsNow s + max 0 d \<le> lsNow (sleepFor env d s)"
  by (simp add: sleepFor_def)

lemma now_convergePoll:
  "convergePoll env s = (res, s') \<Longrightarrow> lsNow s' = lsNow s + leTook env (lsAsked s)"
  by (auto simp: convergePoll_def split: prod.splits)

lemma now_selfHeal: "steady env \<Longrightarrow> lsNow s \<le> lsNow (selfHeal a env res s)"
  by (simp add: selfHeal_def Let_def)

lemma now_reportOnly: "steady env \<Longrightarrow> lsNow s \<le> lsNow (reportOnly a env s)"
  by (simp add: reportOnly_def)

lemma now_migrateNow: "steady env \<Longrightarrow> migrateNow env s = (n, s') \<Longrightarrow> lsNow s \<le> lsNow s'"
  by (auto simp: migrateNow_def split: prod.splits)

lemma seconds_range: "in_int64 (seconds n)"
  by (simp add: seconds_def i64_range)

lemma convergeSleep_eq:
  assumes "0 \<le> interval" "in_int64 interval" "0 \<le> t"
  shows "convergeSleep interval (sat_int64 t) = max 0 (interval - min max_int64 t)"
proof -
  have "in_int64 (interval - min max_int64 t)"
    using assms by (auto simp: in_int64_def min_int64_def max_int64_def)
  moreover have "sat_int64 t = min max_int64 t"
    using assms(3) by (auto simp: sat_int64_def min_int64_def max_int64_def)
  ultimately show ?thesis by (auto simp: convergeSleep_def i64_id Let_def max_def)
qed

text \<open>A poll and the sleep after it fill the interval.\<close>

lemma sleep_fills_interval:
  assumes "steady env" "0 \<le> interval" "in_int64 interval" "0 \<le> t" "from + t \<le> lsNow s"
  shows "from + interval \<le> lsNow (sleepFor env (convergeSleep interval (sat_int64 t)) s)"
proof -
  have "interval \<le> max_int64" using assms(3) by (simp add: in_int64_def)
  then have "interval \<le> t + max 0 (interval - min max_int64 t)" by auto
  also have "\<dots> \<le> t + (lsNow (sleepFor env (convergeSleep interval (sat_int64 t)) s) - lsNow s)"
    using now_sleepFor [OF assms(1), of s "convergeSleep interval (sat_int64 t)"] convergeSleep_eq [OF assms(2-4)] by linarith
  finally show ?thesis using assms(5) by simp
qed

lemma onConverged_goes_on:
  assumes "onConverged a env deadline pollDur s = (s', None)"
  shows "\<exists>t. lsNow t \<le> deadline \<and> lsNow t \<ge> lsNow s + (if lsApplied s = [] then 0 else leTook env (lsAsked s)) \<and>
    s' = sleepFor env (convergeSleep (seconds (laInterval a)) pollDur) t"
  using assms by (auto simp: onConverged_def Let_def split: option.splits if_splits intro!: exI [of _ "if lsApplied s = [] then s else passTime env s"])

lemma decide_goes_on:
  assumes dec: "decide a env deadline step res (sat_int64 t) s = (s', None)" and steady: "steady env"
    and d: "0 < turnTime a" and t: "0 \<le> t" "from + t \<le> lsNow s"
  shows "from \<le> deadline \<and> from + turnTime a \<le> lsNow s'"
proof -
  have i: "0 \<le> seconds (laInterval a)" "turnTime a \<le> seconds (laInterval a)"
    and r: "0 < seconds (laRetryDelay a)" "turnTime a \<le> seconds (laRetryDelay a)"
    using d by (auto simp: turnTime_def)
  have done_case: "from \<le> deadline \<and> from + turnTime a \<le> lsNow s'"
    if "onConverged a env deadline (sat_int64 t) u = (s', None)" and "lsNow s \<le> lsNow u" for u
  proof -
    from onConverged_goes_on [OF that(1)] obtain w where w: "lsNow w \<le> deadline" "lsNow u \<le> lsNow w"
      "s' = sleepFor env (convergeSleep (seconds (laInterval a)) (sat_int64 t)) w"
      using steady by (smt (verit) steadyD)
    show ?thesis
      using sleep_fills_interval [OF steady i(1) seconds_range t(1), of "from" w] w that(2) t i(2) by auto
  qed
  show ?thesis
  proof (cases step)
    case ConvergeDone
    then show ?thesis using dec done_case [of s] by (simp add: decide_def)
  next
    case ConvergePoll
    let ?u = "s\<lparr>lsPrevNonOK := scopedNonOK a res, lsPrevAttempt := lsAttempt s\<rparr>"
    have "lsNow s \<le> deadline" "s' = sleepFor env (convergeSleep (seconds (laInterval a)) (sat_int64 t)) ?u"
      using dec ConvergePoll by (auto simp: decide_def Let_def split: if_splits)
    then show ?thesis
      using sleep_fills_interval [OF steady i(1) seconds_range t(1), of "from" ?u] t i(2) by auto
  next
    case ConvergeRetryHard
    let ?u = "sleepFor env (seconds (laRetryDelay a)) s"
    obtain rc u where p: "convergePoll env ?u = (rc, u)" by fastforce
    have u: "lsNow s + seconds (laRetryDelay a) \<le> lsNow u"
      using now_convergePoll [OF p] now_sleepFor [OF steady, of s "seconds (laRetryDelay a)"] steadyD [OF steady, of "lsAsked ?u"] r by simp
    have "lsNow s \<le> deadline" and "s' = u \<or> onConverged a env deadline (sat_int64 t) u = (s', None)"
      using dec ConvergeRetryHard by (auto simp: decide_def Let_def p split: if_splits convergeAction.splits)
    then show ?thesis using done_case [of u] u r t by auto
  next
    case ConvergeUnreachable
    then have "lsNow s \<le> deadline" "s' = sleepFor env (seconds (laRetryDelay a)) s"
      using dec by (auto simp: decide_def split: if_splits)
    then show ?thesis using now_sleepFor [OF steady, of s "seconds (laRetryDelay a)"] r t by auto
  qed (use dec in \<open>simp add: decide_def\<close>)
qed

text \<open>The two ways a turn goes: the action of the poll, or a migration and the next poll.\<close>

lemma loopStep_elim:
  assumes "loopStep a env deadline s = (s', out)"
  obtains (decided) res u v w where
      "convergePoll env (s\<lparr>lsAttempt := Suc (lsAttempt s)\<rparr>) = (res, u)" "v = reportOnly a env (selfHeal a env res u)"
      "w = v \<and> \<not> mayMigrate a deadline (convergeStep (scoped a res)) res v
        \<or> mayMigrate a deadline (convergeStep (scoped a res)) res v \<and> migrateNow env v = (0, w)"
      "decide a env deadline (convergeStep (scoped a res)) res (sat_int64 (leTook env (lsAsked s))) w = (s', out)"
    | (applied) res u v w n where
      "convergePoll env (s\<lparr>lsAttempt := Suc (lsAttempt s)\<rparr>) = (res, u)" "v = reportOnly a env (selfHeal a env res u)"
      "mayMigrate a deadline (convergeStep (scoped a res)) res v" "migrateNow env v = (n, w)" "0 < n"
      "s' = sleepFor env (convergeSleep (seconds (laInterval a)) (sat_int64 (leTook env (lsAsked s)))) w"
      "out = (if lsNow s' > deadline then Some (Failure AppliedTooLate) else None)"
proof -
  let ?s = "s\<lparr>lsAttempt := Suc (lsAttempt s)\<rparr>"
  obtain res u where p: "convergePoll env ?s = (res, u)" by fastforce
  obtain v where v: "v = reportOnly a env (selfHeal a env res u)" by simp
  obtain n w where m: "migrateNow env v = (n, w)" by fastforce
  have dur: "time_sub (lsNow u) (lsNow s) = sat_int64 (leTook env (lsAsked s))"
    using now_convergePoll [OF p] by (simp add: time_sub_def)
  show ?thesis
  proof (cases "mayMigrate a deadline (convergeStep (scoped a res)) res v \<and> 0 < n")
    case True
    then show ?thesis
      using assms p v m by (intro applied [of res u v n w]) (auto simp: loopStep_def Let_def dur split: if_splits)
  next
    case False
    then show ?thesis
      using assms p v m
      by (intro decided [of res u v "if mayMigrate a deadline (convergeStep (scoped a res)) res v then w else v"])
        (auto simp: loopStep_def Let_def dur split: if_splits)
  qed
qed

lemma loopStep_goes_on:
  assumes turn: "loopStep a env deadline s = (s', None)" and steady: "steady env" and d: "0 < turnTime a"
  shows "lsNow s \<le> deadline \<and> lsNow s + turnTime a \<le> lsNow s'"
proof -
  have start: "lsNow s + leTook env (lsAsked s) \<le> lsNow (reportOnly a env (selfHeal a env res u))"
    if "convergePoll env (s\<lparr>lsAttempt := Suc (lsAttempt s)\<rparr>) = (res, u)" for res u
    using now_convergePoll [OF that] now_selfHeal [OF steady, of u a res]
      now_reportOnly [OF steady, of "selfHeal a env res u" a] by simp
  have t: "0 \<le> leTook env (lsAsked s)" using steady by simp
  from turn show ?thesis
  proof (cases rule: loopStep_elim)
    case (decided res u v w)
    have "lsNow v \<le> lsNow w" using decided(3) now_migrateNow [OF steady] by auto
    then show ?thesis
      using decide_goes_on [OF decided(4) steady d t, of "lsNow s"] start [OF decided(1)] decided(2) by simp
  next
    case (applied res u v w n)
    have "lsNow v \<le> lsNow w" using now_migrateNow [OF steady applied(4)] .
    moreover have "0 \<le> seconds (laInterval a)" using d by (simp add: turnTime_def)
    ultimately have "lsNow s + seconds (laInterval a) \<le> lsNow s'"
      using start [OF applied(1)] applied(2) unfolding applied(6)
      by (intro sleep_fills_interval [OF steady _ seconds_range t]) auto
    then show ?thesis using applied(7) d by (auto simp: turnTime_def split: if_splits)
  qed
qed

interpretation converge_clock: clocked_loop "loopStep a env deadline"
    "\<lambda>s. steady env \<and> 0 < turnTime a" lsNow deadline "turnTime a"
  by unfold_locales (auto dest: loopStep_goes_on)

subsection \<open>The repairs\<close>

text \<open>The variables of the repairs, which the rest of a turn leaves alone.\<close>

definition repairs ::
  "loopState \<Rightarrow> bool \<times> bool \<times> string set \<times> string \<times> bool \<times> string list \<times> loopWrite list" where
  "repairs s = (lsRealigned s, lsStripped s, lsAttempted s, lsFailed s, lsSettled s, lsApplied s, lsWrites s)"

lemma repairs_passTime [simp]: "repairs (passTime env s) = repairs s"
  by (simp add: repairs_def passTime_def)

lemma repairs_sleepFor [simp]: "repairs (sleepFor env d s) = repairs s"
  by (simp add: repairs_def sleepFor_def passTime_def)

lemma repairs_attempt [simp]:
  "repairs (s\<lparr>lsAttempt := n\<rparr>) = repairs s" "repairs (s\<lparr>lsPrevNonOK := x, lsPrevAttempt := n\<rparr>) = repairs s"
  by (simp_all add: repairs_def)

lemma repairs_convergePoll: "convergePoll env s = (res, s') \<Longrightarrow> repairs s' = repairs s"
  by (auto simp: convergePoll_def repairs_def passTime_def split: prod.splits)

lemma repairs_reportOnly [simp]: "repairs (reportOnly a env s) = repairs s"
  by (simp add: reportOnly_def repairs_def passTime_def)

lemma repairs_onConverged [simp]: "repairs (fst (onConverged a env deadline pollDur s)) = repairs s"
  by (auto simp: onConverged_def Let_def split: option.splits)

lemma repairs_decide: "repairs (fst (decide a env deadline step res pollDur s)) = repairs s"
proof (cases step)
  case ConvergeRetryHard
  obtain rc u where "convergePoll env (sleepFor env (seconds (laRetryDelay a)) s) = (rc, u)" by fastforce
  with repairs_convergePoll [OF this] show ?thesis
    by (auto simp: decide_def Let_def ConvergeRetryHard split: convergeAction.splits)
qed (auto simp: decide_def Let_def)

text \<open>What is asked counts up through a turn.\<close>

lemma asked_passTime [simp]: "lsAsked (passTime env s) = Suc (lsAsked s)"
  by (simp add: passTime_def)

lemma asked_sleepFor [simp]: "lsAsked (sleepFor env d s) = Suc (lsAsked s)"
  by (simp add: sleepFor_def)

lemma asked_convergePoll: "convergePoll env s = (res, s') \<Longrightarrow> lsAsked s' = Suc (lsAsked s)"
  by (auto simp: convergePoll_def split: prod.splits)

lemma asked_selfHeal: "lsAsked s \<le> lsAsked (selfHeal a env res s) \<and> lsAsked (selfHeal a env res s) \<le> lsAsked s + 2"
  by (simp add: selfHeal_def Let_def)

lemma asked_reportOnly: "lsAsked s \<le> lsAsked (reportOnly a env s) \<and> lsAsked (reportOnly a env s) \<le> lsAsked s + 1"
  by (simp add: reportOnly_def)

lemma asked_migrateNow: "migrateNow env s = (n, s') \<Longrightarrow> lsAsked s' = Suc (lsAsked s)"
  by (auto simp: migrateNow_def split: prod.splits)

lemma asked_onConverged: "lsAsked s \<le> lsAsked (fst (onConverged a env deadline pollDur s))"
  by (auto simp: onConverged_def Let_def split: option.splits)

lemma asked_decide: "lsAsked s \<le> lsAsked (fst (decide a env deadline step res pollDur s))"
proof (cases step)
  case ConvergeRetryHard
  obtain rc u where "convergePoll env (sleepFor env (seconds (laRetryDelay a)) s) = (rc, u)" by fastforce
  with asked_convergePoll [OF this] asked_onConverged [of u a env deadline pollDur] show ?thesis
    by (auto simp: decide_def Let_def ConvergeRetryHard split: convergeAction.splits)
next
  case ConvergeDone
  then show ?thesis by (simp add: decide_def asked_onConverged)
qed (auto simp: decide_def Let_def)

subsection \<open>Once-only repairs\<close>

fun isDelete :: "loopWrite \<Rightarrow> bool" where
  "isDelete (Migrate (DeleteOrphan _ _ _)) = True"
| "isDelete _ = False"

fun isMigrate :: "loopWrite \<Rightarrow> bool" where
  "isMigrate (Migrate _) = True"
| "isMigrate _ = False"

text \<open>An answer of the cluster on which a delete is right: the declared value is missing on the
  object, the owner can recreate it, and the probe was refused as immutable.\<close>

definition sureToDelete :: "bfCluster \<Rightarrow> bool" where
  "sureToDelete c \<longleftrightarrow> tries c (migrationStatusOf c (hd migrations) walRow) {} \<and> createOnlyStillHolds c walRow = None"

lemma applyPending_attempted:
  "applyPending c attempted = (r, attempted', ws) \<Longrightarrow> attempted \<subseteq> attempted'"
  by (auto simp: applyPending_wal applyStatus_def Let_def
      split: if_splits option.splits prod.splits recreateError.splits)

lemma applyPending_writes:
  assumes "applyPending c attempted = (r, attempted', ws)"
  shows "length (filter isDelete (map Migrate ws)) \<le> 1 \<and>
    (\<forall>w \<in> set (map Migrate ws). isDelete w \<longrightarrow> lokiWALPVCMigration \<notin> attempted \<and>
       lokiWALPVCMigration \<in> attempted' \<and> sureToDelete c)"
proof -
  define st where "st = migrationStatusOf c (hd migrations) walRow"
  have st [simp]: "msMigration st = hd migrations" "msField st = walRow" by (simp_all add: st_def)
  have ws: "ws = newWrites c st attempted"
    using assms applyStatus_writes [of c st empty_applyResult attempted "[]"] by (simp add: applyPending_wal st_def)
  have "lokiWALPVCMigration \<in> attempted'" if "tries c st attempted"
    using assms applyStatus_tries [OF that, of empty_applyResult "[]"] by (simp add: applyPending_wal st_def)
  moreover have "sureToDelete c" if "tries c st attempted" "createOnlyStillHolds c walRow = None"
    using that by (simp add: sureToDelete_def tries_def st_def)
  ultimately show ?thesis
    unfolding ws by (auto simp: newWrites_def Let_def tries_def)
qed

definition repairsOnce :: "loopArgs \<Rightarrow> loopEnv \<Rightarrow> loopState \<Rightarrow> bool" where
  "repairsOnce a env s \<longleftrightarrow>
     count_list (lsWrites s) RealignRedis = (if lsRealigned s then 1 else 0) \<and>
     count_list (lsWrites s) StripCRDAnnotations = (if lsStripped s then 1 else 0) \<and>
     length (filter isDelete (lsWrites s)) \<le> (if lokiWALPVCMigration \<in> lsAttempted s then 1 else 0) \<and>
     (\<forall>w \<in> set (lsWrites s). isDelete w \<longrightarrow> (\<exists>n < lsAsked s. sureToDelete (leBf env n))) \<and>
     (laScope a \<noteq> scopePlatform \<longrightarrow> lsWrites s = []) \<and>
     (\<not> laMigrate a \<longrightarrow> filter isMigrate (lsWrites s) = [])"

lemma repairsOnce_eqI:
  "repairsOnce a env s \<Longrightarrow> repairs t = repairs s \<Longrightarrow> lsAsked s \<le> lsAsked t \<Longrightarrow> repairsOnce a env t"
  by (fastforce simp: repairsOnce_def repairs_def)

lemma repairsOnce_selfHeal: "repairsOnce a env s \<Longrightarrow> repairsOnce a env (selfHeal a env res s)"
  by (auto simp: repairsOnce_def selfHeal_def Let_def passTime_def less_Suc_eq)

lemma count_Migrate [simp]:
  "count_list (map Migrate ws) RealignRedis = 0" "count_list (map Migrate ws) StripCRDAnnotations = 0"
  by (induction ws) auto

lemma repairsOnce_migrateNow:
  assumes inv: "repairsOnce a env s" and m: "migrateNow env s = (n, s')"
    and guard: "laScope a = scopePlatform" "laMigrate a"
  shows "repairsOnce a env s'"
proof -
  obtain r att ws where p: "applyPending (leBf env (lsAsked s)) (lsAttempted s) = (r, att, ws)"
    by (cases "applyPending (leBf env (lsAsked s)) (lsAttempted s)") auto
  have s': "lsRealigned s' = lsRealigned s" "lsStripped s' = lsStripped s" "lsAsked s' = Suc (lsAsked s)"
    "lsWrites s' = lsWrites s @ map Migrate ws" "att \<subseteq> lsAttempted s'"
    using m by (auto simp: migrateNow_def applyBrownfieldMigrations_def p Let_def passTime_def)
  note w = applyPending_writes [OF p] applyPending_attempted [OF p]
  have "length (filter isDelete (lsWrites s')) \<le> (if lokiWALPVCMigration \<in> lsAttempted s' then 1 else 0)"
  proof (cases "filter isDelete (map Migrate ws) = []")
    case True
    then show ?thesis using inv s' w(2) by (auto simp: repairsOnce_def split: if_splits)
  next
    case False
    then have "\<exists>w \<in> set (map Migrate ws). isDelete w" by (meson filter_False)
    then have "lokiWALPVCMigration \<notin> lsAttempted s" "lokiWALPVCMigration \<in> att" using w(1) by blast+
    then show ?thesis using inv s' w(1) by (auto simp: repairsOnce_def)
  qed
  moreover have "\<exists>n < lsAsked s'. sureToDelete (leBf env n)" if "x \<in> set (lsWrites s')" "isDelete x" for x
    using that inv w(1) s' by (auto simp: repairsOnce_def less_Suc_eq)
  ultimately show ?thesis using inv guard s' by (simp add: repairsOnce_def)
qed

lemma repairsOnce_loopStep:
  assumes inv: "repairsOnce a env s" and turn: "loopStep a env deadline s = (s', out)"
  shows "repairsOnce a env s'"
proof -
  have v: "repairsOnce a env (reportOnly a env (selfHeal a env res u))"
    if p: "convergePoll env (s\<lparr>lsAttempt := Suc (lsAttempt s)\<rparr>) = (res, u)" for res u
  proof -
    have "repairsOnce a env u"
      using repairsOnce_eqI [OF inv, of u] repairs_convergePoll [OF p] asked_convergePoll [OF p] by simp
    then show ?thesis
      using repairsOnce_eqI [OF repairsOnce_selfHeal, of a env u "reportOnly a env (selfHeal a env res u)" res]
        asked_reportOnly by auto
  qed
  from turn show ?thesis
  proof (cases rule: loopStep_elim)
    case (decided res u v w)
    have "repairsOnce a env w"
      using decided(3) v [OF decided(1)] decided(2) repairsOnce_migrateNow by (auto simp: mayMigrate_def)
    then show ?thesis
      using repairsOnce_eqI [of a env w s'] repairs_decide asked_decide decided(4) by (metis fst_conv)
  next
    case (applied res u v w n)
    have "repairsOnce a env w"
      using applied(2,3,4) v [OF applied(1)] repairsOnce_migrateNow by (auto simp: mayMigrate_def)
    then show ?thesis using repairsOnce_eqI [of a env w s'] applied(6) by simp
  qed
qed

interpretation repairs_loop: kept_invariant "loopStep a env deadline" "repairsOnce a env"
  by unfold_locales (rule repairsOnce_loopStep)

subsection \<open>Why the loop leaves\<close>

text \<open>The pass of question \<open>n\<close> has code \<open>c\<close> in the scope of the run.\<close>

definition passCode :: "loopArgs \<Rightarrow> loopEnv \<Rightarrow> nat \<Rightarrow> int \<Rightarrow> bool" where
  "passCode a env n c \<longleftrightarrow>
     (\<exists>ph res ph'. healthExitCodeState True 1 (leScan env n) (Some ph) = (res, ph') \<and> scoped a res = c)"

lemma convergePoll_passCode: "convergePoll env s = (res, s') \<Longrightarrow> passCode a env (lsAsked s) (scoped a res)"
  by (auto simp: convergePoll_def passCode_def split: prod.splits)

lemma convergeStep_iff:
  "convergeStep c = ConvergeDone \<longleftrightarrow> c = 0" "convergeStep c = ConvergePoll \<longleftrightarrow> c = 2"
  "convergeStep c = ConvergeRetryHard \<longleftrightarrow> c = 1" "convergeStep c = ConvergeUnreachable \<longleftrightarrow> c = 3"
  "convergeStep c = ConvergeAbort \<longleftrightarrow> c \<notin> {0, 1, 2, 3}"
  by (auto simp: convergeStep_def)

lemma healthExitCodeState_codes:
  assumes "healthExitCodeState b n c st = (res, st')"
  shows "hrCode res \<in> {0, 1, 2, 3} \<and> hrAppCode res \<in> {0, 1, 2, 3}"
proof -
  have "res \<in> {bothScopes 3, bothScopes 2} \<or> (\<exists>p r. res = scanResult p r)"
    using assms by (auto simp: healthExitCodeState_def Let_def split: if_splits option.splits prod.splits)
  moreover have "hrCode (scanResult p r) \<in> {0, 1, 2} \<and> hrAppCode (scanResult p r) \<in> {0, 1, 2}" for p r
    by (cases "verdict r"; cases "appVerdict r")
      (simp_all add: scanResult_def Let_def phaseAwareExitCode_def reportExitCode_def)
  ultimately show ?thesis by (auto simp: bothScopes_def)
qed

lemma passCode_codes: "passCode a env n c \<Longrightarrow> c \<in> {0, 1, 2, 3}"
  unfolding passCode_def scoped_def using healthExitCodeState_codes by metis

lemma onConverged_leaves:
  "onConverged a env deadline pollDur s = (s', Some Success) \<Longrightarrow>
     lsFailed s' = [] \<and> pendingRecreates (leBf env (lsAsked s' - 1)) (lsApplied s') = [] \<and>
     lsAsked s \<le> lsAsked s' \<and> lsAsked s' \<le> lsAsked s + 1"
  "onConverged a env deadline pollDur s = (s', Some (Failure e)) \<Longrightarrow>
     e = MigrationFailed (lsFailed s') \<and> lsFailed s' \<noteq> []
     \<or> (\<exists>w. e = NotRecreated w \<and> w \<noteq> [] \<and> deadline < lsNow s')"
  by (auto simp: onConverged_def Let_def failedMigrationVerdict_def passTime_def pendingRecreates_def
      split: option.splits if_splits)

text \<open>What each failure means.\<close>

definition failureMeans :: "loopArgs \<Rightarrow> loopEnv \<Rightarrow> int \<Rightarrow> loopState \<Rightarrow> loopError \<Rightarrow> bool" where
  "failureMeans a env deadline s e = (case e of
     HardFailedTwice \<Rightarrow> \<exists>n m. n < m \<and> m \<le> n + 5 \<and> lsAsked s = Suc m \<and> passCode a env n 1 \<and> passCode a env m 1
   | UnknownExitCode \<Rightarrow> False
   | MigrationFailed err \<Rightarrow> err \<noteq> [] \<and> lsFailed s = err
   | NotRecreated w \<Rightarrow> w \<noteq> [] \<and> deadline < lsNow s
   | _ \<Rightarrow> deadline < lsNow s)"

lemma failureMeans_onConverged:
  "onConverged a env deadline pollDur s = (s', Some (Failure e)) \<Longrightarrow> failureMeans a env deadline s' e"
  by (drule onConverged_leaves(2)) (auto simp: failureMeans_def)

lemma decide_failure:
  assumes dec: "decide a env deadline (convergeStep c) res pollDur s = (s', Some (Failure e))"
    and code: "passCode a env n c" and near: "n < lsAsked s" "lsAsked s \<le> n + 5" "convergeStep c = ConvergeRetryHard \<longrightarrow> lsAsked s \<le> n + 4"
  shows "failureMeans a env deadline s' e"
proof (cases "convergeStep c")
  case ConvergeRetryHard
  let ?u = "sleepFor env (seconds (laRetryDelay a)) s"
  obtain rc u where p: "convergePoll env ?u = (rc, u)" by fastforce
  have u: "lsAsked u = lsAsked s + 2" using asked_convergePoll [OF p] by simp
  have "passCode a env (lsAsked s + 1) (scoped a rc)"
    using convergePoll_passCode [OF p, of a] by simp
  then have twice: "failureMeans a env deadline u HardFailedTwice" if "scoped a rc = 1"
    using that code near u ConvergeRetryHard unfolding failureMeans_def loopError.case
    by - (rule exI [of _ n], rule exI [of _ "lsAsked s + 1"], auto simp: convergeStep_iff)
  show ?thesis
    using dec ConvergeRetryHard p twice failureMeans_onConverged [of a env deadline pollDur u s' e]
    by (auto simp: decide_def Let_def failureMeans_def convergeStep_iff split: if_splits convergeAction.splits)
next
  case ConvergeAbort
  then show ?thesis using passCode_codes [OF code] by (simp add: convergeStep_iff)
qed (use dec failureMeans_onConverged in \<open>auto simp: decide_def Let_def failureMeans_def split: if_splits\<close>)

lemma decide_success:
  assumes dec: "decide a env deadline (convergeStep c) res pollDur s = (s', Some Success)"
    and code: "passCode a env n c" and near: "n < lsAsked s" "lsAsked s \<le> n + 5"
  shows "\<exists>m. passCode a env m 0 \<and> m < lsAsked s' \<and> lsAsked s' \<le> m + 6 \<and> lsFailed s' = [] \<and>
    pendingRecreates (leBf env (lsAsked s' - 1)) (lsApplied s') = []"
proof (cases "convergeStep c")
  case ConvergeDone
  then have "c = 0" and "onConverged a env deadline pollDur s = (s', Some Success)"
    using dec by (simp_all add: convergeStep_iff [symmetric] decide_def)
  then show ?thesis
    using code near onConverged_leaves(1) [of a env deadline pollDur s s'] by (intro exI [of _ n]) auto
next
  case ConvergeRetryHard
  let ?u = "sleepFor env (seconds (laRetryDelay a)) s"
  obtain rc u where p: "convergePoll env ?u = (rc, u)" by fastforce
  have u: "lsAsked u = lsAsked s + 2" using asked_convergePoll [OF p] by simp
  have "passCode a env (lsAsked s + 1) (scoped a rc)" using convergePoll_passCode [OF p, of a] by simp
  moreover have "scoped a rc = 0 \<and> onConverged a env deadline pollDur u = (s', Some Success)"
    using dec ConvergeRetryHard p
    by (auto simp: decide_def Let_def convergeStep_iff split: if_splits convergeAction.splits)
  ultimately show ?thesis
    using onConverged_leaves(1) [of a env deadline pollDur u s'] u by (auto intro!: exI [of _ "lsAsked s + 1"])
qed (use dec in \<open>auto simp: decide_def Let_def split: if_splits\<close>)

lemma loopStep_leaves:
  assumes "loopStep a env deadline s = (s', Some e)"
  shows "case e of
      Success \<Rightarrow> \<exists>n. passCode a env n 0 \<and> n < lsAsked s' \<and> lsAsked s' \<le> n + 6 \<and> lsFailed s' = [] \<and>
        pendingRecreates (leBf env (lsAsked s' - 1)) (lsApplied s') = []
    | Failure err \<Rightarrow> failureMeans a env deadline s' err"
  using assms
proof (cases rule: loopStep_elim)
  case (decided res u v w)
  have n: "passCode a env (lsAsked s) (scoped a res)" using convergePoll_passCode [OF decided(1), of a] by simp
  have u: "lsAsked u = Suc (lsAsked s)" using asked_convergePoll [OF decided(1)] by simp
  have v: "lsAsked s < lsAsked v \<and> lsAsked v \<le> lsAsked s + 4"
    using asked_selfHeal [of u a env res] asked_reportOnly [of "selfHeal a env res u" a env] u decided(2) by simp
  have w: "lsAsked s < lsAsked w" "lsAsked w \<le> lsAsked s + 5"
    "convergeStep (scoped a res) = ConvergeRetryHard \<longrightarrow> lsAsked w \<le> lsAsked s + 4"
    using decided(3) v asked_migrateNow [of env v 0 w] by (auto simp: mayMigrate_def)
  show ?thesis
    using decide_success [OF _ n w(1,2)] decide_failure [OF _ n w] decided(4) by (cases e) auto
next
  case (applied res u v w n)
  then show ?thesis by (auto simp: failureMeans_def split: if_splits)
qed

subsection \<open>The loop without repairs\<close>

text \<open>
  The specification of a run that only watches: a clock, a count of questions and whether phase 1
  is over. It polls, sleeps and decides on the exit code alone.
\<close>

type_synonym watchState = "int \<times> nat \<times> bool"

definition watchPoll :: "loopEnv \<Rightarrow> watchState \<Rightarrow> healthResult \<times> watchState" where
  "watchPoll env w = (case w of (now, n, ph) \<Rightarrow>
     case healthExitCodeState True 1 (leScan env n) (Some ph) of (res, st) \<Rightarrow>
       (res, (now + leTook env n, Suc n, st = Some True)))"

definition watchSleep :: "loopEnv \<Rightarrow> int \<Rightarrow> watchState \<Rightarrow> watchState" where
  "watchSleep env d w = (case w of (now, n, ph) \<Rightarrow> (now + max 0 d + leTook env n, Suc n, ph))"

definition watchTurn :: "loopArgs \<Rightarrow> loopEnv \<Rightarrow> int \<Rightarrow> watchState \<Rightarrow> watchState \<times> loopEnd option" where
  "watchTurn a env deadline w =
     (let (res, v) = watchPoll env w;
          late = fst v > deadline
      in case convergeStep (scoped a res) of
           ConvergeDone \<Rightarrow> (v, Some Success)
         | ConvergePoll \<Rightarrow>
             if late then (v, Some (Failure StillInProgress))
             else (watchSleep env (convergeSleep (seconds (laInterval a)) (time_sub (fst v) (fst w))) v, None)
         | ConvergeRetryHard \<Rightarrow>
             if late then (v, Some (Failure HardFailedLate))
             else (let (again, v) = watchPoll env (watchSleep env (seconds (laRetryDelay a)) v)
                   in case convergeStep (scoped a again) of
                        ConvergeRetryHard \<Rightarrow> (v, Some (Failure HardFailedTwice))
                      | ConvergeDone \<Rightarrow> (v, Some Success)
                      | _ \<Rightarrow> (v, None))
         | ConvergeUnreachable \<Rightarrow>
             if late then (v, Some (Failure StillUnreachable))
             else (watchSleep env (seconds (laRetryDelay a)) v, None)
         | ConvergeAbort \<Rightarrow> (v, Some (Failure UnknownExitCode)))"

definition watched :: "loopState \<Rightarrow> watchState" where
  "watched s = (lsNow s, lsAsked s, lsPhase1Done s)"

definition noRepairs :: "loopArgs \<Rightarrow> loopState \<Rightarrow> bool" where
  "noRepairs a s \<longleftrightarrow> laScope a \<noteq> scopePlatform \<and> lsFailed s = [] \<and> lsApplied s = []"

lemma watched_upd [simp]:
  "watched (s\<lparr>lsAttempt := n\<rparr>) = watched s" "watched (s\<lparr>lsPrevNonOK := x, lsPrevAttempt := n\<rparr>) = watched s"
  by (simp_all add: watched_def)

lemma watched_sleepFor [simp]: "watched (sleepFor env d s) = watchSleep env d (watched s)"
  by (simp add: watched_def sleepFor_def passTime_def watchSleep_def)

lemma watched_convergePoll:
  "convergePoll env s = (res, s') \<Longrightarrow> watchPoll env (watched s) = (res, watched s')"
  by (auto simp: convergePoll_def watchPoll_def watched_def passTime_def split: prod.splits)

lemma noRepairs_repairs: "noRepairs a s \<Longrightarrow> repairs t = repairs s \<Longrightarrow> noRepairs a t"
  by (simp add: noRepairs_def repairs_def)

lemma noRepairs_onConverged: "noRepairs a s \<Longrightarrow> onConverged a env deadline pollDur s = (s, Some Success)"
  by (simp add: noRepairs_def onConverged_def failedMigrationVerdict_def pendingRecreates_def)

lemma watchTurn_simulates:
  assumes inv: "noRepairs a s" and turn: "loopStep a env deadline s = (s', out)"
  shows "watchTurn a env deadline (watched s) = (watched s', out) \<and> noRepairs a s'"
proof -
  have no: "laScope a \<noteq> scopePlatform" using inv by (simp add: noRepairs_def)
  obtain res u where p: "convergePoll env (s\<lparr>lsAttempt := Suc (lsAttempt s)\<rparr>) = (res, u)" by fastforce
  have rep: "repairs u = repairs s" using repairs_convergePoll [OF p] by simp
  have wp: "watchPoll env (watched s) = (res, watched u)" using watched_convergePoll [OF p] by simp
  have dec: "decide a env deadline (convergeStep (scoped a res)) res (time_sub (lsNow u) (lsNow s)) u = (s', out)"
    using turn p no by (simp add: loopStep_def Let_def selfHeal_def reportOnly_def mayMigrate_def)
  have now: "fst (watched u) = lsNow u" "fst (watched s) = lsNow s" by (simp_all add: watched_def)
  have "noRepairs a s'"
    using noRepairs_repairs [OF inv] rep repairs_decide dec by (metis fst_conv)
  moreover have "watchTurn a env deadline (watched s) = (watched s', out)"
  proof (cases "convergeStep (scoped a res)")
    case ConvergeDone
    then show ?thesis
      using dec noRepairs_onConverged [OF noRepairs_repairs [OF inv rep]] by (auto simp: decide_def watchTurn_def wp)
  next
    case ConvergeRetryHard
    let ?v = "sleepFor env (seconds (laRetryDelay a)) u"
    obtain rc v where p': "convergePoll env ?v = (rc, v)" by fastforce
    have "onConverged a env deadline d v = (v, Some Success)" for d
      using noRepairs_onConverged [OF noRepairs_repairs [OF inv]] repairs_convergePoll [OF p'] rep by simp
    moreover have "watchPoll env (watchSleep env (seconds (laRetryDelay a)) (watched u)) = (rc, watched v)"
      using watched_convergePoll [OF p'] by simp
    ultimately show ?thesis
      using dec ConvergeRetryHard p'
      by (auto simp: decide_def watchTurn_def wp now Let_def split: if_splits convergeAction.splits)
  qed (use dec in \<open>auto simp: decide_def watchTurn_def wp now Let_def split: if_splits\<close>)
  ultimately show ?thesis by simp
qed

interpretation watch: simulated_loop "loopStep a env deadline" "watchTurn a env deadline" "noRepairs a" watched
  by unfold_locales (rule watchTurn_simulates)

text \<open>While the passes are in progress or unreachable, a turn of the watch asks two questions.\<close>

definition pace :: "loopArgs \<Rightarrow> int \<Rightarrow> int" where
  "pace a t = t + max 0 (max (seconds (laInterval a)) (seconds (laRetryDelay a)))"

lemma passCode_watchPoll:
  "watchPoll env (now, n, ph) = (res, v) \<Longrightarrow>
     passCode a env n (scoped a res) \<and> fst v = now + leTook env n \<and> fst (snd v) = Suc n"
  by (auto simp: watchPoll_def passCode_def split: prod.splits)

lemma convergeSleep_le:
  "0 \<le> interval \<Longrightarrow> in_int64 interval \<Longrightarrow> 0 \<le> t \<Longrightarrow> convergeSleep interval (sat_int64 t) \<le> interval"
  by (simp add: convergeSleep_eq max_int64_def)

lemma watch_waits:
  assumes steady: "steady env" and took: "\<forall>n. leTook env n \<le> t" and i: "0 \<le> seconds (laInterval a)"
    and w: "now \<le> start + int n * pace a t" and early: "start + int (Suc n) * pace a t \<le> deadline"
    and codes: "\<forall>c. passCode a env n c \<longrightarrow> c \<in> {2, 3}"
  shows "\<exists>now' ph'. watchTurn a env deadline (now, n, ph) = ((now', n + 2, ph'), None) \<and>
    now' \<le> start + int (n + 2) * pace a t"
proof -
  obtain res v where p: "watchPoll env (now, n, ph) = (res, v)" by (metis surj_pair)
  obtain now1 ph1 where v: "v = (now1, Suc n, ph1)" and now1: "now1 = now + leTook env n"
    using passCode_watchPoll [OF p] by (cases v) auto
  have code: "scoped a res \<in> {2, 3}" using passCode_watchPoll [OF p, of a] codes by blast
  have pace: "leTook env k \<le> t" "t \<le> pace a t" "max 0 (seconds (laRetryDelay a)) + t \<le> pace a t"
    "max 0 (seconds (laInterval a)) + t \<le> pace a t" for k
    using took by (auto simp: pace_def)
  have n1: "now1 \<le> start + int (Suc n) * pace a t" using w now1 pace(1) [of n] pace(2) by (simp add: algebra_simps)
  then have "now1 \<le> deadline" using early by simp
  moreover have "time_sub now1 now = sat_int64 (leTook env n)" by (simp add: time_sub_def now1)
  moreover have "max 0 (convergeSleep (seconds (laInterval a)) (sat_int64 (leTook env n))) \<le> max 0 (seconds (laInterval a))"
    using convergeSleep_le [OF i seconds_range, of "leTook env n"] steady by simp
  ultimately show ?thesis
    using code n1 pace(1) [of "Suc n"] pace(3,4)
    by (auto simp: watchTurn_def p v convergeStep_def watchSleep_def algebra_simps)
qed

lemma watch_settles:
  assumes steady: "steady env" and took: "\<forall>n. leTook env n \<le> t" and i: "0 \<le> seconds (laInterval a)"
    and early: "start + int N * pace a t \<le> deadline"
    and before: "\<forall>n < N. \<forall>c. passCode a env n c \<longrightarrow> c \<in> {2, 3}"
    and after: "\<forall>n \<ge> N. \<forall>c. passCode a env n c \<longrightarrow> c = 0"
  shows "now \<le> start + int n * pace a t \<Longrightarrow> N \<le> n + k \<Longrightarrow>
    \<exists>w. runLoop (watchTurn a env deadline) (Suc k) (now, n, ph) = Some (w, Success)"
proof (induction k arbitrary: now n ph)
  case 0
  obtain res v where p: "watchPoll env (now, n, ph) = (res, v)" by (metis surj_pair)
  have "scoped a res = 0" using passCode_watchPoll [OF p, of a] after 0 by auto
  then show ?case by (cases v) (simp add: watchTurn_def p convergeStep_def)
next
  case (Suc k)
  obtain res v where p: "watchPoll env (now, n, ph) = (res, v)" by (metis surj_pair)
  show ?case
  proof (cases "n < N")
    case False
    then have "scoped a res = 0" using passCode_watchPoll [OF p, of a] after not_less by blast
    then show ?thesis by (cases v) (simp add: watchTurn_def p convergeStep_def)
  next
    case True
    have "0 \<le> t" using took steadyD [OF steady] order_trans by blast
    then have "0 \<le> pace a t" by (simp add: pace_def)
    then have "int (Suc n) * pace a t \<le> int N * pace a t" using True by (intro mult_right_mono) auto
    then have "start + int (Suc n) * pace a t \<le> deadline" using early by linarith
    from watch_waits [OF steady took i Suc.prems(1) this] before True obtain now' ph' where
      turn: "watchTurn a env deadline (now, n, ph) = ((now', n + 2, ph'), None)"
      and now': "now' \<le> start + int (n + 2) * pace a t" by blast
    have "N \<le> n + 2 + k" using Suc.prems(2) by simp
    from Suc.IH [OF now' this] show ?thesis
      using turn by (subst runLoop.simps) simp
  qed
qed

subsection \<open>Properties\<close>

text \<open>C2: the converge loop always returns: with a positive interval and retry delay, and time that
  does not run backwards, it leaves after at most as many turns as steps of the shorter delay fit
  in the budget, and two more, with an outcome that more turns would not change. Whatever the
  cluster answers, no poll, repair, recreate that never comes or flapping re-check keeps it alive.\<close>

theorem converge_returns:
  assumes "steady env" and "0 < turnTime a" and "nat (seconds (laBudget a) div turnTime a) + 2 \<le> fuel"
  shows "\<exists>s e. \<forall>more \<ge> fuel. runConverge more a env start = Some (s, e)"
proof -
  have now: "start + seconds (laBudget a) - lsNow (initState start) = seconds (laBudget a)"
    by (simp add: initState_def)
  have "\<exists>r. runConverge fuel a env start = Some r"
    unfolding runConverge_def
    using assms by (intro converge_clock.enough_fuel) (simp_all add: now)
  then show ?thesis unfolding runConverge_def by (metis runLoop_more surj_pair)
qed

definition stillWorld :: loopEnv where
  "stillWorld = \<lparr>leScan = (\<lambda>_. quiet), leBf = (\<lambda>_. oldLoki ''dial tcp: i/o timeout''), leTook = (\<lambda>_. 0)\<rparr>"

definition usualArgs :: "string \<Rightarrow> loopArgs" where
  "usualArgs scope = \<lparr>laBudget = 1200, laInterval = 15, laRetryDelay = 60, laScope = scope, laMigrate = True\<rparr>"

theorem converge_returns_witness:
  "\<exists>s e. \<forall>more \<ge> 82. runConverge more (usualArgs scopePlatform) stillWorld 0 = Some (s, e)"
proof (rule converge_returns)
  show "steady stillWorld" by (simp add: steady_def stillWorld_def)
qed code_simp+


lemma quiet_run:
  "map_option snd (runConverge 1 (usualArgs scopeApps) stillWorld 0) = Some Success"
  by code_simp


text \<open>C4: what a failure means. An operator is called for a hard failure only after two passes that
  both exited 1 in the scope of the run, the second a re-check with nothing but a repair and the
  delay between them; a migration is blamed only with its error; every other failure, a missing
  recreate included, comes after the deadline; and an exit code outside the contract never occurs.\<close>

theorem converge_failure_reasons:
  assumes "runConverge fuel a env start = Some (s, Failure e)"
  shows "case e of
      HardFailedTwice \<Rightarrow> \<exists>n m. n < m \<and> m \<le> n + 5 \<and> lsAsked s = Suc m \<and>
        passCode a env n 1 \<and> passCode a env m 1
    | UnknownExitCode \<Rightarrow> False
    | MigrationFailed err \<Rightarrow> err \<noteq> [] \<and> lsFailed s = err
    | NotRecreated w \<Rightarrow> w \<noteq> [] \<and> start + seconds (laBudget a) < lsNow s
    | _ \<Rightarrow> start + seconds (laBudget a) < lsNow s"
proof -
  have "repairsOnce a env (initState start)" by (simp add: repairsOnce_def initState_def)
  from repairs_loop.last_turn [OF this assms [unfolded runConverge_def]] obtain t where
    "loopStep a env (start + seconds (laBudget a)) t = (s, Some (Failure e))" by blast
  from loopStep_leaves [OF this] show ?thesis by (simp add: failureMeans_def)
qed

definition goneWorld :: loopEnv where
  "goneWorld = stillWorld\<lparr>leScan := (\<lambda>_. quiet\<lparr>clReachable := False\<rparr>), leTook := (\<lambda>_. second)\<rparr>"

lemma gone_run:
  "map_option snd (runConverge 1 ((usualArgs scopeApps)\<lparr>laBudget := 0\<rparr>) goneWorld 0) = Some (Failure StillUnreachable)"
  by code_simp

theorem converge_failure_reasons_witness:
  "\<exists>s. runConverge 1 ((usualArgs scopeApps)\<lparr>laBudget := 0\<rparr>) goneWorld 0 = Some (s, Failure StillUnreachable) \<and>
     seconds 0 < lsNow s"
proof -
  obtain s where r: "runConverge 1 ((usualArgs scopeApps)\<lparr>laBudget := 0\<rparr>) goneWorld 0 = Some (s, Failure StillUnreachable)"
    using gone_run by (cases "runConverge 1 ((usualArgs scopeApps)\<lparr>laBudget := 0\<rparr>) goneWorld 0") auto
  with converge_failure_reasons [OF r] show ?thesis by (auto simp: usualArgs_def)
qed

text \<open>C5: the repairs of a run are bounded, however long it polls and whatever it sees: argocd-redis
  is restarted at most once, the CRD annotations are stripped at most once, an object is deleted
  at most once, each delete follows an answer of the cluster that showed the value missing, the
  owner able to recreate the object and the field refused as immutable; a run outside the platform
  scope writes nothing, and one without \<open>--brownfield-migrate\<close> migrates nothing.\<close>

theorem converge_repairs_once:
  assumes "runConverge fuel a env start = Some (s, e)"
  shows "count_list (lsWrites s) RealignRedis \<le> 1 \<and> count_list (lsWrites s) StripCRDAnnotations \<le> 1 \<and>
    length (filter isDelete (lsWrites s)) \<le> 1 \<and>
    (\<forall>w \<in> set (lsWrites s). isDelete w \<longrightarrow> (\<exists>n < lsAsked s. sureToDelete (leBf env n))) \<and>
    (laScope a \<noteq> scopePlatform \<longrightarrow> lsWrites s = []) \<and>
    (\<not> laMigrate a \<longrightarrow> filter isMigrate (lsWrites s) = [])"
proof -
  have "repairsOnce a env (initState start)" by (simp add: repairsOnce_def initState_def)
  from repairs_loop.at_exit [OF this assms [unfolded runConverge_def]] show ?thesis
    by (auto simp: repairsOnce_def split: if_splits)
qed

theorem converge_repairs_once_witness:
  "\<exists>s. runConverge 1 (usualArgs scopeApps) stillWorld 0 = Some (s, Success) \<and> lsWrites s = []"
proof -
  obtain s where r: "runConverge 1 (usualArgs scopeApps) stillWorld 0 = Some (s, Success)"
    using quiet_run by (cases "runConverge 1 (usualArgs scopeApps) stillWorld 0") auto
  with converge_repairs_once [OF r] show ?thesis by (simp add: usualArgs_def scopeApps_def scopePlatform_def)
qed

text \<open>C6: outside the platform scope the loop refines the watch: from the clock, the number of
  questions and phase 1 alone, the loop that only polls, sleeps and decides gives the same outcome
  at the same time after the same turns.\<close>

theorem apps_scope_refines_watch:
  assumes "laScope a \<noteq> scopePlatform"
  shows "map_option (\<lambda>(s, e). (watched s, e)) (runConverge fuel a env start) =
    runLoop (watchTurn a env (start + seconds (laBudget a))) fuel (start, 0, False)"
proof -
  have "noRepairs a (initState start)" and w: "watched (initState start) = (start, 0, False)"
    using assms by (simp_all add: noRepairs_def initState_def watched_def)
  from watch.same_run [OF this(1), of env "start + seconds (laBudget a)" fuel] show ?thesis
    by (simp add: runConverge_def w)
qed

theorem apps_scope_refines_watch_witness:
  "map_option (\<lambda>(s, e). (watched s, e)) (runConverge 5 (usualArgs scopeApps) stillWorld 0) =
     runLoop (watchTurn (usualArgs scopeApps) stillWorld (seconds 1200)) 5 (0, 0, False)"
  using apps_scope_refines_watch [of "usualArgs scopeApps" 5 stillWorld 0]
  by (simp add: usualArgs_def scopeApps_def scopePlatform_def)

text \<open>a cluster that becomes healthy in time is reported so: when every pass before question
  \<open>N\<close> is in progress or unreachable and every later one exits 0, and \<open>N\<close> questions fit in the
  budget, each with the longer of the two delays, the run succeeds.\<close>

theorem apps_scope_settles:
  assumes "steady env" and "\<forall>n. leTook env n \<le> t" and "0 \<le> seconds (laInterval a)"
    and "laScope a \<noteq> scopePlatform" and "int N * pace a t \<le> seconds (laBudget a)"
    and "\<forall>n < N. \<forall>c. passCode a env n c \<longrightarrow> c \<in> {2, 3}"
    and "\<forall>n \<ge> N. \<forall>c. passCode a env n c \<longrightarrow> c = 0"
  shows "\<exists>s. runConverge (Suc N) a env start = Some (s, Success)"
proof -
  let ?d = "start + seconds (laBudget a)"
  have "noRepairs a (initState start)" and w: "watched (initState start) = (start, 0, False)"
    using assms(4) by (simp_all add: noRepairs_def initState_def watched_def)
  note same = watch.same_run [OF this(1), of env ?d "Suc N", unfolded w]
  have "\<exists>w. runLoop (watchTurn a env ?d) (Suc N) (start, 0, False) = Some (w, Success)"
    using assms(5) by (intro watch_settles [OF assms(1-3) _ assms(6,7), of start]) auto
  with same show ?thesis by (auto simp: runConverge_def split: option.splits)
qed

definition lateWorld :: loopEnv where
  "lateWorld = stillWorld\<lparr>leScan := (\<lambda>n. if n = 0 then quiet\<lparr>clReachable := False\<rparr> else quiet), leTook := (\<lambda>_. second)\<rparr>"

lemma quiet_apps_pass: "hrAppCode (fst (healthExitCodeState True 1 quiet (Some ph))) = 0"
proof -
  have "\<forall>ph \<in> set [True, False]. hrAppCode (fst (healthExitCodeState True 1 quiet (Some ph))) = 0" by code_simp
  then show ?thesis by (cases ph) simp_all
qed

lemma gone_apps_pass: "hrAppCode (fst (healthExitCodeState True 1 (quiet\<lparr>clReachable := False\<rparr>) (Some ph))) = 3"
proof -
  have "\<forall>ph \<in> set [True, False]. hrAppCode (fst (healthExitCodeState True 1 (quiet\<lparr>clReachable := False\<rparr>) (Some ph))) = 3" by code_simp
  then show ?thesis by (cases ph) simp_all
qed

theorem apps_scope_settles_witness:
  "\<exists>s. runConverge 2 (usualArgs scopeApps) lateWorld 0 = Some (s, Success)"
proof -
  let ?a = "usualArgs scopeApps"
  have code: "\<exists>ph. c = hrAppCode (fst (healthExitCodeState True 1 (leScan lateWorld n) (Some ph)))"
    if "passCode ?a lateWorld n c" for n c
  proof -
    from that obtain ph res ph' where "healthExitCodeState True 1 (leScan lateWorld n) (Some ph) = (res, ph')"
      and "scoped ?a res = c" unfolding passCode_def by blast
    then have "c = hrAppCode (fst (healthExitCodeState True 1 (leScan lateWorld n) (Some ph)))"
      by (simp only: scoped_def usualArgs_def loopArgs.simps simp_thms if_True fst_conv)
    then show ?thesis by blast
  qed
  have "\<exists>s. runConverge (Suc 1) ?a lateWorld 0 = Some (s, Success)"
  proof (rule apps_scope_settles)
    show "steady lateWorld" by (simp add: steady_def lateWorld_def second_def)
    show "\<forall>n. leTook lateWorld n \<le> second" by (simp add: lateWorld_def)
    have "leScan lateWorld 0 = quiet\<lparr>clReachable := False\<rparr>" by (simp add: lateWorld_def)
    then show "\<forall>n < 1. \<forall>c. passCode ?a lateWorld n c \<longrightarrow> c \<in> {2, 3}"
      using code gone_apps_pass by (metis insertCI less_one)
    have "leScan lateWorld n = quiet" if "1 \<le> n" for n using that by (simp add: lateWorld_def)
    then show "\<forall>n \<ge> 1. \<forall>c. passCode ?a lateWorld n c \<longrightarrow> c = 0"
      using code quiet_apps_pass by metis
  qed code_simp+
  then show ?thesis by (simp add: numeral_2_eq_2)
qed

end
