(* ===== verification/Leader_Election.thy ===== *)
theory Leader_Election
  imports Overlay_Fields
begin

text \<open>
  \<open>internal/extensions/lifecycle/reconciler/reconcile_leader.go\<close> with the lease reader of
  \<open>shared/kube/lease.go\<close> and the client calls of \<open>shared/kube/kube.go\<close>: the lease that lets one pod
  drive. An evaluation (\<open>tryAcquire\<close>) is a plan made from what was read and an outcome made from
  what the write answered, so that other pods can come in between. What the client relies on is the
  record \<open>leaseApi\<close>: decoding, \<open>time.Parse\<close>, \<open>Format\<close>, and the merge of a patch by the apiserver.
  Below, the pods and the lease form a transition system.
\<close>

subsection \<open>The client\<close>

text \<open>What \<open>do\<close> returns: a transport error with the status so far, or body and status.\<close>

datatype httpAnswer =
    HttpFailed string int
  | HttpAnswer string int

record leaseApi =
  laUnmarshal :: "string \<Rightarrow> json option + string"   \<comment> \<open>an object, \<open>null\<close>, or the decoder's error\<close>
  laParse :: "string \<Rightarrow> instant option"
  laFormat :: "instant \<Rightarrow> string"
  laMerge :: "json \<Rightarrow> json \<Rightarrow> json"

definition truncateBody :: "string \<Rightarrow> string" where
  "truncateBody b =
     (let s = trim_space b in if length s > 300 then take 300 s @ ellipsis else s)"

datatype getAnswer =
    GetFailed string
  | Got "json option" int

definition getJSON :: "leaseApi \<Rightarrow> string \<Rightarrow> httpAnswer \<Rightarrow> getAnswer" where
  "getJSON api path ans = (case ans of
     HttpFailed err status \<Rightarrow> GetFailed err
   | HttpAnswer body status \<Rightarrow>
       if status = 404 then Got None status
       else if status < 200 \<or> status \<ge> 300 then
         GetFailed (msg [''GET '', path, '' returned '', int_dec status, '': '', truncateBody body])
       else (case laUnmarshal api body of
           Inr err \<Rightarrow> GetFailed (msg [''GET '', path, '': parsing response: '', err])
         | Inl obj \<Rightarrow> Got obj status))"

definition createJSON :: "string \<Rightarrow> httpAnswer \<Rightarrow> int \<times> string option" where
  "createJSON path ans = (case ans of
     HttpFailed err status \<Rightarrow> (status, Some err)
   | HttpAnswer body status \<Rightarrow>
       if status = 409 then (status, None)
       else if status < 200 \<or> status \<ge> 300 then
         (status, Some (msg [''POST '', path, '' returned '', int_dec status, '': '', truncateBody body]))
       else (status, None))"

definition mergePatch :: "string \<Rightarrow> httpAnswer \<Rightarrow> string option" where
  "mergePatch path ans = (case ans of
     HttpFailed err status \<Rightarrow> Some err
   | HttpAnswer body status \<Rightarrow>
       if status < 200 \<or> status \<ge> 300 then
         Some (msg [''PATCH '', path, '' returned '', int_dec status, '': '', truncateBody body])
       else None)"

subsection \<open>Reading a lease\<close>

definition zeroInstant :: instant where   \<comment> \<open>\<open>time.Time{}\<close>\<close>
  "zeroInstant = - 62135596800 * second"

definition leaseSpec :: "json \<Rightarrow> (string \<times> json) list" where
  "leaseSpec obj = (case rawValue obj [''spec''] of Some (JObj spec) \<Rightarrow> spec | _ \<Rightarrow> [])"

definition leaseHolderRenew :: "leaseApi \<Rightarrow> json \<Rightarrow> string \<times> instant \<times> bool" where
  "leaseHolderRenew api obj =
     (let spec = leaseSpec obj;
          holder = (case map_of spec ''holderIdentity'' of Some (JStr h) \<Rightarrow> h | _ \<Rightarrow> [])
      in case map_of spec ''renewTime'' of
        None \<Rightarrow> (holder, zeroInstant, True)
      | Some raw \<Rightarrow>
          if raw = JNull then (holder, zeroInstant, True)
          else (case raw of
              JStr rt \<Rightarrow>
                if rt = [] then (holder, zeroInstant, False)
                else (case laParse api rt of
                    None \<Rightarrow> (holder, zeroInstant, False)
                  | Some t \<Rightarrow> (holder, t, True))
            | _ \<Rightarrow> (holder, zeroInstant, False)))"

subsection \<open>The elector\<close>

record elector =
  elNamespace :: string
  elName :: string
  elIdentity :: string
  elLeaseDuration :: int
  elRenewInterval :: int
  elOpTimeout :: int
  elStaleAfter :: int
  elLeader :: bool
  elLastEval :: instant
  elLastErrMsg :: string
  elLastErrAt :: instant
  elKicks :: nat   \<comment> \<open>calls of \<open>onAcquire\<close>\<close>
  elLog :: "string list"

definition newLeaderElector :: "string \<Rightarrow> string \<Rightarrow> string \<Rightarrow> instant \<Rightarrow> elector" where
  "newLeaderElector namespace name ident now =
     \<lparr>elNamespace = namespace, elName = name, elIdentity = ident, elLeaseDuration = 30 * second,
      elRenewInterval = 10 * second, elOpTimeout = 5 * second, elStaleAfter = 30 * second, elLeader = False,
      elLastEval = now, elLastErrMsg = [], elLastErrAt = zeroInstant, elKicks = 0, elLog = []\<rparr>"

definition leasePath :: "elector \<Rightarrow> string" where
  "leasePath e = msg [''/apis/coordination.k8s.io/v1/namespaces/'', elNamespace e, ''/leases/'', elName e]"

definition collectionPath :: "elector \<Rightarrow> string" where
  "collectionPath e = msg [''/apis/coordination.k8s.io/v1/namespaces/'', elNamespace e, ''/leases'']"

definition setLeader :: "bool \<Rightarrow> elector \<Rightarrow> elector" where
  "setLeader v e =
     (if elLeader e = v then e
      else if v then e\<lparr>elLeader := v, elKicks := Suc (elKicks e),
        elLog := elLog e @ [msg [''leader-election: ACQUIRED lease '', elNamespace e, ''/'', elName e, '' as '', elIdentity e]]\<rparr>
      else e\<lparr>elLeader := v,
        elLog := elLog e @ [msg [''leader-election: lost leadership of lease '', elNamespace e, ''/'', elName e,
          '' ('', elIdentity e, '')'']]\<rparr>)"

definition markEval :: "instant \<Rightarrow> elector \<Rightarrow> elector" where
  "markEval now e = e\<lparr>elLastEval := now\<rparr>"

definition healthyElector :: "instant \<Rightarrow> elector \<Rightarrow> bool" where
  "healthyElector now e \<longleftrightarrow> time_sub now (elLastEval e) \<le> elStaleAfter e"

definition logErr :: "string \<Rightarrow> string \<Rightarrow> instant \<Rightarrow> elector \<Rightarrow> elector" where
  "logErr op err now e =
     (let m = msg [op, '': '', err]
      in if m = elLastErrMsg e \<and> time_sub now (elLastErrAt e) < elStaleAfter e then e
         else e\<lparr>elLastErrMsg := m, elLastErrAt := now, elLog := elLog e @ [''leader-election: '' @ m]\<rparr>)"

definition claimSpec :: "leaseApi \<Rightarrow> instant \<Rightarrow> bool \<Rightarrow> elector \<Rightarrow> (string \<times> json) list" where
  "claimSpec api now setAcquire e =
     [(''holderIdentity'', JStr (elIdentity e)),
      (''leaseDurationSeconds'', JInt (quot (elLeaseDuration e) second)),
      (''renewTime'', JStr (laFormat api now))]
     @ (if setAcquire then [(''acquireTime'', JStr (laFormat api now))] else [])"

subsection \<open>One evaluation\<close>

datatype leasePlan =
    ReadFailed string
  | CreateLease
  | PatchLease bool   \<comment> \<open>\<open>takeover\<close>\<close>
  | StandBack

definition planLease :: "leaseApi \<Rightarrow> instant \<Rightarrow> elector \<Rightarrow> getAnswer \<Rightarrow> leasePlan" where
  "planLease api now e ans = (case ans of
     GetFailed err \<Rightarrow> ReadFailed err
   | Got None status \<Rightarrow> CreateLease
   | Got (Some obj) status \<Rightarrow>
       if status = 404 then CreateLease
       else (case leaseHolderRenew api obj of (holder, renew, renewOK) \<Rightarrow>
         if holder = elIdentity e then PatchLease False
         else if \<not> renewOK then StandBack
         else if holder = [] \<or> renew = zeroInstant \<or> time_sub now renew > elLeaseDuration e then PatchLease True
         else StandBack))"

text \<open>The body of the write, if there is one.\<close>

definition leaseBody :: "leaseApi \<Rightarrow> instant \<Rightarrow> elector \<Rightarrow> leasePlan \<Rightarrow> json option" where
  "leaseBody api now e p = (case p of
     CreateLease \<Rightarrow> Some (JObj [(''apiVersion'', JStr ''coordination.k8s.io/v1''), (''kind'', JStr ''Lease''),
       (''metadata'', JObj [(''name'', JStr (elName e)), (''namespace'', JStr (elNamespace e))]),
       (''spec'', JObj (claimSpec api now True e))])
   | PatchLease takeover \<Rightarrow> Some (JObj [(''spec'', JObj (claimSpec api now takeover e))])
   | _ \<Rightarrow> None)"

definition createOutcome :: "instant \<Rightarrow> int \<times> string option \<Rightarrow> elector \<Rightarrow> elector" where
  "createOutcome now ans e = (case ans of (status, err) \<Rightarrow>
     let e = (case err of
           Some x \<Rightarrow> logErr ''lease create failed'' x now e
         | None \<Rightarrow>
             if status \<ge> 300 \<and> status \<noteq> 409 then logErr ''lease create rejected'' (''HTTP '' @ int_dec status) now e
             else e)
     in setLeader (err = None \<and> status \<ge> 200 \<and> status < 300 \<and> status \<noteq> 409) e)"

definition patchHeld :: "instant \<Rightarrow> bool \<Rightarrow> string option \<Rightarrow> elector \<Rightarrow> elector" where
  "patchHeld now takeover ans e = (case ans of
     Some err \<Rightarrow>
       setLeader False
         (if takeover then logErr ''lease takeover failed'' err now e else logErr ''lease renew failed'' err now e)
   | None \<Rightarrow> setLeader True e)"

text \<open>The readings of the clock in one evaluation: to judge expiry, for the log, and at the end.\<close>

record readings =
  rdJudge :: instant
  rdSpec :: instant
  rdLog :: instant
  rdEnd :: instant

definition finishLease :: "readings \<Rightarrow> leasePlan \<Rightarrow> httpAnswer \<Rightarrow> elector \<Rightarrow> elector" where
  "finishLease r p ans e = markEval (rdEnd r) (case p of
     ReadFailed err \<Rightarrow> setLeader False (logErr ''lease read failed'' err (rdLog r) e)
   | CreateLease \<Rightarrow> createOutcome (rdLog r) (createJSON (collectionPath e) ans) e
   | PatchLease takeover \<Rightarrow> patchHeld (rdLog r) takeover (mergePatch (leasePath e) ans) e
   | StandBack \<Rightarrow> setLeader False e)"

definition tryAcquire :: "leaseApi \<Rightarrow> readings \<Rightarrow> httpAnswer \<Rightarrow> httpAnswer \<Rightarrow> elector \<Rightarrow> elector" where
  "tryAcquire api r got ans e =
     finishLease r (planLease api (rdJudge r) e (getJSON api (leasePath e) got)) ans e"

definition releaseBody :: json where
  "releaseBody = JObj [(''spec'', JObj [(''holderIdentity'', JNull)])]"

definition releaseElector :: "elector \<Rightarrow> elector" where
  "releaseElector e = (if \<not> elLeader e then e else setLeader False e)"

subsection \<open>Lemmas\<close>

definition accepted :: "httpAnswer \<Rightarrow> bool" where
  "accepted ans \<longleftrightarrow> (case ans of HttpAnswer body status \<Rightarrow> 200 \<le> status \<and> status < 300 | HttpFailed _ _ \<Rightarrow> False)"

lemma logErr_sel [simp]:
  "elLeader (logErr op err now e) = elLeader e" "elIdentity (logErr op err now e) = elIdentity e"
  "elLeaseDuration (logErr op err now e) = elLeaseDuration e" "elOpTimeout (logErr op err now e) = elOpTimeout e"
  "elStaleAfter (logErr op err now e) = elStaleAfter e" "elKicks (logErr op err now e) = elKicks e"
  by (simp_all add: logErr_def Let_def)

lemma setLeader_sel [simp]:
  "elLeader (setLeader v e) = v" "elIdentity (setLeader v e) = elIdentity e"
  "elLeaseDuration (setLeader v e) = elLeaseDuration e" "elOpTimeout (setLeader v e) = elOpTimeout e"
  "elStaleAfter (setLeader v e) = elStaleAfter e"
  "elKicks (setLeader v e) = elKicks e + (if v \<and> \<not> elLeader e then 1 else 0)"
  by (auto simp: setLeader_def)

lemma mergePatch_None: "mergePatch path ans = None \<longleftrightarrow> accepted ans"
  by (auto simp: mergePatch_def accepted_def split: httpAnswer.splits)

lemma createJSON_created:
  "createJSON path ans = (status, err) \<Longrightarrow>
     (err = None \<and> status \<ge> 200 \<and> status < 300 \<and> status \<noteq> 409) = accepted ans"
  by (auto simp: createJSON_def accepted_def split: httpAnswer.splits if_splits)

lemma finishLease_sel:
  "elLeader (finishLease r p ans e) \<longleftrightarrow> (p = CreateLease \<or> (\<exists>t. p = PatchLease t)) \<and> accepted ans"
  "elIdentity (finishLease r p ans e) = elIdentity e" "elLeaseDuration (finishLease r p ans e) = elLeaseDuration e"
  "elOpTimeout (finishLease r p ans e) = elOpTimeout e" "elStaleAfter (finishLease r p ans e) = elStaleAfter e"
  "elLastEval (finishLease r p ans e) = rdEnd r"
  "elKicks (finishLease r p ans e) = elKicks e + (if elLeader (finishLease r p ans e) \<and> \<not> elLeader e then 1 else 0)"
proof -
  obtain status err where c: "createJSON (collectionPath e) ans = (status, err)" by fastforce
  note made = createJSON_created [OF c]
  note unfold = finishLease_def markEval_def createOutcome_def patchHeld_def Let_def c prod.case
  show "elLeader (finishLease r p ans e) \<longleftrightarrow> (p = CreateLease \<or> (\<exists>t. p = PatchLease t)) \<and> accepted ans"
    using made mergePatch_None [of "leasePath e" ans] by (cases p) (auto simp: unfold split: option.splits)
  show "elIdentity (finishLease r p ans e) = elIdentity e" "elLeaseDuration (finishLease r p ans e) = elLeaseDuration e"
    "elOpTimeout (finishLease r p ans e) = elOpTimeout e" "elStaleAfter (finishLease r p ans e) = elStaleAfter e"
    "elLastEval (finishLease r p ans e) = rdEnd r"
    "elKicks (finishLease r p ans e) = elKicks e + (if elLeader (finishLease r p ans e) \<and> \<not> elLeader e then 1 else 0)"
    by (cases p; auto simp: unfold split: option.splits)+
qed

text \<open>Reading back a claim.\<close>

lemma leaseHolderRenew_spec:
  assumes "map_of (leaseSpec obj) ''holderIdentity'' = Some (JStr h)"
    and "map_of (leaseSpec obj) ''renewTime'' = Some (JStr rt)" and "rt \<noteq> []" and "laParse api rt = Some t"
  shows "leaseHolderRenew api obj = (h, t, True)"
  using assms by (simp add: leaseHolderRenew_def Let_def)

lemma claimSpec_map [simp]:
  "map_of (claimSpec api now t e) ''holderIdentity'' = Some (JStr (elIdentity e))"
  "map_of (claimSpec api now t e) ''renewTime'' = Some (JStr (laFormat api now))"
  by (simp_all add: claimSpec_def)

end
