(* ===== verification/Lease_System.thy ===== *)
theory Lease_System
  imports Leader_Election
begin

text \<open>
  The pods of the reconciler and the lease they share, as a transition system over the code's own
  evaluation: one pod evaluates, one stops and releases, or time passes. An evaluation is a read, a
  plan, a write that the apiserver may refuse or may take while the answer is lost, and takes up
  to the operation timeout. Under timely evaluations at most one pod drives: the system refines a
  register that holds one leader. What overlapping evaluations can do is shown as well.
\<close>

subsection \<open>What the client relies on\<close>

definition lastLeaseTime :: instant where   \<comment> \<open>year 10000\<close>
  "lastLeaseTime = 253402300800 * second"

text \<open>\<open>Format\<close> with six fractional digits loses the nanoseconds; a merge patch with scalar fields sets
  them, and deletes those that are \<open>null\<close> (RFC 7386).\<close>

definition timesReadBack :: "leaseApi \<Rightarrow> bool" where
  "timesReadBack api \<longleftrightarrow> (\<forall>t. 0 \<le> t \<and> t < lastLeaseTime \<longrightarrow>
     laFormat api t \<noteq> [] \<and> laParse api (laFormat api t) = Some (t - t mod 1000))"

definition mergesFields :: "leaseApi \<Rightarrow> bool" where
  "mergesFields api \<longleftrightarrow> (\<forall>obj kvs k. distinct (map fst kvs) \<and> list_all (\<lambda>(k, v). \<not> is_JObj v) kvs \<longrightarrow>
     map_of (leaseSpec (laMerge api obj (JObj [(''spec'', JObj kvs)]))) k =
       (case map_of kvs k of None \<Rightarrow> map_of (leaseSpec obj) k | Some v \<Rightarrow> if v = JNull then None else Some v))"

definition lawfulApi :: "leaseApi \<Rightarrow> bool" where
  "lawfulApi api \<longleftrightarrow> timesReadBack api \<and> mergesFields api"

subsection \<open>The system\<close>

record leaseSystem =
  syLease :: "json option"
  syElector :: "nat \<Rightarrow> elector"
  syNow :: instant

definition readLease :: "leaseSystem \<Rightarrow> getAnswer" where
  "readLease s = (case syLease s of None \<Rightarrow> Got None 404 | Some obj \<Rightarrow> Got (Some obj) 200)"

text \<open>What the write does to the stored lease when the apiserver takes it.\<close>

definition writeLease :: "leaseApi \<Rightarrow> json option \<Rightarrow> leasePlan \<Rightarrow> json option \<Rightarrow> json option" where
  "writeLease api body p lease = (case p of
     CreateLease \<Rightarrow> (case lease of None \<Rightarrow> body | Some obj \<Rightarrow> Some obj)
   | PatchLease _ \<Rightarrow> (case (lease, body) of
         (Some obj, Some patch) \<Rightarrow> Some (laMerge api obj patch)
       | _ \<Rightarrow> lease)
   | _ \<Rightarrow> lease)"

text \<open>No leader goes longer than \<open>gap\<close> without finishing an evaluation.\<close>

definition timely :: "int \<Rightarrow> leaseSystem \<Rightarrow> bool" where
  "timely gap s \<longleftrightarrow> 0 \<le> syNow s \<and> syNow s < lastLeaseTime \<and>
     (\<forall>k. elLeader (syElector s k) \<longrightarrow> syNow s \<le> elLastEval (syElector s k) + gap)"

inductive lease_step :: "leaseApi \<Rightarrow> int \<Rightarrow> leaseSystem \<Rightarrow> leaseSystem \<Rightarrow> bool" for api gap where
  evaluate: "lease_step api gap s s'"
    if "e = syElector s i" "got = readLease s \<or> got = GetFailed err"
      "p = planLease api (rdJudge r) e got" "body = leaseBody api (rdSpec r) e p"
      "lease' = syLease s \<and> \<not> accepted ans \<or> lease' = writeLease api body p (syLease s)"
      "syNow s \<le> rdJudge r" "rdJudge r \<le> rdEnd r" "syNow s \<le> rdSpec r" "rdSpec r \<le> rdEnd r"
      "rdEnd r \<le> syNow s + elOpTimeout e"
      "s' = \<lparr>syLease = lease', syElector = (syElector s)(i := finishLease r p ans e), syNow = rdEnd r\<rparr>"
      "timely gap s'"
| stop: "lease_step api gap s s'"
    if "elLeader (syElector s i)"
      "lease' = syLease s \<or> lease' = writeLease api (Some releaseBody) (PatchLease False) (syLease s)"
      "s' = s\<lparr>syLease := lease', syElector := (syElector s)(i := releaseElector (syElector s i))\<rparr>"
| wait: "lease_step api gap s s'"
    if "0 \<le> d" "s' = s\<lparr>syNow := syNow s + d\<rparr>" "timely gap s'"

definition freshSystem :: "string \<Rightarrow> string \<Rightarrow> (nat \<Rightarrow> string) \<Rightarrow> leaseSystem \<Rightarrow> bool" where
  "freshSystem ns name ids s \<longleftrightarrow> timely 0 s \<and> (\<forall>i. \<exists>t. syElector s i = newLeaderElector ns name (ids i) t)"

inductive lease_reaches :: "leaseApi \<Rightarrow> int \<Rightarrow> string \<Rightarrow> string \<Rightarrow> (nat \<Rightarrow> string) \<Rightarrow> leaseSystem \<Rightarrow> bool"
  for api gap ns name ids where
  start: "freshSystem ns name ids s \<Longrightarrow> lease_reaches api gap ns name ids s"
| step: "lease_reaches api gap ns name ids s \<Longrightarrow> lease_step api gap s s' \<Longrightarrow> lease_reaches api gap ns name ids s'"

subsection \<open>The invariant\<close>

definition configured :: "(nat \<Rightarrow> string) \<Rightarrow> leaseSystem \<Rightarrow> bool" where
  "configured ids s \<longleftrightarrow> (\<forall>k. elIdentity (syElector s k) = ids k \<and>
     elLeaseDuration (syElector s k) = 30 * second \<and> elOpTimeout (syElector s k) = 5 * second)"

text \<open>A leader's own claim is on the lease, no older than its last evaluation allows.\<close>

definition holdsFresh :: "leaseApi \<Rightarrow> (nat \<Rightarrow> string) \<Rightarrow> leaseSystem \<Rightarrow> nat \<Rightarrow> bool" where
  "holdsFresh api ids s k \<longleftrightarrow> (\<exists>obj t. syLease s = Some obj \<and> leaseHolderRenew api obj = (ids k, t, True) \<and>
     elLastEval (syElector s k) \<le> t + 5 * second + 1000 \<and> - 1000 < t)"

definition leaseInv :: "leaseApi \<Rightarrow> (nat \<Rightarrow> string) \<Rightarrow> leaseSystem \<Rightarrow> bool" where
  "leaseInv api ids s \<longleftrightarrow> configured ids s \<and>
     (\<forall>k. elLeader (syElector s k) \<longrightarrow> holdsFresh api ids s k)"

lemma releaseElector_sel [simp]:
  "\<not> elLeader (releaseElector e)" "elIdentity (releaseElector e) = elIdentity e"
  "elLeaseDuration (releaseElector e) = elLeaseDuration e" "elOpTimeout (releaseElector e) = elOpTimeout e"
  by (simp_all add: releaseElector_def)

lemma configured_step: "lease_step api gap s s' \<Longrightarrow> configured ids s \<Longrightarrow> configured ids s'"
  by (induction rule: lease_step.induct) (auto simp: configured_def finishLease_sel)

text \<open>Nobody plans a write against a live peer's lease.\<close>

lemma live_lease_stands:
  assumes "leaseHolderRenew api obj = (h, t, True)" "h \<noteq> []" "h \<noteq> elIdentity e" "t \<noteq> zeroInstant"
    and "now - t \<le> elLeaseDuration e" "0 \<le> elLeaseDuration e"
  shows "planLease api now e (Got (Some obj) 200) = StandBack"
proof -
  have "time_sub now t \<le> elLeaseDuration e"
    using assms(5,6) by (auto simp: time_sub_def sat_int64_def min_int64_def max_int64_def)
  then show ?thesis using assms(1-4) by (simp add: planLease_def)
qed

text \<open>A claim that was taken is read back.\<close>

lemma claim_read_back:
  assumes api: "lawfulApi api" and t: "0 \<le> t" "t < lastLeaseTime"
    and p: "p = CreateLease \<and> lease = None \<or> (\<exists>b. p = PatchLease b) \<and> lease \<noteq> None"
  shows "\<exists>obj. writeLease api (leaseBody api t e p) p lease = Some obj \<and>
    leaseHolderRenew api obj = (elIdentity e, t - t mod 1000, True)"
proof -
  note time = api [unfolded lawfulApi_def timesReadBack_def, THEN conjunct1, rule_format, OF conjI [OF t]]
  from p show ?thesis
  proof
    assume "p = CreateLease \<and> lease = None"
    then show ?thesis
      using time by (auto simp: writeLease_def leaseBody_def leaseSpec_def intro!: leaseHolderRenew_spec)
  next
    assume "(\<exists>b. p = PatchLease b) \<and> lease \<noteq> None"
    then obtain b obj where b: "p = PatchLease b" "lease = Some obj" by auto
    have "distinct (map fst (claimSpec api t b e)) \<and> list_all (\<lambda>(k, v). \<not> is_JObj v) (claimSpec api t b e)"
      by (simp add: claimSpec_def)
    with api have "map_of (leaseSpec (laMerge api obj (JObj [(''spec'', JObj (claimSpec api t b e))]))) k =
        (case map_of (claimSpec api t b e) k of None \<Rightarrow> map_of (leaseSpec obj) k | Some v \<Rightarrow> if v = JNull then None else Some v)" for k
      unfolding lawfulApi_def mergesFields_def by blast
    then show ?thesis
      using time b by (auto simp: writeLease_def leaseBody_def intro!: leaseHolderRenew_spec)
  qed
qed

lemma writeLease_quiet: "p = StandBack \<or> (\<exists>err. p = ReadFailed err) \<Longrightarrow> writeLease api body p lease = lease"
  by (auto simp: writeLease_def)

text \<open>A timely peer's claim is live for everybody else.\<close>

lemma holdsFresh_stands:
  assumes inv: "leaseInv api ids s" and k: "elLeader (syElector s k)" and ids: "ids i \<noteq> ids k" "ids k \<noteq> []"
    and now: "now \<le> elLastEval (syElector s k) + gap" and gap: "gap + 5 * second + 1000 \<le> 30 * second"
    and got: "got = readLease s \<or> got = GetFailed err"
  shows "planLease api now (syElector s i) got = StandBack \<or> (\<exists>err. planLease api now (syElector s i) got = ReadFailed err)"
  using got
proof
  assume g: "got = readLease s"
  from inv k obtain obj t where h: "syLease s = Some obj" "leaseHolderRenew api obj = (ids k, t, True)"
    "elLastEval (syElector s k) \<le> t + 5 * second + 1000" "- 1000 < t"
    unfolding leaseInv_def holdsFresh_def by blast
  have e: "elIdentity (syElector s i) = ids i" "elLeaseDuration (syElector s i) = 30 * second"
    using inv by (auto simp: leaseInv_def configured_def)
  have "planLease api now (syElector s i) (Got (Some obj) 200) = StandBack"
    using h(2,3,4) ids e now gap by (intro live_lease_stands [of api obj "ids k" t]) (auto simp: zeroInstant_def second_def)
  then show ?thesis using g h(1) by (simp add: readLease_def)
qed (simp add: planLease_def)

lemma evaluate_keeps:
  assumes inv: "leaseInv api ids s" and api: "lawfulApi api" and ids: "inj ids" "\<forall>k. ids k \<noteq> []"
    and gap: "gap + 5 * second + 1000 \<le> 30 * second"
    and e: "e = syElector s i" and got: "got = readLease s \<or> got = GetFailed err"
    and p: "p = planLease api (rdJudge r) e got" and body: "body = leaseBody api (rdSpec r) e p"
    and lease': "lease' = syLease s \<and> \<not> accepted ans \<or> lease' = writeLease api body p (syLease s)"
    and clock: "rdJudge r \<le> rdEnd r" "syNow s \<le> rdSpec r" "rdSpec r \<le> rdEnd r" "rdEnd r \<le> syNow s + elOpTimeout e"
    and s': "s' = \<lparr>syLease = lease', syElector = (syElector s)(i := finishLease r p ans e), syNow = rdEnd r\<rparr>"
    and timely: "timely gap s'" and now: "0 \<le> syNow s" and k: "elLeader (syElector s' k)"
  shows "holdsFresh api ids s' k"
proof (cases "k = i")
  case False
  with k s' have lead: "elLeader (syElector s k)" and same: "syElector s' k = syElector s k" by auto
  have "rdJudge r \<le> elLastEval (syElector s k) + gap"
  proof -
    have "syNow s' \<le> elLastEval (syElector s' k) + gap" using timely k unfolding timely_def by blast
    then show ?thesis using clock(1) same s' by simp
  qed
  moreover have "ids i \<noteq> ids k" using False ids(1) by (auto simp: inj_def)
  ultimately have "p = StandBack \<or> (\<exists>err. p = ReadFailed err)"
    using holdsFresh_stands [OF inv lead _ _ _ gap got] ids(2) p e by blast
  then have "lease' = syLease s" using lease' writeLease_quiet by metis
  then show ?thesis using inv lead s' same by (auto simp: leaseInv_def holdsFresh_def)
next
  case True
  then have act: "p = CreateLease \<or> (\<exists>t. p = PatchLease t)" and ok: "accepted ans"
    using k s' by (auto simp: finishLease_sel)
  have conf: "elIdentity e = ids i" "elOpTimeout e = 5 * second" using inv e by (auto simp: leaseInv_def configured_def)
  have read: "got = readLease s" using act got p by (auto simp: planLease_def)
  have "p = CreateLease \<and> syLease s = None \<or> (\<exists>b. p = PatchLease b) \<and> syLease s \<noteq> None"
    using act p read by (auto simp: readLease_def planLease_def split: option.splits prod.splits if_splits)
  moreover have t: "0 \<le> rdSpec r" "rdSpec r < lastLeaseTime" using timely clock now s' by (auto simp: timely_def)
  ultimately obtain obj where "lease' = Some obj" "leaseHolderRenew api obj = (ids i, rdSpec r - rdSpec r mod 1000, True)"
    using claim_read_back [OF api t, of p "syLease s" e] lease' ok body conf by auto
  moreover have "rdSpec r mod 1000 < 1000" by simp
  then have "rdEnd r \<le> rdSpec r - rdSpec r mod 1000 + 5 * second + 1000" "- 1000 < rdSpec r - rdSpec r mod 1000"
    using clock conf(2) t(1) by linarith+
  ultimately show ?thesis using True s' by (auto simp: holdsFresh_def finishLease_sel)
qed

lemma leaseInv_single:
  "leaseInv api ids s \<Longrightarrow> inj ids \<Longrightarrow> elLeader (syElector s i) \<Longrightarrow> elLeader (syElector s j) \<Longrightarrow> i = j"
  unfolding leaseInv_def holdsFresh_def by (metis fst_conv injD option.inject)

lemma leaseInv_step:
  assumes step: "lease_step api gap s s'" and inv: "leaseInv api ids s" and now: "0 \<le> syNow s"
    and api: "lawfulApi api" and ids: "inj ids" "\<forall>k. ids k \<noteq> []" and gap: "gap + 5 * second + 1000 \<le> 30 * second"
  shows "leaseInv api ids s'"
proof -
  have conf: "configured ids s'" using configured_step [OF step] inv by (simp add: leaseInv_def)
  from step have "elLeader (syElector s' k) \<Longrightarrow> holdsFresh api ids s' k" for k
  proof cases
    case (evaluate e i got err p r body lease' ans)
    then show "elLeader (syElector s' k) \<Longrightarrow> holdsFresh api ids s' k"
      using evaluate_keeps [OF inv api ids gap evaluate(1-5) evaluate(7) evaluate(8-12) now] by blast
  next
    case (stop i lease')
    assume k: "elLeader (syElector s' k)"
    then have "k \<noteq> i" "elLeader (syElector s k)" using stop by (auto split: if_splits)
    with leaseInv_single [OF inv ids(1) _ stop(1)] show "holdsFresh api ids s' k" by blast
  next
    case (wait d)
    then show "elLeader (syElector s' k) \<Longrightarrow> holdsFresh api ids s' k"
      using inv by (auto simp: leaseInv_def holdsFresh_def)
  qed
  with conf show ?thesis by (simp add: leaseInv_def)
qed

lemma lease_step_now: "lease_step api gap s s' \<Longrightarrow> 0 \<le> syNow s \<Longrightarrow> 0 \<le> syNow s'"
  by (induction rule: lease_step.induct) auto

lemma lease_reaches_inv:
  assumes "lease_reaches api gap ns name ids s" and "lawfulApi api" "inj ids" "\<forall>k. ids k \<noteq> []"
    and "gap + 5 * second + 1000 \<le> 30 * second"
  shows "leaseInv api ids s \<and> 0 \<le> syNow s"
  using assms(1)
proof induction
  case (start s)
  have "elLeader (syElector s k) = False \<and> elIdentity (syElector s k) = ids k \<and>
      elLeaseDuration (syElector s k) = 30 * second \<and> elOpTimeout (syElector s k) = 5 * second" for k
  proof -
    obtain t where "syElector s k = newLeaderElector ns name (ids k) t"
      using start unfolding freshSystem_def by blast
    then show ?thesis by (simp add: newLeaderElector_def)
  qed
  then show ?case using start by (simp add: leaseInv_def configured_def freshSystem_def timely_def)
next
  case (step s s')
  then show ?case using leaseInv_step assms(2-5) lease_step_now by blast
qed

inductive_cases lease_stepE: "lease_step api gap s s'"

text \<open>The specification: a register that holds one leader or none.\<close>

inductive register_step :: "nat option \<Rightarrow> nat option \<Rightarrow> bool" where
  elect: "register_step None (Some i)"
| resign: "register_step (Some i) None"
| idle: "register_step r r"

definition leads :: "leaseSystem \<Rightarrow> nat option \<Rightarrow> bool" where
  "leads s r \<longleftrightarrow> (\<forall>i. elLeader (syElector s i) \<longleftrightarrow> r = Some i)"

lemma leads_exists:
  assumes "\<And>i j. elLeader (syElector s i) \<Longrightarrow> elLeader (syElector s j) \<Longrightarrow> i = j"
  shows "\<exists>r. leads s r"
proof (cases "\<exists>i. elLeader (syElector s i)")
  case True
  then obtain i where "elLeader (syElector s i)" by blast
  then have "leads s (Some i)" using assms by (auto simp: leads_def)
  then show ?thesis by blast
qed (auto simp: leads_def)

lemma lease_step_one: "lease_step api gap s s' \<Longrightarrow> \<exists>i. \<forall>k. k \<noteq> i \<longrightarrow> elLeader (syElector s' k) = elLeader (syElector s k)"
  by (erule lease_stepE) auto

lemma register_step_one:
  assumes one: "\<forall>k. k \<noteq> i \<longrightarrow> elLeader (syElector s' k) = elLeader (syElector s k)" and r: "leads s r" "leads s' r'"
  shows "register_step r r'"
proof (cases "r = r'")
  case False
  have "r = None \<or> r = Some i" "r' = None \<or> r' = Some i" if "r \<noteq> r'"
    using that one r unfolding leads_def by (metis not_None_eq option.inject)+
  with False show ?thesis by (auto intro: register_step.intros)
qed (simp add: register_step.idle)

subsection \<open>Instances for the witnesses\<close>

definition flatMerge :: "json \<Rightarrow> json \<Rightarrow> json" where
  "flatMerge obj patch =
     (let kvs = leaseSpec patch
      in JObj [(''spec'', JObj (filter (\<lambda>(k, v). v \<noteq> JNull) kvs
           @ filter (\<lambda>(k, v). k \<notin> fst ` set kvs) (leaseSpec obj)))])"

definition demoApi :: leaseApi where
  "demoApi = \<lparr>laUnmarshal = (\<lambda>b. Inl None), laParse = (\<lambda>s. Some (int (dec_val s) * 1000)),
     laFormat = (\<lambda>t. nat_dec (nat (t div 1000))), laMerge = flatMerge\<rparr>"

lemma map_of_filter_key: "map_of (filter (\<lambda>(k, v). k \<notin> A) m) k = (if k \<in> A then None else map_of m k)"
  by (induction m) auto

lemma map_of_nonnull:
  "distinct (map fst kvs) \<Longrightarrow> map_of (filter (\<lambda>(k, v). v \<noteq> JNull) kvs) k =
     (case map_of kvs k of None \<Rightarrow> None | Some v \<Rightarrow> if v = JNull then None else Some v)"
proof (induction kvs)
  case (Cons p kvs)
  have "map_of kvs (fst p) = None" using Cons.prems by (simp add: map_of_eq_None_iff)
  with Cons show ?case by (cases p) (auto split: option.splits)
qed simp

lemma flatMerge_fields: "mergesFields \<lparr>laUnmarshal = u, laParse = p, laFormat = f, laMerge = flatMerge\<rparr>"
  unfolding mergesFields_def
proof (intro allI impI)
  fix obj :: json and kvs :: "(string \<times> json) list" and k
  assume d: "distinct (map fst kvs) \<and> list_all (\<lambda>(k, v). \<not> is_JObj v) kvs"
  have "leaseSpec (JObj [(''spec'', JObj m)]) = m" for m by (simp add: leaseSpec_def)
  moreover have "k \<in> fst ` set kvs \<longleftrightarrow> map_of kvs k \<noteq> None" by (simp add: map_of_eq_None_iff)
  ultimately show "map_of (leaseSpec (laMerge \<lparr>laUnmarshal = u, laParse = p, laFormat = f, laMerge = flatMerge\<rparr> obj (JObj [(''spec'', JObj kvs)]))) k =
      (case map_of kvs k of None \<Rightarrow> map_of (leaseSpec obj) k | Some v \<Rightarrow> if v = JNull then None else Some v)"
    using d by (auto simp: flatMerge_def Let_def map_of_filter_key map_of_nonnull map_add_def split: option.splits)
qed

lemma lawful_demo: "lawfulApi demoApi"
proof -
  have "int (nat (t div 1000)) * 1000 = t - t mod 1000" if "0 \<le> t" for t :: int
    using that by (simp add: minus_mod_eq_div_mult pos_imp_zdiv_nonneg_iff)
  then have "timesReadBack demoApi"
    by (simp add: timesReadBack_def demoApi_def)
  then show ?thesis using flatMerge_fields by (simp add: lawfulApi_def demoApi_def)
qed

definition podName :: "nat \<Rightarrow> string" where
  "podName i = replicate (Suc i) CHR ''p''"

definition demoSystem :: leaseSystem where
  "demoSystem = \<lparr>syLease = None, syElector = (\<lambda>i. newLeaderElector ''llz'' ''leader'' (podName i) 0), syNow = 1000\<rparr>"

lemma podName_facts: "inj podName" "\<forall>k. podName k \<noteq> []"
  by (auto simp: podName_def inj_def)

lemma demo_reaches: "lease_reaches demoApi gap ''llz'' ''leader'' podName demoSystem"
  by (rule lease_reaches.start)
    (auto simp: freshSystem_def demoSystem_def timely_def newLeaderElector_def lastLeaseTime_def second_def)

subsection \<open>Properties\<close>



text \<open>when an evaluation ends with the lead. Exactly when its write was accepted, and the read
  was answered and showed no lease, or one this pod holds, or one whose renewal could be read and
  which is released, was never renewed or has expired. So an API error, an unreadable renewal or a
  live peer end the lead. Every evaluation stamps its end, and the gated lanes are kicked exactly
  when the lead is new.\<close>

theorem tryAcquire_leader_iff:
  "(elLeader (tryAcquire api r got ans e) \<longleftrightarrow> accepted ans \<and>
     (case getJSON api (leasePath e) got of
        GetFailed err \<Rightarrow> False
      | Got None status \<Rightarrow> True
      | Got (Some obj) status \<Rightarrow>
          (case leaseHolderRenew api obj of (holder, renew, renewOK) \<Rightarrow>
             holder = elIdentity e \<or> renewOK \<and>
               (holder = [] \<or> renew = zeroInstant \<or> time_sub (rdJudge r) renew > elLeaseDuration e))))
   \<and> elLastEval (tryAcquire api r got ans e) = rdEnd r
   \<and> elKicks (tryAcquire api r got ans e) =
       elKicks e + (if elLeader (tryAcquire api r got ans e) \<and> \<not> elLeader e then 1 else 0)"
proof -
  have "planLease api now e (getJSON api path got) = CreateLease \<or> (\<exists>t. planLease api now e (getJSON api path got) = PatchLease t)
    \<longleftrightarrow> (case getJSON api path got of
        GetFailed err \<Rightarrow> False
      | Got None status \<Rightarrow> True
      | Got (Some obj) status \<Rightarrow>
          (case leaseHolderRenew api obj of (holder, renew, renewOK) \<Rightarrow>
             holder = elIdentity e \<or> renewOK \<and>
               (holder = [] \<or> renew = zeroInstant \<or> time_sub now renew > elLeaseDuration e)))" for now path
    by (auto simp: planLease_def getJSON_def split: httpAnswer.splits sum.splits option.splits prod.splits if_splits)
  then show ?thesis by (simp add: tryAcquire_def finishLease_sel conj_commute)
qed

text \<open>C8: failover. The claim of a pod that stopped without releasing is respected for the lease's
  duration after its renewal and taken over by whoever evaluates next after it; a released claim is
  taken over at once, at any time.\<close>

theorem stopped_holder_replaced:
  assumes "leaseHolderRenew api obj = (h, t, True)" and "h \<noteq> []" and "h \<noteq> elIdentity e" and "- 1000 < t"
    and "elLeaseDuration e = 30 * second" and "lawfulApi api"
  shows "(now - t \<le> 30 * second \<longrightarrow> planLease api now e (Got (Some obj) 200) = StandBack) \<and>
    (30 * second < now - t \<longrightarrow> planLease api now e (Got (Some obj) 200) = PatchLease True) \<and>
    (case writeLease api (Some releaseBody) (PatchLease False) (Some obj) of
       None \<Rightarrow> False
     | Some obj' \<Rightarrow> elIdentity e \<noteq> [] \<longrightarrow> planLease api now e (Got (Some obj') 200) = PatchLease True)"
proof (intro conjI impI)
  have z: "t \<noteq> zeroInstant" using assms(4) by (simp add: zeroInstant_def second_def)
  show "now - t \<le> 30 * second \<Longrightarrow> planLease api now e (Got (Some obj) 200) = StandBack"
    using assms z by (intro live_lease_stands) (auto simp: second_def)
  assume "30 * second < now - t"
  then have "30 * second < time_sub now t"
    by (auto simp: time_sub_def sat_int64_def min_int64_def max_int64_def second_def)
  then show "planLease api now e (Got (Some obj) 200) = PatchLease True"
    using assms by (simp add: planLease_def)
next
  let ?obj = "laMerge api obj releaseBody"
  have m: "map_of (leaseSpec ?obj) k = (if k = ''holderIdentity'' then None else map_of (leaseSpec obj) k)" for k
    using assms(6) unfolding lawfulApi_def mergesFields_def releaseBody_def by simp
  then have "leaseHolderRenew api ?obj = ([], t, True)"
    using assms(1) by (auto simp: leaseHolderRenew_def Let_def split: option.splits json.splits if_splits)
  then show "case writeLease api (Some releaseBody) (PatchLease False) (Some obj) of
       None \<Rightarrow> False
     | Some obj' \<Rightarrow> elIdentity e \<noteq> [] \<longrightarrow> planLease api now e (Got (Some obj') 200) = PatchLease True"
    by (simp add: writeLease_def planLease_def)
qed

definition heldByPeer :: json where
  "heldByPeer = JObj [(''spec'', JObj [(''holderIdentity'', JStr (podName 1)), (''renewTime'', JStr ''0'')])]"

theorem stopped_holder_replaced_witness:
  "planLease demoApi (29 * second) (newLeaderElector ''llz'' ''leader'' (podName 0) 0) (Got (Some heldByPeer) 200) = StandBack \<and>
   planLease demoApi (31 * second) (newLeaderElector ''llz'' ''leader'' (podName 0) 0) (Got (Some heldByPeer) 200) = PatchLease True"
proof -
  let ?e = "newLeaderElector ''llz'' ''leader'' (podName 0) 0"
  have r: "leaseHolderRenew demoApi heldByPeer = (podName 1, 0, True)" by code_simp
  have e: "podName 1 \<noteq> elIdentity ?e" "elLeaseDuration ?e = 30 * second"
    by (simp_all add: newLeaderElector_def podName_def)
  note th = stopped_holder_replaced [OF r _ e(1) _ e(2) lawful_demo]
  show ?thesis using th [of "29 * second"] th [of "31 * second"] podName_facts(2) by (simp add: second_def)
qed

text \<open>what the protocol does not exclude. The write carries no version of what was read, so two
  pods that both read an expired lease before either writes both end with the lead; the lease then
  names the later one, and the earlier one steps down only at its next evaluation, when it reads
  the other's claim within the lease's duration.\<close>

theorem overlapping_takeovers_both_lead:
  assumes "planLease api (rdJudge r1) e1 (Got (Some obj) 200) = PatchLease True"
    and "planLease api (rdJudge r2) e2 (Got (Some obj) 200) = PatchLease True"
    and "accepted a1" and "accepted a2" and "lawfulApi api" and "0 \<le> rdSpec r2" and "rdSpec r2 < lastLeaseTime"
    and "elIdentity e1 \<noteq> elIdentity e2" and "elIdentity e2 \<noteq> []" and "elLeaseDuration e1 = 30 * second"
    and "later - rdSpec r2 \<le> 29 * second"
  shows "elLeader (finishLease r1 (PatchLease True) a1 e1) \<and> elLeader (finishLease r2 (PatchLease True) a2 e2) \<and>
    (case writeLease api (leaseBody api (rdSpec r1) e1 (PatchLease True)) (PatchLease True) (Some obj) of
       None \<Rightarrow> False
     | Some obj1 \<Rightarrow>
         (case writeLease api (leaseBody api (rdSpec r2) e2 (PatchLease True)) (PatchLease True) (Some obj1) of
            None \<Rightarrow> False
          | Some obj2 \<Rightarrow> fst (leaseHolderRenew api obj2) = elIdentity e2 \<and>
              planLease api later (finishLease r1 (PatchLease True) a1 e1) (Got (Some obj2) 200) = StandBack))"
proof -
  define obj1 where "obj1 = laMerge api obj (JObj [(''spec'', JObj (claimSpec api (rdSpec r1) True e1))])"
  have w1: "writeLease api (leaseBody api (rdSpec r1) e1 (PatchLease True)) (PatchLease True) (Some obj) = Some obj1"
    by (simp add: writeLease_def leaseBody_def obj1_def)
  obtain obj2 where w2: "writeLease api (leaseBody api (rdSpec r2) e2 (PatchLease True)) (PatchLease True) (Some obj1) = Some obj2"
    and h2: "leaseHolderRenew api obj2 = (elIdentity e2, rdSpec r2 - rdSpec r2 mod 1000, True)"
    using claim_read_back [OF assms(5,6,7), of "PatchLease True" "Some obj1" e2] by auto
  have "rdSpec r2 mod 1000 < 1000" by simp
  then have "planLease api later (finishLease r1 (PatchLease True) a1 e1) (Got (Some obj2) 200) = StandBack"
    using assms(6,8-11)
    by (intro live_lease_stands [OF h2]) (auto simp: finishLease_sel zeroInstant_def second_def)
  then show ?thesis using assms(3,4) w1 w2 h2 by (auto simp: finishLease_sel)
qed

theorem overlapping_takeovers_both_lead_witness:
  "\<exists>r e1 e2. elIdentity e1 \<noteq> elIdentity e2 \<and>
     elLeader (finishLease r (PatchLease True) (HttpAnswer [] 200) e1) \<and>
     elLeader (finishLease r (PatchLease True) (HttpAnswer [] 200) e2)"
proof -
  define r where "r = \<lparr>rdJudge = 31 * second, rdSpec = 31 * second, rdLog = 31 * second, rdEnd = 31 * second\<rparr>"
  define e1 where "e1 = newLeaderElector ''llz'' ''leader'' (podName 0) 0"
  define e2 where "e2 = newLeaderElector ''llz'' ''leader'' (podName 2) 0"
  have "planLease demoApi (rdJudge r) e1 (Got (Some heldByPeer) 200) = PatchLease True"
    "planLease demoApi (rdJudge r) e2 (Got (Some heldByPeer) 200) = PatchLease True"
    unfolding r_def e1_def e2_def by code_simp+
  moreover have "elIdentity e1 \<noteq> elIdentity e2" "elIdentity e2 \<noteq> []" "elLeaseDuration e1 = 30 * second"
    by (simp_all add: e1_def e2_def newLeaderElector_def podName_def numeral_eq_Suc)
  moreover have "0 \<le> rdSpec r" "rdSpec r < lastLeaseTime" "31 * second - rdSpec r \<le> 29 * second"
    by (simp_all add: r_def lastLeaseTime_def second_def)
  moreover have "accepted (HttpAnswer [] 200)" by (simp add: accepted_def)
  ultimately show ?thesis
    using overlapping_takeovers_both_lead [OF _ _ _ _ lawful_demo] by blast
qed

end
