(* ===== verification/Metrics.thy ===== *)
theory Metrics
  imports Overlay_Fields
begin

text \<open>
  \<open>internal/shared/metrics/metrics.go\<close>: the registry of gauges and counters and its text form. A
  family is keyed by the rendered label set, so the lemmas show that rendering keeps label sets
  apart. Values are whole numbers here; labels are association lists in any
  order, as the code sorts them. Writing the text is left out.
\<close>

subsection \<open>Rendering labels\<close>

text \<open>\<open>strings.ReplaceAll\<close> of a single character.\<close>

definition replaceChar :: "char \<Rightarrow> string \<Rightarrow> string \<Rightarrow> string" where
  "replaceChar c r s = concat (map (\<lambda>x. if x = c then r else [x]) s)"

definition escapeLabelValue :: "string \<Rightarrow> string" where
  "escapeLabelValue v =
     (let v = replaceChar CHR 0x5C [CHR 0x5C, CHR 0x5C] v;
          v = replaceChar CHR 0x0A [CHR 0x5C, CHR ''n''] v;
          v = replaceChar CHR 0x22 [CHR 0x5C, CHR 0x22] v
      in v)"

definition escapeHelp :: "string \<Rightarrow> string" where
  "escapeHelp h =
     (let h = replaceChar CHR 0x5C [CHR 0x5C, CHR 0x5C] h;
          h = replaceChar CHR 0x0A [CHR 0x5C, CHR ''n''] h
      in h)"

definition renderLabel :: "string \<times> string \<Rightarrow> string" where
  "renderLabel kv = fst kv @ ''='' @ [CHR 0x22] @ escapeLabelValue (snd kv) @ [CHR 0x22]"

definition renderLabels :: "(string \<times> string) list \<Rightarrow> string" where
  "renderLabels labels =
     (if length labels = 0 then []
      else ''{'' @ join '','' (map renderLabel (sort_key fst labels)) @ ''}'')"

subsection \<open>The registry\<close>

record metricFamily =
  mfHelp :: string
  mfType :: string
  mfSamples :: "string \<rightharpoonup> int"

type_synonym registry = "string \<rightharpoonup> metricFamily"

definition newRegistry :: registry where
  "newRegistry = Map.empty"

definition familyOf :: "string \<Rightarrow> string \<Rightarrow> string \<Rightarrow> registry \<Rightarrow> metricFamily" where
  "familyOf name help typ r =
     (let f = (case r name of None \<Rightarrow> \<lparr>mfHelp = [], mfType = typ, mfSamples = Map.empty\<rparr> | Some f \<Rightarrow> f)
      in if help \<noteq> [] then f\<lparr>mfHelp := help\<rparr> else f)"

definition setGauge :: "string \<Rightarrow> string \<Rightarrow> (string \<times> string) list \<Rightarrow> int \<Rightarrow> registry \<Rightarrow> registry" where
  "setGauge name help labels v r =
     (let f = familyOf name help ''gauge'' r
      in r(name \<mapsto> f\<lparr>mfSamples := (mfSamples f)(renderLabels labels \<mapsto> v)\<rparr>))"

definition setGaugeFamily ::
  "string \<Rightarrow> string \<Rightarrow> ((string \<times> string) list \<times> int) list \<Rightarrow> registry \<Rightarrow> registry" where
  "setGaugeFamily name help samples r =
     (let f = familyOf name help ''gauge'' r;
          fresh = fold (\<lambda>(labels, v) m. m(renderLabels labels \<mapsto> v)) samples Map.empty
      in r(name \<mapsto> f\<lparr>mfSamples := fresh\<rparr>))"

definition addCounter :: "string \<Rightarrow> string \<Rightarrow> (string \<times> string) list \<Rightarrow> int \<Rightarrow> registry \<Rightarrow> registry" where
  "addCounter name help labels delta r =
     (let f = familyOf name help ''counter'' r;
          key = renderLabels labels;
          v = (case mfSamples f key of None \<Rightarrow> 0 | Some v \<Rightarrow> v)
      in r(name \<mapsto> f\<lparr>mfSamples := (mfSamples f)(key \<mapsto> v + delta)\<rparr>))"

text \<open>The value of one series.\<close>

definition series :: "registry \<Rightarrow> string \<Rightarrow> (string \<times> string) list \<Rightarrow> int option" where
  "series r name labels = (case r name of None \<Rightarrow> None | Some f \<Rightarrow> mfSamples f (renderLabels labels))"

subsection \<open>Rendering keeps label sets apart\<close>

text \<open>The three replacements are one pass.\<close>

fun escapeChar :: "char \<Rightarrow> string" where
  "escapeChar c =
     (if c = CHR 0x5C then [CHR 0x5C, CHR 0x5C]
      else if c = CHR 0x0A then [CHR 0x5C, CHR ''n'']
      else if c = CHR 0x22 then [CHR 0x5C, CHR 0x22]
      else [c])"

lemma replaceChar_append: "replaceChar c r (s @ t) = replaceChar c r s @ replaceChar c r t"
  by (simp add: replaceChar_def)

lemma escapeLabelValue_Nil [simp]: "escapeLabelValue [] = []"
  by (simp add: escapeLabelValue_def replaceChar_def)

lemma escapeLabelValue_Cons: "escapeLabelValue (c # v) = escapeChar c @ escapeLabelValue v"
  by (simp add: escapeLabelValue_def replaceChar_def)

declare escapeChar.simps [simp del]

lemma escapeChar_prefix: "escapeChar c @ s = escapeChar d @ t \<Longrightarrow> c = d \<and> s = t"
  by (simp add: escapeChar.simps split: if_splits)

lemma escapeChar_quote: "escapeChar c @ s \<noteq> CHR 0x22 # t"
  by (simp add: escapeChar.simps)

lemma escaped_ends:
  "escapeLabelValue v @ CHR 0x22 # s = escapeLabelValue w @ CHR 0x22 # t \<Longrightarrow> v = w \<and> s = t"
proof (induction v arbitrary: w)
  case Nil
  then show ?case
    using escapeChar_quote by (cases w) (simp_all add: escapeLabelValue_Cons, metis)
next
  case (Cons c v)
  show ?case
  proof (cases w)
    case Nil
    then show ?thesis using Cons.prems escapeChar_quote by (simp add: escapeLabelValue_Cons)
  next
    case w: (Cons d w')
    then have "escapeChar c @ (escapeLabelValue v @ CHR 0x22 # s) = escapeChar d @ (escapeLabelValue w' @ CHR 0x22 # t)"
      using Cons.prems by (simp add: escapeLabelValue_Cons)
    from escapeChar_prefix [OF this] Cons.IH w show ?thesis by blast
  qed
qed

definition plainKeys :: "(string \<times> string) list \<Rightarrow> bool" where
  "plainKeys labels \<longleftrightarrow> distinct (map fst labels) \<and> list_all (\<lambda>k. CHR ''='' \<notin> set k) (map fst labels)"

lemma renderLabel_ends:
  assumes "CHR ''='' \<notin> set (fst x)" "CHR ''='' \<notin> set (fst y)" "renderLabel x @ s = renderLabel y @ t"
  shows "x = y \<and> s = t"
proof -
  have "fst x @ CHR ''='' # CHR 0x22 # escapeLabelValue (snd x) @ CHR 0x22 # s =
      fst y @ CHR ''='' # CHR 0x22 # escapeLabelValue (snd y) @ CHR 0x22 # t"
    using assms(3) by (simp add: renderLabel_def)
  from key_ends [OF assms(1,2) this]
  have k: "fst x = fst y" and e: "escapeLabelValue (snd x) @ CHR 0x22 # s = escapeLabelValue (snd y) @ CHR 0x22 # t"
    by simp_all
  from escaped_ends [OF e] k show ?thesis by (simp add: prod_eq_iff)
qed

lemma join_render_inj:
  "list_all (\<lambda>x. CHR ''='' \<notin> set (fst x)) xs \<Longrightarrow> list_all (\<lambda>x. CHR ''='' \<notin> set (fst x)) ys \<Longrightarrow>
   xs \<noteq> [] \<Longrightarrow> ys \<noteq> [] \<Longrightarrow> join '','' (map renderLabel xs) @ ''}'' = join '','' (map renderLabel ys) @ ''}'' \<Longrightarrow> xs = ys"
proof (induction xs arbitrary: ys)
  case (Cons x xs)
  then obtain y ys' where ys: "ys = y # ys'" by (cases ys) auto
  define rest where "rest zs = (if zs = [] then ''}'' else '','' @ join '','' (map renderLabel zs) @ ''}'')" for zs
  have split: "join '','' (map renderLabel (z # zs)) @ ''}'' = renderLabel z @ rest zs" for z zs
    by (cases zs) (simp_all add: rest_def)
  have "x = y \<and> rest xs = rest ys'"
    using Cons.prems ys split [of x xs] split [of y ys'] by (intro renderLabel_ends) auto
  then show ?case using Cons.IH [of ys'] Cons.prems ys by (cases "xs = []"; cases "ys' = []") (auto simp: rest_def)
qed simp

lemma renderLabels_inj:
  assumes "plainKeys a" "plainKeys b"
  shows "renderLabels a = renderLabels b \<longleftrightarrow> set a = set b"
proof
  have all: "list_all (\<lambda>x. CHR ''='' \<notin> set (fst x)) (sort_key fst m)" if "plainKeys m" for m
    using that by (auto simp: plainKeys_def list_all_iff)
  have empty: "sort_key fst m = [] \<longleftrightarrow> m = []" for m :: "(string \<times> string) list"
    by (metis length_0_conv length_sort)
  assume "renderLabels a = renderLabels b"
  then have "a = [] \<and> b = [] \<or> a \<noteq> [] \<and> b \<noteq> [] \<and> sort_key fst a = sort_key fst b"
    using join_render_inj [OF all all, OF assms] by (cases "a = []"; cases "b = []") (auto simp: renderLabels_def empty)
  then show "set a = set b" by (metis set_sort)
next
  assume s: "set a = set b"
  have d: "distinct (map fst m) \<Longrightarrow> inj_on fst (set m)" for m :: "(string \<times> string) list"
    by (simp add: distinct_map)
  have "sort_key fst a = sort_key fst b"
    using assms s by (intro map_sorted_distinct_set_unique [of fst])
      (auto simp: plainKeys_def d distinct_map)
  moreover have "a = [] \<longleftrightarrow> b = []" using s by auto
  ultimately show "renderLabels a = renderLabels b" by (simp add: renderLabels_def)
qed

subsection \<open>The registry\<close>

lemma familyOf_samples:
  "mfSamples (familyOf name help typ r) = (case r name of None \<Rightarrow> Map.empty | Some f \<Rightarrow> mfSamples f)"
  by (simp add: familyOf_def Let_def split: option.split)

lemma series_setGauge_other: "name' \<noteq> name \<Longrightarrow> series (setGauge name help labels v r) name' b = series r name' b"
  by (simp add: series_def setGauge_def Let_def)

lemma series_setGaugeFamily_other:
  "name' \<noteq> name \<Longrightarrow> series (setGaugeFamily name help samples r) name' b = series r name' b"
  by (simp add: series_def setGaugeFamily_def Let_def)

lemma series_setGauge:
  "plainKeys a \<Longrightarrow> plainKeys b \<Longrightarrow>
     series (setGauge name help a v r) name b = (if set a = set b then Some v else series r name b)"
  by (auto simp: series_def setGauge_def Let_def renderLabels_inj familyOf_samples split: option.splits)

lemma fresh_samples:
  "\<forall>(l, v) \<in> set samples. plainKeys l \<Longrightarrow> plainKeys b \<Longrightarrow>
     fold (\<lambda>(labels, v) m. m(renderLabels labels \<mapsto> v)) samples m (renderLabels b) =
       (case find (\<lambda>(l, v). set l = set b) (rev samples) of None \<Rightarrow> m (renderLabels b) | Some (l, v) \<Rightarrow> Some v)"
proof (induction samples rule: rev_induct)
  case (snoc x xs)
  obtain l v where x: "x = (l, v)" by fastforce
  then have "renderLabels b = renderLabels l \<longleftrightarrow> set b = set l" using snoc.prems renderLabels_inj by auto
  then show ?case using snoc x by (cases "set l = set b") (auto simp: eq_commute)
qed simp

lemma series_setGaugeFamily:
  "\<forall>(l, v) \<in> set samples. plainKeys l \<Longrightarrow> plainKeys b \<Longrightarrow>
     series (setGaugeFamily name help samples r) name b = map_option snd (find (\<lambda>(l, v). set l = set b) (rev samples))"
  using fresh_samples [of samples b Map.empty]
  by (simp add: series_def setGaugeFamily_def Let_def split: option.splits prod.splits)

subsection \<open>Properties\<close>

text \<open>series never mix and never go stale within a family. Label sets with plain keys render to
  the same key only when they are the same set, whatever their values contain, so setting a gauge
  changes exactly its own series; replacing a family leaves exactly the new samples, the last of
  each label set, so a label set that is no longer given has no series; other families are
  untouched.\<close>

theorem gauge_series_exact:
  assumes "plainKeys a" and "plainKeys b" and "\<forall>(l, v) \<in> set samples. plainKeys l"
  shows "series (setGauge name help a v r) name b = (if set a = set b then Some v else series r name b) \<and>
    series (setGaugeFamily name help samples r) name b =
      map_option snd (find (\<lambda>(l, v). set l = set b) (rev samples)) \<and>
    (name' \<noteq> name \<longrightarrow> series (setGauge name help a v r) name' b = series r name' b \<and>
       series (setGaugeFamily name help samples r) name' b = series r name' b)"
  using series_setGauge [OF assms(1,2)] series_setGaugeFamily [OF assms(3,2)] series_setGauge_other
    series_setGaugeFamily_other by simp

theorem gauge_series_exact_witness:
  "series (setGauge ''g'' [] [(''cred'', [CHR 0x22])] 1 newRegistry) ''g'' [(''cred'', [CHR 0x5C, CHR 0x22])] = None"
  using gauge_series_exact [of "[(''cred'', [CHR 0x22])]" "[(''cred'', [CHR 0x5C, CHR 0x22])]" "[]" "''g''" "[]" 1 newRegistry "''h''"]
  by (simp add: plainKeys_def series_def newRegistry_def)

end
