(* ===== verification/Reconcile_Samples.thy ===== *)
theory Reconcile_Samples
  imports Metrics Leader_Election Health_Scan
begin

text \<open>
  \<open>internal/extensions/lifecycle/reconciler/reconcile_convergence.go\<close>, \<open>reconcile_health.go\<close> and
  \<open>reconcile_tokens.go\<close>: what the reconciler samples from the cluster and publishes as gauges. The
  answer of \<open>GetJSON\<close> is \<open>getAnswer\<close>; a sampler returns the registry and an error. Marshalling an
  item back and decoding it as an Application is the parameter \<open>decode\<close>.
\<close>

subsection \<open>Convergence\<close>

record convergenceSampleResult =
  csReport :: report
  csCrdPresent :: bool
  csObserved :: nat
  csUnparsed :: nat

definition zeroSample :: convergenceSampleResult where
  "zeroSample = \<lparr>csReport = empty_report, csCrdPresent = False, csObserved = 0, csUnparsed = 0\<rparr>"

definition sampleItem ::
  "bool \<Rightarrow> (json \<Rightarrow> argoAppJSON option) \<Rightarrow> json \<Rightarrow> convergenceSampleResult \<Rightarrow> convergenceSampleResult" where
  "sampleItem budgeted decode it s = (case parseArgoApp (decode it) of
     None \<Rightarrow> s\<lparr>csUnparsed := Suc (csUnparsed s)\<rparr>
   | Some app \<Rightarrow> s\<lparr>csObserved := Suc (csObserved s), csReport := fst (routeApp budgeted app False (csReport s))\<rparr>)"

definition convergenceSample ::
  "bool \<Rightarrow> (json \<Rightarrow> argoAppJSON option) \<Rightarrow> getAnswer \<Rightarrow> convergenceSampleResult + string" where
  "convergenceSample budgeted decode ans = (case ans of
     GetFailed err \<Rightarrow> Inr err
   | Got obj status \<Rightarrow>
       if status = 404 then Inl zeroSample
       else if status < 200 \<or> status \<ge> 300 \<or> obj = None then
         Inr (msg [''GET applications: status '', int_dec status])
       else
         let raw = (case obj of Some (JObj m) \<Rightarrow> obj_index m ''items'' | _ \<Rightarrow> JNull);
             s = zeroSample\<lparr>csCrdPresent := True\<rparr>
         in case raw of
              JArr items \<Rightarrow>
                let s = fold (sampleItem budgeted decode) items s;
                    s = (if csUnparsed s > 0 then s\<lparr>csReport := addPending (msg [
                           nat_dec (csUnparsed s), '' Argo Application(s) could not be parsed '', em_dash,
                           '' their health is unknown, not healthy'']) (csReport s)\<rparr> else s);
                    s = (if csObserved s = 0 \<and> csUnparsed s = 0 then s\<lparr>csReport := addPending (msg [
                           ''no Argo Applications exist yet '', em_dash,
                           '' bootstrap has not created them (nothing to converge)'']) (csReport s)\<rparr> else s)
                in Inl s
            | JNull \<Rightarrow> Inl (s\<lparr>csReport := addPending (msg [
                  ''no Argo Applications exist yet '', em_dash,
                  '' bootstrap has not created them (nothing to converge)'']) (csReport s)\<rparr>)
            | _ \<Rightarrow> Inl (s\<lparr>csReport := addPending (msg [
                  ''Applications list returned a non-array .items '', em_dash,
                  '' cannot classify convergence'']) (csReport s)\<rparr>))"

definition convergenceReport ::
  "bool \<Rightarrow> (json \<Rightarrow> argoAppJSON option) \<Rightarrow> getAnswer \<Rightarrow> report \<times> bool \<times> string option" where
  "convergenceReport budgeted decode ans = (case convergenceSample budgeted decode ans of
     Inr err \<Rightarrow> (empty_report, False, Some err)
   | Inl s \<Rightarrow> (csReport s, csCrdPresent s, None))"

definition convergenceStateHelp :: string where
  "convergenceStateHelp = ''cluster convergence per llz ci health: 0 converged, 1 hard-failed, 2 in-progress''"

definition setConvergenceCounts :: "nat \<Rightarrow> nat \<Rightarrow> nat \<Rightarrow> nat \<Rightarrow> nat \<Rightarrow> registry \<Rightarrow> registry" where
  "setConvergenceCounts failed pending observed instanceFailed instancePending reg =
     (let reg = setGauge ''llz_convergence_apps_failed''
            ''count of Argo Applications classified hard-failed'' [] (int failed) reg;
          reg = setGauge ''llz_convergence_apps_pending''
            ''count of Argo Applications still reconciling (in-progress)'' [] (int pending) reg;
          reg = setGauge ''llz_convergence_apps_observed''
            ''count of Argo Applications successfully parsed and classified this sample'' [] (int observed) reg;
          reg = setGauge ''llz_convergence_apps_instance_failed''
            ''count of instance-owned Argo Applications classified hard-failed (reported, excluded from llz_convergence_state)''
            [] (int instanceFailed) reg
      in setGauge ''llz_convergence_apps_instance_pending''
           ''count of instance-owned Argo Applications still reconciling (reported, excluded from llz_convergence_state)''
           [] (int instancePending) reg)"

definition sampleConvergence ::
  "bool \<Rightarrow> (json \<Rightarrow> argoAppJSON option) \<Rightarrow> getAnswer \<Rightarrow> registry \<Rightarrow> registry \<times> string option" where
  "sampleConvergence budgeted decode ans reg = (case convergenceSample budgeted decode ans of
     Inr err \<Rightarrow> (reg, Some err)
   | Inl s \<Rightarrow>
       let r = csReport s
       in if \<not> csCrdPresent s then
            (let reg = setGauge ''llz_convergence_state'' convergenceStateHelp [] (exitCode InProgress) reg
             in (setConvergenceCounts 0 0 0 0 0 reg, None))
          else
            (let reg = setGauge ''llz_convergence_state'' convergenceStateHelp [] (reportExitCode r) reg
             in (setConvergenceCounts (length (Failed r)) (length (Pending r)) (csObserved s)
                   (length (InstanceFailed r)) (length (InstancePending r)) reg, None)))"

subsection \<open>Readiness\<close>

definition objField :: "json \<Rightarrow> string \<Rightarrow> (string \<times> json) list" where
  "objField v k = (case rawValue v [k] of Some (JObj m) \<Rightarrow> m | _ \<Rightarrow> [])"

definition arrField :: "(string \<times> json) list \<Rightarrow> string \<Rightarrow> json list" where
  "arrField m k = (case map_of m k of Some (JArr xs) \<Rightarrow> xs | _ \<Rightarrow> [])"

definition conditionOf :: "json \<Rightarrow> condition option" where
  "conditionOf c = (case c of
     JObj m \<Rightarrow> Some \<lparr>coType = str_at m ''type'', coStatus = str_at m ''status'', coReason = str_at m ''reason'',
       coMessage = str_at m ''message''\<rparr>
   | _ \<Rightarrow> None)"

definition unstructuredConditions :: "json \<Rightarrow> condition list" where
  "unstructuredConditions obj = List.map_filter conditionOf (arrField (objField obj ''status'') ''conditions'')"

definition readyCondition :: "json \<Rightarrow> string \<times> string \<times> string" where
  "readyCondition obj = findReady (unstructuredConditions obj)"

definition certName :: "json \<Rightarrow> string" where
  "certName c =
     (let meta = objField c ''metadata''; ns = str_at meta ''namespace''; name = str_at meta ''name''
      in if ns = [] then name else msg [ns, ''/'', name])"

definition sampleESOStore :: "getAnswer \<Rightarrow> registry \<Rightarrow> registry \<times> string option" where
  "sampleESOStore ans reg = (case ans of
     GetFailed err \<Rightarrow> (reg, Some err)
   | Got obj status \<Rightarrow>
       if status \<noteq> 200 \<or> obj = None then
         (if status \<noteq> 404 \<and> (status < 200 \<or> status \<ge> 300) then
            (reg, Some (msg [''GET clustersecretstore openbao: status '', int_dec status]))
          else (setGauge ''llz_eso_store_ready'' ''1 if the openbao ClusterSecretStore is Ready''
                  [(''store'', ''openbao'')] 0 reg, None))
       else
         (case readyCondition (the obj) of (s, r, m) \<Rightarrow>
            let ready = (if fst (classifyReady ''ClusterSecretStore'' ''openbao'' s r m False []) = CatOK then 1 else 0)
            in (setGauge ''llz_eso_store_ready'' ''1 if the openbao ClusterSecretStore is Ready''
                  [(''store'', ''openbao'')] ready reg, None)))"

definition itemsOf :: "json \<Rightarrow> json list" where   \<comment> \<open>the objects of \<open>.items\<close>\<close>
  "itemsOf obj = filter is_JObj (case obj of JObj m \<Rightarrow> arrField m ''items'' | _ \<Rightarrow> [])"

definition certNotReady :: "json \<Rightarrow> bool" where
  "certNotReady c = (case readyCondition c of (s, r, m) \<Rightarrow>
     fst (classifyReady ''Certificate'' (certName c) s r m False []) \<noteq> CatOK)"

definition sampleCertificates :: "getAnswer \<Rightarrow> registry \<Rightarrow> registry \<times> string option" where
  "sampleCertificates ans reg = (case ans of
     GetFailed err \<Rightarrow> (reg, Some err)
   | Got obj status \<Rightarrow>
       let publish = (\<lambda>total notReady reg.
             setGauge ''llz_certificates_not_ready'' ''count of cert-manager Certificates not Ready'' [] (int notReady)
               (setGauge ''llz_certificates_total'' ''count of cert-manager Certificates'' [] (int total) reg))
       in if status = 404 then (publish 0 0 reg, None)
          else if status < 200 \<or> status \<ge> 300 \<or> obj = None then
            (reg, Some (msg [''GET certificates: status '', int_dec status]))
          else
            let items = itemsOf (the obj)
            in (publish (length items) (length (filter certNotReady items)) reg, None))"

definition sampleOpenBaoPods :: "getAnswer \<Rightarrow> registry \<Rightarrow> registry \<times> string option" where
  "sampleOpenBaoPods ans reg = (case ans of
     GetFailed err \<Rightarrow> (reg, Some err)
   | Got obj status \<Rightarrow>
       if status = 404 then (reg, None)
       else if status < 200 \<or> status \<ge> 300 \<or> obj = None then
         (reg, Some (msg [''GET openbao pods: status '', int_dec status]))
       else
         let items = itemsOf (the obj);
             ready = length (filter (\<lambda>p. fst (readyCondition p) = ''True'') items);
             reg = setGauge ''llz_openbao_pods_total'' ''count of OpenBao pods'' [] (int (length items)) reg
         in (setGauge ''llz_openbao_pods_ready''
               ''count of OpenBao pods passing their readiness probe (a sealed pod is NotReady)'' [] (int ready) reg, None))"

definition sampleHealth :: "getAnswer \<Rightarrow> getAnswer \<Rightarrow> getAnswer \<Rightarrow> registry \<Rightarrow> registry \<times> string option" where
  "sampleHealth store certs pods reg = (case sampleESOStore store reg of
     (reg, Some err) \<Rightarrow> (reg, Some err)
   | (reg, None) \<Rightarrow> (case sampleCertificates certs reg of
       (reg, Some err) \<Rightarrow> (reg, Some err)
     | (reg, None) \<Rightarrow> sampleOpenBaoPods pods reg))"

subsection \<open>The token inventory\<close>

record tokenEntry =
  teProvider :: string
  teName :: string
  teExpiry :: int
  teState :: string

record secretEntry =
  seName :: string
  seScope :: string
  seUpdatedAt :: string
  seClass :: string
  seExpect :: string
  seState :: string

record inventory =
  ivUpdated :: int
  ivRegion :: string
  ivTokens :: "tokenEntry list"
  ivSecrets :: "secretEntry list"
  ivSecretProbe :: string

definition configMapData :: "json \<Rightarrow> string \<Rightarrow> string" where
  "configMapData obj key = str_at (objField obj ''data'') key"

definition credLabelForSecret :: "string \<Rightarrow> string" where
  "credLabelForSecret name = to_lower (replaceChar CHR ''_'' ''-'' name)"

definition presenceMatchesExpectation :: "string \<Rightarrow> bool \<Rightarrow> bool" where
  "presenceMatchesExpectation expect present =
     (if expect = ''absent'' then \<not> present else if expect = ''optional'' then True else present)"

definition boolGauge :: "bool \<Rightarrow> int" where
  "boolGauge b = (if b then 1 else 0)"

definition secretProbeVerdict :: "bool \<Rightarrow> secretEntry list \<Rightarrow> string" where
  "secretProbeVerdict clientBuilt secrets =
     (if \<not> clientBuilt then ''unavailable''
      else if list_ex (\<lambda>s. seState s = ''unknown'') secrets then ''unavailable'' else ''ok'')"

definition publishToken :: "tokenEntry \<Rightarrow> registry \<Rightarrow> registry" where
  "publishToken t reg =
     (let labels = [(''provider'', teProvider t), (''token'', teName t)];
          reg = (if teExpiry t > 0 then setGauge ''llz_token_expiry_timestamp_seconds''
                   ''unix time the CI token expires (0/absent when it never expires or is unknown)'' labels (teExpiry t) reg
                 else reg);
          auditOK = (if teState t = ''breach'' then 0 else 1)
      in setGauge ''llz_token_audit_ok''
           ''1 if the CI token satisfies the expiry policy, 0 on a breach (no-expiry / expired / over-policy)'' labels auditOK reg)"

text \<open>The two presence samples of a secret, for the states that are answers.\<close>

definition presenceSample :: "secretEntry \<Rightarrow> (((string \<times> string) list \<times> int) \<times> ((string \<times> string) list \<times> int)) option" where
  "presenceSample sec =
     (let cred = credLabelForSecret (seName sec);
          expect = seExpect sec;
          expect = (if expect = [] then ''present'' else expect)
      in if seState sec = ''ok'' \<or> seState sec = ''absent'' then
           (let present = (seState sec = ''ok'')
            in Some (([(''cred'', cred)], boolGauge present),
                     ([(''cred'', cred)], boolGauge (presenceMatchesExpectation expect present))))
         else None)"

definition publishAge :: "(string \<Rightarrow> instant option) \<Rightarrow> instant \<Rightarrow> secretEntry \<Rightarrow> registry \<Rightarrow> registry" where
  "publishAge parse now sec reg =
     (if seUpdatedAt sec = [] then reg
      else case parse (seUpdatedAt sec) of
        None \<Rightarrow> reg
      | Some t \<Rightarrow> setGauge ''llz_credential_age_days''
          ''days since the credential was last written (class: automated|on-demand|generate-once|tracks-source|static)''
          [(''cred'', credLabelForSecret (seName sec)), (''class'', seClass sec)] (daysSince t now) reg)"

definition publishInventory :: "(string \<Rightarrow> instant option) \<Rightarrow> instant \<Rightarrow> inventory \<Rightarrow> registry \<Rightarrow> registry" where
  "publishInventory parse now iv reg =
     (let probeHelp = ''1 if the GitHub secrets-metadata probe (credential write-time ages) could run, 0 if it could not authenticate'';
          reg = setGauge ''llz_token_inventory_updated_timestamp_seconds''
            ''unix time the token inventory was last written by the CI token-inventory job'' [] (ivUpdated iv) reg;
          reg = setGauge ''llz_token_inventory_tokens'' ''count of tokens in the inventory'' [] (int (length (ivTokens iv))) reg;
          reg = fold publishToken (ivTokens iv) reg;
          reg = (if ivSecretProbe iv = ''ok'' then setGauge ''llz_credential_secret_probe_ok'' probeHelp [] 1 reg
                 else if ivSecretProbe iv = ''unavailable'' then setGauge ''llz_credential_secret_probe_ok'' probeHelp [] 0 reg
                 else reg);
          samples = List.map_filter presenceSample (ivSecrets iv);
          reg = fold (publishAge parse now) (ivSecrets iv) reg;
          reg = setGaugeFamily ''llz_credential_configured''
            ''1 if the credential is configured as a GitHub Actions secret, 0 if the API reports it absent'' (map fst samples) reg
      in setGaugeFamily ''llz_credential_presence_ok''
           ''1 if the credential's presence matches what is expected of it (see ghSecretTargets: present|optional|absent)''
           (map snd samples) reg)"

definition sampleTokenInventory ::
  "(string \<Rightarrow> inventory + string) \<Rightarrow> (string \<Rightarrow> instant option) \<Rightarrow> instant \<Rightarrow> getAnswer \<Rightarrow> registry \<Rightarrow> registry \<times> string option" where
  "sampleTokenInventory decodeInv parse now ans reg = (case ans of
     GetFailed err \<Rightarrow> (reg, Some err)
   | Got obj status \<Rightarrow>
       if status = 404 then (reg, None)
       else if status < 200 \<or> status \<ge> 300 \<or> obj = None then
         (reg, Some (msg [''GET llz-token-inventory ConfigMap: status '', int_dec status]))
       else
         let raw = configMapData (the obj) ''inventory.json''
         in if raw = [] then (reg, None)
            else (case decodeInv raw of
                Inr err \<Rightarrow> (reg, Some (''parse llz-token-inventory: '' @ err))
              | Inl iv \<Rightarrow> (publishInventory parse now iv reg, None)))"

subsection \<open>Lemmas\<close>

lemma verdict_addPending: "verdict (addPending m r) = max InProgress (verdict r)"
  by (auto simp: report_ops verdict_def max_def verdict_cases_le)

text \<open>What a list of items adds up to.\<close>

lemma sampleItem_None:
  "parseArgoApp (decode it) = None \<Longrightarrow> sampleItem b decode it s = s\<lparr>csUnparsed := Suc (csUnparsed s)\<rparr>"
  by (simp add: sampleItem_def)

lemma sampleItem_Some:
  "parseArgoApp (decode it) = Some app \<Longrightarrow>
     sampleItem b decode it s =
       s\<lparr>csObserved := Suc (csObserved s), csReport := fst (routeApp b app False (csReport s))\<rparr>"
  by (simp add: sampleItem_def)

lemma Max_Converged: "finite S \<Longrightarrow> Max (insert Converged S) = Converged \<longleftrightarrow> (\<forall>v \<in> S. v = Converged)"
  by (subst Max_eq_iff) (auto simp: antisym)

lemma sampleItem_fold:
  "csUnparsed (fold (sampleItem b decode) items s) =
     csUnparsed s + length (filter (\<lambda>it. parseArgoApp (decode it) = None) items) \<and>
   csObserved (fold (sampleItem b decode) items s) =
     csObserved s + length (filter (\<lambda>it. parseArgoApp (decode it) \<noteq> None) items) \<and>
   csCrdPresent (fold (sampleItem b decode) items s) = csCrdPresent s \<and>
   csReport (fold (sampleItem b decode) items s) =
     app_route.run (map (\<lambda>a. (b, a, False)) (List.map_filter (\<lambda>it. parseArgoApp (decode it)) items)) (csReport s)"
proof (induction items arbitrary: s)
  case (Cons it items)
  show ?case
    using Cons.IH [of "sampleItem b decode it s"]
    by (cases "parseArgoApp (decode it)") (simp_all add: sampleItem_None sampleItem_Some List.map_filter_simps)
qed (simp add: List.map_filter_simps)

lemma set_map_filter: "set (List.map_filter f xs) = {y. \<exists>x \<in> set xs. f x = Some y}"
  by (induction xs) (auto simp: List.map_filter_simps split: option.splits)

lemma sampled_report:
  "verdict (csReport (fold (sampleItem b decode) items zeroSample)) = Converged \<longleftrightarrow>
     (\<forall>it \<in> set items. case parseArgoApp (decode it) of None \<Rightarrow> True
        | Some a \<Rightarrow> isInstanceOwnedApp a \<or> appGates b a False = Converged)"
proof -
  let ?apps = "List.map_filter (\<lambda>it. parseArgoApp (decode it)) items"
  let ?fs = "map (\<lambda>a. (b, a, False)) ?apps"
  let ?sev = "(\<lambda>a. appGates b a False) ` {a \<in> set ?apps. \<not> isInstanceOwnedApp a}"
  have "{f \<in> set ?fs. \<not> (\<lambda>(b, a, p). isInstanceOwnedApp a) f} =
      (\<lambda>a. (b, a, False)) ` {a \<in> set ?apps. \<not> isInstanceOwnedApp a}"
    by auto
  then have "(\<lambda>(b, a, p). appGates b a p) ` {f \<in> set ?fs. \<not> (\<lambda>(b, a, p). isInstanceOwnedApp a) f} = ?sev"
    by (simp add: image_image)
  then have "verdict (csReport (fold (sampleItem b decode) items zeroSample)) = Max (insert Converged ?sev)"
    using sampleItem_fold [of b decode items zeroSample]
      app_route.run_verdict [of ?fs empty_report]
    by (simp add: zeroSample_def)
  moreover have "Max (insert Converged ?sev) = Converged \<longleftrightarrow> (\<forall>v \<in> ?sev. v = Converged)"
    by (rule Max_Converged) simp
  moreover have "(\<forall>v \<in> ?sev. v = Converged) \<longleftrightarrow>
      (\<forall>it \<in> set items. \<forall>a. parseArgoApp (decode it) = Some a \<longrightarrow> isInstanceOwnedApp a \<or> appGates b a False = Converged)"
    by (simp add: set_map_filter) blast
  ultimately show ?thesis by (simp split: option.split)
qed

lemma state_gauge:
  "series (setConvergenceCounts f p obs i j reg) ''llz_convergence_state'' [] = series reg ''llz_convergence_state'' []"
  by (simp add: setConvergenceCounts_def Let_def series_setGauge_other)

lemma state_gauge_set: "series (setGauge name help [] v reg) name [] = Some v"
  by (simp add: series_setGauge plainKeys_def)

lemma addPending_not_converged [simp]: "verdict (addPending m r) \<noteq> Converged"
  by (cases "verdict r") (simp_all add: verdict_addPending max_def verdict_cases_le)

lemma converged_code: "reportExitCode r = 0 \<longleftrightarrow> verdict r = Converged"
  by (cases "verdict r") (simp_all add: reportExitCode_def)

text \<open>The state a sample publishes, and that a failed one publishes nothing.\<close>

lemma sampled_state:
  "sampleConvergence b decode ans reg = (reg', None) \<Longrightarrow>
     \<exists>s. convergenceSample b decode ans = Inl s \<and>
       series reg' ''llz_convergence_state'' [] = Some (if csCrdPresent s then reportExitCode (csReport s) else 2)"
  by (auto simp: sampleConvergence_def Let_def state_gauge state_gauge_set split: sum.splits if_splits)

lemma failed_sample: "sampleConvergence b decode ans reg = (reg', Some e) \<Longrightarrow> reg' = reg"
  by (auto simp: sampleConvergence_def Let_def split: sum.splits if_splits)

definition classifiedFine :: "bool \<Rightarrow> (json \<Rightarrow> argoAppJSON option) \<Rightarrow> json \<Rightarrow> bool" where
  "classifiedFine b decode it = (case parseArgoApp (decode it) of
     None \<Rightarrow> False | Some a \<Rightarrow> isInstanceOwnedApp a \<or> appGates b a False = Converged)"

lemma all_parsed:
  "length (filter (\<lambda>it. f it = None) items) = 0 \<longleftrightarrow> (\<forall>it \<in> set items. f it \<noteq> None)"
  by (auto simp: filter_empty_conv)

lemma items_fine:
  assumes "s = fold (sampleItem b decode) items (zeroSample\<lparr>csCrdPresent := True\<rparr>)"
  shows "csUnparsed s = 0 \<and> csObserved s \<noteq> 0 \<and> verdict (csReport s) = Converged \<longleftrightarrow>
    items \<noteq> [] \<and> list_all (classifiedFine b decode) items"
proof -
  have r: "csReport s = csReport (fold (sampleItem b decode) items zeroSample)"
    using sampleItem_fold [of b decode items] by (simp add: assms)
  have u: "csUnparsed s = 0 \<longleftrightarrow> (\<forall>it \<in> set items. parseArgoApp (decode it) \<noteq> None)"
    and obs: "csObserved s = length (filter (\<lambda>it. parseArgoApp (decode it) \<noteq> None) items)"
    using sampleItem_fold [of b decode items] all_parsed [of "\<lambda>it. parseArgoApp (decode it)" items]
    by (simp_all add: assms zeroSample_def)
  have "csObserved s \<noteq> 0 \<longleftrightarrow> items \<noteq> []" if "csUnparsed s = 0"
    using that u by (cases items) (auto simp: obs)
  then show ?thesis
    unfolding r sampled_report u list_all_iff
    using u by (auto simp: classifiedFine_def split: option.splits)
qed

lemma sampled_items:
  assumes "convergenceSample b decode (Got (Some (JObj m)) st) = Inl s" and "st \<noteq> 404"
    and "obj_index m ''items'' = JArr items"
  shows "csCrdPresent s \<and> verdict (csReport s) = Converged \<longleftrightarrow> items \<noteq> [] \<and> list_all (classifiedFine b decode) items"
proof -
  define s0 where "s0 = fold (sampleItem b decode) items (zeroSample\<lparr>csCrdPresent := True\<rparr>)"
  have "csCrdPresent s0" using sampleItem_fold [of b decode items] by (simp add: s0_def)
  moreover have "convergenceSample b decode (Got (Some (JObj m)) st) =
      (let s = (if csUnparsed s0 > 0 then s0\<lparr>csReport := addPending (msg [
                   nat_dec (csUnparsed s0), '' Argo Application(s) could not be parsed '', em_dash,
                   '' their health is unknown, not healthy'']) (csReport s0)\<rparr> else s0)
       in Inl (if csObserved s = 0 \<and> csUnparsed s = 0 then s\<lparr>csReport := addPending (msg [
                 ''no Argo Applications exist yet '', em_dash,
                 '' bootstrap has not created them (nothing to converge)'']) (csReport s)\<rparr> else s))"
    using assms by (simp add: convergenceSample_def s0_def Let_def split: if_splits)
  ultimately have "csCrdPresent s \<and> verdict (csReport s) = Converged \<longleftrightarrow>
      csUnparsed s0 = 0 \<and> csObserved s0 \<noteq> 0 \<and> verdict (csReport s0) = Converged"
    using assms(1) by (auto simp: Let_def split: if_splits)
  then show ?thesis using items_fine [OF s0_def] by simp
qed

lemma sampled_otherwise:
  assumes "convergenceSample b decode ans = Inl s"
    and "\<nexists>m items st. ans = Got (Some (JObj m)) st \<and> st \<noteq> 404 \<and> obj_index m ''items'' = JArr items"
  shows "\<not> (csCrdPresent s \<and> verdict (csReport s) = Converged)"
  using assms by (auto simp: convergenceSample_def Let_def zeroSample_def split: getAnswer.splits if_splits json.splits option.splits)

subsection \<open>Properties\<close>

text \<open>C14: the convergence gauge never overstates. A sample that could not be taken leaves every series
  as it was; one that was taken sets \<open>llz_convergence_state\<close> to 0 exactly when the Applications could be
  listed, the list is an array with an item in it, and every item decodes as an Application that
  the instance owns or whose classification gates nothing: a missing CRD, an empty list, a list
  that is no array and an item that does not decode are all published as something else.\<close>

theorem convergence_gauge_sound:
  assumes "sampleConvergence b decode ans reg = (reg', err)"
  shows "(err \<noteq> None \<and> reg' = reg) \<or> (err = None \<and>
    (series reg' ''llz_convergence_state'' [] = Some 0 \<longleftrightarrow>
      (\<exists>m items st. ans = Got (Some (JObj m)) st \<and> st \<noteq> 404 \<and> obj_index m ''items'' = JArr items \<and>
         items \<noteq> [] \<and> list_all (classifiedFine b decode) items)))"
proof (cases err)
  case None
  then obtain s where s: "convergenceSample b decode ans = Inl s"
    "series reg' ''llz_convergence_state'' [] = Some (if csCrdPresent s then reportExitCode (csReport s) else 2)"
    using sampled_state assms by blast
  then have "series reg' ''llz_convergence_state'' [] = Some 0 \<longleftrightarrow> csCrdPresent s \<and> verdict (csReport s) = Converged"
    by (simp add: converged_code)
  also have "\<dots> \<longleftrightarrow> (\<exists>m items st. ans = Got (Some (JObj m)) st \<and> st \<noteq> 404 \<and> obj_index m ''items'' = JArr items \<and>
      items \<noteq> [] \<and> list_all (classifiedFine b decode) items)"
    using sampled_items s(1) sampled_otherwise [OF s(1)] by (smt (verit) getAnswer.inject(2) json.inject option.inject)
  finally show ?thesis using None by blast
qed (use assms failed_sample in auto)

theorem convergence_gauge_sound_witness:
  "series (fst (sampleConvergence False (\<lambda>_. None) (Got (Some (JObj [(''items'', JArr [JNull])])) 200) newRegistry))
     ''llz_convergence_state'' [] \<noteq> Some 0"
proof -
  obtain reg' err where r: "sampleConvergence False (\<lambda>_. None) (Got (Some (JObj [(''items'', JArr [JNull])])) 200) newRegistry = (reg', err)"
    by fastforce
  show ?thesis
    unfolding r fst_conv using convergence_gauge_sound [OF r]
    by (elim disjE) (simp_all add: classifiedFine_def parseArgoApp_def obj_index_def series_def newRegistry_def)
qed

text \<open>two readings of the same Application. An Application that does not decode adds a pending
  finding to the reconciler's sample, whose comment says that its health is unknown, not healthy;
  the health scan drops it without a finding, so the sections are the same as without it, and a
  cluster whose only Application cannot be read exits 0.\<close>

theorem unreadable_app_dropped_by_scan:
  "fetchArgoApps (c\<lparr>clApps := Some (None # raws)\<rparr>) = fetchArgoApps (c\<lparr>clApps := Some raws\<rparr>) \<and>
   hrCode (fst (healthExitCodeState False 3 (quiet\<lparr>clApps := Some [None]\<rparr>) (Some True))) = 0 \<and>
   csUnparsed (sampleItem b (\<lambda>_. None) JNull s) = Suc (csUnparsed s)"
proof (intro conjI)
  show "fetchArgoApps (c\<lparr>clApps := Some (None # raws)\<rparr>) = fetchArgoApps (c\<lparr>clApps := Some raws\<rparr>)"
    by (simp add: fetchArgoApps_def parseArgoApp_def List.map_filter_simps)
  show "hrCode (fst (healthExitCodeState False 3 (quiet\<lparr>clApps := Some [None]\<rparr>) (Some True))) = 0"
    by code_simp
  show "csUnparsed (sampleItem b (\<lambda>_. None) JNull s) = Suc (csUnparsed s)"
    by (simp add: sampleItem_def parseArgoApp_def)
qed

text \<open>The presence families after one publish.\<close>

lemma plain_cred [simp]: "plainKeys [(''cred'', c)]"
  by (simp add: plainKeys_def)

lemma credential_families_kept [simp]:
  "name \<noteq> ''llz_credential_age_days'' \<Longrightarrow> series (publishAge parse now sec reg) name l = series reg name l"
  by (simp add: publishAge_def series_setGauge_other split: option.split)

lemma presence_labels:
  "\<forall>(l, v) \<in> set (map fst (List.map_filter presenceSample secs)). plainKeys l"
  "\<forall>(l, v) \<in> set (map snd (List.map_filter presenceSample secs)). plainKeys l"
  by (auto simp: set_map_filter presenceSample_def Let_def split: if_splits)

definition answeredFor :: "string \<Rightarrow> secretEntry \<Rightarrow> bool" where
  "answeredFor c sec \<longleftrightarrow> (seState sec = ''ok'' \<or> seState sec = ''absent'') \<and> credLabelForSecret (seName sec) = c"

lemma map_filter_snoc:
  "List.map_filter f (xs @ [x]) = List.map_filter f xs @ (case f x of None \<Rightarrow> [] | Some y \<Rightarrow> [y])"
  by (induction xs) (auto simp: List.map_filter_simps split: option.split)

lemma find_answered:
  "find (\<lambda>(l, v). set l = {(''cred'', c)}) (rev (map fst (List.map_filter presenceSample secs))) =
     map_option (\<lambda>sec. fst (the (presenceSample sec))) (find (answeredFor c) (rev secs))"
  "find (\<lambda>(l, v). set l = {(''cred'', c)}) (rev (map snd (List.map_filter presenceSample secs))) =
     map_option (\<lambda>sec. snd (the (presenceSample sec))) (find (answeredFor c) (rev secs))"
proof (induction secs rule: rev_induct)
  case (snoc sec secs)
  { case 1 show ?case using snoc
      by (simp add: map_filter_snoc answeredFor_def presenceSample_def Let_def) }
  { case 2 show ?case using snoc
      by (simp add: map_filter_snoc answeredFor_def presenceSample_def Let_def) }
qed (simp_all add: List.map_filter_simps)

text \<open>what the presence gauges say after an inventory was published: the series of a credential
  is the verdict on the last entry of its label that was answered, configured and as
  expected, and a credential that no entry answers has no series, whatever was published before.\<close>

theorem presence_is_the_last_answer:
  "series (publishInventory parse now iv reg) ''llz_credential_configured'' [(''cred'', c)] =
     map_option (\<lambda>sec. boolGauge (seState sec = ''ok'')) (find (answeredFor c) (rev (ivSecrets iv))) \<and>
   series (publishInventory parse now iv reg) ''llz_credential_presence_ok'' [(''cred'', c)] =
     map_option (\<lambda>sec. boolGauge (presenceMatchesExpectation (if seExpect sec = [] then ''present'' else seExpect sec)
       (seState sec = ''ok''))) (find (answeredFor c) (rev (ivSecrets iv)))"
proof -
  let ?last = "find (answeredFor c) (rev (ivSecrets iv))"
  have "map_option snd (find (\<lambda>(l, v). set l = {(''cred'', c)}) (rev (map fst (List.map_filter presenceSample (ivSecrets iv))))) =
      map_option (\<lambda>sec. boolGauge (seState sec = ''ok'')) ?last \<and>
    map_option snd (find (\<lambda>(l, v). set l = {(''cred'', c)}) (rev (map snd (List.map_filter presenceSample (ivSecrets iv))))) =
      map_option (\<lambda>sec. boolGauge (presenceMatchesExpectation (if seExpect sec = [] then ''present'' else seExpect sec)
        (seState sec = ''ok''))) ?last"
  proof (cases ?last)
    case (Some sec)
    then have "answeredFor c sec" by (auto simp: find_Some_iff)
    with Some show ?thesis by (simp add: find_answered presenceSample_def answeredFor_def Let_def)
  qed (simp add: find_answered)
  then show ?thesis
    by (simp add: publishInventory_def Let_def series_setGaugeFamily_other series_setGaugeFamily presence_labels
        )
qed

lemma plain_token [simp]: "plainKeys [(''provider'', p), (''token'', n)]"
  by (simp add: plainKeys_def)

lemma token_labels_set: "{(''provider'', p), (''token'', n)} = {(''provider'', q), (''token'', m)} \<longleftrightarrow> p = q \<and> n = m"
  by (auto simp: doubleton_eq_iff)

lemma audit_publishToken:
  "series (publishToken t reg) ''llz_token_audit_ok'' [(''provider'', p), (''token'', n)] =
     (if teProvider t = p \<and> teName t = n then Some (if teState t = ''breach'' then 0 else 1)
      else series reg ''llz_token_audit_ok'' [(''provider'', p), (''token'', n)])"
  by (simp add: publishToken_def Let_def series_setGauge token_labels_set series_setGauge_other)

lemma audit_publishTokens:
  "series (fold publishToken ts reg) ''llz_token_audit_ok'' [(''provider'', p), (''token'', n)] =
     (case find (\<lambda>t. teProvider t = p \<and> teName t = n) (rev ts) of
        Some t \<Rightarrow> Some (if teState t = ''breach'' then 0 else 1)
      | None \<Rightarrow> series reg ''llz_token_audit_ok'' [(''provider'', p), (''token'', n)])"
  by (induction ts rule: rev_induct) (auto simp: audit_publishToken)

lemma fold_publishAge_other:
  "name \<noteq> ''llz_credential_age_days'' \<Longrightarrow> series (fold (publishAge parse now) secs reg) name l = series reg name l"
  by (induction secs arbitrary: reg) simp_all

text \<open>the token gauges keep what they last said. The audit series of a token is the verdict on
  its last entry in the inventory, and of a token that the inventory no longer lists it is whatever
  was published before: a token that was retired while in breach stays in breach.\<close>

theorem retired_token_keeps_its_verdict:
  "series (publishInventory parse now iv reg) ''llz_token_audit_ok'' [(''provider'', p), (''token'', n)] =
     (case find (\<lambda>t. teProvider t = p \<and> teName t = n) (rev (ivTokens iv)) of
        Some t \<Rightarrow> Some (if teState t = ''breach'' then 0 else 1)
      | None \<Rightarrow> series reg ''llz_token_audit_ok'' [(''provider'', p), (''token'', n)])"
  by (simp add: publishInventory_def Let_def series_setGaugeFamily_other series_setGauge_other
      fold_publishAge_other audit_publishTokens split: option.split)

end
