(* ===== verification/Reconcile_Manager.thy ===== *)
theory Reconcile_Manager
  imports Metrics
begin

text \<open>
  \<open>internal/extensions/lifecycle/reconciler/reconcile_manager.go\<close> and the lane table of
  \<open>reconcile.go\<close>: the scheduler of \<open>llz reconcile\<close>. The goroutines of the process (each lane's main
  loop and its watcher, the spawning loop of \<open>runManager\<close>, the elector's callback) are interleaved
  as single steps: every send, receive and \<open>select\<close> of the code is one, and a \<open>select\<close> takes any
  ready case. What a pass or a stream returns, and when, is carried by the step.
  Durations are nanoseconds; a gauge that is given fractional seconds keeps the whole ones here.
  Log lines are left out.
\<close>

subsection \<open>Lanes and their table\<close>

record reconcilerLane =
  rlName :: string
  rlExt :: string
  rlBinding :: string
  rlInterval :: int
  rlWatched :: bool   \<comment> \<open>\<open>watch\<close> is set\<close>
  rlGated :: bool   \<comment> \<open>\<open>run\<close> is wrapped by \<open>gate\<close>\<close>
  rlNeedsToken :: bool   \<comment> \<open>\<open>run\<close> is wrapped by \<open>requireLinodeToken\<close>\<close>

record reconcileOpts =
  sampleInterval :: int
  leaderElection :: bool
  reconcileArgoNudge :: bool
  argoNudgeResync :: int
  reconcileCidrFW :: bool
  cidrFWResync :: int
  reconcileVolTags :: bool
  volTagsResync :: int
  reconcileSCDemote :: bool
  scDemoteResync :: int
  reconcileLinodeCred :: bool
  linodeCredInterval :: int
  reconcileOpenBao :: bool
  openbaoInterval :: int
  reconcileTokens :: bool
  tokensInterval :: int
  reconcileESRecovery :: bool
  esRecoveryResync :: int
  reconcileAplOverlay :: bool
  aplOverlayInterval :: int
  reconcileOverlayDel :: bool
  overlayDelInterval :: int

definition drivingEnabled :: "reconcileOpts \<Rightarrow> bool" where
  "drivingEnabled opts \<longleftrightarrow> reconcileArgoNudge opts \<or> reconcileCidrFW opts \<or> reconcileVolTags opts \<or>
     reconcileSCDemote opts \<or> reconcileLinodeCred opts \<or>
     reconcileESRecovery opts \<or> reconcileAplOverlay opts"

abbreviation second_ns :: int where "second_ns \<equiv> 1000000000"

definition laneOf :: "string \<Rightarrow> string \<Rightarrow> int \<Rightarrow> bool \<Rightarrow> bool \<Rightarrow> bool \<Rightarrow> reconcilerLane" where
  "laneOf nm e interval watched gated token =
     \<lparr>rlName = nm, rlExt = e, rlBinding = nm, rlInterval = interval, rlWatched = watched,
      rlGated = gated, rlNeedsToken = token\<rparr>"

definition buildReconcilers :: "reconcileOpts \<Rightarrow> reconcilerLane list" where
  "buildReconcilers opts =
     (let interval = (if sampleInterval opts \<le> 0 then 30 * second_ns else sampleInterval opts)
      in [laneOf ''observe'' ''reconciler-runtime'' interval False False False]
         @ (if reconcileArgoNudge opts
            then [laneOf ''argo-nudge'' ''reconcile-actions'' (argoNudgeResync opts) True True False] else [])
         @ (if reconcileCidrFW opts
            then [laneOf ''cidr-firewall'' ''reconciler-runtime'' (cidrFWResync opts) True True True] else [])
         @ (if reconcileVolTags opts
            then [laneOf ''volume-tags'' ''assert-storage'' (volTagsResync opts) True True True] else [])
         @ (if reconcileSCDemote opts
            then [laneOf ''sc-demote'' ''reconcile-actions'' (scDemoteResync opts) True True False] else [])
         @ (if reconcileLinodeCred opts
            then [laneOf ''linode-creds'' ''reconcile-actions'' (linodeCredInterval opts) False True True] else [])
         @ (if reconcileESRecovery opts
            then [laneOf ''es-store-recovery'' ''reconcile-actions'' (esRecoveryResync opts) True True False] else [])
         @ (if reconcileOpenBao opts
            then [laneOf ''openbao-gauges'' ''reconcile-actions'' (openbaoInterval opts) False False False] else [])
         @ (if reconcileOverlayDel opts
            then [laneOf ''overlay-delivery'' ''reconcile-actions'' (overlayDelInterval opts) False False False]
            else [])
         @ (if reconcileTokens opts
            then [laneOf ''token-inventory'' ''token-inventory'' (tokensInterval opts) False False False] else [])
         @ (if reconcileAplOverlay opts
            then [laneOf ''apl-overlay'' ''reconciler-runtime'' (aplOverlayInterval opts) True True False]
            else []))"

text \<open>Whether the process creates an elector.\<close>

definition electsLeader :: "reconcileOpts \<Rightarrow> bool" where
  "electsLeader opts \<longleftrightarrow> leaderElection opts \<and> drivingEnabled opts"

definition reconcilerLanes :: "(string \<times> string \<times> string) list" where
  "reconcilerLanes = map (\<lambda>r. (rlName r, rlExt r, rlBinding r)) (buildReconcilers
     \<lparr>sampleInterval = 0, leaderElection = False, reconcileArgoNudge = True, argoNudgeResync = 0,
      reconcileCidrFW = True, cidrFWResync = 0, reconcileVolTags = True, volTagsResync = 0,
      reconcileSCDemote = True, scDemoteResync = 0, reconcileLinodeCred = True,
      linodeCredInterval = 0, reconcileOpenBao = True, openbaoInterval = 0, reconcileTokens = True,
      tokensInterval = 0, reconcileESRecovery = True, esRecoveryResync = 0,
      reconcileAplOverlay = True, aplOverlayInterval = 0, reconcileOverlayDel = True,
      overlayDelInterval = 0\<rparr>)"

subsection \<open>The watch backoff\<close>

abbreviation watchReconnectBackoff :: int where "watchReconnectBackoff \<equiv> 1000000000"
abbreviation watchReconnectBackoffMax :: int where "watchReconnectBackoffMax \<equiv> 60000000000"

text \<open>The loop \<open>for i := 0; i < n && d < max; i++\<close>, with the iterations left.\<close>

fun doubleLoop :: "nat \<Rightarrow> int \<Rightarrow> int" where
  "doubleLoop 0 d = d"
| "doubleLoop (Suc n) d = (if d < watchReconnectBackoffMax then doubleLoop n (d * 2) else d)"

definition watchBackoffFor :: "nat \<Rightarrow> int" where
  "watchBackoffFor n =
     (let d = doubleLoop n watchReconnectBackoff
      in if d > watchReconnectBackoffMax then watchReconnectBackoffMax else d)"

subsection \<open>The kicker\<close>

text \<open>A channel of size one is a Boolean: full or empty. The kicker holds the channels of its
  subscribers by their place in the store; a nil kicker is None.\<close>

definition subscribe :: "nat list \<Rightarrow> bool list \<Rightarrow> nat list \<times> bool list \<times> nat" where
  "subscribe subs chans = (subs @ [length chans], chans @ [False], length chans)"

definition Kick :: "nat list option \<Rightarrow> bool list \<Rightarrow> bool list" where
  "Kick k chans = (case k of None \<Rightarrow> chans | Some subs \<Rightarrow> fold (\<lambda>i cs. cs[i := True]) subs chans)"

subsection \<open>One pass\<close>

abbreviation laneLabel :: "reconcilerLane \<Rightarrow> (string \<times> string) list" where
  "laneLabel r \<equiv> [(''reconciler'', rlName r)]"

text \<open>\<open>reconcileOnce\<close> before and after the call of \<open>run\<close>.\<close>

definition passBegins :: "reconcilerLane \<Rightarrow> registry \<Rightarrow> registry" where
  "passBegins r reg =
     (let reg = addCounter ''llz_reconcile_runs_total'' ''total reconcile passes per reconciler'' (laneLabel r) 1 reg;
          reg = addCounter ''llz_reconcile_errors_total'' ''total failed reconcile passes per reconciler''
                  (laneLabel r) 0 reg
      in if rlInterval r > 0
         then setGauge ''llz_reconcile_interval_seconds'' ''configured interval between this reconciler's passes''
                (laneLabel r) (rlInterval r div second_ns) reg
         else reg)"

definition passEnds :: "reconcilerLane \<Rightarrow> int \<Rightarrow> int \<Rightarrow> string option \<Rightarrow> registry \<Rightarrow> registry" where
  "passEnds r start finish err reg =
     (let reg = setGauge ''llz_reconcile_last_duration_seconds'' ''wall-clock duration of the last reconcile pass''
                  (laneLabel r) ((finish - start) div second_ns) reg
      in case err of
           Some _ \<Rightarrow>
             setGauge ''llz_reconcile_up'' ''1 if the reconciler's last pass succeeded'' (laneLabel r) 0
               (addCounter ''llz_reconcile_errors_total'' ''total failed reconcile passes per reconciler''
                  (laneLabel r) 1 reg)
         | None \<Rightarrow>
             setGauge ''llz_reconcile_last_success_timestamp_seconds''
               ''unix time of the reconciler's most recent successful pass'' (laneLabel r) (finish div second_ns)
               (setGauge ''llz_reconcile_up'' ''1 if the reconciler's last pass succeeded'' (laneLabel r) 1 reg))"

definition watchConnected :: "reconcilerLane \<Rightarrow> int \<Rightarrow> registry \<Rightarrow> registry" where
  "watchConnected r v = setGauge ''llz_watch_connected''
     ''1 if the reconciler's watch stream is established or last closed cleanly'' (laneLabel r) v"

definition watchFailed :: "reconcilerLane \<Rightarrow> registry \<Rightarrow> registry" where
  "watchFailed r reg = watchConnected r 0
     (addCounter ''llz_watch_errors_total'' ''total watch-stream failures per reconciler'' (laneLabel r) 1 reg)"

subsection \<open>The manager's state\<close>

text \<open>A watcher goroutine before its first stream, in a stream, in the pause after one, and returned;
  a main loop before its initial pass, in a pass, at its \<open>select\<close>, waiting for its watcher after
  cancellation, and returned. The last fields of a lane record history for the properties only: the
  notifications sent so far and how many of them were sent when the latest pass began, the term of
  leadership it began in, and how many passes began and failed and streams failed; the manager counts
  the terms.\<close>

datatype watcherAt = WatcherNew | InStream | InBackoff | WatcherReturned

datatype loopAt = LoopNew | InPass | AtSelect | AwaitWatcher | LoopReturned

record laneState =
  lsLane :: reconcilerLane
  lsKick :: "nat option"   \<comment> \<open>its kick channel, None when nil\<close>
  lsTrigger :: bool
  lsWatcher :: watcherAt
  lsFails :: nat
  lsPause :: int
  lsLoop :: loopAt
  lsStarted :: int
  hNews :: nat
  hRead :: nat
  hLed :: "nat option"
  hPasses :: nat
  hFailed :: nat
  hDrops :: nat
  hLast :: "bool option"

record managerState =
  msReg :: registry
  msChans :: "bool list"
  msKicker :: "nat list option"
  msTodo :: "reconcilerLane list"
  msLanes :: "laneState list"
  msCancelled :: bool
  msLeader :: bool
  msCallback :: bool   \<comment> \<open>\<open>setLeader\<close> is about to call \<open>onAcquire\<close>\<close>
  hTerm :: nat

datatype laneEvent =
    WatcherStarts
  | WatchFrame
  | StreamEnds "string option"
  | BackoffDone
  | BackoffCancelled
  | InitialPass int
  | OnTrigger int
  | OnTick int
  | OnKick int
  | PassReturns int "string option"
  | LoopCancelled
  | WatcherJoined

datatype managerEvent =
    SpawnLane
  | LeadershipGained
  | AcquireCallback
  | LeadershipLost
  | ContextCancelled
  | AtLane nat laneEvent

definition spawned :: "reconcilerLane \<Rightarrow> nat option \<Rightarrow> laneState" where
  "spawned r k =
     \<lparr>lsLane = r, lsKick = k, lsTrigger = False,
      lsWatcher = (if rlWatched r then WatcherNew else WatcherReturned), lsFails = 0, lsPause = 0,
      lsLoop = LoopNew, lsStarted = 0, hNews = 0, hRead = 0, hLed = None, hPasses = 0, hFailed = 0,
      hDrops = 0, hLast = None\<rparr>"

text \<open>\<open>fire\<close>: a send that does not block.\<close>

definition fireTrigger :: "laneState \<Rightarrow> laneState" where
  "fireTrigger l = l\<lparr>lsTrigger := True, hNews := Suc (hNews l)\<rparr>"

definition beginPass :: "managerState \<Rightarrow> int \<Rightarrow> laneState \<Rightarrow> laneState" where
  "beginPass m t l = l\<lparr>lsLoop := InPass, lsStarted := t, hRead := hNews l,
     hLed := (if msLeader m then Some (hTerm m) else None),
      hPasses := Suc (hPasses l)\<rparr>"

text \<open>The body of the watcher's loop after \<open>watch\<close> returned.\<close>

definition streamEnds :: "bool \<Rightarrow> string option \<Rightarrow> laneState \<Rightarrow> registry \<Rightarrow> laneState \<times> registry" where
  "streamEnds cancelled err l reg =
     (if cancelled then (l\<lparr>lsWatcher := WatcherReturned\<rparr>, reg)
      else case err of
        Some _ \<Rightarrow>
          let fails = Suc (lsFails l)
          in ((fireTrigger l)\<lparr>lsWatcher := InBackoff, lsFails := fails, lsPause := watchBackoffFor fails,
                hDrops := Suc (hDrops l)\<rparr>, watchFailed (lsLane l) reg)
      | None \<Rightarrow>
          ((fireTrigger l)\<lparr>lsWatcher := InBackoff, lsFails := 0, lsPause := watchBackoffFor 0\<rparr>,
             watchConnected (lsLane l) 1 reg))"

definition passReturns :: "string option \<Rightarrow> laneState \<Rightarrow> laneState" where
  "passReturns err l = l\<lparr>lsLoop := AtSelect, hLast := Some (err = None),
     hFailed := (if err = None then hFailed l else Suc (hFailed l))\<rparr>"

text \<open>The watcher's next stream, or its return when the context is done.\<close>

definition nextStream :: "bool \<Rightarrow> laneState \<Rightarrow> laneState" where
  "nextStream cancelled l = l\<lparr>lsWatcher := (if cancelled then WatcherReturned else InStream)\<rparr>"

text \<open>One step of a lane, on the registry, the channels and the lane; None when it is not ready.\<close>

fun laneStep :: "managerState \<Rightarrow> laneEvent \<Rightarrow> laneState \<Rightarrow> (registry \<times> bool list \<times> laneState) option" where
  "laneStep m WatcherStarts l =
     (if lsWatcher l = WatcherNew
      then Some (watchConnected (lsLane l) 1 (msReg m), msChans m, nextStream (msCancelled m) l)
      else None)"
| "laneStep m WatchFrame l =
     (if lsWatcher l = InStream then Some (msReg m, msChans m, fireTrigger l) else None)"
| "laneStep m (StreamEnds err) l =
     (if lsWatcher l = InStream
      then let (l, reg) = streamEnds (msCancelled m) err l (msReg m) in Some (reg, msChans m, l)
      else None)"
| "laneStep m BackoffDone l =
     (if lsWatcher l = InBackoff then Some (msReg m, msChans m, nextStream (msCancelled m) l) else None)"
| "laneStep m BackoffCancelled l =
     (if lsWatcher l = InBackoff \<and> msCancelled m
      then Some (msReg m, msChans m, l\<lparr>lsWatcher := WatcherReturned\<rparr>) else None)"
| "laneStep m (InitialPass t) l =
     (if lsLoop l = LoopNew then Some (passBegins (lsLane l) (msReg m), msChans m, beginPass m t l) else None)"
| "laneStep m (OnTrigger t) l =
     (if lsLoop l = AtSelect \<and> lsTrigger l
      then Some (passBegins (lsLane l) (msReg m), msChans m, beginPass m t (l\<lparr>lsTrigger := False\<rparr>))
      else None)"
| "laneStep m (OnTick t) l =
     (if lsLoop l = AtSelect \<and> rlInterval (lsLane l) > 0
      then Some (passBegins (lsLane l) (msReg m), msChans m, beginPass m t l) else None)"
| "laneStep m (OnKick t) l =
     (case lsKick l of
        None \<Rightarrow> None
      | Some c \<Rightarrow>
          if lsLoop l = AtSelect \<and> c < length (msChans m) \<and> msChans m ! c
          then Some (passBegins (lsLane l) (msReg m), (msChans m)[c := False], beginPass m t l)
          else None)"
| "laneStep m (PassReturns t err) l =
     (if lsLoop l = InPass
      then Some (passEnds (lsLane l) (lsStarted l) t err (msReg m), msChans m, passReturns err l) else None)"
| "laneStep m LoopCancelled l =
     (if lsLoop l = AtSelect \<and> msCancelled m
      then Some (msReg m, msChans m, l\<lparr>lsLoop := AwaitWatcher\<rparr>) else None)"
| "laneStep m WatcherJoined l =
     (if lsLoop l = AwaitWatcher \<and> lsWatcher l = WatcherReturned
      then Some (msReg m, msChans m, l\<lparr>lsLoop := LoopReturned\<rparr>) else None)"

fun managerStep :: "managerEvent \<Rightarrow> managerState \<Rightarrow> managerState option" where
  "managerStep SpawnLane m =
     (case msTodo m of
        [] \<Rightarrow> None
      | r # rest \<Rightarrow>
          (case msKicker m of
             None \<Rightarrow> Some (m\<lparr>msTodo := rest, msLanes := msLanes m @ [spawned r None]\<rparr>)
           | Some subs \<Rightarrow>
               let (subs, chans, c) = subscribe subs (msChans m)
               in Some (m\<lparr>msTodo := rest, msKicker := Some subs, msChans := chans,
                          msLanes := msLanes m @ [spawned r (Some c)]\<rparr>)))"
| "managerStep LeadershipGained m =
     (if msLeader m \<or> msCallback m then None else Some (m\<lparr>msLeader := True, msCallback := True, hTerm := Suc (hTerm m)\<rparr>))"
| "managerStep AcquireCallback m =
     (if msCallback m then Some (m\<lparr>msCallback := False, msChans := Kick (msKicker m) (msChans m)\<rparr>) else None)"
| "managerStep LeadershipLost m =
     (if msLeader m \<and> \<not> msCallback m then Some (m\<lparr>msLeader := False\<rparr>) else None)"
| "managerStep ContextCancelled m = Some (m\<lparr>msCancelled := True\<rparr>)"
| "managerStep (AtLane i e) m =
     (if i < length (msLanes m)
      then (case laneStep m e (msLanes m ! i) of
              None \<Rightarrow> None
            | Some (reg, chans, l) \<Rightarrow> Some (m\<lparr>msReg := reg, msChans := chans, msLanes := (msLanes m)[i := l]\<rparr>))
      else None)"

fun managerRun :: "managerEvent list \<Rightarrow> managerState \<Rightarrow> managerState option" where
  "managerRun [] m = Some m"
| "managerRun (e # es) m = (case managerStep e m of None \<Rightarrow> None | Some m \<Rightarrow> managerRun es m)"

text \<open>What \<open>runReconcile\<close> starts: the elector's goroutine is already running.\<close>

definition managerStart :: "string \<Rightarrow> bool \<Rightarrow> reconcilerLane list \<Rightarrow> managerState" where
  "managerStart version kicks recs =
     \<lparr>msReg = setGauge ''llz_reconcile_build_info'' ''llz reconciler build info (constant 1)''
        [(''version'', version)] 1 newRegistry,
      msChans = [], msKicker = (if kicks then Some [] else None), msTodo = recs, msLanes = [],
      msCancelled = False, msLeader = False, msCallback = False, hTerm = 0\<rparr>"

definition managerReturned :: "managerState \<Rightarrow> bool" where
  "managerReturned m \<longleftrightarrow> msTodo m = [] \<and> list_all (\<lambda>l. lsLoop l = LoopReturned) (msLanes m)"

inductive managerReaches :: "managerState \<Rightarrow> managerState \<Rightarrow> bool" for m0 where
  start: "managerReaches m0 m0"
| step: "managerReaches m0 m \<Longrightarrow> managerStep e m = Some m' \<Longrightarrow> managerReaches m0 m'"

subsection \<open>Backoff\<close>

lemma doubleLoop_eq:
  assumes "0 < d" "d \<le> watchReconnectBackoffMax"
  shows "min (doubleLoop n d) watchReconnectBackoffMax = min (d * 2 ^ n) watchReconnectBackoffMax"
  using assms(1)
proof (induction n arbitrary: d)
  case (Suc n)
  show ?case
  proof (cases "d < watchReconnectBackoffMax")
    case True
    then show ?thesis using Suc.IH [of "d * 2"] Suc.prems by (simp add: mult.assoc)
  next
    case False
    have "d * 1 \<le> d * 2 ^ Suc n" using Suc.prems by (intro mult_left_mono one_le_power) simp_all
    with False have "watchReconnectBackoffMax \<le> d * 2 ^ Suc n" by linarith
    with False show ?thesis by (simp add: min_absorb2)
  qed
qed simp

lemma watchBackoffFor_eq: "watchBackoffFor n = min (watchReconnectBackoff * 2 ^ n) watchReconnectBackoffMax"
  using doubleLoop_eq [of watchReconnectBackoff n] by (auto simp: watchBackoffFor_def Let_def min_def split: if_splits)

subsection \<open>Channels and lanes stay wired\<close>

definition lanesWired :: "managerState \<Rightarrow> bool" where
  "lanesWired m \<longleftrightarrow> (case msKicker m of
     None \<Rightarrow> \<forall>i < length (msLanes m). lsKick (msLanes m ! i) = None
   | Some subs \<Rightarrow> subs = [0..<length (msLanes m)] \<and> length (msChans m) = length (msLanes m) \<and>
       (\<forall>i < length (msLanes m). lsKick (msLanes m ! i) = Some i))"

lemma fold_set_True:
  "n \<le> length cs \<Longrightarrow> fold (\<lambda>i cs. cs[i := True]) [0..<n] cs = replicate n True @ drop n cs"
proof (induction n)
  case (Suc n)
  then have "fold (\<lambda>i cs. cs[i := True]) [0..<Suc n] cs = (replicate n True @ drop n cs)[n := True]" by simp
  also have "drop n cs = cs ! n # drop (Suc n) cs" using Suc.prems by (simp add: Cons_nth_drop_Suc)
  finally show ?case by (simp add: list_update_append replicate_append_same flip: replicate_Suc append_Cons)
qed simp

lemma Kick_all: "length chans = n \<Longrightarrow> Kick (Some [0..<n]) chans = replicate n True"
  by (simp add: Kick_def fold_set_True)

lemma laneStep_frame:
  assumes "laneStep m e l = Some (reg, chans, l')"
  shows "lsKick l' = lsKick l \<and> lsLane l' = lsLane l \<and> length chans = length (msChans m) \<and>
    (\<forall>j. lsKick l \<noteq> Some j \<longrightarrow> chans ! j = msChans m ! j)"
  using assms by (cases e) (auto simp: nextStream_def fireTrigger_def streamEnds_def Let_def beginPass_def passReturns_def
      nth_list_update split: if_splits option.splits)

lemma managerStep_frame:
  assumes "managerStep e m = Some m'"
  shows "length (msLanes m) \<le> length (msLanes m') \<and>
    (\<forall>i < length (msLanes m). lsLane (msLanes m' ! i) = lsLane (msLanes m ! i) \<and> lsKick (msLanes m' ! i) = lsKick (msLanes m ! i)) \<and>
    map lsLane (msLanes m') @ msTodo m' = map lsLane (msLanes m) @ msTodo m"
proof (cases e)
  case (AtLane i ev)
  with assms obtain reg chans l where i: "i < length (msLanes m)" and st: "laneStep m ev (msLanes m ! i) = Some (reg, chans, l)"
    and m': "m' = m\<lparr>msReg := reg, msChans := chans, msLanes := (msLanes m)[i := l]\<rparr>"
    by (auto split: if_splits option.splits)
  have "map lsLane ((msLanes m)[i := l]) = map lsLane (msLanes m)"
    using laneStep_frame [OF st] i by (intro nth_equalityI) (auto simp: nth_list_update)
  then show ?thesis using m' i laneStep_frame [OF st] by (auto simp: nth_list_update)
qed (use assms in \<open>auto simp: Let_def subscribe_def spawned_def nth_append split: list.splits option.splits if_splits\<close>)

lemma wired_step:
  assumes "managerStep e m = Some m'" "lanesWired m"
  shows "lanesWired m'"
proof (cases e)
  case (AtLane i ev)
  with assms(1) obtain reg chans l where i: "i < length (msLanes m)" and st: "laneStep m ev (msLanes m ! i) = Some (reg, chans, l)"
    and m': "m' = m\<lparr>msReg := reg, msChans := chans, msLanes := (msLanes m)[i := l]\<rparr>"
    by (auto split: if_splits option.splits)
  show ?thesis using assms(2) m' i laneStep_frame [OF st]
    by (auto simp: lanesWired_def nth_list_update split: option.splits)
next
  case AcquireCallback
  then show ?thesis using assms
    by (auto simp: lanesWired_def Kick_all split: if_splits option.splits)
next
  case SpawnLane
  then show ?thesis using assms
    by (auto simp: lanesWired_def subscribe_def spawned_def nth_append less_Suc_eq split: option.splits list.splits)
qed (use assms in \<open>auto simp: lanesWired_def split: if_splits option.splits\<close>)

lemma wired_start: "lanesWired (managerStart v k recs)"
  by (simp add: lanesWired_def managerStart_def)

lemma managerReaches_wired: "managerReaches m0 m \<Longrightarrow> lanesWired m0 \<Longrightarrow> lanesWired m"
  by (induction rule: managerReaches.induct) (auto intro: wired_step)

lemma managerReaches_lanes:
  "managerReaches m0 m \<Longrightarrow> map lsLane (msLanes m) @ msTodo m = map lsLane (msLanes m0) @ msTodo m0"
  by (induction rule: managerReaches.induct) (auto dest: managerStep_frame)

subsection \<open>No wake-up is lost\<close>

definition laneAwake :: "managerState \<Rightarrow> laneState \<Rightarrow> bool" where
  "laneAwake m l \<longleftrightarrow> hRead l \<le> hNews l \<and> (hRead l < hNews l \<longrightarrow> lsTrigger l \<or> lsLoop l = LoopNew) \<and>
     (\<forall>c. lsKick l = Some c \<and> msLeader m \<and> \<not> msCallback m \<longrightarrow>
        hLed l = Some (hTerm m) \<or> msChans m ! c \<or> lsLoop l = LoopNew)"

lemma laneStep_awake:
  assumes "laneStep m e l = Some (reg, chans, l')" "laneAwake m l" "\<forall>c. lsKick l = Some c \<longrightarrow> c < length (msChans m)"
  shows "laneAwake (m\<lparr>msReg := reg, msChans := chans, msLanes := ls\<rparr>) l'"
  using assms by (cases e) (auto simp: laneAwake_def nextStream_def fireTrigger_def streamEnds_def Let_def beginPass_def
      passReturns_def split: if_splits option.splits)

lemma awake_step:
  assumes "managerStep e m = Some m'" "lanesWired m" "\<forall>i < length (msLanes m). laneAwake m (msLanes m ! i)"
  shows "\<forall>i < length (msLanes m'). laneAwake m' (msLanes m' ! i)"
proof (cases e)
  case (AtLane i ev)
  with assms(1) obtain reg chans l where i: "i < length (msLanes m)" and st: "laneStep m ev (msLanes m ! i) = Some (reg, chans, l)"
    and m': "m' = m\<lparr>msReg := reg, msChans := chans, msLanes := (msLanes m)[i := l]\<rparr>"
    by (auto split: if_splits option.splits)
  show ?thesis
  proof (intro allI impI)
    fix j
    assume "j < length (msLanes m')"
    then have j: "j < length (msLanes m)" using m' by simp
    show "laneAwake m' (msLanes m' ! j)"
    proof (cases "j = i")
      case True
      have "\<forall>c. lsKick (msLanes m ! i) = Some c \<longrightarrow> c < length (msChans m)"
        using assms(2) i by (auto simp: lanesWired_def split: option.splits)
      then show ?thesis using laneStep_awake [OF st] assms(3) m' i True by simp
    next
      case False
      have "lsKick (msLanes m ! j) = Some c \<Longrightarrow> lsKick (msLanes m ! i) \<noteq> Some c" for c
        using assms(2) i j False by (auto simp: lanesWired_def split: option.splits)
      then have "chans ! c = msChans m ! c" if "lsKick (msLanes m ! j) = Some c" for c
        using laneStep_frame [OF st] that by blast
      then show ?thesis using assms(3) j m' False by (auto simp: laneAwake_def)
    qed
  qed
next
  case SpawnLane
  then obtain r k where r: "msLanes m' = msLanes m @ [spawned r k]"
    and m': "msLeader m' = msLeader m" "msCallback m' = msCallback m" "hTerm m' = hTerm m"
    and chans: "\<forall>c < length (msChans m). msChans m' ! c = msChans m ! c"
    using assms(1) by (auto simp: subscribe_def nth_append split: option.splits list.splits)
  have new: "laneAwake m' (spawned r k)" by (simp add: laneAwake_def spawned_def)
  have old: "laneAwake m' (msLanes m ! i)" if i: "i < length (msLanes m)" for i
  proof -
    have "lsKick (msLanes m ! i) = Some c \<Longrightarrow> c < length (msChans m)" for c
      using assms(2) i by (auto simp: lanesWired_def split: option.splits)
    then show ?thesis using assms(3) i m' chans by (auto simp: laneAwake_def)
  qed
  show ?thesis using new old r by (auto simp: nth_append less_Suc_eq)
next
  case AcquireCallback
  then show ?thesis using assms by (auto simp: laneAwake_def lanesWired_def Kick_all split: if_splits option.splits)
qed (use assms in \<open>auto simp: laneAwake_def split: if_splits\<close>)

lemma managerReaches_awake:
  "managerReaches (managerStart v k recs) m \<Longrightarrow> i < length (msLanes m) \<Longrightarrow> laneAwake m (msLanes m ! i)"
proof (induction arbitrary: i rule: managerReaches.induct)
  case start
  then show ?case by (simp add: managerStart_def)
next
  case (step m e m')
  have "lanesWired m" using step.hyps(1) wired_start managerReaches_wired by blast
  from awake_step [OF step.hyps(2) this] step.IH step.prems show ?case by blast
qed

subsection \<open>The series of a lane tell its history\<close>

definition bumped :: "int \<Rightarrow> int option \<Rightarrow> int option" where
  "bumped d v = Some (d + (case v of None \<Rightarrow> 0 | Some v \<Rightarrow> v))"

lemma series_addCounter:
  "plainKeys a \<Longrightarrow> plainKeys b \<Longrightarrow> series (addCounter name help a d r) name b =
     (if set a = set b then bumped d (series r name b) else series r name b)"
  using renderLabels_inj [of a b] by (cases "set a = set b")
    (simp_all add: series_def addCounter_def Let_def familyOf_samples bumped_def split: option.split)

lemma series_addCounter_other: "name' \<noteq> name \<Longrightarrow> series (addCounter name help a d r) name' b = series r name' b"
  by (simp add: series_def addCounter_def Let_def)

lemma plain_laneLabel: "plainKeys (laneLabel r)"
  by (simp add: plainKeys_def)

text \<open>Runs, errors, up, watch errors and connection of a lane.\<close>

definition laneSeries :: "registry \<Rightarrow> reconcilerLane \<Rightarrow> int option list" where
  "laneSeries reg r = map (\<lambda>f. series reg f (laneLabel r))
     [''llz_reconcile_runs_total'', ''llz_reconcile_errors_total'', ''llz_reconcile_up'',
      ''llz_watch_errors_total'', ''llz_watch_connected'']"

lemmas lane_series = laneSeries_def series_addCounter series_addCounter_other series_setGauge
  series_setGauge_other plain_laneLabel

lemma passBegins_series:
  "laneSeries (passBegins r reg) r' = (if rlName r = rlName r'
     then (case laneSeries reg r' of x # y # rest \<Rightarrow> bumped 1 x # bumped 0 y # rest | _ \<Rightarrow> [])
     else laneSeries reg r')"
  by (simp add: lane_series passBegins_def Let_def)

lemma passEnds_series:
  "laneSeries (passEnds r s t err reg) r' = (if rlName r = rlName r'
     then (case laneSeries reg r' of x # y # z # rest \<Rightarrow>
        (if err = None then x # y # Some 1 # rest else x # bumped 1 y # Some 0 # rest) | _ \<Rightarrow> [])
     else laneSeries reg r')"
  by (cases err) (simp_all add: lane_series passEnds_def Let_def)

lemma watchConnected_series:
  "laneSeries (watchConnected r v reg) r' = (if rlName r = rlName r'
     then (laneSeries reg r')[4 := Some v] else laneSeries reg r')"
  by (simp add: lane_series watchConnected_def)

lemma watchFailed_series:
  "laneSeries (watchFailed r reg) r' = (if rlName r = rlName r'
     then (case laneSeries reg r' of x # y # z # u # rest \<Rightarrow> [x, y, z, bumped 1 u, Some 0] | _ \<Rightarrow> [])
     else laneSeries reg r')"
  by (simp add: lane_series watchFailed_def watchConnected_def)

text \<open>What the series of a lane must say.\<close>

definition counted :: "bool \<Rightarrow> nat \<Rightarrow> int option" where
  "counted registered n = (if registered then Some (int n) else None)"

definition laneBook :: "laneState \<Rightarrow> int option list" where
  "laneBook l =
     [counted (hPasses l \<noteq> 0) (hPasses l), counted (hPasses l \<noteq> 0) (hFailed l),
      map_option of_bool (hLast l), counted (hDrops l \<noteq> 0) (hDrops l),
      (if rlWatched (lsLane l) \<and> lsWatcher l \<noteq> WatcherNew then Some (of_bool (lsFails l = 0)) else None)]"

definition laneSane :: "laneState \<Rightarrow> bool" where
  "laneSane l \<longleftrightarrow> (\<not> rlWatched (lsLane l) \<longrightarrow> lsWatcher l = WatcherReturned) \<and>
     (lsWatcher l = WatcherNew \<longrightarrow> lsFails l = 0) \<and> (lsLoop l = InPass \<longrightarrow> hPasses l \<noteq> 0) \<and>
     (lsLoop l = LoopNew \<longrightarrow> hPasses l = 0 \<and> hFailed l = 0) \<and> (hPasses l = 0 \<longrightarrow> hFailed l = 0) \<and>
     (lsLoop l = LoopReturned \<longrightarrow> lsWatcher l = WatcherReturned) \<and>
     (lsWatcher l = InBackoff \<longrightarrow> lsPause l = watchBackoffFor (lsFails l))"

lemma book_begin: "laneSane l \<Longrightarrow> laneBook (beginPass m t l) =
    (case laneBook l of x # y # rest \<Rightarrow> bumped 1 x # bumped 0 y # rest | _ \<Rightarrow> [])"
  by (simp add: laneBook_def beginPass_def counted_def bumped_def laneSane_def)

lemma book_return: "laneSane l \<Longrightarrow> lsLoop l = InPass \<Longrightarrow> laneBook (passReturns err l) =
    (case laneBook l of x # y # z # rest \<Rightarrow>
        (if err = None then x # y # Some 1 # rest else x # bumped 1 y # Some 0 # rest) | _ \<Rightarrow> [])"
  by (simp add: laneBook_def passReturns_def counted_def bumped_def laneSane_def)

lemma book_start: "laneSane l \<Longrightarrow> lsWatcher l = WatcherNew \<Longrightarrow>
    laneBook (nextStream c l) = (laneBook l)[4 := Some 1]"
  by (cases "rlWatched (lsLane l)") (simp_all add: laneBook_def nextStream_def laneSane_def)

lemma book_next: "lsWatcher l \<noteq> WatcherNew \<Longrightarrow> laneBook (nextStream c l) = laneBook l"
  by (simp add: laneBook_def nextStream_def)

lemma book_stream:
  assumes "laneSane l" "lsWatcher l = InStream" "laneSeries reg (lsLane l) = laneBook l"
    "streamEnds c err l reg = (l', reg')"
  shows "laneSeries reg' (lsLane l) = laneBook l'"
proof -
  have w: "rlWatched (lsLane l)" using assms(1,2) by (auto simp: laneSane_def)
  show ?thesis
  proof (cases c)
    case True
    then have "l' = l\<lparr>lsWatcher := WatcherReturned\<rparr>" "reg' = reg" using assms(4) by (simp_all add: streamEnds_def)
    then show ?thesis using assms(2,3) by (simp add: laneBook_def)
  next
    case False
    then show ?thesis using assms(4) w
      by (cases err) (auto simp: streamEnds_def Let_def fireTrigger_def watchFailed_series
          watchConnected_series assms(3) laneBook_def counted_def bumped_def)
  qed
qed

lemma sane_steps:
  "laneSane l \<Longrightarrow> laneSane (beginPass m t l)"
  "laneSane l \<Longrightarrow> lsLoop l = InPass \<Longrightarrow> laneSane (passReturns err l)"
  "laneSane (fireTrigger l) = laneSane l"
  "laneSane (l\<lparr>lsTrigger := b\<rparr>) = laneSane l"
  "laneSane l \<Longrightarrow> lsWatcher l \<noteq> WatcherReturned \<Longrightarrow> laneSane (nextStream c l)"
  "laneSane l \<Longrightarrow> laneSane (l\<lparr>lsWatcher := WatcherReturned\<rparr>)"
  "laneSane l \<Longrightarrow> lsLoop l \<noteq> LoopNew \<Longrightarrow> laneSane (l\<lparr>lsLoop := AwaitWatcher\<rparr>)"
  "laneSane l \<Longrightarrow> lsLoop l \<noteq> LoopNew \<Longrightarrow> lsWatcher l = WatcherReturned \<Longrightarrow> laneSane (l\<lparr>lsLoop := LoopReturned\<rparr>)"
  by (auto simp: laneSane_def nextStream_def fireTrigger_def beginPass_def passReturns_def)

lemma sane_stream:
  assumes "laneSane l" "lsWatcher l = InStream" "streamEnds c err l reg = (l', reg')"
  shows "laneSane l'"
proof (cases c)
  case True
  then show ?thesis using assms by (auto simp: streamEnds_def sane_steps)
next
  case False
  then show ?thesis using assms
    by (cases err) (simp_all add: streamEnds_def Let_def fireTrigger_def laneSane_def, force+)
qed

lemma laneStep_sane:
  assumes "laneStep m e l = Some (reg, chans, l')" "laneSane l"
  shows "laneSane l'"
proof (cases e)
  case (StreamEnds err)
  then show ?thesis using assms sane_stream [OF assms(2)] by (auto split: if_splits prod.splits)
qed (use assms in \<open>auto simp: sane_steps split: if_splits option.splits\<close>)

lemma book_irrelevant:
  "laneBook (l\<lparr>lsTrigger := b\<rparr>) = laneBook l" "laneBook (fireTrigger l) = laneBook l"
  "laneBook (l\<lparr>lsLoop := p\<rparr>) = laneBook l"
  "lsWatcher l \<noteq> WatcherNew \<Longrightarrow> w \<noteq> WatcherNew \<Longrightarrow> laneBook (l\<lparr>lsWatcher := w\<rparr>) = laneBook l"
  by (simp_all add: laneBook_def fireTrigger_def)

lemma laneStep_book:
  assumes "laneStep m e l = Some (reg, chans, l')" "laneSane l" "laneSeries (msReg m) (lsLane l) = laneBook l"
  shows "laneSeries reg (lsLane l) = laneBook l'"
proof (cases e)
  case (StreamEnds err)
  then show ?thesis using assms book_stream [OF assms(2) _ assms(3)] by (auto split: if_splits prod.splits)
qed (use assms in \<open>auto simp: book_begin book_return book_start book_next book_irrelevant sane_steps passBegins_series
    passEnds_series watchConnected_series split: if_splits option.splits\<close>)

lemma laneStep_others:
  assumes "laneStep m e l = Some (reg, chans, l')" "rlName (lsLane l) \<noteq> rlName r"
  shows "laneSeries reg r = laneSeries (msReg m) r"
  using assms by (cases e) (auto simp: streamEnds_def Let_def passBegins_series passEnds_series watchConnected_series watchFailed_series
      split: if_splits option.splits)

definition booksKept :: "managerState \<Rightarrow> bool" where
  "booksKept m \<longleftrightarrow> list_all (\<lambda>l. laneSane l \<and> laneSeries (msReg m) (lsLane l) = laneBook l) (msLanes m) \<and>
     list_all (\<lambda>r. laneSeries (msReg m) r = [None, None, None, None, None]) (msTodo m)"

lemma lsLane_spawned [simp]: "lsLane (spawned r k) = r"
  by (simp add: spawned_def)

lemma spawned_book: "laneSane (spawned r k)" "laneBook (spawned r k) = [None, None, None, None, None]"
  by (simp_all add: laneSane_def laneBook_def spawned_def counted_def)

lemma books_step:
  assumes "managerStep e m = Some m'" "booksKept m" "distinct (map rlName (map lsLane (msLanes m) @ msTodo m))"
  shows "booksKept m'"
proof (cases e)
  case (AtLane i ev)
  with assms(1) obtain reg chans l where i: "i < length (msLanes m)" and st: "laneStep m ev (msLanes m ! i) = Some (reg, chans, l)"
    and m': "m' = m\<lparr>msReg := reg, msChans := chans, msLanes := (msLanes m)[i := l]\<rparr>"
    by (auto split: if_splits option.splits)
  have old: "laneSane (msLanes m ! j)" "laneSeries (msReg m) (lsLane (msLanes m ! j)) = laneBook (msLanes m ! j)"
    if "j < length (msLanes m)" for j
    using assms(2) that by (simp_all add: booksKept_def list_all_length)
  have "rlName (lsLane (msLanes m ! i)) \<noteq> rlName r" if "r \<in> set (msTodo m)" for r
    using assms(3) i that by (auto simp: disjoint_iff dest: nth_mem)
  then have todo: "list_all (\<lambda>r. laneSeries reg r = [None, None, None, None, None]) (msTodo m)"
    using assms(2) laneStep_others [OF st] by (auto simp: booksKept_def list_all_iff)
  have "laneSane ((msLanes m)[i := l] ! j) \<and> laneSeries reg (lsLane ((msLanes m)[i := l] ! j)) = laneBook ((msLanes m)[i := l] ! j)"
    if j: "j < length (msLanes m)" for j
  proof (cases "j = i")
    case True
    then show ?thesis using laneStep_sane [OF st] laneStep_book [OF st] laneStep_frame [OF st] old [OF i] i by simp
  next
    case False
    have "map (rlName \<circ> lsLane) (msLanes m) ! i \<noteq> map (rlName \<circ> lsLane) (msLanes m) ! j"
      using assms(3) False i j by (simp add: nth_eq_iff_index_eq del: nth_map)
    then show ?thesis using laneStep_others [OF st] old [OF j] False i j by simp
  qed
  then show ?thesis using m' todo by (simp add: booksKept_def list_all_length)
next
  case SpawnLane
  then show ?thesis using assms
    by (auto simp: booksKept_def spawned_book Let_def subscribe_def split: option.splits list.splits)
qed (use assms in \<open>auto simp: booksKept_def split: if_splits option.splits\<close>)

lemma managerReaches_books:
  assumes "managerReaches (managerStart v k recs) m" "distinct (map rlName recs)"
  shows "booksKept m"
  using assms
proof (induction rule: managerReaches.induct)
  case start
  have "series newRegistry f a = None" for f a by (simp add: series_def newRegistry_def)
  then show ?case by (simp add: booksKept_def managerStart_def laneSeries_def series_setGauge_other list_all_iff)
next
  case (step m e m')
  have "map lsLane (msLanes m) @ msTodo m = recs"
    using managerReaches_lanes [OF step.hyps(1)] by (simp add: managerStart_def)
  then show ?case using books_step [OF step.hyps(2)] step.IH step.prems by simp
qed

subsection \<open>Cancellation\<close>

fun loopWeight :: "loopAt \<Rightarrow> nat" where
  "loopWeight LoopNew = 4"
| "loopWeight InPass = 3"
| "loopWeight AtSelect = 2"
| "loopWeight AwaitWatcher = 1"
| "loopWeight LoopReturned = 0"

definition laneWeight :: "laneState \<Rightarrow> nat" where
  "laneWeight l = loopWeight (lsLoop l) + (if lsWatcher l = WatcherReturned then 0 else 1)"

definition managerWeight :: "managerState \<Rightarrow> nat" where
  "managerWeight m = 6 * length (msTodo m) + sum_list (map laneWeight (msLanes m))"

lemma sum_list_map_update:
  fixes f :: "'a \<Rightarrow> nat"
  shows "i < length xs \<Longrightarrow> sum_list (map f (xs[i := x])) + f (xs ! i) = sum_list (map f xs) + f x"
  by (induction xs arbitrary: i) (auto split: nat.split)

lemma lane_unwinds:
  assumes "msCancelled m" "lsLoop l \<noteq> LoopReturned"
  shows "\<exists>e reg chans l'. laneStep m e l = Some (reg, chans, l') \<and> laneWeight l' < laneWeight l"
proof (cases "lsLoop l = AwaitWatcher \<and> lsWatcher l \<noteq> WatcherReturned")
  case True
  have "laneStep m (case lsWatcher l of WatcherNew \<Rightarrow> WatcherStarts | InStream \<Rightarrow> StreamEnds None | _ \<Rightarrow> BackoffCancelled) l
      \<in> {Some (reg, chans, l\<lparr>lsWatcher := WatcherReturned\<rparr>) | reg chans. True}"
    using True assms by (cases "lsWatcher l") (simp_all add: nextStream_def streamEnds_def)
  then show ?thesis using True by (force simp: laneWeight_def)
next
  case False
  define e where "e = (case lsLoop l of LoopNew \<Rightarrow> InitialPass 0 | InPass \<Rightarrow> PassReturns 0 None | AtSelect \<Rightarrow> LoopCancelled | _ \<Rightarrow> WatcherJoined)"
  have "\<exists>reg chans l'. laneStep m e l = Some (reg, chans, l') \<and> laneWeight l' < laneWeight l"
    using False assms by (cases "lsLoop l") (auto simp: e_def laneWeight_def beginPass_def passReturns_def)
  then show ?thesis by blast
qed

lemma manager_unwinds:
  assumes "msCancelled m" "\<not> managerReturned m"
  shows "\<exists>e m'. managerStep e m = Some m' \<and> msCancelled m' \<and> managerWeight m' < managerWeight m"
proof (cases "msTodo m")
  case (Cons r rest)
  then have "\<exists>m'. managerStep SpawnLane m = Some m' \<and> msCancelled m' \<and> managerWeight m' < managerWeight m"
    using assms(1) by (cases "msKicker m") (auto simp: managerWeight_def laneWeight_def subscribe_def spawned_def)
  then show ?thesis by blast
next
  case Nil
  then obtain i where i: "i < length (msLanes m)" and "lsLoop (msLanes m ! i) \<noteq> LoopReturned"
    using assms(2) by (auto simp: managerReturned_def list_all_length)
  from lane_unwinds [OF assms(1) this(2)] obtain e reg chans l where
    st: "laneStep m e (msLanes m ! i) = Some (reg, chans, l)" and w: "laneWeight l < laneWeight (msLanes m ! i)" by blast
  have "sum_list (map laneWeight ((msLanes m)[i := l])) < sum_list (map laneWeight (msLanes m))"
    using sum_list_map_update [OF i, of laneWeight l] w by linarith
  then show ?thesis using st i assms(1) by (intro exI [of _ "AtLane i e"]) (simp add: managerWeight_def)
qed

lemma managerRun_append:
  "managerRun (es @ fs) m = (case managerRun es m of None \<Rightarrow> None | Some m \<Rightarrow> managerRun fs m)"
  by (induction es arbitrary: m) (auto split: option.split)

lemma managerRun_reaches: "managerReaches m0 m \<Longrightarrow> managerRun es m = Some m' \<Longrightarrow> managerReaches m0 m'"
  by (induction es arbitrary: m) (auto split: option.splits intro: managerReaches.step)

lemma unwinding_run: "msCancelled m \<Longrightarrow> \<exists>es m'. managerRun es m = Some m' \<and> managerReturned m'"
proof (induction "managerWeight m" arbitrary: m rule: less_induct)
  case less
  show ?case
  proof (cases "managerReturned m")
    case True
    then have "managerRun [] m = Some m \<and> managerReturned m" by simp
    then show ?thesis by blast
  next
    case False
    then obtain e m1 where m1: "managerStep e m = Some m1" "msCancelled m1" "managerWeight m1 < managerWeight m"
      using manager_unwinds less.prems by blast
    obtain es m2 where "managerRun es m1 = Some m2" "managerReturned m2" using less.hyps [OF m1(3,2)] by blast
    then have "managerRun (e # es) m = Some m2 \<and> managerReturned m2" using m1(1) by simp
    then show ?thesis by blast
  qed
qed

subsection \<open>The lane table\<close>

lemma buildReconcilers_distinct: "distinct (map rlName (buildReconcilers opts))"
proof -
  have "distinct ([''observe''] @ (if a then [''argo-nudge''] else []) @ (if b then [''cidr-firewall''] else []) @
     (if c then [''volume-tags''] else []) @ (if d then [''sc-demote''] else []) @ (if e then [''linode-creds''] else []) @
     (if f then [''es-store-recovery''] else []) @ (if g then [''openbao-gauges''] else []) @
     (if h then [''overlay-delivery''] else []) @ (if i then [''token-inventory''] else []) @
     (if j then [''apl-overlay''] else []))" for a b c d e f g h i j
    by simp
  moreover have "map rlName (if p then [laneOf nm e2 x w g2 t] else []) = (if p then [nm] else [])" for p nm e2 x w g2 t
    by (simp add: laneOf_def)
  ultimately show ?thesis by (simp add: buildReconcilers_def laneOf_def Let_def del: distinct.simps set_simps)
qed

lemma gated_lanes_drive: "(\<exists>r \<in> set (buildReconcilers opts). rlGated r) \<longleftrightarrow> drivingEnabled opts"
  by (auto simp: buildReconcilers_def drivingEnabled_def laneOf_def Let_def)

lemma managerStep_kicker: "managerStep e m = Some m' \<Longrightarrow> (msKicker m' = None) = (msKicker m = None)"
  by (cases e) (auto simp: Let_def subscribe_def split: if_splits option.splits list.splits)

lemma managerReaches_kicker: "managerReaches (managerStart v k recs) m \<Longrightarrow> (msKicker m = None) = (\<not> k)"
  by (induction rule: managerReaches.induct) (auto dest: managerStep_kicker simp: managerStart_def)

lemma managerReaches_kick:
  assumes "managerReaches (managerStart v k recs) m" "i < length (msLanes m)"
  shows "lsKick (msLanes m ! i) = (if k then Some i else None)"
proof -
  have "lanesWired m" using assms(1) wired_start managerReaches_wired by blast
  then show ?thesis using assms(2) managerReaches_kicker [OF assms(1)]
    by (cases "msKicker m") (auto simp: lanesWired_def)
qed

subsection \<open>Properties\<close>


definition oneLane :: "reconcilerLane list" where
  "oneLane = [laneOf ''sc-demote'' ''reconcile-actions'' 0 True True False]"

definition oneLaneEvents :: "managerEvent list" where
  "oneLaneEvents = [LeadershipGained, AcquireCallback, SpawnLane, AtLane 0 WatcherStarts, AtLane 0 WatchFrame,
     AtLane 0 (InitialPass 0), AtLane 0 (StreamEnds (Some ''403'')), AtLane 0 (PassReturns 3 None),
     AtLane 0 (OnTrigger 4), AtLane 0 BackoffDone, AtLane 0 (PassReturns 9 (Some ''timeout''))]"

lemma oneLane_run:
  obtains m where "managerRun oneLaneEvents (managerStart [] True oneLane) = Some m" "length (msLanes m) = 1"
    "lsLoop (msLanes m ! 0) = AtSelect" "lsWatcher (msLanes m ! 0) = InStream" "lsFails (msLanes m ! 0) = 1"
    "\<not> lsTrigger (msLanes m ! 0)" "hNews (msLanes m ! 0) = 2" "\<not> msChans m ! 0" "msLeader m" "\<not> msCallback m"
    "lsLane (msLanes m ! 0) = hd oneLane"
    "hPasses (msLanes m ! 0) = 2" "hFailed (msLanes m ! 0) = 1" "hDrops (msLanes m ! 0) = 1" "hLast (msLanes m ! 0) = Some False"
  by (simp add: oneLaneEvents_def oneLane_def managerStart_def spawned_def laneOf_def subscribe_def Let_def nextStream_def
      fireTrigger_def streamEnds_def beginPass_def passReturns_def Kick_def)


text \<open>the metrics of a lane tell its history. In every reachable state of a manager whose lanes
  have different names, and for every lane, runs and errors are exactly the passes that began and
  that failed, both absent before the first pass; up is whether the latest pass succeeded; watch
  errors are the streams that failed; and connected is absent until the watcher starts and then 1 just
  when no stream has failed since the last clean close. No lane writes another's series.\<close>

theorem lane_series_tell_history:
  assumes "managerReaches (managerStart v k recs) m" "distinct (map rlName recs)" "l \<in> set (msLanes m)"
  shows "laneSeries (msReg m) (lsLane l) =
     [counted (hPasses l \<noteq> 0) (hPasses l), counted (hPasses l \<noteq> 0) (hFailed l),
      map_option of_bool (hLast l), counted (hDrops l \<noteq> 0) (hDrops l),
      (if rlWatched (lsLane l) \<and> lsWatcher l \<noteq> WatcherNew then Some (of_bool (lsFails l = 0)) else None)]"
proof -
  have "laneSeries (msReg m) (lsLane l) = laneBook l"
    using managerReaches_books [OF assms(1,2)] assms(3) by (simp add: booksKept_def list_all_iff)
  then show ?thesis unfolding laneBook_def .
qed

text \<open>The help text of \<open>llz_watch_connected\<close> is "1 if the reconciler's watch stream is established or
  last closed cleanly". In the witness's state the stream is established again after one failure
  and the gauge is 0; it stays 0 until the stream closes cleanly.\<close>

theorem lane_series_tell_history_witness:
  "\<exists>m. managerRun oneLaneEvents (managerStart [] True oneLane) = Some m \<and> lsWatcher (msLanes m ! 0) = InStream \<and>
     laneSeries (msReg m) (hd oneLane) = [Some 2, Some 1, Some 0, Some 1, Some 0]"
proof -
  from oneLane_run obtain m where m: "managerRun oneLaneEvents (managerStart [] True oneLane) = Some m" "length (msLanes m) = 1"
    "lsWatcher (msLanes m ! 0) = InStream" "lsFails (msLanes m ! 0) = 1" "lsLane (msLanes m ! 0) = hd oneLane"
    "hPasses (msLanes m ! 0) = 2" "hFailed (msLanes m ! 0) = 1" "hDrops (msLanes m ! 0) = 1" "hLast (msLanes m ! 0) = Some False"
    by metis
  have r: "managerReaches (managerStart [] True oneLane) m" using managerRun_reaches [OF managerReaches.start m(1)] .
  have d: "distinct (map rlName oneLane)" "rlWatched (hd oneLane)" by (simp_all add: oneLane_def laneOf_def)
  have "msLanes m ! 0 \<in> set (msLanes m)" using m(2) by simp
  from lane_series_tell_history [OF r d(1) this] m d(2) show ?thesis by (simp add: counted_def)
qed

lemma gauge_zero_while_established:
  assumes "managerReaches (managerStart v k recs) m" "distinct (map rlName recs)" "l \<in> set (msLanes m)"
    "lsWatcher l = InStream" "lsFails l > 0"
  shows "series (msReg m) ''llz_watch_connected'' (laneLabel (lsLane l)) = Some 0"
proof -
  have "laneSane l \<and> laneSeries (msReg m) (lsLane l) = laneBook l"
    using managerReaches_books [OF assms(1,2)] assms(3) by (simp add: booksKept_def list_all_iff)
  then show ?thesis using assms(4,5) by (auto simp: laneSane_def laneSeries_def laneBook_def)
qed

text \<open>the retreat of a watch that keeps failing. The pause after n failures is the base doubled n
  times and capped at a minute; the first k pauses last at least k minutes less 238 seconds, so at
  most 64 streams fail in an hour.\<close>

theorem watch_backoff:
  "watchBackoffFor n = min (watchReconnectBackoff * 2 ^ n) watchReconnectBackoffMax \<and>
   (\<Sum>j<k. watchBackoffFor (Suc j)) \<ge> second_ns * (60 * int k - 238)"
proof
  show "watchBackoffFor n = min (watchReconnectBackoff * 2 ^ n) watchReconnectBackoffMax" by (rule watchBackoffFor_eq)
  have big: "watchBackoffFor (Suc (n + 5)) = 60 * second_ns" for n
  proof -
    have "(2::int) ^ Suc (n + 5) = 64 * 2 ^ n" by (simp add: power_add)
    moreover have "(1::int) \<le> 2 ^ n" by simp
    ultimately have "(60::int) \<le> 2 ^ Suc (n + 5)" by linarith
    then show ?thesis by (simp add: watchBackoffFor_eq min_def)
  qed
  have late: "(\<Sum>j<k + 5. watchBackoffFor (Suc j)) = second_ns * (60 * int (k + 5) - 238)" for k
  proof (induction k)
    case 0
    show ?case by (simp add: watchBackoffFor_eq numeral_eq_Suc lessThan_Suc)
  next
    case (Suc k)
    have "(\<Sum>j<Suc k + 5. watchBackoffFor (Suc j)) = (\<Sum>j<k + 5. watchBackoffFor (Suc j)) + watchBackoffFor (Suc (k + 5))"
      by (simp only: add_Suc sum.lessThan_Suc)
    with Suc show ?case unfolding big by simp
  qed
  show "(\<Sum>j<k. watchBackoffFor (Suc j)) \<ge> second_ns * (60 * int k - 238)"
  proof (cases "k < 5")
    case True
    have "0 \<le> watchBackoffFor j" for j by (simp add: watchBackoffFor_eq)
    then have "0 \<le> (\<Sum>j<k. watchBackoffFor (Suc j))" by (simp add: sum_nonneg)
    moreover have "60 * int k - 238 \<le> 2" using True by simp
    ultimately show ?thesis using True
      by (cases "k < 4") (auto simp: less_Suc_eq numeral_eq_Suc watchBackoffFor_eq)
  next
    case False
    then show ?thesis using late [of "k - 5"] by simp
  qed
qed

text \<open>C27: the manager unwinds. From every reachable state with the context cancelled, whatever each lane
  is doing, some further steps bring runManager to its return: nothing waits for a step that
  cannot come; and when it has returned, every watcher has too.\<close>

theorem cancelled_manager_returns:
  assumes "managerReaches (managerStart v k recs) m" "distinct (map rlName recs)" "msCancelled m"
  shows "\<exists>es m'. managerRun es m = Some m' \<and> managerReturned m' \<and>
    list_all (\<lambda>l. lsWatcher l = WatcherReturned) (msLanes m')"
proof -
  obtain es m' where m': "managerRun es m = Some m'" "managerReturned m'" using unwinding_run [OF assms(3)] by blast
  have "booksKept m'" using managerReaches_books [OF managerRun_reaches [OF assms(1) m'(1)] assms(2)] .
  then have "list_all (\<lambda>l. lsWatcher l = WatcherReturned) (msLanes m')"
    using m'(2) by (auto simp: booksKept_def managerReturned_def laneSane_def list_all_iff)
  then show ?thesis using m' by blast
qed

theorem cancelled_manager_returns_witness:
  "\<exists>m es m'. managerRun (oneLaneEvents @ [ContextCancelled]) (managerStart [] True oneLane) = Some m \<and>
     lsWatcher (msLanes m ! 0) = InStream \<and> managerRun es m = Some m' \<and> managerReturned m' \<and>
     list_all (\<lambda>l. lsWatcher l = WatcherReturned) (msLanes m')"
proof -
  from oneLane_run obtain m where m: "managerRun oneLaneEvents (managerStart [] True oneLane) = Some m"
    "lsWatcher (msLanes m ! 0) = InStream" by metis
  let ?m = "m\<lparr>msCancelled := True\<rparr>"
  have run: "managerRun (oneLaneEvents @ [ContextCancelled]) (managerStart [] True oneLane) = Some ?m"
    using m(1) by (simp add: managerRun_append)
  have d: "distinct (map rlName oneLane)" by (simp add: oneLane_def)
  from cancelled_manager_returns [OF managerRun_reaches [OF managerReaches.start run] d] run m(2) show ?thesis by force
qed

end
