(* ===== verification/State_Passphrase.thy ===== *)
theory State_Passphrase
  imports Metrics
begin

text \<open>
  \<open>internal/shared/tfenc/tfenc.go\<close> and \<open>internal/extensions/lifecycle/statepassphrase/plan.go\<close>,
  \<open>rotate.go\<close>: the key under which the Terraform state is encrypted. The first part renders
  the \<open>TF_ENCRYPTION\<close> document from a validated configuration. The second decides whether
  a passphrase may be minted and pushed, from what GitHub answers. The third re-keys every root
  and says whether the old passphrase may be deleted. GitHub, OpenTofu and the file system are
  the parameters \<open>github\<close> and \<open>rollEnv\<close>; what a run does to them is its trace.
\<close>

subsection \<open>The encryption document\<close>

definition passphraseEnv :: string where
  "passphraseEnv = ''TF_STATE_ENCRYPTION_PASSPHRASE''"

definition keyNameEnv :: string where
  "keyNameEnv = ''TF_STATE_ENCRYPTION_KEY_NAME''"

definition passphraseOldEnv :: string where
  "passphraseOldEnv = ''TF_STATE_ENCRYPTION_PASSPHRASE_OLD''"

definition keyNameOldEnv :: string where
  "keyNameOldEnv = ''TF_STATE_ENCRYPTION_KEY_NAME_OLD''"

definition defaultKeyName :: string where
  "defaultKeyName = ''llz''"

definition minPassphraseLen :: nat where
  "minPassphraseLen = 16"

record config =
  cfPassphrase :: string
  cfKeyName :: string
  cfPassphraseOld :: string
  cfKeyNameOld :: string

text \<open>The errors, with what their messages name.\<close>

datatype tfencError =
    NotSet string
  | BadAlphabet string
  | TooShort string nat
  | NotIdentifier string string
  | NameWithoutPassphrase
  | OldNameRequired
  | SameName string

definition is_alnum :: "char \<Rightarrow> bool" where
  "is_alnum c \<longleftrightarrow> CHR ''A'' \<le> c \<and> c \<le> CHR ''Z'' \<or> CHR ''a'' \<le> c \<and> c \<le> CHR ''z'' \<or> CHR ''0'' \<le> c \<and> c \<le> CHR ''9''"

definition validatePassphrase :: "string \<Rightarrow> string \<Rightarrow> tfencError option" where
  "validatePassphrase p name =
     (if trim_space p = [] then Some (NotSet name)
      else if list_ex (\<lambda>c. \<not> (is_alnum c \<or> c \<in> set ''+/=_-'')) p then Some (BadAlphabet name)
      else if length p < minPassphraseLen then Some (TooShort name (length p))
      else None)"

definition validateKeyName :: "string \<Rightarrow> string \<Rightarrow> tfencError option" where
  "validateKeyName n envName =
     (if n = [] \<or> list_ex (\<lambda>c. \<not> (is_alnum c \<or> c = CHR ''_'')) n then Some (NotIdentifier envName n) else None)"

text \<open>\<open>%q\<close> of a validated name or passphrase puts it between double quotes.\<close>

definition writeKey :: "string \<Rightarrow> string \<Rightarrow> string" where
  "writeKey name passphrase =
     msg [''key_provider '', dq, ''pbkdf2'', dq, '' '', dq, name, dq, '' {'', nl, ''  passphrase = '', dq, passphrase, dq, nl, ''}'', nl,
          ''method '', dq, ''aes_gcm'', dq, '' '', dq, name, dq, '' {'', nl, ''  keys = key_provider.pbkdf2.'', name, nl, ''}'', nl]"

definition writeState :: "string \<Rightarrow> string \<Rightarrow> string" where
  "writeState name fallbackName =
     msg [''state {'', nl, ''  method = method.aes_gcm.'', name, nl,
          (if fallbackName \<noteq> [] then msg [''  fallback {'', nl, ''    method = method.aes_gcm.'', fallbackName, nl, ''  }'', nl] else []),
          ''}'', nl]"

definition writePlan :: "string \<Rightarrow> string" where
  "writePlan name = msg [''plan {'', nl, ''  method = method.aes_gcm.'', name, nl, ''}'', nl]"

definition migrateMethod :: string where
  "migrateMethod = msg [''method '', dq, ''unencrypted'', dq, '' '', dq, ''migrate'', dq, '' {}'', nl]"

definition build :: "config \<Rightarrow> tfencError + string" where
  "build c =
     (let keyName = (if cfKeyName c = [] then defaultKeyName else cfKeyName c)
      in case validatePassphrase (cfPassphrase c) passphraseEnv of
        Some e \<Rightarrow> Inl e
      | None \<Rightarrow> (case validateKeyName keyName keyNameEnv of
          Some e \<Rightarrow> Inl e
        | None \<Rightarrow>
          let b = writeKey keyName (cfPassphrase c) @ migrateMethod
          in if cfPassphraseOld c = [] then
               (if cfKeyNameOld c \<noteq> [] then Inl NameWithoutPassphrase
                else Inr (b @ writeState keyName [] @ writePlan keyName))
             else (case validatePassphrase (cfPassphraseOld c) passphraseOldEnv of
                 Some e \<Rightarrow> Inl e
               | None \<Rightarrow>
                 if cfKeyNameOld c = [] then Inl OldNameRequired
                 else (case validateKeyName (cfKeyNameOld c) keyNameOldEnv of
                     Some e \<Rightarrow> Inl e
                   | None \<Rightarrow>
                     if cfKeyNameOld c = keyName then Inl (SameName keyName)
                     else Inr (b @ writeKey (cfKeyNameOld c) (cfPassphraseOld c) @
                            writeState keyName (cfKeyNameOld c) @ writePlan keyName)))))"

subsection \<open>Whether a passphrase may be pushed\<close>

definition secretName :: string where
  "secretName = ''TF_STATE_ENCRYPTION_PASSPHRASE''"

text \<open>What \<open>gh api\<close> answers at a path (the error text of a failure), and the names of the
  repository's environments.\<close>

record github =
  ghExec :: "string \<Rightarrow> string option"
  ghEnvironments :: "string list option"

definition ghSecretPresent :: "github \<Rightarrow> string \<Rightarrow> bool \<times> bool" where
  "ghSecretPresent gh path = (case ghExec gh path of
     None \<Rightarrow> (True, True)
   | Some err \<Rightarrow> if contains err ''HTTP 404'' then (False, True) else (False, False))"

definition instanceInfraEnvs :: "github \<Rightarrow> string \<Rightarrow> string list \<times> bool" where
  "instanceInfraEnvs gh env =
     (let want = ''infra-'' @ env
      in case ghEnvironments gh of
        None \<Rightarrow> ([], False)
      | Some names \<Rightarrow> (want # filter (\<lambda>n. has_prefix n ''infra-'' \<and> n \<noteq> want) names, True))"

fun existsLoop :: "github \<Rightarrow> string list \<Rightarrow> bool \<times> bool" where
  "existsLoop gh [] = (False, True)"
| "existsLoop gh (p # ps) = (case ghSecretPresent gh p of (found, ok) \<Rightarrow>
     if \<not> ok then (False, False) else if found then (True, True) else existsLoop gh ps)"

definition repoSecretPath :: "string \<Rightarrow> string" where
  "repoSecretPath repo = msg [''repos/'', repo, ''/actions/secrets/'', secretName]"

definition envSecretPath :: "string \<Rightarrow> string \<Rightarrow> string" where
  "envSecretPath repo e = msg [''repos/'', repo, ''/environments/'', e, ''/secrets/'', secretName]"

definition statePassphraseExists :: "github \<Rightarrow> string \<Rightarrow> string \<Rightarrow> bool \<times> bool" where
  "statePassphraseExists gh repo env =
     (let paths = [repoSecretPath repo]
      in case instanceInfraEnvs gh env of (envs, listed) \<Rightarrow>
        if \<not> listed then (False, False)
        else existsLoop gh (paths @ map (envSecretPath repo) envs))"

datatype passphraseError = CouldNotConfirm | CouldNotDetermine | CannotGenerate string

definition dropStatePassphraseIfLive ::
  "github \<Rightarrow> string \<Rightarrow> string \<Rightarrow> (string \<rightharpoonup> string) \<Rightarrow> passphraseError + (string \<rightharpoonup> string)" where
  "dropStatePassphraseIfLive gh repo env secrets =
     (if secrets secretName = None then Inr secrets
      else case statePassphraseExists gh repo env of (present, answered) \<Rightarrow>
        if \<not> answered then Inl CouldNotConfirm
        else if \<not> present then Inr secrets
        else Inr (secrets(secretName := None)))"

record passphrasePlan =
  ppGenerate :: bool
  ppPush :: bool

definition planStatePassphrase ::
  "github \<Rightarrow> string \<Rightarrow> string \<Rightarrow> (string \<rightharpoonup> string) \<Rightarrow> passphraseError + passphrasePlan" where
  "planStatePassphrase gh repo env secrets =
     (case statePassphraseExists gh repo env of (present, answered) \<Rightarrow>
        if \<not> answered then Inl CouldNotDetermine
        else let cached = (secrets secretName \<noteq> None)
             in if present then Inr \<lparr>ppGenerate = False, ppPush = False\<rparr>
                else if cached then Inr \<lparr>ppGenerate = False, ppPush = True\<rparr>
                else Inr \<lparr>ppGenerate = True, ppPush = True\<rparr>)"

text \<open>\<open>fresh\<close> is what \<open>generateStatePassphrase\<close> returns.\<close>

definition ensureStatePassphrase ::
  "string + string \<Rightarrow> bool \<Rightarrow> bool \<Rightarrow> passphrasePlan \<Rightarrow> (string \<rightharpoonup> string) \<Rightarrow> passphraseError + (string \<rightharpoonup> string)" where
  "ensureStatePassphrase fresh dryRun yes plan secrets =
     (if \<not> ppGenerate plan then Inr secrets
      else if dryRun \<or> \<not> yes then Inr secrets
      else case fresh of
        Inl err \<Rightarrow> Inl (CannotGenerate err)
      | Inr pass \<Rightarrow> Inr (secrets(secretName \<mapsto> pass)))"

text \<open>The three calls as \<open>llz tokens\<close> makes them: the plan before the prompts, with GitHub as
  it was then, the minting after them, and the last check before the push; \<open>prompted\<close> is what
  the prompts did to the secrets. \<open>Some\<close> secrets are what the push is given.\<close>

definition tokensRun ::
  "github \<Rightarrow> github \<Rightarrow> string \<Rightarrow> string \<Rightarrow> string + string \<Rightarrow> bool \<Rightarrow> bool \<Rightarrow> ((string \<rightharpoonup> string) \<Rightarrow> (string \<rightharpoonup> string)) \<Rightarrow>
     (string \<rightharpoonup> string) \<Rightarrow> passphraseError + (string \<rightharpoonup> string)" where
  "tokensRun early late repo env fresh dryRun yes prompted secrets =
     (case planStatePassphrase early repo env secrets of
        Inl e \<Rightarrow> Inl e
      | Inr plan \<Rightarrow> (case ensureStatePassphrase fresh dryRun yes plan (prompted secrets) of
          Inl e \<Rightarrow> Inl e
        | Inr secrets \<Rightarrow> dropStatePassphraseIfLive late repo env secrets))"

subsection \<open>Re-keying the roots\<close>

definition statePassphraseRoots :: "string list" where
  "statePassphraseRoots = [''vpc'', ''cluster'', ''object-storage'', ''databases'']"

record rootRollover =
  rrRoot :: string
  rrRekeyed :: bool
  rrVerified :: bool
  rrSkipped :: string
  rrErr :: string

datatype statAnswer = StatFailed string | IsFile | IsDir

datatype rollOp = Rekey string | VerifyWith string string

text \<open>\<open>reRekey dir\<close> and \<open>reVerify dir enc\<close> are the errors of the two shell commands.\<close>

record rollEnv =
  reGetenv :: "string \<Rightarrow> string"
  reStat :: "string \<Rightarrow> statAnswer"
  reRekey :: "string \<Rightarrow> string option"
  reVerify :: "string \<Rightarrow> string \<Rightarrow> string option"

definition lastLines :: "string \<Rightarrow> nat \<Rightarrow> string" where
  "lastLines s n =
     (let lines = split_on CHR 0x0A s
      in if length lines \<le> n then s else join nl (drop (length lines - n) lines))"

definition statePassphraseRootExists :: "rollEnv \<Rightarrow> string \<Rightarrow> bool" where
  "statePassphraseRootExists w dir \<longleftrightarrow> reStat w dir = IsDir"

definition rollRoot :: "rollEnv \<Rightarrow> bool \<Rightarrow> string \<Rightarrow> string \<Rightarrow> string \<Rightarrow> rootRollover \<times> rollOp list" where
  "rollRoot w doApply rootsDir encNewOnly root =
     (let dir = msg [rootsDir, ''/'', root];
          r = \<lparr>rrRoot = root, rrRekeyed = False, rrVerified = False, rrSkipped = [], rrErr = []\<rparr>
      in if \<not> statePassphraseRootExists w dir then (r\<lparr>rrSkipped := ''root not present in this instance''\<rparr>, [])
         else if \<not> doApply then (r, [])
         else case reRekey w dir of
           Some err \<Rightarrow> (r\<lparr>rrErr := ''re-key: '' @ err\<rparr>, [Rekey dir])
         | None \<Rightarrow>
             let r = r\<lparr>rrRekeyed := True\<rparr>
             in case reVerify w dir encNewOnly of
               Some err \<Rightarrow> (r\<lparr>rrErr := ''verify with the new key alone: '' @ err\<rparr>, [Rekey dir, VerifyWith dir encNewOnly])
             | None \<Rightarrow> (r\<lparr>rrVerified := True\<rparr>, [Rekey dir, VerifyWith dir encNewOnly]))"

datatype rollClass = ClassSkipped | ClassFailed | ClassVerified | ClassPlanned

definition classOf :: "rootRollover \<Rightarrow> rollClass" where
  "classOf r = (if rrSkipped r \<noteq> [] then ClassSkipped else if rrErr r \<noteq> [] then ClassFailed
     else if rrVerified r then ClassVerified else ClassPlanned)"

text \<open>How the report ends: the two failures, and the three summaries of an exit status 0, of which
  only the last says that the old passphrase can be deleted.\<close>

datatype rollReport =
    DryRun
  | Incomplete nat nat
  | RekeyedNothing nat
  | SkippedSome nat nat "string list"
  | MayDeleteOld nat

definition reportRollover :: "rootRollover list \<Rightarrow> bool \<Rightarrow> rollReport" where
  "reportRollover results doApply =
     (let of_class = (\<lambda>k. filter (\<lambda>r. classOf r = k) results);
          skipped = length (of_class ClassSkipped);
          skippedRoots = map rrRoot (of_class ClassSkipped);
          failed = length (of_class ClassFailed);
          verified = length (of_class ClassVerified)
      in if \<not> doApply then DryRun
         else if failed > 0 then Incomplete failed (verified + failed)
         else if verified = 0 then RekeyedNothing skipped
         else if skipped > 0 then SkippedSome verified skipped skippedRoots
         else MayDeleteOld verified)"

fun exitsZero :: "rollReport \<Rightarrow> bool" where
  "exitsZero (Incomplete f n) = False"
| "exitsZero (RekeyedNothing n) = False"
| "exitsZero _ = True"

datatype rotateError =
    NoEncryption
  | NoFallback
  | NewPassphraseNotSet
  | BadNewKey tfencError
  | RootsDirUnreadable string
  | RootsDirIsFile

definition buildNewKeyOnlyEncryption :: "string \<Rightarrow> string \<Rightarrow> rotateError + string" where
  "buildNewKeyOnlyEncryption passphrase keyName =
     (if trim_space passphrase = [] then Inl NewPassphraseNotSet
      else case build \<lparr>cfPassphrase = passphrase, cfKeyName = keyName, cfPassphraseOld = [], cfKeyNameOld = []\<rparr> of
        Inl e \<Rightarrow> Inl (BadNewKey e)
      | Inr doc \<Rightarrow> Inr doc)"

definition runRotate :: "rollEnv \<Rightarrow> bool \<Rightarrow> string \<Rightarrow> (rotateError + rollReport) \<times> rollOp list" where
  "runRotate w doApply rootsDir =
     (let encBoth = reGetenv w ''TF_ENCRYPTION''
      in if trim_space encBoth = [] then (Inl NoEncryption, [])
         else if \<not> contains encBoth ''fallback'' then (Inl NoFallback, [])
         else case buildNewKeyOnlyEncryption (reGetenv w passphraseEnv) (reGetenv w keyNameEnv) of
           Inl e \<Rightarrow> (Inl e, [])
         | Inr encNewOnly \<Rightarrow>
           (case reStat w rootsDir of
              StatFailed err \<Rightarrow> (Inl (RootsDirUnreadable err), [])
            | IsFile \<Rightarrow> (Inl RootsDirIsFile, [])
            | IsDir \<Rightarrow>
                let rolled = map (rollRoot w doApply rootsDir encNewOnly) statePassphraseRoots;
                    results = sort_key rrRoot (map fst rolled)
                in (Inr (reportRollover results doApply), concat (map snd rolled))))"

subsection \<open>Lemmas: the document\<close>

lemma valid_passphrase:
  "validatePassphrase p n = None \<Longrightarrow> CHR 0x22 \<notin> set p \<and> CHR 0x0A \<notin> set p \<and> p \<noteq> [] \<and> minPassphraseLen \<le> length p"
  by (auto simp: validatePassphrase_def list_ex_iff is_alnum_def trim_space_def trim_by_def trim_left_def trim_right_def
      split: if_splits)

lemma valid_name: "validateKeyName n e = None \<Longrightarrow> CHR 0x22 \<notin> set n \<and> CHR 0x0A \<notin> set n \<and> n \<noteq> []"
  by (auto simp: validateKeyName_def list_ex_iff is_alnum_def split: if_splits)

text \<open>What is configured: the current key and, in a rotation window, the previous one.\<close>

definition keyName :: "config \<Rightarrow> string" where
  "keyName c = (if cfKeyName c = [] then defaultKeyName else cfKeyName c)"

definition wellFormed :: "config \<Rightarrow> bool" where
  "wellFormed c \<longleftrightarrow> validatePassphrase (cfPassphrase c) passphraseEnv = None \<and> validateKeyName (keyName c) keyNameEnv = None \<and>
     (cfPassphraseOld c = [] \<longleftrightarrow> cfKeyNameOld c = []) \<and>
     (cfPassphraseOld c \<noteq> [] \<longrightarrow> validatePassphrase (cfPassphraseOld c) passphraseOldEnv = None \<and>
        validateKeyName (cfKeyNameOld c) keyNameOldEnv = None \<and> cfKeyNameOld c \<noteq> keyName c)"

definition document :: "config \<Rightarrow> string" where
  "document c = writeKey (keyName c) (cfPassphrase c) @ migrateMethod @
     (if cfPassphraseOld c = [] then [] else writeKey (cfKeyNameOld c) (cfPassphraseOld c)) @
     writeState (keyName c) (cfKeyNameOld c) @ writePlan (keyName c)"

lemma build_iff: "build c = Inr doc \<longleftrightarrow> wellFormed c \<and> doc = document c"
  by (auto simp: build_def wellFormed_def document_def keyName_def [symmetric] Let_def split: option.splits)

lemma writeKey_ends:
  assumes "writeKey n p @ s = writeKey m q @ t" and "CHR 0x22 \<notin> set n" "CHR 0x22 \<notin> set m" "CHR 0x22 \<notin> set p" "CHR 0x22 \<notin> set q"
  shows "n = m \<and> p = q \<and> s = t"
proof -
  define k where "k = msg ['' {'', nl, ''  passphrase = '', dq]"
  define e where "e n = msg [nl, ''}'', nl, ''method '', dq, ''aes_gcm'', dq, '' '', dq, n, dq, '' {'', nl, ''  keys = key_provider.pbkdf2.'', n, nl, ''}'', nl]" for n
  have split: "writeKey n p = msg [''key_provider '', dq, ''pbkdf2'', dq, '' '', dq] @ n @ CHR 0x22 # k @ p @ CHR 0x22 # e n" for n p
    by (simp add: writeKey_def k_def e_def msg_def dq_def)
  have "n @ CHR 0x22 # k @ p @ CHR 0x22 # e n @ s = m @ CHR 0x22 # k @ q @ CHR 0x22 # e m @ t"
    using assms(1) by (simp add: split)
  note ends = key_ends [OF assms(2,3) this]
  have n: "n = m" by (rule conjunct1 [OF ends])
  have p: "p @ CHR 0x22 # e n @ s = q @ CHR 0x22 # e m @ t"
    using conjunct2 [OF ends] by (simp only: same_append_eq)
  from key_ends [OF assms(4,5) p] n show ?thesis by simp
qed

lemma writeState_ends:
  assumes "writeState n f @ s = writeState n g @ s" and "CHR 0x0A \<notin> set f" and "CHR 0x0A \<notin> set g"
  shows "f = g"
proof (cases "f = [] \<or> g = []")
  case False
  then have "f @ CHR 0x0A # msg [''  }'', nl, ''}'', nl] @ s = g @ CHR 0x0A # msg [''  }'', nl, ''}'', nl] @ s"
    using assms(1) by (simp add: writeState_def msg_def nl_def)
  from key_ends [OF assms(2,3) this] show ?thesis by simp
qed (use assms in \<open>auto simp: writeState_def msg_def nl_def split: if_splits\<close>)

lemma document_inj:
  assumes "wellFormed c" and "wellFormed d" and "document c = document d"
  shows "keyName c = keyName d \<and> cfPassphrase c = cfPassphrase d \<and>
    cfPassphraseOld c = cfPassphraseOld d \<and> cfKeyNameOld c = cfKeyNameOld d"
proof -
  have c: "CHR 0x22 \<notin> set (keyName a) \<and> CHR 0x22 \<notin> set (cfPassphrase a) \<and> CHR 0x22 \<notin> set (cfPassphraseOld a) \<and>
      CHR 0x22 \<notin> set (cfKeyNameOld a)" if "wellFormed a" for a
    using that valid_passphrase valid_name unfolding wellFormed_def
    by (metis empty_iff list.set(1))
  define rest where "rest a = migrateMethod @ (if cfPassphraseOld a = [] then [] else writeKey (cfKeyNameOld a) (cfPassphraseOld a)) @
      writeState (keyName a) (cfKeyNameOld a) @ writePlan (keyName a)" for a
  have "writeKey (keyName c) (cfPassphrase c) @ rest c = writeKey (keyName d) (cfPassphrase d) @ rest d"
    using assms(3) by (simp only: document_def rest_def)
  note ends = writeKey_ends [OF this]
  have n: "keyName c = keyName d" and p: "cfPassphrase c = cfPassphrase d" and rest: "rest c = rest d"
    using ends c [OF assms(1)] c [OF assms(2)] by blast+
  have r: "(if cfPassphraseOld c = [] then [] else writeKey (cfKeyNameOld c) (cfPassphraseOld c)) @
        writeState (keyName c) (cfKeyNameOld c) @ writePlan (keyName c) =
      (if cfPassphraseOld d = [] then [] else writeKey (cfKeyNameOld d) (cfPassphraseOld d)) @
        writeState (keyName c) (cfKeyNameOld d) @ writePlan (keyName c)"
    using rest by (simp only: rest_def same_append_eq n)
  have "cfPassphraseOld c = [] \<longleftrightarrow> cfPassphraseOld d = []"
    using arg_cong [OF r, of hd] by (cases "cfPassphraseOld c = []"; cases "cfPassphraseOld d = []")
      (simp_all add: writeKey_def writeState_def msg_def)
  then show ?thesis
    using n p r assms writeKey_ends [of "cfKeyNameOld c" "cfPassphraseOld c" _ "cfKeyNameOld d" "cfPassphraseOld d"]
      c [OF assms(1)] c [OF assms(2)]
    by (cases "cfPassphraseOld d = []") (auto simp: wellFormed_def)
qed

subsection \<open>Lemmas: GitHub\<close>

definition infraPaths :: "string \<Rightarrow> string \<Rightarrow> string list \<Rightarrow> string set" where
  "infraPaths repo env names = insert (repoSecretPath repo) (envSecretPath repo `
     insert (''infra-'' @ env) {n \<in> set names. has_prefix n ''infra-''})"

text \<open>The environments were listed, and at every path the answer was that there is no secret.\<close>

definition absentEverywhere :: "github \<Rightarrow> string \<Rightarrow> string \<Rightarrow> bool" where
  "absentEverywhere gh repo env \<longleftrightarrow> (\<exists>names. ghEnvironments gh = Some names \<and>
     (\<forall>p \<in> infraPaths repo env names. \<exists>err. ghExec gh p = Some err \<and> contains err ''HTTP 404''))"

lemma present_absent: "ghSecretPresent gh p = (False, True) \<longleftrightarrow> (\<exists>err. ghExec gh p = Some err \<and> contains err ''HTTP 404'')"
  by (simp add: ghSecretPresent_def split: option.split)

lemma existsLoop_absent: "existsLoop gh ps = (False, True) \<longleftrightarrow> (\<forall>p \<in> set ps. ghSecretPresent gh p = (False, True))"
  by (induction ps) (auto split: prod.splits if_splits)

lemma exists_absent: "statePassphraseExists gh repo env = (False, True) \<longleftrightarrow> absentEverywhere gh repo env"
proof (cases "ghEnvironments gh")
  case (Some names)
  have "set ([repoSecretPath repo] @ map (envSecretPath repo)
      ((''infra-'' @ env) # filter (\<lambda>n. has_prefix n ''infra-'' \<and> n \<noteq> ''infra-'' @ env) names)) = infraPaths repo env names"
    by (auto simp: infraPaths_def)
  then have "existsLoop gh ([repoSecretPath repo] @ map (envSecretPath repo)
      ((''infra-'' @ env) # filter (\<lambda>n. has_prefix n ''infra-'' \<and> n \<noteq> ''infra-'' @ env) names)) = (False, True) \<longleftrightarrow>
      (\<forall>p \<in> infraPaths repo env names. \<exists>err. ghExec gh p = Some err \<and> contains err ''HTTP 404'')"
    by (simp only: existsLoop_absent present_absent)
  with Some show ?thesis
    by (simp only: absentEverywhere_def statePassphraseExists_def instanceInfraEnvs_def Let_def option.case prod.case
        not_True_eq_False if_False existsLoop_absent present_absent option.inject ex_simps simp_thms ball_simps)
qed (simp add: statePassphraseExists_def instanceInfraEnvs_def absentEverywhere_def Let_def)

subsection \<open>Lemmas: the rollover\<close>

definition rootPath :: "string \<Rightarrow> string \<Rightarrow> string" where
  "rootPath rootsDir root = msg [rootsDir, ''/'', root]"

definition rolledOver :: "rollEnv \<Rightarrow> string \<Rightarrow> string \<Rightarrow> string \<Rightarrow> bool" where
  "rolledOver w rootsDir enc root \<longleftrightarrow>
     reRekey w (rootPath rootsDir root) = None \<and> reVerify w (rootPath rootsDir root) enc = None"

definition presentRoots :: "rollEnv \<Rightarrow> string \<Rightarrow> string list" where
  "presentRoots w rootsDir = filter (\<lambda>r. reStat w (rootPath rootsDir r) = IsDir) statePassphraseRoots"

lemma class_rollRoot:
  "classOf (fst (rollRoot w True d enc r)) =
     (if reStat w (rootPath d r) \<noteq> IsDir then ClassSkipped else if rolledOver w d enc r then ClassVerified else ClassFailed)"
  by (auto simp: rollRoot_def classOf_def rolledOver_def rootPath_def statePassphraseRootExists_def Let_def split: option.split)

lemma ops_rollRoot:
  "snd (rollRoot w True d enc r) =
     (if reStat w (rootPath d r) \<noteq> IsDir then []
      else if reRekey w (rootPath d r) \<noteq> None then [Rekey (rootPath d r)]
      else [Rekey (rootPath d r), VerifyWith (rootPath d r) enc])"
  by (auto simp: rollRoot_def rootPath_def statePassphraseRootExists_def Let_def split: option.split)

lemma count_class:
  "length (filter (\<lambda>r. classOf r = k) (sort_key rrRoot (map fst (map (rollRoot w True d enc) rs)))) =
     length (filter (\<lambda>r. classOf (fst (rollRoot w True d enc r)) = k) rs)"
  by (simp add: filter_sort length_sort filter_map comp_def)

text \<open>A run that came as far as the roots.\<close>

definition entered :: "rollEnv \<Rightarrow> string \<Rightarrow> string \<Rightarrow> bool" where
  "entered w rootsDir enc \<longleftrightarrow> trim_space (reGetenv w ''TF_ENCRYPTION'') \<noteq> [] \<and>
     contains (reGetenv w ''TF_ENCRYPTION'') ''fallback'' \<and>
     buildNewKeyOnlyEncryption (reGetenv w passphraseEnv) (reGetenv w keyNameEnv) = Inr enc \<and> reStat w rootsDir = IsDir"

lemma entered_report:
  "fst (runRotate w a d) = Inr rep \<longleftrightarrow> (\<exists>enc. entered w d enc \<and>
     rep = reportRollover (sort_key rrRoot (map fst (map (rollRoot w a d enc) statePassphraseRoots))) a)"
  by (auto simp: runRotate_def entered_def Let_def split: sum.split statAnswer.split)

lemma entered_trace:
  "snd (runRotate w a d) = (if \<exists>enc. entered w d enc
     then concat (map snd (map (rollRoot w a d (THE enc. entered w d enc)) statePassphraseRoots)) else [])"
  by (auto simp: runRotate_def entered_def Let_def split: sum.split statAnswer.split)

lemma report_counts:
  "reportRollover (sort_key rrRoot (map fst (map (rollRoot w True d enc) rs))) True =
     (let absent = filter (\<lambda>r. reStat w (rootPath d r) \<noteq> IsDir) rs;
          failed = filter (\<lambda>r. reStat w (rootPath d r) = IsDir \<and> \<not> rolledOver w d enc r) rs;
          good = filter (\<lambda>r. reStat w (rootPath d r) = IsDir \<and> rolledOver w d enc r) rs
      in if length failed > 0 then Incomplete (length failed) (length good + length failed)
         else if length good = 0 then RekeyedNothing (length absent)
         else if length absent > 0 then SkippedSome (length good) (length absent) (map rrRoot
           (filter (\<lambda>r. classOf r = ClassSkipped) (sort_key rrRoot (map fst (map (rollRoot w True d enc) rs)))))
         else MayDeleteOld (length good))"
proof -
  have k: "(classOf (fst (rollRoot w True d enc r)) = ClassSkipped) = (reStat w (rootPath d r) \<noteq> IsDir)"
    "(classOf (fst (rollRoot w True d enc r)) = ClassFailed) = (reStat w (rootPath d r) = IsDir \<and> \<not> rolledOver w d enc r)"
    "(classOf (fst (rollRoot w True d enc r)) = ClassVerified) = (reStat w (rootPath d r) = IsDir \<and> rolledOver w d enc r)" for r
    by (simp_all add: class_rollRoot)
  show ?thesis
    by (simp only: reportRollover_def Let_def count_class k not_True_eq_False if_False)
qed

subsection \<open>Properties\<close>

text \<open>C13: a live passphrase is never overwritten by the wizard. Whatever was planned before the
  prompts and whatever the prompts and the cache put into the secrets, a run that pushes a
  passphrase has just listed the environments and heard for the repository and for every infra
  environment that there is none; one that minted it heard the same before the prompts; and an
  unanswered question at the beginning stops the run.\<close>

theorem passphrase_pushed_only_when_absent:
  assumes "tokensRun early late repo env fresh dryRun yes prompted secrets = Inr pushed"
  shows "(\<exists>present. statePassphraseExists early repo env = (present, True)) \<and>
    (pushed secretName = None \<or> absentEverywhere late repo env) \<and>
    (pushed secretName = prompted secrets secretName \<or> pushed secretName = None \<or> absentEverywhere early repo env) \<and>
    (\<exists>v. pushed = (prompted secrets)(secretName := v))"
proof -
  have upd: "\<exists>v. f = f(k := v)" for f :: "string \<rightharpoonup> string" and k by (metis fun_upd_triv)
  obtain present answered where e: "statePassphraseExists early repo env = (present, answered)" by fastforce
  from assms show ?thesis
    by (auto simp: tokensRun_def planStatePassphrase_def ensureStatePassphrase_def dropStatePassphraseIfLive_def
        exists_absent [symmetric] e upd split: if_splits sum.splits prod.splits)
qed

theorem passphrase_pushed_only_when_absent_witness:
  "absentEverywhere \<lparr>ghExec = (\<lambda>_. Some ''gh: Not Found (HTTP 404)''), ghEnvironments = Some []\<rparr> ''r'' ''e''"
proof -
  let ?g = "\<lparr>ghExec = (\<lambda>_. Some ''gh: Not Found (HTTP 404)''), ghEnvironments = Some []\<rparr>"
  have p: "case tokensRun ?g ?g ''r'' ''e'' (Inr ''p'') False True (\<lambda>s. s) Map.empty of
      Inl e \<Rightarrow> False | Inr m \<Rightarrow> m secretName \<noteq> None" by code_simp
  obtain m where r: "tokensRun ?g ?g ''r'' ''e'' (Inr ''p'') False True (\<lambda>s. s) Map.empty = Inr m" and m: "m secretName \<noteq> None"
  proof (cases "tokensRun ?g ?g ''r'' ''e'' (Inr ''p'') False True (\<lambda>s. s) Map.empty")
    case (Inl e)
    show thesis using p unfolding Inl sum.case by (rule FalseE)
  next
    case (Inr m)
    show thesis using p unfolding Inr sum.case by (rule that [OF Inr])
  qed
  from passphrase_pushed_only_when_absent [OF r] m show ?thesis by simp
qed

text \<open>the document says which keys are configured, and nothing else can be read from it. Every value
  in it passed the alphabet checks, so none closes its string; two configurations that render the
  same document have the same keys.\<close>

theorem document_determines_keys:
  assumes "build c = Inr doc" and "build d = Inr doc"
  shows "keyName c = keyName d \<and> cfPassphrase c = cfPassphrase d \<and>
    cfPassphraseOld c = cfPassphraseOld d \<and> cfKeyNameOld c = cfKeyNameOld d"
  using document_inj assms by (simp add: build_iff)

theorem document_determines_keys_witness:
  "build \<lparr>cfPassphrase = ''0123456789abcdef'', cfKeyName = [], cfPassphraseOld = [], cfKeyNameOld = []\<rparr> =
     build \<lparr>cfPassphrase = ''0123456789abcdef'', cfKeyName = ''llz'', cfPassphraseOld = [], cfKeyNameOld = []\<rparr> \<and>
   build \<lparr>cfPassphrase = ''0123456789abcdef'', cfKeyName = [], cfPassphraseOld = [], cfKeyNameOld = []\<rparr> \<noteq>
     build \<lparr>cfPassphrase = ''0123456789abcdeg'', cfKeyName = ''llz'', cfPassphraseOld = [], cfKeyNameOld = []\<rparr>"
  using document_determines_keys
    [of "\<lparr>cfPassphrase = ''0123456789abcdef'', cfKeyName = [], cfPassphraseOld = [], cfKeyNameOld = []\<rparr>" _
      "\<lparr>cfPassphrase = ''0123456789abcdeg'', cfKeyName = ''llz'', cfPassphraseOld = [], cfKeyNameOld = []\<rparr>"]
  by code_simp


text \<open>What a run does. A dry run runs nothing; an apply that reaches the roots runs the re-key of
  every root that is there, in the order of the list and whatever the key it is already on, each followed by its
  read-back when the re-key succeeded.\<close>

theorem rekeys_every_present_root:
  "entered w d enc \<Longrightarrow> snd (runRotate w False d) = [] \<and>
     snd (runRotate w True d) = concat (map (\<lambda>r. if reRekey w (rootPath d r) \<noteq> None then [Rekey (rootPath d r)]
        else [Rekey (rootPath d r), VerifyWith (rootPath d r) enc]) (presentRoots w d))"
proof -
  assume e: "entered w d enc"
  then have u: "entered w d enc' \<longleftrightarrow> enc' = enc" for enc' by (auto simp: entered_def)
  have the: "(THE enc. entered w d enc) = enc" using e u by blast
  have skip: "concat (map (\<lambda>r. if \<not> P r then [] else f r) xs) = concat (map f (filter P xs))"
    for P :: "string \<Rightarrow> bool" and f :: "string \<Rightarrow> rollOp list" and xs by (induction xs) auto
  have "snd (rollRoot w False d enc r) = []" for r by (simp add: rollRoot_def Let_def)
  then show ?thesis
    using skip [of "\<lambda>r. reStat w (rootPath d r) = IsDir"]
    by (simp add: entered_trace u the presentRoots_def comp_def ops_rollRoot)
qed

theorem rekeys_every_present_root_witness:
  "snd (runRotate \<lparr>reGetenv = (\<lambda>k. if k = ''TF_ENCRYPTION'' then ''fallback'' else if k = passphraseEnv then ''0123456789abcdef'' else []),
     reStat = (\<lambda>p. if p = ''d'' \<or> p = ''d/vpc'' then IsDir else IsFile), reRekey = (\<lambda>_. Some ''boom''), reVerify = (\<lambda>_ _. None)\<rparr>
     True ''d'') = [Rekey ''d/vpc'']"
proof -
  let ?w = "\<lparr>reGetenv = (\<lambda>k. if k = ''TF_ENCRYPTION'' then ''fallback'' else if k = passphraseEnv then ''0123456789abcdef'' else []),
     reStat = (\<lambda>p. if p = ''d'' \<or> p = ''d/vpc'' then IsDir else IsFile), reRekey = (\<lambda>_. Some ''boom''), reVerify = (\<lambda>_ _. None)\<rparr>"
  have e: "entered ?w ''d'' (document \<lparr>cfPassphrase = ''0123456789abcdef'', cfKeyName = [], cfPassphraseOld = [], cfKeyNameOld = []\<rparr>)"
    by code_simp
  have p: "presentRoots ?w ''d'' = [''vpc'']" by code_simp
  show ?thesis using rekeys_every_present_root [OF e] by (simp add: p rootPath_def msg_def)
qed

text \<open>a key name can pass for a rotation window. The guard looks for the word in the whole
  document, so a document with one key and no fallback passes it when the name of that key contains the
  word: every root is then re-keyed under the key it was on and the run says that the old
  passphrase may be deleted.\<close>

theorem key_name_passes_for_fallback:
  assumes "build c = Inr doc" and "cfPassphraseOld c = []" and "contains (cfKeyName c) ''fallback''"
    and "reGetenv w ''TF_ENCRYPTION'' = doc" and "reGetenv w passphraseEnv = cfPassphrase c"
    and "reGetenv w keyNameEnv = cfKeyName c" and "reStat w = (\<lambda>_. IsDir)"
    and "reRekey w = (\<lambda>_. None)" and "reVerify w = (\<lambda>_ _. None)"
  shows "fst (runRotate w True rootsDir) = Inr (MayDeleteOld (length statePassphraseRoots))"
proof -
  have "cfKeyNameOld c = []" using assms(1,2) by (simp add: build_iff wellFormed_def)
  then have c: "c = \<lparr>cfPassphrase = cfPassphrase c, cfKeyName = cfKeyName c, cfPassphraseOld = [], cfKeyNameOld = []\<rparr>"
    using assms(2) by (cases c) simp
  then have "build \<lparr>cfPassphrase = cfPassphrase c, cfKeyName = cfKeyName c, cfPassphraseOld = [], cfKeyNameOld = []\<rparr> = Inr doc"
    using assms(1) by simp
  moreover have "trim_space (cfPassphrase c) \<noteq> []"
    using assms(1) by (auto simp: build_iff wellFormed_def validatePassphrase_def split: if_splits)
  ultimately have b: "buildNewKeyOnlyEncryption (cfPassphrase c) (cfKeyName c) = Inr doc"
    by (simp add: buildNewKeyOnlyEncryption_def)
  have doc: "doc = document c" using assms(1) by (simp add: build_iff)
  have "keyName c = cfKeyName c" using assms(3) by (auto simp: keyName_def contains_iff)
  moreover have "writePlan n = (''plan {'' @ nl @ ''  method = method.aes_gcm.'') @ n @ nl @ ''}'' @ nl" for n
    by (simp add: writePlan_def msg_def)
  ultimately have "contains (writePlan (keyName c)) ''fallback''" using assms(3) contains_append by metis
  then have f: "contains doc ''fallback''"
    unfolding doc document_def by (metis append.assoc append_Nil2 contains_append)
  have t: "trim_space doc \<noteq> []"
    by (auto simp: trim_space_blank doc document_def writeKey_def msg_def is_space_def)
  have "entered w rootsDir doc" using assms b f t by (simp add: entered_def)
  moreover have "reportRollover (sort_key rrRoot (map fst (map (rollRoot w True rootsDir doc) statePassphraseRoots))) True =
      MayDeleteOld (length statePassphraseRoots)"
    unfolding report_counts using assms(7-9) by (simp add: rolledOver_def statePassphraseRoots_def)
  ultimately show ?thesis unfolding entered_report by - (rule exI [of _ doc], simp)
qed

theorem key_name_passes_for_fallback_witness:
  "fst (runRotate \<lparr>reGetenv = (\<lambda>k. if k = ''TF_ENCRYPTION'' then document
       \<lparr>cfPassphrase = ''0123456789abcdef'', cfKeyName = ''no_fallback'', cfPassphraseOld = [], cfKeyNameOld = []\<rparr>
       else if k = passphraseEnv then ''0123456789abcdef'' else ''no_fallback''),
     reStat = (\<lambda>_. IsDir), reRekey = (\<lambda>_. None), reVerify = (\<lambda>_ _. None)\<rparr> True ''d'') = Inr (MayDeleteOld 4)"
proof -
  let ?c = "\<lparr>cfPassphrase = ''0123456789abcdef'', cfKeyName = ''no_fallback'', cfPassphraseOld = [], cfKeyNameOld = []\<rparr>"
  have b: "build ?c = Inr (document ?c)" "contains (cfKeyName ?c) ''fallback''" by code_simp+
  show ?thesis
    by (subst key_name_passes_for_fallback [OF b(1) _ b(2)])
      (simp_all add: passphraseEnv_def keyNameEnv_def statePassphraseRoots_def)
qed

end
