(* ===== verification/Linode_Time.thy ===== *)
theory Linode_Time
  imports Go_Prelude
begin

text \<open>
  \<open>internal/shared/linode/timestamp.go\<close>: civil dates, and the Linode API's timestamps. The
  arithmetic is on \<open>int64\<close>: \<open>i64\<close> marks every result that a hostile input could push out
  of range (a sum or product of a parsed number); quotients truncate (\<open>quot\<close>). The lemmas bound
  the intermediate values, so that the conversions are inverse to each other on every
  second from year 0 on.
\<close>

subsection \<open>Definitions\<close>

definition daySecs :: int where   \<comment> \<open>\<open>rotate.go\<close>\<close>
  "daySecs = 86400"

definition daysFromCivil :: "int \<Rightarrow> int \<Rightarrow> int \<Rightarrow> int" where
  "daysFromCivil y m d =
     (let y = (if m \<le> 2 then i64 (y - 1) else y);
          era = y;
          era = (if y < 0 then i64 (y - 399) else era);
          era = quot era 400;
          yoe = i64 (y - era * 400);
          mp = i64 (m + 9);
          mp = (if m > 2 then m - 3 else mp);
          doy = i64 (quot (i64 (153 * mp + 2)) 5 + d - 1);
          doe = i64 (yoe * 365 + quot yoe 4 - quot yoe 100 + doy)
      in i64 (era * 146097 + doe - 719468))"

definition civilFromDays :: "int \<Rightarrow> int \<times> int \<times> int" where
  "civilFromDays z =
     (let z = i64 (z + 719468);
          era = z;
          era = (if z < 0 then i64 (z - 146096) else era);
          era = quot era 146097;
          doe = i64 (z - era * 146097);
          yoe = quot (doe - quot doe 1460 + quot doe 36524 - quot doe 146096) 365;
          y = yoe + era * 400;
          doy = doe - (365 * yoe + quot yoe 4 - quot yoe 100);
          mp = quot (5 * doy + 2) 153;
          d = doy - quot (153 * mp + 2) 5 + 1;
          m = mp + 3;
          m = (if mp \<ge> 10 then mp - 9 else m);
          y = (if m \<le> 2 then y + 1 else y)
      in (y, m, d))"

definition floorDiv :: "int \<Rightarrow> int \<Rightarrow> int" where
  "floorDiv a b =
     (let q = quot a b
      in if rem a b \<noteq> 0 \<and> (a < 0) \<noteq> (b < 0) then q - 1 else q)"

definition floorMod :: "int \<Rightarrow> int \<Rightarrow> int" where
  "floorMod a b =
     (let m = rem a b
      in if m \<noteq> 0 \<and> (a < 0) \<noteq> (b < 0) then m + b else m)"

definition fmtLinodeTS :: "int \<Rightarrow> string" where
  "fmtLinodeTS unix =
     (let day = floorDiv unix daySecs;
          secs = floorMod unix daySecs;
          h = quot secs 3600;
          mi = quot (rem secs 3600) 60;
          s = rem secs 60;
          (y, mo, d) = civilFromDays day
      in pad_dec 4 y @ ''-'' @ pad_dec 2 mo @ ''-'' @ pad_dec 2 d @ ''T''
         @ pad_dec 2 h @ '':'' @ pad_dec 2 mi @ '':'' @ pad_dec 2 s)"

definition parseTS :: "string \<Rightarrow> int option" where
  "parseTS s =
     (if s = [] then None
      else let s = trim_suffix s ''Z'';
               (date, timePart, found) = cut_at (CHR ''T'') s
           in if \<not> found then None
           else let dp = split_on (CHR ''-'') date
                in if length dp \<noteq> 3 then None
           else (case (atoi (dp ! 0), atoi (dp ! 1), atoi (dp ! 2)) of
               (Some y, Some mo, Some d) \<Rightarrow>
                 let (timePart, _, _) = cut_at (CHR ''.'') timePart;
                     tp = split_on (CHR '':'') timePart
                 in if length tp < 2 then None
                    else (case (atoi (tp ! 0), atoi (tp ! 1)) of
                        (Some h, Some mi) \<Rightarrow>
                          (case (if length tp \<ge> 3 then atoi (tp ! 2) else Some 0) of
                             Some se \<Rightarrow>
                               Some (i64 (daysFromCivil y mo d * daySecs + h * 3600 + mi * 60 + se))
                           | None \<Rightarrow> None)
                      | _ \<Rightarrow> None)
             | _ \<Rightarrow> None))"

subsection \<open>The calendar arithmetic\<close>

lemma year_of_century:
  fixes doc b :: int
  assumes "0 \<le> doc" "doc \<le> 36523" "0 \<le> b" "b \<le> 3"
  defines "f \<equiv> (24 * b + doc) div 1460"
  defines "k \<equiv> (doc - f) div 365"
  shows "0 \<le> k \<and> k \<le> 99 \<and> 0 \<le> doc - 365 * k - k div 4 \<and> doc - 365 * k - k div 4 \<le> 365"
proof -
  have f: "1460 * f \<le> 24 * b + doc" "24 * b + doc < 1460 * f + 1460"
    using pos_mod_bound [of 1460 "24 * b + doc"] pos_mod_sign [of 1460 "24 * b + doc"]
      div_mult_mod_eq [of "24 * b + doc" 1460] unfolding f_def by linarith+
  have k: "365 * k \<le> doc - f" "doc - f < 365 * k + 365"
    using pos_mod_bound [of 365 "doc - f"] pos_mod_sign [of 365 "doc - f"]
      div_mult_mod_eq [of "doc - f" 365] unfolding k_def by linarith+
  define q where "q = k div 4"
  have q: "4 * q \<le> k" "k < 4 * q + 4"
    unfolding q_def by linarith+
  have "0 \<le> f" using assms f by linarith
  moreover have "f \<le> 25" using assms f by linarith
  moreover have "0 \<le> k" using assms f k by linarith
  moreover have "k \<le> 99" using assms f k by linarith
  moreover have "0 \<le> q" using q \<open>0 \<le> k\<close> by linarith
  moreover have "q \<le> f" using f k q calculation assms by linarith
  moreover have "f \<le> q + 1" using f k q calculation assms by linarith
  ultimately show ?thesis using k unfolding q_def by linarith
qed

lemma year_of_era:
  fixes doe :: int
  assumes "0 \<le> doe" "doe \<le> 146096"
  defines "yoe \<equiv> (doe - doe div 1460 + doe div 36524 - doe div 146096) div 365"
  defines "doy \<equiv> doe - (365 * yoe + yoe div 4 - yoe div 100)"
  shows "0 \<le> yoe \<and> yoe \<le> 399 \<and> 0 \<le> doy \<and> doy \<le> 365"
proof (cases "doe = 146096")
  case True
  then show ?thesis by (simp add: yoe_def doy_def)
next
  case False
  define b where "b = doe div 36524"
  define doc where "doc = doe mod 36524"
  define f where "f = (24 * b + doc) div 1460"
  define k where "k = (doc - f) div 365"
  have doe: "doe = 36524 * b + doc" by (simp add: b_def doc_def)
  have d: "0 \<le> doc" "doc \<le> 36523" using pos_mod_bound [of 36524 doe] by (simp_all add: doc_def)
  have b: "0 \<le> b" "b \<le> 3" using False assms doe d by linarith+
  have "doe = 24 * b + doc + 1460 * (25 * b)" using doe by linarith
  then have a: "doe div 1460 = 25 * b + f" by (simp only: f_def div_mult_self2)
  have "doe div 146096 = 0" using assms False by simp
  with a have "yoe = (doc - f + 365 * (100 * b)) div 365"
    unfolding yoe_def b_def [symmetric] by (simp add: doe algebra_simps)
  then have y: "yoe = 100 * b + k" by (simp only: k_def div_mult_self2)
  have c: "0 \<le> k \<and> k \<le> 99 \<and> 0 \<le> doc - 365 * k - k div 4 \<and> doc - 365 * k - k div 4 \<le> 365"
    unfolding k_def f_def using d b by (rule year_of_century)
  have q: "yoe div 4 = 25 * b + k div 4" and "yoe div 100 = b"
    using c unfolding y by linarith+
  then have "doy = doc - 365 * k - k div 4"
    unfolding doy_def q \<open>yoe div 100 = b\<close> by (simp add: y doe)
  then show ?thesis using c b y by linarith
qed

lemma floorDiv_div: "0 < b \<Longrightarrow> floorDiv a b = a div b"
proof (cases "0 \<le> a")
  case True
  moreover assume "0 < b"
  ultimately show ?thesis by (simp add: floorDiv_def quot_nonneg Let_def)
next
  case False
  moreover assume "0 < b"
  ultimately have q: "quot a b = - ((- a) div b)" and r: "rem a b = - ((- a) mod b)"
    by (simp_all add: rem_def quot_neg minus_div_mult_eq_mod [symmetric] algebra_simps)
  show ?thesis
    using False \<open>0 < b\<close> zdiv_zminus1_eq_if [of b "- a"]
    by (auto simp: floorDiv_def q r Let_def)
qed

lemma floorMod_mod: "0 < b \<Longrightarrow> floorMod a b = a mod b"
proof (cases "0 \<le> a")
  case True
  moreover assume "0 < b"
  ultimately show ?thesis by (simp add: floorMod_def rem_nonneg Let_def)
next
  case False
  moreover assume "0 < b"
  ultimately have r: "rem a b = - ((- a) mod b)"
    by (simp add: rem_def quot_neg minus_div_mult_eq_mod [symmetric] algebra_simps)
  show ?thesis
    using False \<open>0 < b\<close> zmod_zminus1_eq_if [of "- a" b]
    by (auto simp: floorMod_def r Let_def)
qed

text \<open>Truncating division of the shifted value is floor division (the \<open>era\<close> idiom).\<close>

lemma era_floor: "0 < b \<Longrightarrow> quot (if z < 0 then z - (b - 1) else z) b = z div b" for z b :: int
proof (cases "z < 0")
  case True
  assume b: "0 < b"
  have "- (z - (b - 1)) = b * - (z div b) + (b - 1 - z mod b)"
    using mult_div_mod_eq [of b z] by (simp add: algebra_simps)
  then have "(- (z - (b - 1))) div b = - (z div b)"
    by (rule int_div_pos_eq) (use b pos_mod_bound [of b z] pos_mod_sign [of b z] in linarith)+
  with True b show ?thesis by (simp add: quot_neg)
qed (simp add: quot_nonneg)

lemma era_floor_146097: "quot (if z < 0 then z - 146096 else z) 146097 = z div 146097"
  using era_floor [of 146097 z] by (auto split: if_splits)

lemma era_floor_400: "quot (if y < 0 then y - 399 else y) 400 = y div 400"
  using era_floor [of 400 y] by (auto split: if_splits)

text \<open>The range in which no intermediate value leaves 64 bits.\<close>

definition civil_range :: "int \<Rightarrow> bool" where
  "civil_range z \<longleftrightarrow> \<bar>z\<bar> \<le> 1000000000000000"

text \<open>Month and day from the day of the (March-based) year.\<close>

lemma month_day:
  assumes "0 \<le> doy" "doy \<le> (365::int)"
  defines "mp \<equiv> (5 * doy + 2) div 153"
  shows "0 \<le> mp \<and> mp \<le> 11 \<and> 1 \<le> doy - (153 * mp + 2) div 5 + 1
    \<and> doy - (153 * mp + 2) div 5 + 1 \<le> 31"
proof -
  have mp: "153 * mp \<le> 5 * doy + 2" "5 * doy + 2 < 153 * mp + 153"
    unfolding mp_def by linarith+
  define t where "t = (153 * mp + 2) div 5"
  have t: "5 * t \<le> 153 * mp + 2" "153 * mp + 2 < 5 * t + 5"
    unfolding t_def by linarith+
  show ?thesis using mp t assms(1,2) unfolding t_def [symmetric] by linarith
qed

lemma civilFromDays_parts:
  assumes "civil_range z"
  obtains y mp doy yoe era where
    "civilFromDays z = (if mp \<ge> 10 then y + 1 else y, if mp \<ge> 10 then mp - 9 else mp + 3,
       doy - (153 * mp + 2) div 5 + 1)"
    "y = yoe + era * 400" "0 \<le> yoe" "yoe \<le> 399" "mp = (5 * doy + 2) div 153" "0 \<le> doy" "doy \<le> 365"
    "z + 719468 = era * 146097 + (365 * yoe + yoe div 4 - yoe div 100 + doy)"
proof -
  define z' where "z' = z + 719468"
  define era where "era = z' div 146097"
  define doe where "doe = z' mod 146097"
  define yoe where "yoe = (doe - doe div 1460 + doe div 36524 - doe div 146096) div 365"
  define doy where "doy = doe - (365 * yoe + yoe div 4 - yoe div 100)"
  define mp where "mp = (5 * doy + 2) div 153"
  have doe: "0 \<le> doe" "doe \<le> 146096" using pos_mod_bound [of 146097 z'] by (simp_all add: doe_def)
  have yd: "0 \<le> yoe \<and> yoe \<le> 399 \<and> 0 \<le> doy \<and> doy \<le> 365"
    unfolding yoe_def doy_def using doe by (rule year_of_era)
  then have mp: "0 \<le> mp" "mp \<le> 11" using month_day [of doy] unfolding mp_def by blast+
  have w: "i64 (z + 719468) = z'" "i64 (z' - 146096) = z' - 146096"
    using assms by (auto simp: civil_range_def z'_def intro!: i64_small)
  have "z' - era * 146097 = doe" by (simp add: era_def doe_def minus_div_mult_eq_mod)
  then have wd: "i64 (z' - era * 146097) = doe" using doe by (simp add: i64_small)
  have e: "quot (if z' < 0 then i64 (z' - 146096) else z') 146097 = era"
    unfolding w era_floor_146097 era_def ..
  have m2: "(if mp \<ge> 10 then mp - 9 else mp + 3) \<le> 2 \<longleftrightarrow> mp \<ge> 10" using mp by auto
  have num: "0 \<le> doe - doe div 1460 + doe div 36524 - doe div 146096" using doe by linarith
  have q: "quot doe 1460 = doe div 1460" "quot doe 36524 = doe div 36524"
    "quot doe 146096 = doe div 146096" "quot yoe 4 = yoe div 4" "quot yoe 100 = yoe div 100"
    "quot (5 * doy + 2) 153 = mp" "quot (153 * mp + 2) 5 = (153 * mp + 2) div 5"
    "quot (doe - doe div 1460 + doe div 36524 - doe div 146096) 365 = yoe"
  proof -
    have "0 \<le> 5 * doy + 2" "0 \<le> 153 * mp + 2" using yd mp by linarith+
    then show "quot (5 * doy + 2) 153 = mp" "quot (153 * mp + 2) 5 = (153 * mp + 2) div 5"
      by (simp_all only: quot_nonneg zero_less_numeral mp_def)
    show "quot (doe - doe div 1460 + doe div 36524 - doe div 146096) 365 = yoe"
      unfolding yoe_def using num by (rule quot_nonneg) simp
  qed (use doe yd in \<open>blast intro: quot_nonneg zero_less_numeral\<close>)+
  have "civilFromDays z = (if mp \<ge> 10 then (yoe + era * 400) + 1 else yoe + era * 400,
      if mp \<ge> 10 then mp - 9 else mp + 3, doy - (153 * mp + 2) div 5 + 1)"
    unfolding civilFromDays_def Let_def unfolding w(1) unfolding e unfolding wd unfolding q
    unfolding doy_def [symmetric] unfolding q unfolding m2 by (rule refl)
  moreover have "z + 719468 = era * 146097 + (365 * yoe + yoe div 4 - yoe div 100 + doy)"
    using div_mult_mod_eq [of z' 146097] by (simp add: z'_def [symmetric] doy_def era_def doe_def)
  ultimately show thesis using that yd mp_def by blast
qed

lemma daysFromCivil_parts:
  assumes "mp \<in> {0..11}" "0 \<le> yoe" "yoe \<le> 399" "\<bar>era\<bar> \<le> 10000000000" "\<bar>d\<bar> \<le> 1000000"
  shows "daysFromCivil (if mp \<ge> 10 then (yoe + era * 400) + 1 else yoe + era * 400)
      (if mp \<ge> 10 then mp - 9 else mp + 3) d
    = era * 146097 + (365 * yoe + yoe div 4 - yoe div 100 + ((153 * mp + 2) div 5 + d - 1)) - 719468"
proof -
  define y where "y = yoe + era * 400"
  have era: "y div 400 = era" using assms unfolding y_def by simp
  have mp: "0 \<le> mp" "mp \<le> 11" using assms by auto
  have m: "(if mp \<ge> 10 then mp - 9 else mp + 3) \<le> 2 \<longleftrightarrow> mp \<ge> 10"
    "(if mp \<ge> 10 then mp - 9 else mp + 3) > 2 \<longleftrightarrow> \<not> mp \<ge> 10" using mp by auto
  have w: "i64 (y - 399) = y - 399" "i64 y = y" "i64 yoe = yoe" "i64 (153 * mp + 2) = 153 * mp + 2"
    "i64 mp = mp"
    using assms mp unfolding y_def by (auto intro!: i64_small)
  have q: "quot yoe 4 = yoe div 4" "quot yoe 100 = yoe div 100"
    "quot (153 * mp + 2) 5 = (153 * mp + 2) div 5"
    using assms mp by (simp_all add: quot_nonneg)
  have t: "0 \<le> (153 * mp + 2) div 5" "(153 * mp + 2) div 5 \<le> 337"
    using mp by linarith+
  then have wd: "i64 ((153 * mp + 2) div 5 + d - 1) = (153 * mp + 2) div 5 + d - 1"
    using assms(5) by (auto intro!: i64_small)
  have v: "0 \<le> yoe div 4" "yoe div 4 \<le> 99" "0 \<le> yoe div 100" "yoe div 100 \<le> 3"
    using assms by linarith+
  have we: "i64 (yoe * 365 + yoe div 4 - yoe div 100 + ((153 * mp + 2) div 5 + d - 1)) =
      yoe * 365 + yoe div 4 - yoe div 100 + ((153 * mp + 2) div 5 + d - 1)"
    by (rule i64_small) (use assms(2-5) v t in linarith)+
  have wf: "i64 (era * 146097 + (yoe * 365 + yoe div 4 - yoe div 100 + ((153 * mp + 2) div 5 + d - 1)) - 719468)
     = era * 146097 + (yoe * 365 + yoe div 4 - yoe div 100 + ((153 * mp + 2) div 5 + d - 1)) - 719468"
    by (rule i64_small) (use assms(2-5) v t in linarith)+
  have yy: "y - era * 400 = yoe" by (simp add: y_def)
  have e: "quot (if y < 0 then i64 (y - 399) else y) 400 = era"
    unfolding w era_floor_400 era ..
  have core: "(let era = quot (if y < 0 then i64 (y - 399) else y) 400; yoe = i64 (y - era * 400);
        doy = i64 (quot (i64 (153 * mp + 2)) 5 + d - 1);
        doe = i64 (yoe * 365 + quot yoe 4 - quot yoe 100 + doy)
      in i64 (era * 146097 + doe - 719468)) =
      era * 146097 + (yoe * 365 + yoe div 4 - yoe div 100 + ((153 * mp + 2) div 5 + d - 1)) - 719468"
    unfolding e unfolding Let_def yy unfolding w q wd we wf ..
  have years: "(if (if mp \<ge> 10 then mp - 9 else mp + 3) \<le> 2
        then i64 ((if mp \<ge> 10 then y + 1 else y) - 1) else (if mp \<ge> 10 then y + 1 else y)) = y"
    unfolding m by (simp add: w)
  have months: "(if (if mp \<ge> 10 then mp - 9 else mp + 3) > 2 then (if mp \<ge> 10 then mp - 9 else mp + 3) - 3
        else i64 ((if mp \<ge> 10 then mp - 9 else mp + 3) + 9)) = mp"
    unfolding m by (simp add: w)
  show ?thesis
    unfolding y_def [symmetric] daysFromCivil_def years Let_def months
    using core unfolding Let_def by (simp only: mult.commute)
qed

subsection \<open>Days and dates\<close>

lemma civil_ranges:
  assumes "civil_range z" and "civilFromDays z = (y, m, d)"
  shows "1 \<le> m \<and> m \<le> 12 \<and> 1 \<le> d \<and> d \<le> 31 \<and> (0 \<le> z + 719468 \<longrightarrow> 0 \<le> y) \<and> \<bar>y\<bar> \<le> 10000000000000"
proof -
  obtain y0 mp doy yoe era where c:
    "civilFromDays z = (if mp \<ge> 10 then y0 + 1 else y0, if mp \<ge> 10 then mp - 9 else mp + 3,
       doy - (153 * mp + 2) div 5 + 1)"
    "y0 = yoe + era * 400" "0 \<le> yoe" "yoe \<le> 399" "mp = (5 * doy + 2) div 153" "0 \<le> doy" "doy \<le> 365"
    "z + 719468 = era * 146097 + (365 * yoe + yoe div 4 - yoe div 100 + doy)"
    using civilFromDays_parts [OF assms(1)] .
  have v: "0 \<le> yoe div 4" "yoe div 4 \<le> 99" "0 \<le> yoe div 100" "yoe div 100 \<le> 3"
    using c(3,4) by linarith+
  have "\<bar>era\<bar> \<le> 10000000000"
    using c(8) c(3,4,6,7) v assms(1) unfolding civil_range_def by linarith
  moreover have "0 \<le> era" if "0 \<le> z + 719468"
    using that c(8) c(3,4,6,7) v by linarith
  moreover have "0 \<le> mp \<and> mp \<le> 11" "1 \<le> doy - (153 * mp + 2) div 5 + 1"
    "doy - (153 * mp + 2) div 5 + 1 \<le> 31"
    using month_day [OF c(6,7)] unfolding c(5) [symmetric] by blast+
  moreover have "y = (if mp \<ge> 10 then y0 + 1 else y0)" "m = (if mp \<ge> 10 then mp - 9 else mp + 3)"
    "d = doy - (153 * mp + 2) div 5 + 1"
    using c(1) assms(2) by simp_all
  ultimately show ?thesis using c(2-4) by (cases "mp \<ge> 10") auto
qed

lemma daysFromCivil_civilFromDays:
  assumes "civil_range z" and "civilFromDays z = (y, m, d)"
  shows "daysFromCivil y m d = z"
proof -
  obtain y0 mp doy yoe era where c:
    "civilFromDays z = (if mp \<ge> 10 then y0 + 1 else y0, if mp \<ge> 10 then mp - 9 else mp + 3,
       doy - (153 * mp + 2) div 5 + 1)"
    "y0 = yoe + era * 400" "0 \<le> yoe" "yoe \<le> 399" "mp = (5 * doy + 2) div 153" "0 \<le> doy" "doy \<le> 365"
    "z + 719468 = era * 146097 + (365 * yoe + yoe div 4 - yoe div 100 + doy)"
    using civilFromDays_parts [OF assms(1)] .
  have v: "0 \<le> yoe div 4" "yoe div 4 \<le> 99" "0 \<le> yoe div 100" "yoe div 100 \<le> 3"
    using c(3,4) by linarith+
  have "d = doy - (153 * mp + 2) div 5 + 1" using c(1) assms(2) by simp
  then have mp: "0 \<le> mp \<and> mp \<le> 11" and d: "1 \<le> d" "d \<le> 31"
    using month_day [OF c(6,7)] unfolding c(5) [symmetric] by blast+
  have "\<bar>era\<bar> \<le> 10000000000"
    using c(8) c(3,4,6,7) v assms(1) unfolding civil_range_def by linarith
  then have "daysFromCivil (if mp \<ge> 10 then (yoe + era * 400) + 1 else yoe + era * 400)
      (if mp \<ge> 10 then mp - 9 else mp + 3) d
    = era * 146097 + (365 * yoe + yoe div 4 - yoe div 100 + ((153 * mp + 2) div 5 + d - 1)) - 719468"
    using daysFromCivil_parts [of mp yoe era d] mp c(3,4) d by simp
  moreover have "y = (if mp \<ge> 10 then yoe + era * 400 + 1 else yoe + era * 400)"
    "m = (if mp \<ge> 10 then mp - 9 else mp + 3)" "d = doy - (153 * mp + 2) div 5 + 1"
    using c(1,2) assms(2) by simp_all
  ultimately show ?thesis using c(8) by simp
qed

subsection \<open>Timestamps\<close>

lemma pad_dec_free: "0 \<le> i \<Longrightarrow> \<not> is_digit c \<Longrightarrow> c \<notin> set (pad_dec w i)"
  using pad_dec_digits [of i w] by (auto simp: list_all_iff)

lemma not_digits: "\<not> is_digit CHR ''-''" "\<not> is_digit CHR '':''" "\<not> is_digit CHR ''.''"
    "\<not> is_digit CHR ''T''" "\<not> is_digit CHR ''Z''"
  by (simp_all add: is_digit_def)

lemma last_pad_dec: "0 \<le> i \<Longrightarrow> is_digit (last (pad_dec w i))"
  using pad_dec_digits [of i w] pad_dec_not_Nil [of i w] by (simp add: list_all_iff)

lemma trim_suffix_Z: "0 \<le> i \<Longrightarrow> trim_suffix (s @ pad_dec w i) ''Z'' = s @ pad_dec w i"
proof -
  assume i: "0 \<le> i"
  have "\<not> has_suffix (s @ pad_dec w i) ''Z''"
  proof
    assume "has_suffix (s @ pad_dec w i) ''Z''"
    then obtain t where t: "s @ pad_dec w i = t @ ''Z''" by (auto simp: has_suffix_iff)
    have "last (s @ pad_dec w i) = CHR ''Z''" unfolding t by simp
    then show False using last_pad_dec [OF i, of w] pad_dec_not_Nil [OF i, of w] not_digits by simp
  qed
  then show ?thesis by (simp add: trim_suffix_def)
qed

text \<open>Parsing the printed fields gives the fields back.\<close>

lemma parseTS_fields:
  assumes "0 \<le> y" "0 \<le> mo" "0 \<le> d" "0 \<le> h" "0 \<le> mi" "0 \<le> s"
    and "y \<le> max_int64" "mo \<le> max_int64" "d \<le> max_int64" "h \<le> max_int64" "mi \<le> max_int64" "s \<le> max_int64"
  shows "parseTS (pad_dec 4 y @ ''-'' @ pad_dec 2 mo @ ''-'' @ pad_dec 2 d @ ''T''
         @ pad_dec 2 h @ '':'' @ pad_dec 2 mi @ '':'' @ pad_dec 2 s)
    = Some (i64 (daysFromCivil y mo d * daySecs + h * 3600 + mi * 60 + s))"
proof -
  let ?date = "pad_dec 4 y @ ''-'' @ pad_dec 2 mo @ ''-'' @ pad_dec 2 d"
  let ?time = "pad_dec 2 h @ '':'' @ pad_dec 2 mi @ '':'' @ pad_dec 2 s"
  have free: "CHR ''-'' \<notin> set (pad_dec w i)" "CHR '':'' \<notin> set (pad_dec w i)"
    "CHR ''.'' \<notin> set (pad_dec w i)" "CHR ''T'' \<notin> set (pad_dec w i)" if "0 \<le> i" for w i
    using that pad_dec_free not_digits by blast+
  have z: "trim_suffix (?date @ ''T'' @ ?time) ''Z'' = ?date @ ''T'' @ ?time"
    using trim_suffix_Z [of s "?date @ ''T'' @ pad_dec 2 h @ '':'' @ pad_dec 2 mi @ '':''" 2] assms(6)
    by simp
  have t: "cut_at CHR ''T'' (?date @ ''T'' @ ?time) = (?date, ?time, True)"
    using cut_at_append [of "CHR ''T''" ?date ?time] free(4) assms(1-6) by simp
  have f: "cut_at CHR ''.'' ?time = (?time, [], False)"
    using free(3) assms(1-6) by (intro cut_at_free) simp
  have dp: "split_on CHR ''-'' ?date = [pad_dec 4 y, pad_dec 2 mo, pad_dec 2 d]"
    using free(1) assms(1-3)
    by (simp add: split_on_append_sep [of "CHR ''-''"] split_on_free)
  have tp: "split_on CHR '':'' ?time = [pad_dec 2 h, pad_dec 2 mi, pad_dec 2 s]"
    using free(2) assms(4-6)
    by (simp add: split_on_append_sep [of "CHR '':''"] split_on_free)
  have "?date @ ''T'' @ ?time \<noteq> []" by simp
  then have "parseTS (?date @ ''T'' @ ?time)
    = Some (i64 (daysFromCivil y mo d * daySecs + h * 3600 + mi * 60 + s))"
    using assms by (simp only: parseTS_def if_False Let_def z t f dp tp prod.case) (simp add: atoi_pad_dec)
  then show ?thesis by simp
qed

text \<open>C17: every second from year 0 to the end of \<open>int64\<close> survives being written as a Linode
  timestamp and parsed back: expiry and creation times are compared on the value that was sent.\<close>

lemma parseTS_fmtLinodeTS:
  assumes "-62167219200 \<le> u" and "u \<le> max_int64"
  shows "parseTS (fmtLinodeTS u) = Some u"
proof -
  define day where "day = u div daySecs"
  define secs where "secs = u mod daySecs"
  obtain y mo d where c: "civilFromDays day = (y, mo, d)" by (metis prod_cases3)
  have secs: "0 \<le> secs" "secs < 86400" by (simp_all add: secs_def daySecs_def)
  have day: "-719528 \<le> day" "day \<le> 106751991167300"
    using assms by (auto simp: day_def daySecs_def max_int64_def)
  then have r: "civil_range day" by (auto simp: civil_range_def)
  have y: "0 \<le> y"
  proof (cases "0 \<le> day + 719468")
    case True
    then show ?thesis using civil_ranges [OF r c] by blast
  next
    case False
    obtain y0 mp doy yoe era where p:
      "civilFromDays day = (if mp \<ge> 10 then y0 + 1 else y0, if mp \<ge> 10 then mp - 9 else mp + 3,
         doy - (153 * mp + 2) div 5 + 1)"
      "y0 = yoe + era * 400" "0 \<le> yoe" "yoe \<le> 399" "mp = (5 * doy + 2) div 153" "0 \<le> doy" "doy \<le> 365"
      "day + 719468 = era * 146097 + (365 * yoe + yoe div 4 - yoe div 100 + doy)"
      using civilFromDays_parts [OF r] .
    have v: "0 \<le> yoe div 4" "yoe div 4 \<le> 99" "0 \<le> yoe div 100" "yoe div 100 \<le> 3"
      using p(3,4) by linarith+
    have "era = -1" using p(8) p(3,4,6,7) v day False by linarith
    moreover from this have "yoe = 399" using p(8) p(3,4,6,7) v day False by linarith
    moreover from calculation have "306 \<le> doy" using p(8) day v by linarith
    then have "10 \<le> mp" unfolding p(5) by linarith
    ultimately show ?thesis using p(1,2) c by simp
  qed
  have b: "1 \<le> mo \<and> mo \<le> 12 \<and> 1 \<le> d \<and> d \<le> 31 \<and> \<bar>y\<bar> \<le> 10000000000000"
    using civil_ranges [OF r c] by blast
  define h mi se where "h = secs div 3600" and "mi = secs mod 3600 div 60" and "se = secs mod 60"
  have hms: "0 \<le> h" "h \<le> 23" "0 \<le> mi" "mi \<le> 60" "0 \<le> se" "se \<le> 60"
    using secs pos_mod_bound [of 3600 secs] pos_mod_bound [of 60 secs]
    by (auto simp: h_def mi_def se_def)
  have "floorDiv u daySecs = day" "floorMod u daySecs = secs"
    by (simp_all add: day_def secs_def daySecs_def floorDiv_div floorMod_mod)
  then have f: "fmtLinodeTS u = pad_dec 4 y @ ''-'' @ pad_dec 2 mo @ ''-'' @ pad_dec 2 d @ ''T''
       @ pad_dec 2 h @ '':'' @ pad_dec 2 mi @ '':'' @ pad_dec 2 se"
    using secs by (simp add: fmtLinodeTS_def Let_def c quot_nonneg rem_nonneg h_def mi_def se_def)
  have "parseTS (fmtLinodeTS u) = Some (i64 (daysFromCivil y mo d * daySecs + h * 3600 + mi * 60 + se))"
    unfolding f by (rule parseTS_fields) (use y b hms in \<open>simp_all add: max_int64_def\<close>)
  moreover have "daysFromCivil y mo d = day" using r c by (rule daysFromCivil_civilFromDays)
  moreover have "day * daySecs + h * 3600 + mi * 60 + se = u"
  proof -
    have "secs mod 3600 mod 60 = secs mod 60" by (rule mod_mod_cancel) simp
    then have "h * 3600 + mi * 60 + se = secs"
      using div_mult_mod_eq [of secs 3600] div_mult_mod_eq [of "secs mod 3600" 60]
      unfolding h_def mi_def se_def by linarith
    moreover have "day * daySecs + secs = u"
      unfolding day_def secs_def by (rule div_mult_mod_eq)
    ultimately show ?thesis by linarith
  qed
  moreover have "i64 u = u" using assms by (intro i64_small) (simp_all add: max_int64_def)
  ultimately show ?thesis by simp
qed

lemma parseTS_fmtLinodeTS_witness: "parseTS (fmtLinodeTS 951782399) = Some 951782399"
  by (rule parseTS_fmtLinodeTS) (simp_all add: max_int64_def)

text \<open>\<open>DaysFromCivil\<close> inverts \<open>CivilFromDays\<close>, and the dates it produces are calendar
  dates, on 2.7 trillion years either side of the epoch.\<close>

lemma civil_roundtrip:
  assumes "civil_range z"
  shows "case civilFromDays z of (y, m, d) \<Rightarrow>
    daysFromCivil y m d = z \<and> 1 \<le> m \<and> m \<le> 12 \<and> 1 \<le> d \<and> d \<le> 31"
  using daysFromCivil_civilFromDays [OF assms] civil_ranges [OF assms] by (auto split: prod.split)

lemma civil_roundtrip_witness: "case civilFromDays (-719468) of (y, m, d) \<Rightarrow>
    daysFromCivil y m d = -719468 \<and> 1 \<le> m \<and> m \<le> 12 \<and> 1 \<le> d \<and> d \<le> 31"
  by (rule civil_roundtrip) (simp add: civil_range_def)

end
