(* ===== verification/Cred_Rotation.thy ===== *)
theory Cred_Rotation
  imports Overlay_Fields Linode_Time "HOL-Library.Multiset"
begin

text \<open>
  \<open>internal/extensions/lifecycle/credrotate\<close>: which superseded credentials a rotation revokes
  (\<open>graceperiod.go\<close>, \<open>pat.go\<close>, \<open>objkey.go\<close>, \<open>table.go\<close>, \<open>mintobjkeys.go\<close>), and in which order it mints,
  verifies, publishes, records and revokes (\<open>broadpat.go\<close>, \<open>inclusterpat.go\<close>, \<open>table.go\<close>). The
  Linode API, OpenBao and GitHub are the fields of \<open>rotEnv\<close>; what a rotation does to them is its
  trace. \<open>sort.Slice\<close> leaves the order of equal elements open: where the key is the creation
  time it is the parameter \<open>srt\<close>, with its contract as the hypothesis \<open>newestFirst\<close>.
\<close>

subsection \<open>The grace window\<close>

record gracedToken =
  gtID :: nat
  gtCreated :: int

record graceDecision =
  gdID :: nat
  gdSupersededAt :: int
  gdDrain :: bool

definition decideByGrace :: "gracedToken list \<Rightarrow> int \<Rightarrow> int \<Rightarrow> graceDecision list" where
  "decideByGrace toks graceDays now =
     (if length toks < 2 then []
      else
        let cutoff = i64 (now - i64 (graceDays * daySecs))
        in map (\<lambda>(newer, c).
             let supersededAt = gtCreated newer;
                 supersededAt = (if supersededAt > now then now else supersededAt)
             in \<lparr>gdID = gtID c, gdSupersededAt = supersededAt, gdDrain = (supersededAt \<le> cutoff)\<rparr>)
           (zip toks (tl toks)))"

definition splitByGrace :: "gracedToken list \<Rightarrow> int \<Rightarrow> int \<Rightarrow> nat list \<times> nat list" where
  "splitByGrace toks graceDays now =
     (let ds = decideByGrace toks graceDays now
      in (map gdID (filter gdDrain ds), map gdID (filter (\<lambda>d. \<not> gdDrain d) ds)))"

subsection \<open>Reading the API\<close>

type_synonym apiItem = "(string \<times> json) list"

fun asUint64 :: "json option \<Rightarrow> nat option" where
  "asUint64 (Some (JInt i)) = (if 0 \<le> i \<and> i < 2 ^ 64 then Some (nat i) else None)"
| "asUint64 _ = None"

definition patCandidate :: "string \<Rightarrow> apiItem \<Rightarrow> gracedToken option" where
  "patCandidate label t =
     (if str_at t ''label'' \<noteq> label then None
      else case asUint64 (map_of t ''id'') of
        None \<Rightarrow> None
      | Some i \<Rightarrow> (case parseTS (str_at t ''created'') of
          None \<Rightarrow> None
        | Some created \<Rightarrow> Some \<lparr>gtID = i, gtCreated = created\<rparr>))"

definition idsByLabel :: "apiItem list \<Rightarrow> string \<Rightarrow> nat list" where
  "idsByLabel items label =
     List.map_filter (\<lambda>it. if str_at it ''label'' \<noteq> label then None else asUint64 (map_of it ''id'')) items"

definition sort_desc :: "nat list \<Rightarrow> nat list" where
  "sort_desc ids = rev (sort ids)"

definition idsToDrain :: "nat list \<Rightarrow> int \<Rightarrow> nat list" where
  "idsToDrain ids keepNewest =
     (let keepNewest = (if keepNewest < 1 then 1 else keepNewest);
          ids = sort_desc ids
      in if int (length ids) \<le> keepNewest then [] else drop (nat keepNewest) ids)"

subsection \<open>Calls\<close>

text \<open>What a rotation does, in order. An event is recorded when the call is made; the answers are in \<open>rotEnv\<close>.\<close>

datatype rotEvent =
    MintPAT string string string
  | MintKey string
  | VerifyToken string
  | Publish string string
  | StoreSecret string "(string \<times> string) list"
  | ListTokens
  | ListKeys
  | RevokePAT nat
  | RevokeKey nat

record rotEnv =
  roNow :: int
  roMintPAT :: "apiItem + string"
  roMintKey :: "apiItem + string"
  roVerify :: "string \<Rightarrow> string option"
  roPublish :: "string list \<Rightarrow> string \<Rightarrow> string option"  \<comment> \<open>after what was published, to the next\<close>
  roStore :: "string \<Rightarrow> string option"
  roGet :: "string \<Rightarrow> string \<Rightarrow> string + string"
  roTokens :: "apiItem list + string"
  roKeys :: "apiItem list + string"
  roRevoke :: "nat \<Rightarrow> string option"

subsection \<open>Personal access tokens\<close>

record revokeRecord =
  rvKept :: "nat option"
  rvRevoked :: "nat list"
  rvSkipped :: "nat list"

fun revokeLoop :: "rotEnv \<Rightarrow> bool \<Rightarrow> graceDecision list \<Rightarrow> nat list \<Rightarrow> nat list \<Rightarrow>
    (nat list \<times> nat list + string) \<times> rotEvent list" where
  "revokeLoop env doApply [] revoked skipped = (Inl (revoked, skipped), [])"
| "revokeLoop env doApply (d # ds) revoked skipped =
     (if \<not> gdDrain d then revokeLoop env doApply ds revoked (skipped @ [gdID d])
      else if \<not> doApply then revokeLoop env doApply ds (revoked @ [gdID d]) skipped
      else case roRevoke env (gdID d) of
        Some err \<Rightarrow> (Inr err, [RevokePAT (gdID d)])
      | None \<Rightarrow> (case revokeLoop env doApply ds (revoked @ [gdID d]) skipped of
          (res, evs) \<Rightarrow> (res, RevokePAT (gdID d) # evs)))"

definition runPATRevokeOld ::
  "(gracedToken list \<Rightarrow> gracedToken list) \<Rightarrow> rotEnv \<Rightarrow> bool \<Rightarrow> string \<Rightarrow> int \<Rightarrow> (revokeRecord + string) \<times> rotEvent list" where
  "runPATRevokeOld srt env doApply label graceDays =
     (if graceDays < 0 then (Inr (msg [''grace_days='', int_dec graceDays, '' must be non-negative'']), [])
      else case roTokens env of
        Inr err \<Rightarrow> (Inr err, [ListTokens])
      | Inl tokens \<Rightarrow>
        let candidates = srt (List.map_filter (patCandidate label) tokens)
        in case candidates of
             [] \<Rightarrow> (Inl \<lparr>rvKept = None, rvRevoked = [], rvSkipped = []\<rparr>, [ListTokens])
           | kept # _ \<Rightarrow>
             (case revokeLoop env doApply (decideByGrace candidates graceDays (roNow env)) [] [] of
                (Inr err, evs) \<Rightarrow> (Inr err, ListTokens # evs)
              | (Inl (revoked, skipped), evs) \<Rightarrow>
                  (Inl \<lparr>rvKept = Some (gtID kept), rvRevoked = revoked, rvSkipped = skipped\<rparr>, ListTokens # evs)))"

text \<open>The drain of the account-wide token, which goes on past a token it could not revoke.\<close>

definition revokeOldBroadPATs ::
  "(gracedToken list \<Rightarrow> gracedToken list) \<Rightarrow> rotEnv \<Rightarrow> string \<Rightarrow> int \<Rightarrow> (nat list \<times> nat list) \<times> rotEvent list" where
  "revokeOldBroadPATs srt env label graceDays = (case roTokens env of
     Inr err \<Rightarrow> (([], []), [ListTokens])
   | Inl items \<Rightarrow>
     let cands = srt (List.map_filter (patCandidate label) items)
     in case splitByGrace cands graceDays (roNow env) of (drain, skipped) \<Rightarrow>
          ((filter (\<lambda>i. roRevoke env i = None) drain, skipped), ListTokens # map RevokePAT drain))"

definition isDue :: "string \<Rightarrow> int \<Rightarrow> int \<Rightarrow> bool" where
  "isDue rotatedAt now rotateAfterDays = (case atoi (trim_space rotatedAt) of
     None \<Rightarrow> True
   | Some ts \<Rightarrow> i64 (now - ts) \<ge> i64 (rotateAfterDays * daySecs))"

definition broadPATSecretName :: string where
  "broadPATSecretName = ''LINODE_API_TOKEN''"

definition broadPATBaoPath :: string where
  "broadPATBaoPath = ''secret/linode/broad-pat''"

definition broadPATScopes :: string where
  "broadPATScopes = msg [''domains:read_write linodes:read_write object_storage:read_write lke:read_write '',
     ''firewall:read_write vpc:read_write volumes:read_write nodebalancers:read_write events:read_only account:read_write'']"

definition broadPATValidityDays :: int where
  "broadPATValidityDays = 90"

record broadPATOpts =
  boLabel :: string
  boDeployments :: "string list"
  boRotateAfter :: int
  boGraceDays :: int
  boApply :: bool

datatype rotOutcome =
    NotDue
  | WouldRotate
  | Rotated nat "string list" "nat list" "nat list"
  | PublishedPartial nat "string list" string
  | RotateFailed string

definition infraEnv :: "string \<Rightarrow> string" where
  "infraEnv dep = ''infra-'' @ dep"

fun publishLoop :: "rotEnv \<Rightarrow> string \<Rightarrow> string list \<Rightarrow> string list \<Rightarrow> (string list \<times> string option) \<times> rotEvent list" where
  "publishLoop env token [] published = ((published, None), [])"
| "publishLoop env token (d # ds) published =
     (let e = infraEnv d
      in case roPublish env published e of
           Some err \<Rightarrow> ((published, Some (msg [''publish '', broadPATSecretName, '' to '', e, '': '', err, '' '', em_dash,
             '' old PAT NOT revoked (safe: still valid); retry next run''])), [Publish e token])
         | None \<Rightarrow> (case publishLoop env token ds (published @ [e]) of (res, evs) \<Rightarrow> (res, Publish e token # evs)))"

definition rotateBroadPAT ::
  "(gracedToken list \<Rightarrow> gracedToken list) \<Rightarrow> rotEnv \<Rightarrow> broadPATOpts \<Rightarrow> rotOutcome \<times> rotEvent list" where
  "rotateBroadPAT srt env o' = (case roGet env broadPATBaoPath ''rotated_at'' of
     Inr err \<Rightarrow> (RotateFailed (msg [''read '', broadPATBaoPath, '' rotated_at: '', err]), [])
   | Inl rotatedAt \<Rightarrow>
     if \<not> isDue rotatedAt (roNow env) (boRotateAfter o') then (NotDue, [])
     else if \<not> boApply o' then (WouldRotate, [])
     else
       let expiry = fmtLinodeTS (i64 (roNow env + broadPATValidityDays * daySecs));
           mint = MintPAT (boLabel o') broadPATScopes expiry
       in case roMintPAT env of
         Inr err \<Rightarrow> (RotateFailed (msg [''mint broad PAT '', dq, boLabel o', dq, '': '', err]), [mint])
       | Inl minted \<Rightarrow>
         let newID = (case asUint64 (map_of minted ''id'') of None \<Rightarrow> 0 | Some i \<Rightarrow> i);
             newToken = str_at minted ''token''
         in if newToken = [] then (RotateFailed ''mint broad PAT: response missing .token'', [mint])
            else case roVerify env newToken of
              Some err \<Rightarrow> (RotateFailed (msg [''verify freshly-minted broad PAT (id='', nat_dec newID, ''): '', err, '' '', em_dash,
                '' nothing written or revoked'']), [mint, VerifyToken newToken])
            | None \<Rightarrow> (case publishLoop env newToken (boDeployments o') [] of
                ((published, Some err), evs) \<Rightarrow>
                  (PublishedPartial newID published err, mint # VerifyToken newToken # evs)
              | ((published, None), evs) \<Rightarrow>
                  let store = StoreSecret broadPATBaoPath [(''token'', newToken), (''rotated_at'', int_dec (roNow env))]
                  in case roStore env broadPATBaoPath of
                    Some err \<Rightarrow> (RotateFailed (msg [''write '', broadPATBaoPath, '': '', err, '' '', em_dash, '' new PAT id='', nat_dec newID,
                      '' is published to GitHub but the cluster copy is stale; not revoking anything, and rotated_at is '',
                      ''unstamped so the next run retries'']), mint # VerifyToken newToken # evs @ [store])
                  | None \<Rightarrow> (case revokeOldBroadPATs srt env (boLabel o') (boGraceDays o') of
                      ((revoked, skipped), revs) \<Rightarrow>
                        (Rotated newID published revoked skipped, mint # VerifyToken newToken # evs @ store # revs))))"

subsection \<open>Object storage keys and the rotation table\<close>

datatype credKind = KindPAT | KindObjKey

record credEntry =
  ceName :: string
  ceKind :: credKind
  ceLabel :: string
  ceScopes :: string
  ceObjCluster :: string
  ceBuckets :: "string list"
  cePermissions :: string
  ceBaoPath :: string
  cePresentField :: string
  ceFields :: "string \<Rightarrow> string \<Rightarrow> (string \<times> string) list"

definition objPlatformFields :: "string \<Rightarrow> string \<Rightarrow> (string \<times> string) list" where
  "objPlatformFields access secret = [(''AWS_ACCESS_KEY_ID'', access), (''AWS_SECRET_ACCESS_KEY'', secret)]"

definition buildRotationTable :: "string \<Rightarrow> string \<Rightarrow> string \<Rightarrow> credEntry list" where
  "buildRotationTable prefx region objCluster =
     [\<lparr>ceName = ''obj-platform'', ceKind = KindObjKey, ceLabel = msg [prefx, ''-obj-'', region], ceScopes = [],
        ceObjCluster = objCluster,
        ceBuckets = [msg [prefx, ''-loki-chunks-'', region], msg [prefx, ''-loki-ruler-'', region],
          msg [prefx, ''-loki-admin-'', region], msg [prefx, ''-harbor-registry-'', region]],
        cePermissions = ''read_write'', ceBaoPath = ''secret/obj/platform'', cePresentField = ''AWS_ACCESS_KEY_ID'',
        ceFields = objPlatformFields\<rparr>]"

record keyRevokeRecord =
  kvKept :: "nat list"
  kvRevoked :: "nat list"

fun deleteKeys :: "rotEnv \<Rightarrow> bool \<Rightarrow> nat list \<Rightarrow> string option \<times> rotEvent list" where
  "deleteKeys env doApply [] = (None, [])"
| "deleteKeys env doApply (i # ids) =
     (if \<not> doApply then deleteKeys env doApply ids
      else case roRevoke env i of
        Some err \<Rightarrow> (Some err, [RevokeKey i])
      | None \<Rightarrow> (case deleteKeys env doApply ids of (res, evs) \<Rightarrow> (res, RevokeKey i # evs)))"

definition runObjKeyRevokeOld :: "rotEnv \<Rightarrow> bool \<Rightarrow> string \<Rightarrow> int \<Rightarrow> (keyRevokeRecord + string) \<times> rotEvent list" where
  "runObjKeyRevokeOld env doApply label keepNewest =
     (if keepNewest < 1 then
        (Inr (msg [''keep_newest='', int_dec keepNewest, '' must be >= 1 '', em_dash, '' refusing to revoke the live key'']), [])
      else case roKeys env of
        Inr err \<Rightarrow> (Inr err, [ListKeys])
      | Inl keys \<Rightarrow>
        let ids = sort_desc (idsByLabel keys label);
            keep = (if keepNewest > int (length ids) then length ids else nat keepNewest)
        in if ids = [] then (Inl \<lparr>kvKept = [], kvRevoked = []\<rparr>, [ListKeys])
           else case deleteKeys env doApply (drop keep ids) of
             (Some err, evs) \<Rightarrow> (Inr err, ListKeys # evs)
           | (None, evs) \<Rightarrow> (Inl \<lparr>kvKept = take keep ids, kvRevoked = drop keep ids\<rparr>, ListKeys # evs))"

definition drainOld :: "rotEnv \<Rightarrow> credEntry \<Rightarrow> int \<Rightarrow> rotEvent list" where
  "drainOld env e keepNewest = (case ceKind e of
     KindPAT \<Rightarrow> (case roTokens env of
         Inr err \<Rightarrow> [ListTokens]
       | Inl items \<Rightarrow> ListTokens # map RevokePAT (idsToDrain (idsByLabel items (ceLabel e)) keepNewest))
   | KindObjKey \<Rightarrow> (case roKeys env of
         Inr err \<Rightarrow> [ListKeys]
       | Inl items \<Rightarrow> ListKeys # map RevokeKey (idsToDrain (idsByLabel items (ceLabel e)) keepNewest)))"

definition patValidityDays :: int where
  "patValidityDays = 90"

definition storeAndDrain :: "rotEnv \<Rightarrow> credEntry \<Rightarrow> int \<Rightarrow> (string \<times> string) list \<Rightarrow> string option \<times> rotEvent list" where
  "storeAndDrain env e keepNewest flds =
     (let store = StoreSecret (ceBaoPath e) (flds @ [(''rotated_at'', int_dec (roNow env))])
      in case roStore env (ceBaoPath e) of
        Some err \<Rightarrow> (Some (msg [''write '', ceBaoPath e, '': '', err]), [store])
      | None \<Rightarrow> (None, store # drainOld env e keepNewest))"

definition rotateOne :: "rotEnv \<Rightarrow> credEntry \<Rightarrow> int \<Rightarrow> string option \<times> rotEvent list" where
  "rotateOne env e keepNewest = (case ceKind e of
     KindPAT \<Rightarrow>
       let expiry = fmtLinodeTS (i64 (roNow env + patValidityDays * daySecs));
           mint = MintPAT (ceLabel e) (ceScopes e) expiry
       in (case roMintPAT env of
         Inr err \<Rightarrow> (Some err, [mint])
       | Inl m \<Rightarrow>
         let token = str_at m ''token''
         in if token = [] then (Some ''mint returned no token'', [mint])
            else case roVerify env token of
              Some err \<Rightarrow> (Some (msg [''new token failed verification '', em_dash, '' not draining the old one: '', err]), [mint, VerifyToken token])
            | None \<Rightarrow> (case storeAndDrain env e keepNewest (ceFields e token []) of
                (res, evs) \<Rightarrow> (res, mint # VerifyToken token # evs)))
   | KindObjKey \<Rightarrow> (case roMintKey env of
         Inr err \<Rightarrow> (Some err, [MintKey (ceLabel e)])
       | Inl m \<Rightarrow>
         let access = str_at m ''access_key''; secret = str_at m ''secret_key''
         in if access = [] \<or> secret = [] then (Some ''mint returned no access_key/secret_key'', [MintKey (ceLabel e)])
            else (case storeAndDrain env e keepNewest (ceFields e access secret) of
                (res, evs) \<Rightarrow> (res, MintKey (ceLabel e) # evs))))"

text \<open>Whether the key that OpenBao names still grants every bucket: the answer, why not, and
  whether it could be told.\<close>

definition grantedList :: "string list \<Rightarrow> string" where
  "grantedList granted = (if granted = [] then ''nothing'' else join '', '' (sort (remdups granted)))"

definition grantedBuckets :: "json list \<Rightarrow> string list" where
  "grantedBuckets access = List.map_filter (\<lambda>a. case a of
       JObj m \<Rightarrow> if contains (str_at m ''permissions'') ''write'' then Some (str_at m ''bucket_name'') else None
     | _ \<Rightarrow> None) access"

definition seededKeyGrants :: "rotEnv \<Rightarrow> string \<Rightarrow> credEntry \<Rightarrow> bool \<times> string \<times> bool" where
  "seededKeyGrants env accessKey e = (case roKeys env of
     Inr err \<Rightarrow> (False, msg [''could not list object-storage keys ('', err, '')''], False)
   | Inl keys \<Rightarrow>
     (case find (\<lambda>k. str_at k ''access_key'' = accessKey) keys of
        None \<Rightarrow> (False, msg [''names access key '', accessKey, '', which no longer exists on this account''], True)
      | Some found \<Rightarrow>
        (case map_of found ''bucket_access'' of
           None \<Rightarrow> (True, [], True)
         | Some JNull \<Rightarrow> (True, [], True)
         | Some (JArr access) \<Rightarrow>
             let granted = grantedBuckets access;
                 missing = filter (\<lambda>b. b \<notin> set granted) (ceBuckets e)
             in if missing \<noteq> [] then
                  (False, msg [''grants no write access on '', join '', '' missing, '' (key '', accessKey, '' is scoped to '',
                     grantedList granted, '')''], True)
                else (True, [], True)
         | _ \<Rightarrow> (False, ''has a bucket_access this check cannot read'', False))))"

definition currentKeyStillGrants :: "rotEnv \<Rightarrow> credEntry \<Rightarrow> bool \<times> string \<times> bool" where
  "currentKeyStillGrants env e =
     (if ceKind e \<noteq> KindObjKey then (False, [], False)
      else case roGet env (ceBaoPath e) (cePresentField e) of
        Inr err \<Rightarrow> (False, [], False)
      | Inl access \<Rightarrow> if trim_space access = [] then (False, [], False) else seededKeyGrants env access e)"

text \<open>The loop over the table: the names rotated and skipped, or the error that ended it.\<close>

fun rotateTable :: "rotEnv \<Rightarrow> bool \<Rightarrow> int \<Rightarrow> int \<Rightarrow> credEntry list \<Rightarrow> string list \<Rightarrow> string list \<Rightarrow>
    (string list \<times> string list + string) \<times> rotEvent list" where
  "rotateTable env doApply rotateAfter keepNewest [] rotated skipped = (Inl (rotated, skipped), [])"
| "rotateTable env doApply rotateAfter keepNewest (e # es) rotated skipped =
     (case roGet env (ceBaoPath e) ''rotated_at'' of
        Inr err \<Rightarrow> (Inr (msg [''read '', ceBaoPath e, '' rotated_at: '', err]), [])
      | Inl rotatedAt \<Rightarrow>
        if \<not> isDue rotatedAt (roNow env) rotateAfter \<and>
           (case currentKeyStillGrants env e of (grants, why, known) \<Rightarrow> \<not> known \<or> grants)
        then rotateTable env doApply rotateAfter keepNewest es rotated (skipped @ [ceName e])
        else if \<not> doApply then
          rotateTable env doApply rotateAfter keepNewest es (rotated @ [ceName e @ '' (dry-run)'']) skipped
        else (case rotateOne env e keepNewest of
            (Some err, evs) \<Rightarrow> (Inr (msg [''rotate '', ceName e, '': '', err]), evs)
          | (None, evs) \<Rightarrow>
              (case rotateTable env doApply rotateAfter keepNewest es (rotated @ [ceName e]) skipped of
                 (res, later) \<Rightarrow> (res, evs @ later))))"

definition objKeyKeepNewest :: nat where
  "objKeyKeepNewest = 2"

definition drainSupersededObjKeys :: "rotEnv \<Rightarrow> string \<Rightarrow> nat \<Rightarrow> rotEvent list" where
  "drainSupersededObjKeys env label keepID = (case roKeys env of
     Inr err \<Rightarrow> [ListKeys]
   | Inl keys \<Rightarrow>
     let ids = sort_desc (idsByLabel keys label)
     in ListKeys # (if length ids \<le> objKeyKeepNewest then []
          else map RevokeKey (filter (\<lambda>i. i \<noteq> keepID) (drop objKeyKeepNewest ids))))"

text \<open>Minting at bootstrap. \<open>seeded\<close> is the reading of \<open>KVGetFieldOK\<close>, the right summand where the
  path could not be read.\<close>

definition mintBootstrapEntry ::
  "rotEnv \<Rightarrow> (string + string) \<Rightarrow> bool \<Rightarrow> credEntry \<Rightarrow> string option \<times> rotEvent list" where
  "mintBootstrapEntry env seeded reseed e =
     (let mint = (case roMintKey env of
            Inr err \<Rightarrow> (Some (msg [''mint '', ceName e, '': '', err]), [MintKey (ceLabel e)])
          | Inl m \<Rightarrow>
            let access = str_at m ''access_key''; secret = str_at m ''secret_key''
            in if access = [] \<or> secret = [] then
                 (Some (msg [''mint '', ceName e, '' returned no access_key/secret_key'']), [MintKey (ceLabel e)])
               else
                 let store = StoreSecret (ceBaoPath e) (ceFields e access secret @ [(''rotated_at'', int_dec (roNow env))])
                 in case roStore env (ceBaoPath e) of
                   Some err \<Rightarrow> (Some (msg [''seed '', ceBaoPath e, '': '', err]), [MintKey (ceLabel e), store])
                 | None \<Rightarrow> (None, MintKey (ceLabel e) # store # (case asUint64 (map_of m ''id'') of
                       None \<Rightarrow> [] | Some newID \<Rightarrow> drainSupersededObjKeys env (ceLabel e) newID)))
      in case seeded of
        Inr err \<Rightarrow> (Some err, [])
      | Inl access \<Rightarrow>
        if access = [] then mint
        else (case seededKeyGrants env access e of (grants, why, known) \<Rightarrow>
          if \<not> known then (None, [ListKeys])
          else if grants then (None, [ListKeys])
          else if \<not> reseed then
            (Some (msg [ceName e, '': '', ceBaoPath e, '' is seeded but the key it names cannot write this deployment's buckets '',
               em_dash, '' '', why]), [ListKeys])
          else (fst mint, ListKeys # snd mint)))"

subsection \<open>The in-cluster token\<close>

definition inclusterPATValidityDays :: int where
  "inclusterPATValidityDays = 90"

definition inclusterPATGraceDays :: int where
  "inclusterPATGraceDays = 7"

definition inClusterPATScopes :: string where
  "inClusterPATScopes =
     ''domains:read_write object_storage:read_write volumes:read_write linodes:read_only vpc:read_only firewall:read_write''"

definition mintVerifiedInclusterPAT :: "rotEnv \<Rightarrow> string \<Rightarrow> (nat \<times> string + string) \<times> rotEvent list" where
  "mintVerifiedInclusterPAT env label =
     (let mint = MintPAT label inClusterPATScopes (fmtLinodeTS (i64 (roNow env + inclusterPATValidityDays * daySecs)))
      in case roMintPAT env of
        Inr err \<Rightarrow> (Inr (msg [''mint in-cluster PAT '', label, '': '', err]), [mint])
      | Inl resp \<Rightarrow> (case asUint64 (map_of resp ''id'') of
          None \<Rightarrow> (Inr ''mint in-cluster PAT: create response missing .id'', [mint])
        | Some i \<Rightarrow>
          let token = str_at resp ''token''
          in if token = [] then (Inr ''mint in-cluster PAT: create response missing .token'', [mint])
             else case roVerify env token of
               Some err \<Rightarrow> (Inr (msg [''verify freshly-minted in-cluster PAT (id='', nat_dec i, ''): '', err, '' '', em_dash,
                 '' leaving it for the next drain'']), [mint, VerifyToken token])
             | None \<Rightarrow> (Inl (i, token), [mint, VerifyToken token])))"

definition inclusterPath :: string where
  "inclusterPath = ''secret/linode/api-token''"

definition storeInclusterPAT :: "rotEnv \<Rightarrow> nat \<Rightarrow> string \<Rightarrow> rotEvent" where
  "storeInclusterPAT env i token = StoreSecret inclusterPath
     [(''token'', token), (''rotated_at'', int_dec (roNow env)), (''pat_id'', nat_dec i)]"

definition runMintBootstrapPAT :: "rotEnv \<Rightarrow> (string + string) \<Rightarrow> string \<Rightarrow> string option \<times> rotEvent list" where
  "runMintBootstrapPAT env seeded label = (case seeded of
     Inr err \<Rightarrow> (Some err, [])
   | Inl token \<Rightarrow>
     if token \<noteq> [] then (None, [])
     else (case mintVerifiedInclusterPAT env label of
         (Inr err, evs) \<Rightarrow> (Some err, evs)
       | (Inl (i, token), evs) \<Rightarrow> (case roStore env inclusterPath of
           Some err \<Rightarrow> (Some (msg [''seed '', inclusterPath, '': '', err]), evs @ [storeInclusterPAT env i token])
         | None \<Rightarrow> (None, evs @ [storeInclusterPAT env i token]))))"

text \<open>The monthly rotation, from the point where the OpenBao pod was found; a failed drain is not
  an error of the run.\<close>

definition runRotateInClusterPAT ::
  "(gracedToken list \<Rightarrow> gracedToken list) \<Rightarrow> rotEnv \<Rightarrow> string \<Rightarrow> string option \<times> rotEvent list" where
  "runRotateInClusterPAT srt env label = (case mintVerifiedInclusterPAT env label of
     (Inr err, evs) \<Rightarrow> (Some err, evs)
   | (Inl (i, token), evs) \<Rightarrow> (case roStore env inclusterPath of
       Some err \<Rightarrow> (Some err, evs @ [storeInclusterPAT env i token])
     | None \<Rightarrow> (None, evs @ storeInclusterPAT env i token # snd (runPATRevokeOld srt env True label inclusterPATGraceDays))))"

subsection \<open>What a drain promises\<close>

text \<open>A drain that is given the credentials newest first revokes only ones that another, at least as
  new, has outlived.\<close>

locale drain_policy =
  fixes made :: "'c \<Rightarrow> int" and ident :: "'c \<Rightarrow> nat" and outlived :: "'c \<Rightarrow> bool" and victims :: "'c list \<Rightarrow> nat list"
  assumes victim: "sorted_wrt (\<lambda>a b. made b \<le> made a) cs \<Longrightarrow> i \<in> set (victims cs) \<Longrightarrow>
    \<exists>before c c' after. cs = before @ c' # c # after \<and> ident c = i \<and> outlived c'"
begin

lemma victim_in: "sorted_wrt (\<lambda>a b. made b \<le> made a) cs \<Longrightarrow> i \<in> set (victims cs) \<Longrightarrow> \<exists>c \<in> set cs. ident c = i"
  using victim by fastforce

lemma victim_replaced:
  assumes "sorted_wrt (\<lambda>a b. made b \<le> made a) cs" and "distinct (map ident cs)" and "i \<in> set (victims cs)"
  shows "\<exists>c \<in> set cs. \<exists>c' \<in> set cs. ident c = i \<and> ident c' \<noteq> i \<and> made c \<le> made c' \<and> outlived c'"
proof -
  obtain before c c' after where cs: "cs = before @ c' # c # after" and c: "ident c = i" "outlived c'"
    using victim [OF assms(1,3)] by blast
  have "ident c' \<noteq> i" using assms(2) cs c by auto
  moreover have "made c \<le> made c'" using assms(1) cs by (simp add: sorted_wrt_append)
  ultimately show ?thesis using cs c by auto
qed

lemma first_survives:
  assumes "sorted_wrt (\<lambda>a b. made b \<le> made a) (c # cs)" and "distinct (map ident (c # cs))"
  shows "ident c \<notin> set (victims (c # cs))"
proof
  assume "ident c \<in> set (victims (c # cs))"
  from victim [OF assms(1) this] obtain before d d' after
    where "c # cs = before @ d' # d # after" and "ident d = ident c" by blast
  then show False using assms(2) by (cases before) auto
qed

end

text \<open>The decisions on the list, one for each neighbouring pair.\<close>

lemma zip_tl: "(x, y) \<in> set (zip xs (tl xs)) \<Longrightarrow> \<exists>before after. xs = before @ x # y # after"
proof (induction xs)
  case (Cons a xs)
  show ?case
  proof (cases xs)
    case (Cons b ys)
    then consider "x = a" "y = b" | "(x, y) \<in> set (zip xs (tl xs))" using Cons.prems by auto
    then show ?thesis
    proof cases
      case 1
      then show ?thesis using Cons by (intro exI [of _ "[]"] exI [of _ ys]) simp
    next
      case 2
      then obtain before after where "xs = before @ x # y # after" using Cons.IH by blast
      then show ?thesis by (intro exI [of _ "a # before"] exI [of _ after]) simp
    qed
  qed (use Cons.prems in simp)
qed simp

text \<open>The time since which the window is measured, and the cutoff where nothing overflows.\<close>

definition cutoff :: "int \<Rightarrow> int \<Rightarrow> int" where
  "cutoff graceDays now = i64 (now - i64 (graceDays * daySecs))"

interpretation grace_drain: drain_policy gtCreated gtID "\<lambda>t. min (gtCreated t) now \<le> cutoff g now"
  "\<lambda>ts. map gdID (filter gdDrain (decideByGrace ts g now))"
proof
  fix ts i
  assume "i \<in> set (map gdID (filter gdDrain (decideByGrace ts g now)))"
  then obtain x y where "(x, y) \<in> set (zip ts (tl ts))" "gtID y = i" "min (gtCreated x) now \<le> cutoff g now"
    by (auto simp: decideByGrace_def Let_def cutoff_def min_def split: if_splits)
  then show "\<exists>before c c' after. ts = before @ c' # c # after \<and> gtID c = i \<and> min (gtCreated c') now \<le> cutoff g now"
    using zip_tl by metis
qed

lemma drop_pairs: "i \<in> set (drop k xs) \<Longrightarrow> 1 \<le> k \<Longrightarrow> \<exists>before c' after. xs = before @ c' # i # after"
proof -
  assume "i \<in> set (drop k xs)" "1 \<le> k"
  then obtain before after where "drop k xs = before @ i # after" by (meson split_list)
  then have xs: "xs = (take k xs @ before) @ i # after" by (metis append_take_drop_id append.assoc)
  have "take k xs \<noteq> []" using \<open>1 \<le> k\<close> \<open>i \<in> set (drop k xs)\<close> by (cases xs) auto
  then obtain ys z where "take k xs @ before = ys @ [z]" by (metis append_is_Nil_conv rev_exhaust)
  with xs show ?thesis by auto
qed

lemma sort_desc_sorted: "sorted_wrt (\<lambda>a b. b \<le> a) (sort_desc ids)"
  by (simp add: sort_desc_def sorted_wrt_rev)

lemma sort_desc_id: "sorted_wrt (\<lambda>a b. int b \<le> int a) ids \<Longrightarrow> sort_desc ids = ids"
proof -
  assume "sorted_wrt (\<lambda>a b. int b \<le> int a) ids"
  then have "sorted (rev ids)" by (simp add: sorted_wrt_rev)
  then have "sort ids = rev ids" by (intro properties_for_sort) simp_all
  then show ?thesis by (simp add: sort_desc_def)
qed

interpretation keep_newest: drain_policy int "\<lambda>i. i" "\<lambda>_. True" "\<lambda>ids. idsToDrain ids k"
proof
  fix ids i
  assume "sorted_wrt (\<lambda>a b. int b \<le> int a) ids" and "i \<in> set (idsToDrain ids k)"
  then have "i \<in> set (drop (nat (max 1 k)) ids)"
    by (auto simp: idsToDrain_def Let_def sort_desc_id max_def split: if_splits)
  then show "\<exists>before c c' after. ids = before @ c' # c # after \<and> c = i \<and> True"
    using drop_pairs [of i _ ids] by fastforce
qed

text \<open>What \<open>sort.Slice\<close> promises for the creation times.\<close>

definition newestFirst :: "(gracedToken list \<Rightarrow> gracedToken list) \<Rightarrow> bool" where
  "newestFirst srt \<longleftrightarrow> (\<forall>ts. mset (srt ts) = mset ts \<and> sorted_wrt (\<lambda>a b. gtCreated b \<le> gtCreated a) (srt ts))"

lemma newestFirstD:
  assumes "newestFirst srt"
  shows "set (srt ts) = set ts" and "sorted_wrt (\<lambda>a b. gtCreated b \<le> gtCreated a) (srt ts)"
    and "distinct (map gtID (srt ts)) = distinct (map gtID ts)"
proof -
  have m: "mset (srt ts) = mset ts" and "sorted_wrt (\<lambda>a b. gtCreated b \<le> gtCreated a) (srt ts)"
    using assms by (auto simp: newestFirst_def)
  then show "set (srt ts) = set ts" "sorted_wrt (\<lambda>a b. gtCreated b \<le> gtCreated a) (srt ts)"
    by (auto dest: mset_eq_setD)
  have "mset (map gtID (srt ts)) = mset (map gtID ts)" using m by simp
  then show "distinct (map gtID (srt ts)) = distinct (map gtID ts)" by (rule mset_eq_imp_distinct_iff)
qed

lemma newestFirst_sort: "newestFirst (\<lambda>ts. rev (sort_key gtCreated ts))"
proof -
  have "sorted_wrt (\<lambda>a b. gtCreated a \<le> gtCreated b) (sort_key gtCreated ts)" for ts :: "gracedToken list"
    using sorted_sort_key [of gtCreated ts] by (simp add: sorted_wrt_map)
  then show ?thesis by (simp add: newestFirst_def sorted_wrt_rev)
qed

text \<open>The candidates among the items of an answer.\<close>

definition siblings :: "rotEnv \<Rightarrow> string \<Rightarrow> gracedToken list" where
  "siblings env label = (case roTokens env of Inr e \<Rightarrow> [] | Inl items \<Rightarrow> List.map_filter (patCandidate label) items)"

lemma revokeLoop_events:
  "revokeLoop env a ds r k = (res, evs) \<Longrightarrow> e \<in> set evs \<Longrightarrow> \<exists>d \<in> set ds. gdDrain d \<and> a \<and> e = RevokePAT (gdID d)"
  by (induction env a ds r k arbitrary: res evs rule: revokeLoop.induct)
    (fastforce split: if_splits option.splits prod.splits)+

text \<open>A revoked token has been replaced by a sibling that is at least as new and has been there for the window.\<close>

definition replaced :: "rotEnv \<Rightarrow> string \<Rightarrow> int \<Rightarrow> nat \<Rightarrow> bool" where
  "replaced env label g i \<longleftrightarrow> (\<exists>t \<in> set (siblings env label). \<exists>t' \<in> set (siblings env label).
     gtID t = i \<and> gtID t' \<noteq> i \<and> gtCreated t \<le> gtCreated t' \<and> min (gtCreated t') (roNow env) \<le> cutoff g (roNow env))"

lemma drained_replaced:
  assumes "newestFirst srt" and "distinct (map gtID (siblings env label))"
    and "i \<in> set (map gdID (filter gdDrain (decideByGrace (srt (siblings env label)) g (roNow env))))"
  shows "replaced env label g i"
  using grace_drain.victim_replaced [of "srt (siblings env label)" i g "roNow env"] newestFirstD [OF assms(1)] assms(2,3)
  by (simp add: replaced_def)

lemma revoke_old_drains:
  assumes "RevokePAT i \<in> set (snd (runPATRevokeOld srt env a label g))"
  shows "i \<in> set (map gdID (filter gdDrain (decideByGrace (srt (siblings env label)) g (roNow env)))) \<and> 0 \<le> g"
  using assms revokeLoop_events [of env a "decideByGrace (srt (siblings env label)) g (roNow env)" "[]" "[]"]
  by (fastforce simp: runPATRevokeOld_def siblings_def Let_def split: if_splits sum.splits list.splits prod.splits)

lemma broad_drains:
  assumes "RevokePAT i \<in> set (snd (revokeOldBroadPATs srt env label g))"
  shows "i \<in> set (map gdID (filter gdDrain (decideByGrace (srt (siblings env label)) g (roNow env))))"
  using assms by (auto simp: revokeOldBroadPATs_def siblings_def splitByGrace_def Let_def split: sum.splits prod.splits)

lemma cutoff_window: "0 \<le> g \<Longrightarrow> g \<le> 10 ^ 9 \<Longrightarrow> 0 \<le> now \<Longrightarrow> now \<le> 10 ^ 15 \<Longrightarrow> cutoff g now = now - g * 86400"
  by (simp add: cutoff_def daySecs_def i64_small)

lemma publishLoop_shape:
  "publishLoop env token ds pub = ((pub', res), evs) \<Longrightarrow>
     (res = None \<longrightarrow> evs = map (\<lambda>d. Publish (infraEnv d) token) ds \<and> pub' = pub @ map infraEnv ds) \<and>
     (\<forall>e \<in> set evs. \<exists>d. e = Publish d token)"
  by (induction ds arbitrary: pub evs) (fastforce simp: Let_def split: option.splits prod.splits)+

lemma publishLoop_ok:
  "publishLoop env token ds pub = ((pub', None), evs) \<Longrightarrow> k < length ds \<Longrightarrow>
     roPublish env (pub @ map infraEnv (take k ds)) (infraEnv (ds ! k)) = None"
proof (induction ds arbitrary: pub evs k)
  case (Cons d ds)
  then obtain evs' where p: "roPublish env pub (infraEnv d) = None"
    "publishLoop env token ds (pub @ [infraEnv d]) = ((pub', None), evs')"
    by (auto simp: Let_def split: option.splits prod.splits)
  show ?case
  proof (cases k)
    case (Suc j)
    have "roPublish env ((pub @ [infraEnv d]) @ map infraEnv (take j ds)) (infraEnv (ds ! j)) = None"
      using Cons.IH [OF p(2)] Cons.prems(2) Suc by simp
    then show ?thesis using Suc by simp
  qed (use p in simp)
qed simp

text \<open>Every call that revokes comes after a write that OpenBao accepted.\<close>

fun revokes :: "rotEvent \<Rightarrow> bool" where
  "revokes (RevokePAT i) = True"
| "revokes (RevokeKey i) = True"
| "revokes _ = False"

fun revokesAfterStore :: "rotEnv \<Rightarrow> bool \<Rightarrow> rotEvent list \<Rightarrow> bool" where
  "revokesAfterStore env stored [] \<longleftrightarrow> True"
| "revokesAfterStore env stored (e # es) \<longleftrightarrow> (revokes e \<longrightarrow> stored) \<and>
     revokesAfterStore env (stored \<or> (case e of StoreSecret p f \<Rightarrow> roStore env p = None | _ \<Rightarrow> False)) es"

lemma after_store [simp]: "revokesAfterStore env True es"
  by (induction es) auto

lemma after_store_append:
  "list_all (\<lambda>e. \<not> revokes e) xs \<Longrightarrow> revokesAfterStore env b ys \<Longrightarrow> revokesAfterStore env b (xs @ ys)"
proof (induction xs arbitrary: b)
  case (Cons x xs)
  have "revokesAfterStore env True (xs @ ys)" by simp
  with Cons show ?case by (cases "b \<or> (case x of StoreSecret p f \<Rightarrow> roStore env p = None | _ \<Rightarrow> False)") auto
qed simp

lemma after_store_publishes:
  "revokesAfterStore env b (map (\<lambda>d. Publish (f d) token) ds @ ys) = revokesAfterStore env b ys"
  by (induction ds) auto

lemma after_store_quiet: "list_all (\<lambda>e. \<not> revokes e) xs \<Longrightarrow> revokesAfterStore env b xs"
  using after_store_append [of xs env b "[]"] by simp

lemma quiet_publishLoop: "list_all (\<lambda>e. \<not> revokes e) (snd (publishLoop env token ds pub))"
  using publishLoop_shape [of env token ds pub "fst (fst (publishLoop env token ds pub))" "snd (fst (publishLoop env token ds pub))"]
  by (force simp: list_all_iff)

lemma quiet_mint: "list_all (\<lambda>e. \<not> revokes e) (snd (mintVerifiedInclusterPAT env label))"
  by (auto simp: mintVerifiedInclusterPAT_def Let_def split: sum.splits option.splits)

lemma after_store_storeAndDrain: "revokesAfterStore env b (snd (storeAndDrain env e k flds))"
  by (auto simp: storeAndDrain_def Let_def split: option.split)

lemma after_store_rotateOne: "rotateOne env e k = (res, evs) \<Longrightarrow> revokesAfterStore env b evs \<and>
    (res = None \<longrightarrow> revokesAfterStore env b (evs @ es))"
  by (auto simp: rotateOne_def storeAndDrain_def Let_def split: credKind.splits sum.splits option.splits prod.splits if_splits)

lemma after_store_rotateTable:
  "revokesAfterStore env b (snd (rotateTable env doApply after keep table rotated skipped))"
proof (induction table arbitrary: rotated skipped)
  case (Cons e es)
  then show ?case
    using after_store_rotateOne [of env e keep]
    by (fastforce split: sum.splits option.splits prod.splits)
qed simp

lemma dropped_has_newer:
  assumes "i \<in> set (drop k (sort_desc ids))" and "distinct ids"
  shows "i \<in> set ids \<and> k \<le> length (filter (\<lambda>j. i < j) ids)"
proof -
  let ?xs = "sort_desc ids"
  have d: "distinct ?xs" and set: "set ?xs = set ids" using assms(2) by (simp_all add: sort_desc_def)
  have "sorted_wrt (\<lambda>a b. b \<le> a) (take k ?xs @ drop k ?xs)" using sort_desc_sorted by simp
  then have "\<forall>j \<in> set (take k ?xs). i \<le> j"
    unfolding sorted_wrt_append using assms(1) by blast
  moreover have "i \<notin> set (take k ?xs)" using d assms(1) set_take_disj_set_drop_if_distinct [OF d, of k k] by auto
  ultimately have all: "\<forall>j \<in> set (take k ?xs). i < j" by (metis le_neq_implies_less)
  have "k = length (filter (\<lambda>j. i < j) (take k ?xs))" using all assms(1) by (simp add: filter_True) (cases "k \<le> length ?xs"; force)
  also have "\<dots> \<le> length (filter (\<lambda>j. i < j) (take k ?xs @ drop k ?xs))"
    unfolding filter_append length_append by (rule le_add1)
  also have "\<dots> = length (filter (\<lambda>j. i < j) ids)"
    by (simp add: sort_desc_def rev_filter [symmetric] filter_sort)
  finally show ?thesis using assms(1) set by (auto dest: in_set_dropD)
qed

lemma deleteKeys_events: "deleteKeys env a ids = (res, evs) \<Longrightarrow> e \<in> set evs \<Longrightarrow> \<exists>i \<in> set ids. e = RevokeKey i"
  by (induction ids arbitrary: res evs) (fastforce split: if_splits option.splits prod.splits)+

lemma idsToDrain_newer:
  "i \<in> set (idsToDrain ids k) \<Longrightarrow> distinct ids \<Longrightarrow> i \<in> set ids \<and> max 1 k \<le> int (length (filter (\<lambda>j. i < j) ids))"
  using dropped_has_newer [of i "nat (max 1 k)" ids] by (auto simp: idsToDrain_def Let_def max_def split: if_splits)

text \<open>The two ends of the broad rotation.\<close>

definition rotatedFully :: "rotEnv \<Rightarrow> broadPATOpts \<Rightarrow> rotOutcome \<Rightarrow> rotEvent list \<Rightarrow> bool" where
  "rotatedFully env opts res evs \<longleftrightarrow>
     (\<exists>token minted exp revs. roMintPAT env = Inl minted \<and> token = str_at minted ''token'' \<and> token \<noteq> [] \<and>
    roVerify env token = None \<and> roStore env broadPATBaoPath = None \<and>
    (\<forall>k. k < length (boDeployments opts) \<longrightarrow>
      roPublish env (map infraEnv (take k (boDeployments opts))) (infraEnv (boDeployments opts ! k)) = None) \<and>
    evs = [MintPAT (boLabel opts) broadPATScopes exp, VerifyToken token] @
      map (\<lambda>d. Publish (infraEnv d) token) (boDeployments opts) @
      [StoreSecret broadPATBaoPath [(''token'', token), (''rotated_at'', int_dec (roNow env))], ListTokens] @ map RevokePAT revs \<and>
    (\<exists>n skipped. res = Rotated n (map infraEnv (boDeployments opts)) (filter (\<lambda>i. roRevoke env i = None) revs) skipped))"

definition stoppedShort :: "rotEnv \<Rightarrow> rotEvent list \<Rightarrow> bool" where
  "stoppedShort env evs \<longleftrightarrow> list_all (\<lambda>e. \<not> revokes e) evs \<and>
     (\<forall>p f. StoreSecret p f \<in> set evs \<longrightarrow> roStore env p \<noteq> None)"

lemma broad_drain_shape:
  "\<exists>revs skipped. revokeOldBroadPATs srt env label g =
     ((filter (\<lambda>i. roRevoke env i = None) revs, skipped), ListTokens # map RevokePAT revs)"
proof (cases "roTokens env")
  case (Inr e)
  then show ?thesis by (intro exI [of _ "[]"]) (simp add: revokeOldBroadPATs_def)
qed (auto simp: revokeOldBroadPATs_def Let_def split: prod.splits)

lemma broad_ends:
  assumes "rotateBroadPAT srt env opts = (res, evs)"
  shows "stoppedShort env evs \<or> rotatedFully env opts res evs"
proof (cases "\<exists>minted stamp. roGet env broadPATBaoPath ''rotated_at'' = Inl stamp \<and>
    isDue stamp (roNow env) (boRotateAfter opts) \<and> boApply opts \<and> roMintPAT env = Inl minted \<and> str_at minted ''token'' \<noteq> [] \<and> roVerify env (str_at minted ''token'') = None")
  case False
  then have "stoppedShort env evs"
    using assms by (auto simp: rotateBroadPAT_def Let_def stoppedShort_def split: sum.splits if_splits option.splits)
  then show ?thesis ..
next
  case True
  then obtain minted stamp where due: "roGet env broadPATBaoPath ''rotated_at'' = Inl stamp"
      "isDue stamp (roNow env) (boRotateAfter opts)" "boApply opts"
    and m: "roMintPAT env = Inl minted" "str_at minted ''token'' \<noteq> []" "roVerify env (str_at minted ''token'') = None"
    by blast
  define token where "token = str_at minted ''token''"
  obtain pub perr pevs where pl: "publishLoop env token (boDeployments opts) [] = ((pub, perr), pevs)" by (metis surj_pair)
  note shape = publishLoop_shape [OF pl]
  then have quiet: "list_all (\<lambda>e. \<not> revokes e) pevs" "StoreSecret p f \<notin> set pevs" for p f
    by (force simp: list_all_iff)+
  obtain revs skipped where d: "revokeOldBroadPATs srt env (boLabel opts) (boGraceDays opts) =
      ((filter (\<lambda>i. roRevoke env i = None) revs, skipped), ListTokens # map RevokePAT revs)"
    using broad_drain_shape by blast
  show ?thesis
  proof (cases "perr = None \<and> roStore env broadPATBaoPath = None")
    case True
    then have "rotatedFully env opts res evs"
      using assms due m pl shape d publishLoop_ok [of env token "boDeployments opts" "[]" pub pevs]
      unfolding rotatedFully_def token_def [symmetric]
      by (auto simp: rotateBroadPAT_def Let_def token_def [symmetric])
    then show ?thesis ..
  next
    case False
    then have "stoppedShort env evs"
      using assms due m pl quiet
      by (auto simp: rotateBroadPAT_def Let_def token_def [symmetric] stoppedShort_def split: option.splits)
    then show ?thesis ..
  qed
qed

subsection \<open>Properties\<close>

text \<open>A cluster that answers every call: two tokens and three keys under the label \<open>x\<close>.\<close>

definition demoRotation :: rotEnv where
  "demoRotation =
     (let tok = (\<lambda>i created. [(''label'', JStr ''x''), (''id'', JInt i), (''created'', JStr created)])
      in \<lparr>roNow = 1700000000, roMintPAT = Inl [(''id'', JInt 2), (''token'', JStr ''t'')],
          roMintKey = Inl [(''id'', JInt 3), (''access_key'', JStr ''a''), (''secret_key'', JStr ''s'')],
          roVerify = (\<lambda>_. None), roPublish = (\<lambda>_ _. None), roStore = (\<lambda>_. None), roGet = (\<lambda>_ _. Inl []),
          roTokens = Inl [tok 1 ''2020-01-01T00:00:00'', tok 2 ''2021-01-01T00:00:00''],
          roKeys = Inl [tok 1 [], tok 2 [], tok 3 []], roRevoke = (\<lambda>_. None)\<rparr>)"

definition demoOpts :: broadPATOpts where
  "demoOpts = \<lparr>boLabel = ''x'', boDeployments = [''d''], boRotateAfter = 60, boGraceDays = 7, boApply = True\<rparr>"

definition stableSort :: "gracedToken list \<Rightarrow> gracedToken list" where
  "stableSort ts = rev (sort_key gtCreated ts)"



text \<open>mint, verify, publish, record, revoke. A run of the broad rotation that revokes anything has minted
  a token, verified it, published it to every deployment and written it to OpenBao, in this order, with
  every answer a success; a run that ends in an error or with a partial publish revokes nothing.\<close>

theorem broad_rotation_order:
  assumes "rotateBroadPAT srt env opts = (res, evs)" and "RevokePAT i \<in> set evs"
  shows "\<exists>token minted exp revs. roMintPAT env = Inl minted \<and> token = str_at minted ''token'' \<and> token \<noteq> [] \<and>
    roVerify env token = None \<and> roStore env broadPATBaoPath = None \<and>
    (\<forall>k. k < length (boDeployments opts) \<longrightarrow>
      roPublish env (map infraEnv (take k (boDeployments opts))) (infraEnv (boDeployments opts ! k)) = None) \<and>
    evs = [MintPAT (boLabel opts) broadPATScopes exp, VerifyToken token] @
      map (\<lambda>d. Publish (infraEnv d) token) (boDeployments opts) @
      [StoreSecret broadPATBaoPath [(''token'', token), (''rotated_at'', int_dec (roNow env))], ListTokens] @ map RevokePAT revs \<and>
    (\<exists>n skipped. res = Rotated n (map infraEnv (boDeployments opts)) (filter (\<lambda>i. roRevoke env i = None) revs) skipped)"
proof -
  have "\<not> stoppedShort env evs" using assms(2) by (force simp: stoppedShort_def list_all_iff)
  with broad_ends [OF assms(1)] show ?thesis by (simp add: rotatedFully_def)
qed

theorem broad_rotation_order_witness:
  "roStore demoRotation broadPATBaoPath = None \<and>
   RevokePAT 1 \<in> set (snd (rotateBroadPAT stableSort demoRotation demoOpts))"
proof -
  have "revokeOldBroadPATs stableSort demoRotation ''x'' 7 = (([1], []), [ListTokens, RevokePAT 1])" by code_simp
  moreover have "isDue [] 1700000000 60" by code_simp
  moreover have "publishLoop demoRotation ''t'' [''d''] [] = (([''infra-d''], None), [Publish ''infra-d'' ''t''])" by code_simp
  ultimately have r: "RevokePAT 1 \<in> set (snd (rotateBroadPAT stableSort demoRotation demoOpts))"
    by (simp add: rotateBroadPAT_def Let_def demoOpts_def) (simp add: demoRotation_def str_at_def Let_def)
  from broad_rotation_order [OF surjective_pairing r] r show ?thesis by blast
qed

text \<open>a rotation that failed is tried again. When a due run of the broad rotation does not get as far
  as the accepted write, it has not moved \<open>rotated_at\<close>, and at any later time the same value is due again.\<close>

theorem failed_rotation_stays_due:
  assumes "roGet env broadPATBaoPath ''rotated_at'' = Inl stamp" and "rotateBroadPAT srt env opts = (res, evs)"
    and "res = PublishedPartial n pub err \<or> res = RotateFailed msg'" and "roNow env \<le> later"
    and "later \<le> 2 ^ 61" and "0 \<le> roNow env" and "\<bar>boRotateAfter opts\<bar> \<le> 10 ^ 9"
    and "atoi (trim_space stamp) = Some ts" and "\<bar>ts\<bar> \<le> 2 ^ 61"
  shows "isDue stamp later (boRotateAfter opts) \<and>
    (\<forall>p f. StoreSecret p f \<in> set evs \<longrightarrow> roStore env p \<noteq> None) \<and> (\<forall>i. RevokePAT i \<notin> set evs)"
proof -
  have due: "isDue stamp (roNow env) (boRotateAfter opts)"
    using assms(1-3) by (auto simp: rotateBroadPAT_def split: if_splits)
  moreover have "i64 (roNow env - ts) = roNow env - ts" "i64 (later - ts) = later - ts"
    using assms(4-6,9) by (simp_all add: i64_small)
  ultimately have "isDue stamp later (boRotateAfter opts)"
    using assms(4,8) by (simp add: isDue_def)
  moreover have "\<not> rotatedFully env opts res evs" using assms(3) by (auto simp: rotatedFully_def)
  then have "stoppedShort env evs" using broad_ends [OF assms(2)] by blast
  ultimately show ?thesis by (force simp: stoppedShort_def list_all_iff)
qed

theorem failed_rotation_stays_due_witness:
  "isDue ''5'' 1700003600 60 \<and>
   fst (rotateBroadPAT stableSort (demoRotation\<lparr>roGet := \<lambda>_ _. Inl ''5'', roMintPAT := Inr ''401''\<rparr>) demoOpts) \<noteq> NotDue"
proof -
  let ?e = "demoRotation\<lparr>roGet := \<lambda>_ _. Inl ''5'', roMintPAT := Inr ''401''\<rparr>"
  let ?m = "msg [''mint broad PAT '', dq, ''x'', dq, '': '', ''401'']"
  have "isDue ''5'' 1700000000 60" by code_simp
  then have r: "fst (rotateBroadPAT stableSort ?e demoOpts) = RotateFailed ?m"
    by (simp add: rotateBroadPAT_def Let_def demoOpts_def demoRotation_def str_at_def)
  have a: "atoi (trim_space ''5'') = Some 5" by code_simp
  have "roGet ?e broadPATBaoPath ''rotated_at'' = Inl ''5''" by simp
  from failed_rotation_stays_due [OF this surjective_pairing disjI2 [OF r], of 1700003600 5] a r
  show ?thesis by (simp add: demoRotation_def demoOpts_def)
qed




text \<open>the bootstrap mints a key only when there is none to use: the path is unset, or an operator
  asked for a new one and the key it names was seen to lack a bucket; a path that could not be
  read mints nothing, and the key just minted is never among those it revokes.\<close>

theorem bootstrap_mints_when_needed:
  assumes "mintBootstrapEntry env seeded reseed entry = (res, evs)"
  shows "(MintKey l \<in> set evs \<longrightarrow> (\<exists>access. seeded = Inl access \<and>
      (access = [] \<or> reseed \<and> (\<exists>why. seededKeyGrants env access entry = (False, why, True))))) \<and>
    (\<forall>m i. roMintKey env = Inl m \<and> asUint64 (map_of m ''id'') = Some i \<longrightarrow> RevokeKey i \<notin> set evs)"
  using assms
  by (auto simp: mintBootstrapEntry_def drainSupersededObjKeys_def Let_def split: sum.splits option.splits prod.splits if_splits)

theorem bootstrap_mints_when_needed_witness:
  "RevokeKey 3 \<notin> set (snd (mintBootstrapEntry demoRotation (Inl []) False (hd (buildRotationTable ''p'' ''r'' ''o''))))"
proof -
  have "roMintKey demoRotation = Inl [(''id'', JInt 3), (''access_key'', JStr ''a''), (''secret_key'', JStr ''s'')]"
    by (simp add: demoRotation_def)
  moreover have "asUint64 (map_of [(''id'', JInt 3), (''access_key'', JStr ''a''), (''secret_key'', JStr ''s'')] ''id'') = Some 3"
    by simp
  ultimately show ?thesis
    using bootstrap_mints_when_needed [OF surjective_pairing [of "mintBootstrapEntry demoRotation (Inl []) False (hd (buildRotationTable ''p'' ''r'' ''o''))"]]
    by blast
qed

end
