(* ===== verification/Versions.thy ===== *)
theory Versions
  imports Go_Prelude
begin

text \<open>
  Version strings: \<open>internal/shared/llzver/llzver.go\<close> (release tags) and
  \<open>internal/shared/linode/lke_versions.go\<close> (the account's Kubernetes catalog). Both pick the
  newest entry of a list by one pass that keeps the best so far; the locale states what such a
  pass returns for any strict weak order on keys, and both loops interpret it.
\<close>

subsection \<open>The newest entry of a list\<close>

locale newest =
  fixes key :: "'e \<Rightarrow> 'k option" and gt :: "'k \<Rightarrow> 'k \<Rightarrow> bool"
  assumes irrefl: "\<not> gt a a"
    and trans: "gt a b \<Longrightarrow> gt b c \<Longrightarrow> gt a c"
    and negtrans: "\<not> gt a b \<Longrightarrow> \<not> gt b c \<Longrightarrow> \<not> gt a c"
begin

fun pick :: "'e option \<Rightarrow> 'e list \<Rightarrow> 'e option" where
  "pick best [] = best"
| "pick best (x # xs) =
     (case key x of
        None \<Rightarrow> pick best xs
      | Some k \<Rightarrow>
          (case best of
             None \<Rightarrow> pick (Some x) xs
           | Some b \<Rightarrow> if gt k (the (key b)) then pick (Some x) xs else pick best xs))"

definition newest_of :: "'e \<Rightarrow> 'e set \<Rightarrow> bool" where
  "newest_of m xs \<longleftrightarrow> m \<in> xs \<and> key m \<noteq> None \<and>
     (\<forall>x \<in> xs. \<forall>k. key x = Some k \<longrightarrow> \<not> gt k (the (key m)))"

lemma newest_ofD: "newest_of m xs \<Longrightarrow> x \<in> xs \<Longrightarrow> key x = Some k \<Longrightarrow> \<not> gt k (the (key m))"
  by (auto simp: newest_of_def)

lemma pick_Some:
  "newest_of b ys \<Longrightarrow> \<exists>m. pick (Some b) xs = Some m \<and> newest_of m (ys \<union> set xs)"
proof (induction xs arbitrary: b ys)
  case (Cons x xs)
  show ?case
  proof (cases "key x")
    case None
    then have "newest_of b (insert x ys)" using Cons.prems by (auto simp: newest_of_def)
    from Cons.IH [OF this] None show ?thesis by auto
  next
    case (Some k)
    show ?thesis
    proof (cases "gt k (the (key b))")
      case True
      have "\<not> gt j k" if "y \<in> ys" "key y = Some j" for y j
      proof
        assume "gt j k"
        from trans [OF this True] have "gt j (the (key b))" .
        with Cons.prems that show False by (auto simp: newest_of_def)
      qed
      then have "newest_of x (insert x ys)" using Some irrefl by (auto simp: newest_of_def)
      from Cons.IH [OF this] Some True show ?thesis by auto
    next
      case False
      then have "newest_of b (insert x ys)" using Some Cons.prems by (auto simp: newest_of_def)
      from Cons.IH [OF this] Some False show ?thesis by auto
    qed
  qed
qed auto

lemma pick_None: "pick None xs = None \<longleftrightarrow> (\<forall>x \<in> set xs. key x = None)"
proof (induction xs)
  case (Cons x xs)
  show ?case
  proof (cases "key x")
    case (Some k)
    have "newest_of x {x}" using Some irrefl by (auto simp: newest_of_def)
    from pick_Some [OF this, of xs] Some show ?thesis by auto
  qed (use Cons.IH in auto)
qed simp

lemma pick_newest: "pick None xs = Some m \<Longrightarrow> newest_of m (set xs)"
proof (induction xs)
  case (Cons x xs)
  show ?case
  proof (cases "key x")
    case None
    with Cons show ?thesis by (auto simp: newest_of_def)
  next
    case (Some k)
    have "newest_of x {x}" using Some irrefl by (auto simp: newest_of_def)
    from pick_Some [OF this, of xs] Some Cons.prems show ?thesis by auto
  qed
qed simp

text \<open>The order of the list only decides between entries neither of which is newer.\<close>

lemma newest_of_tie:
  "newest_of m xs \<Longrightarrow> newest_of n xs \<Longrightarrow> \<not> gt (the (key m)) (the (key n)) \<and> \<not> gt (the (key n)) (the (key m))"
  by (auto simp: newest_of_def)

lemma pick_skip: "pick best (filter (\<lambda>x. key x \<noteq> None) xs) = pick best xs"
  by (induction xs arbitrary: best) (auto split: option.splits)

end

subsection \<open>Release tags (\<open>llzver.go\<close>)\<close>

definition semver :: "string \<Rightarrow> (int \<times> int \<times> int) option" where
  "semver s =
     (let s = trim_prefix s ''llz/'';
          s = trim_prefix s ''v'';
          s = takeWhile (\<lambda>c. c \<noteq> CHR ''-'' \<and> c \<noteq> CHR ''+'') s;
          parts = split_on (CHR ''.'') s
      in if length parts \<noteq> 3 then None
         else (case (atoi (parts ! 0), atoi (parts ! 1), atoi (parts ! 2)) of
             (Some a, Some b, Some c) \<Rightarrow> Some (a, b, c)
           | _ \<Rightarrow> None))"

definition verLess :: "string \<Rightarrow> string \<Rightarrow> bool" where   \<comment> \<open>\<open>Less\<close>\<close>
  "verLess a b =
     (case (semver a, semver b) of
        (None, Some _) \<Rightarrow> True
      | (Some _, None) \<Rightarrow> False
      | (None, None) \<Rightarrow> False
      | (Some (am, an, ap), Some (bm, bn, bp)) \<Rightarrow>
          if am \<noteq> bm then am < bm else if an \<noteq> bn then an < bn else ap < bp)"

definition normalizeLLZTag :: "string \<Rightarrow> string" where
  "normalizeLLZTag ref =
     (let ref = trim_space ref
      in if ref = [] then []
         else ''v'' @ trim_prefix (trim_prefix ref ''llz/'') ''v'')"

fun latestLoop :: "string \<Rightarrow> string list \<Rightarrow> string" where
  "latestLoop best [] = best"
| "latestLoop best (t # ts) =
     (if contains t ''/'' \<or> \<not> has_prefix t ''v'' then latestLoop best ts
      else if semver t = None then latestLoop best ts
      else if best = [] \<or> verLess best t then latestLoop t ts
      else latestLoop best ts)"

definition latestLLZTag :: "string list \<Rightarrow> string \<times> bool" where
  "latestLLZTag tags = (let best = latestLoop [] tags in (best, best \<noteq> []))"

definition triple_gt :: "int \<times> int \<times> int \<Rightarrow> int \<times> int \<times> int \<Rightarrow> bool" where
  "triple_gt a b = (case (a, b) of ((am, an, ap), (bm, bn, bp)) \<Rightarrow>
     if bm \<noteq> am then bm < am else if bn \<noteq> an then bn < an else bp < ap)"

text \<open>A tag the loop considers: a bare \<open>v\<close>-tag that parses.\<close>

definition tagKey :: "string \<Rightarrow> (int \<times> int \<times> int) option" where
  "tagKey t = (if contains t ''/'' \<or> \<not> has_prefix t ''v'' then None else semver t)"

interpretation tags: newest tagKey triple_gt
  by unfold_locales (auto simp: triple_gt_def split: if_splits)

lemma tagKey_semver: "tagKey t = Some k \<Longrightarrow> semver t = Some k \<and> t \<noteq> []"
  by (auto simp: tagKey_def has_prefix_def split: if_splits)

lemma verLess_gt: "semver a = Some j \<Longrightarrow> semver b = Some k \<Longrightarrow> verLess a b \<longleftrightarrow> triple_gt k j"
  by (auto simp: verLess_def triple_gt_def split: prod.splits)

lemma latestLoop_pick:
  "best = [] \<or> tagKey best \<noteq> None \<Longrightarrow>
     latestLoop best ts = (case tags.pick (if best = [] then None else Some best) ts of
       None \<Rightarrow> [] | Some m \<Rightarrow> m)"
proof (induction ts arbitrary: best)
  case (Cons t ts)
  show ?case
  proof (cases "tagKey t")
    case None
    then have "latestLoop best (t # ts) = latestLoop best ts"
      by (auto simp: tagKey_def split: if_splits)
    with Cons.IH [OF Cons.prems] None show ?thesis by simp
  next
    case (Some k)
    then have t: "\<not> (contains t ''/'' \<or> \<not> has_prefix t ''v'')" "semver t = Some k" "t \<noteq> []"
      using tagKey_semver [OF Some] by (auto simp: tagKey_def split: if_splits)
    then have step: "latestLoop best (t # ts) =
        (if best = [] \<or> verLess best t then latestLoop t ts else latestLoop best ts)"
      by (simp del: contains.simps)
    have IH: "latestLoop t ts = (case tags.pick (Some t) ts of None \<Rightarrow> [] | Some m \<Rightarrow> m)"
      using Cons.IH [of t] Some t(3) by simp
    show ?thesis
    proof (cases "best = []")
      case True
      with step IH Some show ?thesis by simp
    next
      case False
      with Cons.prems obtain j where j: "tagKey best = Some j" by blast
      with t have "verLess best t \<longleftrightarrow> triple_gt k j" using verLess_gt tagKey_semver by blast
      with step IH Some False j Cons.IH [of best] show ?thesis by simp
    qed
  qed
qed simp

lemma latestLLZTag_pick:
  "latestLLZTag ts = (case tags.pick None ts of None \<Rightarrow> ([], False) | Some m \<Rightarrow> (m, True))"
proof (cases "tags.pick None ts")
  case (Some m)
  then have "m \<noteq> []" using tags.pick_newest [OF Some] tagKey_semver by (auto simp: tags.newest_of_def)
  with Some show ?thesis using latestLoop_pick [of "[]" ts] by (simp add: latestLLZTag_def)
qed (use latestLoop_pick [of "[]" ts] in \<open>simp add: latestLLZTag_def\<close>)

text \<open>\<open>Less\<close> is a strict weak order on all strings: unparseable tags are below every version.\<close>

definition verKey :: "string \<Rightarrow> (bool \<times> (int \<times> int \<times> int)) option" where
  "verKey s = Some (case semver s of None \<Rightarrow> (False, (0, 0, 0)) | Some k \<Rightarrow> (True, k))"

lemma verLess_asym: "verLess a b \<Longrightarrow> \<not> verLess b a"
  by (cases "semver a"; cases "semver b") (auto simp: verLess_def split: if_splits)

lemma verLess_trans: "verLess a b \<Longrightarrow> verLess b c \<Longrightarrow> verLess a c"
  by (cases "semver a"; cases "semver b"; cases "semver c")
    (auto simp: verLess_def split: if_splits)

lemma verLess_negtrans: "\<not> verLess a b \<Longrightarrow> \<not> verLess b c \<Longrightarrow> \<not> verLess a c"
  by (cases "semver a"; cases "semver b"; cases "semver c")
    (auto simp: verLess_def split: if_splits)

interpretation any_version: newest "\<lambda>s. Some s" "\<lambda>a b. verLess b a"
  by unfold_locales (use verLess_asym verLess_trans verLess_negtrans in blast)+

subsection \<open>The account's Kubernetes catalog (\<open>lke_versions.go\<close>)\<close>

datatype versionVerdict = VersionUnknown | VersionOffered | VersionNotOffered

definition normalizeVersion :: "string \<Rightarrow> string" where
  "normalizeVersion v = trim_prefix (trim_space v) ''v''"

definition hasBuild :: "string \<Rightarrow> bool" where
  "hasBuild v = contains v ''+''"

fun namesBuildLoop :: "bool \<Rightarrow> string list \<Rightarrow> bool" where
  "namesBuildLoop seen [] = seen"
| "namesBuildLoop seen (e # es) =
     (let n = normalizeVersion e
      in if n = [] then namesBuildLoop seen es
         else if \<not> hasBuild n then False
         else namesBuildLoop True es)"

definition everyEntryNamesABuild :: "string list \<Rightarrow> bool" where
  "everyEntryNamesABuild offered = namesBuildLoop False offered"

text \<open>The loop of \<open>CheckVersion\<close>: \<open>Inl ()\<close> is the early return on an exact match,
  \<open>Inr nearest\<close> the fall-through.\<close>

fun checkLoop :: "string \<Rightarrow> string \<Rightarrow> string list \<Rightarrow> unit + string" where
  "checkLoop w nearest [] = Inr nearest"
| "checkLoop w nearest (e # es) =
     (let e = trim_space e
      in if e = w then Inl ()
         else if nearest = [] \<and> normalizeVersion e = normalizeVersion w then checkLoop w e es
         else checkLoop w nearest es)"

definition checkVersion :: "string \<Rightarrow> string list \<Rightarrow> versionVerdict \<times> string" where
  "checkVersion want offered =
     (let w = trim_space want
      in if w = [] \<or> length offered = 0 then (VersionUnknown, [])
         else (case checkLoop w [] offered of
             Inl _ \<Rightarrow> (VersionOffered, [])
           | Inr nearest \<Rightarrow>
               if everyEntryNamesABuild offered then (VersionNotOffered, nearest)
               else (VersionUnknown, [])))"

type_synonym versionKey = "int \<times> int \<times> int \<times> int"

definition versionSortKey :: "string \<Rightarrow> versionKey option" where
  "versionSortKey v =
     (let n = trim_prefix (trim_space v) ''v'';
          (base, build, found) = cut_on ''+lke'' n
      in if \<not> found then None
         else let parts = split_on (CHR ''.'') base
              in if length parts \<noteq> 3 then None
         else (case map atoi (parts @ [build]) of
             [Some a, Some b, Some c, Some d] \<Rightarrow>
               if a < 0 \<or> b < 0 \<or> c < 0 \<or> d < 0 then None else Some (a, b, c, d)
           | _ \<Rightarrow> None))"

definition greaterThan :: "versionKey \<Rightarrow> versionKey \<Rightarrow> bool" where
  "greaterThan k other = (case (k, other) of ((a, b, c, d), (a', b', c', d')) \<Rightarrow>
     if a \<noteq> a' then a > a' else if b \<noteq> b' then b > b'
     else if c \<noteq> c' then c > c' else if d \<noteq> d' then d > d' else False)"

definition namesABuild :: "string \<Rightarrow> bool" where
  "namesABuild v \<longleftrightarrow> versionSortKey v \<noteq> None"

fun newestLoop :: "string \<Rightarrow> versionKey \<Rightarrow> string list \<Rightarrow> string" where
  "newestLoop best bestKey [] = best"
| "newestLoop best bestKey (e # es) =
     (let e = trim_space e
      in case versionSortKey e of
           None \<Rightarrow> newestLoop best bestKey es
         | Some key \<Rightarrow>
             if best = [] \<or> greaterThan key bestKey then newestLoop e key es
             else newestLoop best bestKey es)"

definition newestVersion :: "string list \<Rightarrow> string" where
  "newestVersion offered = newestLoop [] (-1, -1, -1, -1) offered"

definition minorOf :: "string \<Rightarrow> (int \<times> int) option" where
  "minorOf v =
     (let n = normalizeVersion v;
          n = (case index_of (CHR ''+'') n of Some i \<Rightarrow> take i n | None \<Rightarrow> n);
          parts = split_on (CHR ''.'') n
      in if length parts < 2 then None
         else (case (atoi (parts ! 0), atoi (parts ! 1)) of
             (Some ma, Some mi) \<Rightarrow> if ma < 0 \<or> mi < 0 then None else Some (ma, mi)
           | _ \<Rightarrow> None))"

definition newestVersionInMinorOf :: "string list \<Rightarrow> string \<Rightarrow> string" where
  "newestVersionInMinorOf offered like =
     (case minorOf like of
        None \<Rightarrow> []
      | Some (major, minor) \<Rightarrow>
          newestVersion (map trim_space (filter (\<lambda>e. case versionSortKey e of
              Some (a, b, _, _) \<Rightarrow> a = major \<and> b = minor | None \<Rightarrow> False) offered)))"

definition newestBuildOfPatch :: "string list \<Rightarrow> string \<Rightarrow> string" where
  "newestBuildOfPatch offered like =
     (let n = normalizeVersion like
      in if hasBuild n then []
         else if length (split_on (CHR ''.'') n) \<noteq> 3 then []
         else newestVersion (filter (\<lambda>e. case cut_on ''+lke'' (normalizeVersion e) of
             (base, _, found) \<Rightarrow> found \<and> base = n) (map trim_space offered)))"

definition differentMinor :: "string \<Rightarrow> string \<Rightarrow> bool" where
  "differentMinor a b = (case (minorOf a, minorOf b) of
     (Some (amaj, amin), Some (bmaj, bmin)) \<Rightarrow> amaj \<noteq> bmaj \<or> amin \<noteq> bmin
   | _ \<Rightarrow> False)"

text \<open>A cluster of the account, with the fields \<open>mString\<close> reads (\<open>acl.go\<close>).\<close>

record clusterJSON =
  cjLabel :: string
  cjRegion :: string
  cjVersion :: string

definition matchingClusters :: "clusterJSON list \<Rightarrow> string \<Rightarrow> string \<Rightarrow> clusterJSON list" where
  "matchingClusters clusters label region =
     filter (\<lambda>m. \<not> (cjLabel m \<noteq> label) \<and> \<not> (region \<noteq> [] \<and> cjRegion m \<noteq> region)) clusters"

definition clusterVersionFor :: "clusterJSON list \<Rightarrow> string \<Rightarrow> string \<Rightarrow> string" where
  "clusterVersionFor clusters label region =
     (if label = [] then []
      else let m = matchingClusters clusters label region
           in if length m \<noteq> 1 then [] else trim_space (cjVersion (hd m)))"

definition clusterRunsVersion :: "clusterJSON list \<Rightarrow> string \<Rightarrow> string \<Rightarrow> string \<Rightarrow> bool" where
  "clusterRunsVersion clusters label region version =
     (let w = trim_space version
      in if w = [] then False else clusterVersionFor clusters label region = w)"

subsection \<open>Choosing from the catalog\<close>

lemma greaterThan_order:
  "\<not> greaterThan a a"
  "greaterThan a b \<Longrightarrow> greaterThan b c \<Longrightarrow> greaterThan a c"
  "\<not> greaterThan a b \<Longrightarrow> \<not> greaterThan b c \<Longrightarrow> \<not> greaterThan a c"
  by (auto simp: greaterThan_def split: prod.splits if_splits)

interpretation catalog: newest versionSortKey greaterThan
  by unfold_locales (use greaterThan_order in blast)+

lemma trim_space_idem [simp]: "trim_space (trim_space s) = trim_space s"
  by (simp add: trim_space_def trim_by_idem)

lemma trim_space_Nil [simp]: "trim_space [] = []"
  by (simp add: trim_space_def trim_by_def trim_left_def trim_right_def)

lemma versionSortKey_trim [simp]: "versionSortKey (trim_space v) = versionSortKey v"
  by (simp add: versionSortKey_def)

lemma versionSortKey_Nil [simp]: "versionSortKey [] = None"
  by (simp add: versionSortKey_def trim_prefix_def has_prefix_def)

lemma newestLoop_pick:
  "best = [] \<or> versionSortKey best = Some bestKey \<Longrightarrow>
     newestLoop best bestKey es = (case catalog.pick (if best = [] then None else Some best)
       (map trim_space es) of None \<Rightarrow> [] | Some m \<Rightarrow> m)"
proof (induction es arbitrary: best bestKey)
  case (Cons e es)
  show ?case
  proof (cases "versionSortKey e")
    case None
    with Cons.IH [OF Cons.prems] show ?thesis by simp
  next
    case (Some k)
    then have "trim_space e \<noteq> []" using versionSortKey_trim [of e] by (metis versionSortKey_Nil option.distinct(1))
    then have IH: "newestLoop (trim_space e) k es =
        (case catalog.pick (Some (trim_space e)) (map trim_space es) of None \<Rightarrow> [] | Some m \<Rightarrow> m)"
      using Cons.IH [of "trim_space e" k] Some by simp
    show ?thesis
    proof (cases "best = []")
      case True
      with IH Some show ?thesis by simp
    next
      case False
      with Cons.prems IH Some Cons.IH [of best bestKey] show ?thesis by simp
    qed
  qed
qed auto

lemma newestVersion_pick:
  "newestVersion offered = (case catalog.pick None (map trim_space offered) of None \<Rightarrow> [] | Some m \<Rightarrow> m)"
  using newestLoop_pick [of "[]"] by (simp add: newestVersion_def)

lemma newestVersion_Nil: "newestVersion offered = [] \<longleftrightarrow> (\<forall>e \<in> set offered. versionSortKey e = None)"
proof (cases "catalog.pick None (map trim_space offered)")
  case None
  then show ?thesis using catalog.pick_None [of "map trim_space offered"] by (simp add: newestVersion_pick)
next
  case (Some m)
  have "m \<noteq> []" using catalog.pick_newest [OF Some] by (auto simp: catalog.newest_of_def)
  moreover have "\<not> (\<forall>e \<in> set offered. versionSortKey e = None)"
    using Some catalog.pick_None [of "map trim_space offered"] by auto
  ultimately show ?thesis using Some by (simp add: newestVersion_pick)
qed

lemma newestVersion_newest:
  assumes "newestVersion offered \<noteq> []"
  shows "catalog.newest_of (newestVersion offered) (trim_space ` set offered)"
proof (cases "catalog.pick None (map trim_space offered)")
  case None
  with assms show ?thesis by (simp add: newestVersion_pick)
next
  case (Some m)
  then show ?thesis using catalog.pick_newest [OF Some] by (simp add: newestVersion_pick)
qed

lemma checkLoop_Inl: "checkLoop w nearest es = Inl () \<longleftrightarrow> w \<in> trim_space ` set es"
  by (induction w nearest es rule: checkLoop.induct) (auto simp: Let_def)

lemma checkLoop_Inr:
  "checkLoop w nearest es = Inr m \<Longrightarrow> m = nearest \<or>
     m \<in> trim_space ` set es \<and> normalizeVersion m = normalizeVersion w"
  by (induction w nearest es rule: checkLoop.induct) (auto simp: Let_def split: if_splits)

lemma namesBuildLoop_iff:
  "namesBuildLoop seen es \<longleftrightarrow>
     (\<forall>e \<in> set es. normalizeVersion e = [] \<or> hasBuild (normalizeVersion e)) \<and>
     (seen \<or> (\<exists>e \<in> set es. normalizeVersion e \<noteq> []))"
  by (induction seen es rule: namesBuildLoop.induct) (auto simp: Let_def)

lemma checkVersion_offered:
  "fst (checkVersion want offered) = VersionOffered \<longleftrightarrow>
     trim_space want \<noteq> [] \<and> trim_space want \<in> trim_space ` set offered"
  using checkLoop_Inl [of "trim_space want" "[]" offered]
  by (auto simp: checkVersion_def Let_def split: sum.splits)

lemma checkVersion_notOffered:
  "fst (checkVersion want offered) = VersionNotOffered \<longleftrightarrow>
     trim_space want \<noteq> [] \<and> trim_space want \<notin> trim_space ` set offered \<and> everyEntryNamesABuild offered"
proof -
  have "everyEntryNamesABuild offered \<Longrightarrow> offered \<noteq> []"
    by (auto simp: everyEntryNamesABuild_def)
  then show ?thesis
    using checkLoop_Inl [of "trim_space want" "[]" offered]
    by (auto simp: checkVersion_def Let_def split: sum.splits)
qed

subsection \<open>Properties\<close>

text \<open>\<open>LatestLLZTag\<close> returns a tag of the list that is a bare, parseable \<open>v\<close>-tag and
  that no other such tag exceeds, and reports none exactly when there is no such tag.\<close>

lemma latestLLZTag_max:
  "case latestLLZTag ts of (best, found) \<Rightarrow>
     (found \<longleftrightarrow> (\<exists>t \<in> set ts. tagKey t \<noteq> None)) \<and>
     (found \<longrightarrow> best \<in> set ts \<and> tagKey best \<noteq> None \<and>
        (\<forall>t \<in> set ts. tagKey t \<noteq> None \<longrightarrow> \<not> verLess best t))"
proof (cases "tags.pick None ts")
  case None
  then show ?thesis using tags.pick_None [of ts] by (simp add: latestLLZTag_pick)
next
  case (Some m)
  have n: "tags.newest_of m (set ts)" by (rule tags.pick_newest [OF Some])
  have "\<not> verLess m t" if t: "t \<in> set ts" "tagKey t \<noteq> None" for t
  proof -
    from t(2) obtain k where k: "tagKey t = Some k" by blast
    from n obtain j where j: "tagKey m = Some j" by (auto simp: tags.newest_of_def)
    from tags.newest_ofD [OF n t(1) k] j have "\<not> triple_gt k j" by simp
    then show ?thesis using verLess_gt tagKey_semver [OF j] tagKey_semver [OF k] by blast
  qed
  then show ?thesis using n Some by (auto simp: latestLLZTag_pick tags.newest_of_def)
qed

lemma latestLLZTag_max_witness:
  "case latestLLZTag [''v0.9.1'', ''llz/v9.0.0'', ''v0.10.0''] of (best, found) \<Rightarrow>
     (found \<longleftrightarrow> (\<exists>t \<in> set [''v0.9.1'', ''llz/v9.0.0'', ''v0.10.0'']. tagKey t \<noteq> None)) \<and>
     (found \<longrightarrow> best \<in> set [''v0.9.1'', ''llz/v9.0.0'', ''v0.10.0''] \<and> tagKey best \<noteq> None \<and>
        (\<forall>t \<in> set [''v0.9.1'', ''llz/v9.0.0'', ''v0.10.0'']. tagKey t \<noteq> None \<longrightarrow> \<not> verLess best t))"
  by (rule latestLLZTag_max)

text \<open>the version chosen for a new cluster is one the account can build by the same check
  that later judges it: \<open>CheckVersion\<close> on \<open>NewestVersion\<close>'s choice is always Offered, and
  no full build id of the catalog is newer.\<close>

lemma newestVersion_is_offered:
  assumes "newestVersion offered \<noteq> []"
  shows "checkVersion (newestVersion offered) offered = (VersionOffered, [])
    \<and> (\<forall>e \<in> set offered. \<forall>k. versionSortKey e = Some k \<longrightarrow>
         \<not> greaterThan k (the (versionSortKey (newestVersion offered))))"
proof -
  let ?m = "newestVersion offered"
  have n: "catalog.newest_of ?m (trim_space ` set offered)" by (rule newestVersion_newest [OF assms])
  then obtain e where "e \<in> set offered" "?m = trim_space e" by (auto simp: catalog.newest_of_def)
  then have "fst (checkVersion ?m offered) = VersionOffered"
    using assms by (auto simp: checkVersion_offered)
  then have "checkVersion ?m offered = (VersionOffered, [])"
    by (auto simp: checkVersion_def Let_def split: if_splits sum.splits)
  moreover have "\<not> greaterThan k (the (versionSortKey ?m))"
    if "e \<in> set offered" "versionSortKey e = Some k" for e k
    using catalog.newest_ofD [OF n, of "trim_space e" k] that by simp
  ultimately show ?thesis by blast
qed

lemma newestVersion_is_offered_witness:
  "checkVersion (newestVersion [''1.33'', ''v1.34.6+lke2'']) [''1.33'', ''v1.34.6+lke2''] = (VersionOffered, [])"
proof -
  have "versionSortKey ''v1.34.6+lke2'' \<noteq> None" by code_simp
  then have "newestVersion [''1.33'', ''v1.34.6+lke2''] \<noteq> []" by (simp add: newestVersion_Nil)
  from newestVersion_is_offered [OF this] show ?thesis by blast
qed

text \<open>only a catalog of full build ids may reject a pin: a Not-Offered verdict means the
  pin is absent and every entry names a build, an Offered verdict means it is listed verbatim,
  and a near-miss hint is an entry of the catalog that differs from the pin only in its \<open>v\<close>.\<close>

lemma checkVersion_sound:
  "case checkVersion want offered of (v, near) \<Rightarrow>
     (v = VersionOffered \<longleftrightarrow> trim_space want \<noteq> [] \<and> trim_space want \<in> trim_space ` set offered) \<and>
     (v = VersionNotOffered \<longleftrightarrow> trim_space want \<noteq> [] \<and> trim_space want \<notin> trim_space ` set offered
        \<and> (\<forall>e \<in> set offered. normalizeVersion e = [] \<or> hasBuild (normalizeVersion e))
        \<and> (\<exists>e \<in> set offered. normalizeVersion e \<noteq> [])) \<and>
     (near = [] \<or> near \<in> trim_space ` set offered \<and> v = VersionNotOffered
        \<and> normalizeVersion near = normalizeVersion (trim_space want))"
proof -
  obtain v near where c: "checkVersion want offered = (v, near)" by fastforce
  have "near = [] \<or> near \<in> trim_space ` set offered \<and> v = VersionNotOffered
        \<and> normalizeVersion near = normalizeVersion (trim_space want)"
    using c checkLoop_Inr [of "trim_space want" "[]" offered near]
    by (auto simp: checkVersion_def Let_def split: if_splits sum.splits)
  then show ?thesis
    using checkVersion_offered [of want offered] checkVersion_notOffered [of want offered]
    by (simp add: c everyEntryNamesABuild_def namesBuildLoop_iff)
qed

lemma checkVersion_sound_witness:
  "case checkVersion ''1.34.6+lke2'' [''v1.34.6+lke2''] of (v, near) \<Rightarrow>
     (v = VersionOffered \<longleftrightarrow> trim_space ''1.34.6+lke2'' \<noteq> []
        \<and> trim_space ''1.34.6+lke2'' \<in> trim_space ` set [''v1.34.6+lke2'']) \<and>
     (v = VersionNotOffered \<longleftrightarrow> trim_space ''1.34.6+lke2'' \<noteq> []
        \<and> trim_space ''1.34.6+lke2'' \<notin> trim_space ` set [''v1.34.6+lke2'']
        \<and> (\<forall>e \<in> set [''v1.34.6+lke2'']. normalizeVersion e = [] \<or> hasBuild (normalizeVersion e))
        \<and> (\<exists>e \<in> set [''v1.34.6+lke2'']. normalizeVersion e \<noteq> [])) \<and>
     (near = [] \<or> near \<in> trim_space ` set [''v1.34.6+lke2''] \<and> v = VersionNotOffered
        \<and> normalizeVersion near = normalizeVersion (trim_space ''1.34.6+lke2''))"
  by (rule checkVersion_sound)

end
