(* ===== verification/Extension_Types.thy ===== *)
theory Extension_Types
  imports Go_Prelude
begin

text \<open>
  \<open>internal/shared/extension\<close> (\<open>extension.go\<close>, \<open>validate.go\<close>): the declarations of the
  extension registry and the checker of a declaration, and beside it the type system the checker
  implements: \<open>grant_typed\<close>, \<open>attach_typed\<close>, \<open>binding_typed\<close> and \<open>extension_typed\<close> are the
  judgements, \<open>Validate\<close> is the algorithm. States, kinds and grants are strings, as in the code,
  where an unknown one is a value like any other. A diagnostic is a constructor with the values
  its text is printed from; the texts themselves are left out.
\<close>

named_theorems grant_tables \<open>the three ceiling tables and the vocabularies\<close>

subsection \<open>States, kinds and grants\<close>

abbreviation Scaffolded :: string where "Scaffolded \<equiv> ''scaffolded''"
abbreviation Configured :: string where "Configured \<equiv> ''configured''"
abbreviation Provisioned :: string where "Provisioned \<equiv> ''provisioned''"
abbreviation Seeded :: string where "Seeded \<equiv> ''seeded''"
abbreviation Converged_st :: string where "Converged_st \<equiv> ''converged''"
abbreviation Verified :: string where "Verified \<equiv> ''verified''"
abbreviation Operating :: string where "Operating \<equiv> ''operating''"
abbreviation Promoted :: string where "Promoted \<equiv> ''promoted''"
abbreviation Upgraded :: string where "Upgraded \<equiv> ''upgraded''"
abbreviation Destroyed :: string where "Destroyed \<equiv> ''destroyed''"

definition lifecycle :: "string list" where
  "lifecycle = [Scaffolded, Configured, Provisioned, Seeded, Converged_st, Verified, Operating]"

definition recurring :: "string list" where
  "recurring = [Promoted, Upgraded, Destroyed]"

definition States :: "string list" where
  "States = lifecycle @ recurring"

definition containsState :: "string list \<Rightarrow> string \<Rightarrow> bool" where
  "containsState states s \<longleftrightarrow> list_ex (\<lambda>k. k = s) states"

definition validState :: "string \<Rightarrow> bool" where
  "validState s \<longleftrightarrow> list_ex (\<lambda>k. k = s) States"

abbreviation Transition :: string where "Transition \<equiv> ''transition''"
abbreviation Assertion :: string where "Assertion \<equiv> ''assertion''"
abbreviation Invariant :: string where "Invariant \<equiv> ''invariant''"
abbreviation Gate :: string where "Gate \<equiv> ''gate''"

abbreviation ReadRepo :: string where "ReadRepo \<equiv> ''read-repo''"
abbreviation CloudRead :: string where "CloudRead \<equiv> ''cloud-read''"
abbreviation ClusterRead :: string where "ClusterRead \<equiv> ''cluster-read''"
abbreviation WriteRepo :: string where "WriteRepo \<equiv> ''write-repo''"
abbreviation ClusterWrite :: string where "ClusterWrite \<equiv> ''cluster-write''"
abbreviation CloudMutate :: string where "CloudMutate \<equiv> ''cloud-mutate''"
abbreviation SecretRead :: string where "SecretRead \<equiv> ''secret-read''"
abbreviation SecretCustody :: string where "SecretCustody \<equiv> ''secret-custody''"
abbreviation OwnPaths :: string where "OwnPaths \<equiv> ''own-paths''"

definition allGrants :: "string list" where
  "allGrants = [ReadRepo, CloudRead, ClusterRead, SecretRead, WriteRepo, ClusterWrite, CloudMutate,
     SecretCustody, OwnPaths]"

definition readOnly :: "string list" where
  "readOnly = [ReadRepo, CloudRead, ClusterRead, SecretRead]"

definition isReadOnly :: "string \<Rightarrow> bool" where
  "isReadOnly g \<longleftrightarrow> List.member readOnly g"

definition validGrant :: "string \<Rightarrow> bool" where
  "validGrant g \<longleftrightarrow> list_ex (\<lambda>k. k = g) allGrants"

subsection \<open>Declarations\<close>

record binding =
  bKind :: string
  bName :: string
  bState :: string
  bRequires :: string
  bGrants :: "string list"

record extension =
  eName :: string
  eShort :: string
  eAlways :: bool
  eComponent :: string
  eBindings :: "binding list"
  eIncomplete :: "string list"

definition grantList :: "string list \<Rightarrow> string" where
  "grantList gs = join '', '' gs"

definition bindingString :: "binding \<Rightarrow> string" where
  "bindingString b =
     bKind b @ '':'' @ bState b
     @ (if bName b \<noteq> [] then ''/'' @ bName b else [])
     @ (if bRequires b \<noteq> [] then '' (requires '' @ bRequires b @ '')'' else [])
     @ (if bGrants b \<noteq> [] then ''['' @ grantList (bGrants b) @ '']'' else [])"

definition extGrants :: "extension \<Rightarrow> string list" where
  "extGrants e = filter (\<lambda>g. list_ex (\<lambda>b. List.member (bGrants b) g) (eBindings e)) allGrants"

definition hasGrant :: "extension \<Rightarrow> string \<Rightarrow> bool" where
  "hasGrant e g \<longleftrightarrow> list_ex (\<lambda>b. list_ex (\<lambda>have. have = g) (bGrants b)) (eBindings e)"

definition binds :: "extension \<Rightarrow> string \<Rightarrow> bool" where
  "binds e k \<longleftrightarrow> list_ex (\<lambda>b. bKind b = k) (eBindings e)"

text \<open>The lookups panic on a miss; a panic is \<open>Inl\<close> with what the message is made from.\<close>

datatype lookupPanic =
    NoBindingNamed string string
  | NoBindingOf string string string
  | AmbiguousBinding string string string string

text \<open>\<open>itoa\<close> of the package (for counts): the digits pushed in front, one per round.\<close>

fun itoaLoop :: "nat \<Rightarrow> string \<Rightarrow> string" where
  "itoaLoop n b = (if n > 0 then itoaLoop (n div 10) (digit (n mod 10) # b) else b)"

declare itoaLoop.simps [simp del]

definition itoa :: "int \<Rightarrow> string" where
  "itoa n = (if n = 0 then ''0'' else itoaLoop (nat n) [])"

definition mustBinding :: "extension \<Rightarrow> string \<Rightarrow> lookupPanic + binding" where
  "mustBinding e name = (case find (\<lambda>b. bName b = name) (eBindings e) of
      Some b \<Rightarrow> Inr b
    | None \<Rightarrow> Inl (NoBindingNamed (eName e) name))"

definition mustBindingOf :: "extension \<Rightarrow> string \<Rightarrow> string \<Rightarrow> lookupPanic + binding" where
  "mustBindingOf e k s = (case filter (\<lambda>b. bKind b = k \<and> bState b = s) (eBindings e) of
      [b] \<Rightarrow> Inr b
    | [] \<Rightarrow> Inl (NoBindingOf (eName e) k s)
    | found \<Rightarrow> Inl (AmbiguousBinding (eName e) k s (itoa (int (length found)))))"

subsection \<open>The checker\<close>

datatype extError =
    BadName string
  | NoShort
  | NoBindings
  | UnknownKind string
  | UnknownState binding
  | BadBindingName string
  | NotAttachable binding "string list"
  | DuplicateBinding binding
  | BlankNote nat
  | NoGrants binding
  | UnknownGrant binding string
  | DuplicateGrant binding string
  | UnknownPrecondition binding
  | RepeatedState binding
  | KindTakesNoPrecondition binding
  | NotAPrecondition binding "string list"
  | GateGrant binding string
  | AssertionGrant binding string
  | GrantNotHere binding string "string list"
  | SeedingWithoutCustody binding
  | MisplacedOwnPaths binding
  | DuplicateExtension string

definition kebabChar :: "char \<Rightarrow> bool" where
  "kebabChar r \<longleftrightarrow>
     (let n = (of_char r :: nat) in 97 \<le> n \<and> n \<le> 122 \<or> 48 \<le> n \<and> n \<le> 57) \<or> r = CHR ''-''"

definition validName :: "string \<Rightarrow> bool" where
  "validName s \<longleftrightarrow>
     \<not> (s = [] \<or> has_prefix s ''-'' \<or> has_suffix s ''-'') \<and> \<not> contains s ''--'' \<and> list_all kebabChar s"

definition bindableStates :: "string \<Rightarrow> string list option" where
  "bindableStates = map_of
     [(Transition, [Scaffolded, Configured, Provisioned, Seeded, Converged_st, Promoted, Upgraded, Destroyed]),
      (Assertion, [Scaffolded, Configured, Provisioned, Seeded, Converged_st, Verified, Operating,
         Promoted, Upgraded, Destroyed]),
      (Invariant, [Operating]),
      (Gate, [Scaffolded, Configured])]"

definition requirableStates :: "string \<Rightarrow> string list option" where
  "requirableStates = map_of [(Transition, [Operating])]"

definition grantStates :: "string \<Rightarrow> string list option" where
  "grantStates = map_of
     [(SecretCustody, [Provisioned, Seeded, Operating]),
      (CloudMutate, [Configured, Provisioned, Seeded, Converged_st, Operating, Destroyed]),
      (ClusterWrite, [Provisioned, Seeded, Converged_st, Operating, Destroyed]),
      (WriteRepo, [Scaffolded, Configured, Upgraded])]"

definition bindingHas :: "binding \<Rightarrow> string \<Rightarrow> bool" where
  "bindingHas b g \<longleftrightarrow> list_ex (\<lambda>have. have = g) (bGrants b)"

definition checkRequires :: "binding \<Rightarrow> extError list" where
  "checkRequires b =
     (if bRequires b = [] then []
      else if \<not> validState (bRequires b) then [UnknownPrecondition b]
      else (if bRequires b = bState b then [RepeatedState b] else [])
        @ (case requirableStates (bKind b) of
             None \<Rightarrow> [KindTakesNoPrecondition b]
           | Some allowed \<Rightarrow>
               if \<not> containsState allowed (bRequires b) then [NotAPrecondition b allowed] else []))"

text \<open>Where a restricted grant may be asked for: at the state, and at the precondition if there is one.\<close>

definition grantHere :: "binding \<Rightarrow> string list \<Rightarrow> bool" where
  "grantHere b allowed \<longleftrightarrow>
     containsState allowed (bState b) \<and> (bRequires b = [] \<or> containsState allowed (bRequires b))"

definition checkBindingCeiling :: "binding \<Rightarrow> extError list" where
  "checkBindingCeiling b =
     (if bKind b = Gate then map (GateGrant b) (filter (\<lambda>g. g \<noteq> ReadRepo) (bGrants b))
      else if bKind b = Assertion then map (AssertionGrant b) (filter (\<lambda>g. \<not> isReadOnly g) (bGrants b))
      else [])
   @ (if bKind b = Transition \<or> bKind b = Invariant
      then concat (map (\<lambda>g. case grantStates g of
             None \<Rightarrow> []
           | Some allowed \<Rightarrow> if grantHere b allowed then [] else [GrantNotHere b g allowed]) (bGrants b))
      else [])
   @ (if bKind b = Transition \<and> bState b = Seeded \<and> \<not> bindingHas b SecretCustody
      then [SeedingWithoutCustody b] else [])
   @ (if bindingHas b OwnPaths
         \<and> \<not> (bKind b = Transition \<and> (bState b = Scaffolded \<or> bState b = Upgraded))
      then [MisplacedOwnPaths b] else [])"

definition bindingKey :: "binding \<Rightarrow> string" where
  "bindingKey b = bKind b @ '':'' @ bState b @ '':'' @ bName b"

fun bindingsLoop :: "string list \<Rightarrow> binding list \<Rightarrow> extError list" where
  "bindingsLoop seen [] = []"
| "bindingsLoop seen (b # bs) = (case bindableStates (bKind b) of
      None \<Rightarrow> UnknownKind (bKind b) # bindingsLoop seen bs
    | Some allowed \<Rightarrow>
        if \<not> validState (bState b) then UnknownState b # bindingsLoop seen bs
        else (if bName b \<noteq> [] \<and> \<not> validName (bName b) then [BadBindingName (bName b)] else [])
          @ (if \<not> containsState allowed (bState b) then [NotAttachable b allowed] else [])
          @ checkRequires b
          @ (if List.member seen (bindingKey b) then [DuplicateBinding b] else [])
          @ bindingsLoop (bindingKey b # seen) bs)"

fun notesLoop :: "nat \<Rightarrow> string list \<Rightarrow> extError list" where
  "notesLoop i [] = []"
| "notesLoop i (n # ns) = (if trim_space n = [] then [BlankNote i] else []) @ notesLoop (Suc i) ns"

fun grantsLoop :: "binding \<Rightarrow> string list \<Rightarrow> string list \<Rightarrow> extError list" where
  "grantsLoop b seen [] = []"
| "grantsLoop b seen (g # gs) =
     (if \<not> validGrant g then UnknownGrant b g # grantsLoop b seen gs
      else (if List.member seen g then [DuplicateGrant b g] else []) @ grantsLoop b (g # seen) gs)"

definition bindingGrantErrors :: "binding \<Rightarrow> extError list" where
  "bindingGrantErrors b =
     (if bGrants b = [] then [NoGrants b] else []) @ grantsLoop b [] (bGrants b) @ checkBindingCeiling b"

definition Validate :: "extension \<Rightarrow> extError list" where
  "Validate e =
     (if \<not> validName (eName e) then [BadName (eName e)] else [])
     @ (if trim_space (eShort e) = [] then [NoShort] else [])
     @ (if eBindings e = [] then [NoBindings] else [])
     @ bindingsLoop [] (eBindings e)
     @ notesLoop 0 (eIncomplete e)
     @ concat (map bindingGrantErrors (eBindings e))"

text \<open>The names the count of which is above one, in the order of the printed entries.\<close>

definition dupeEntry :: "string list \<Rightarrow> string \<Rightarrow> string" where
  "dupeEntry names n = n @ '' ('' @ int_dec (int (length (filter (\<lambda>m. m = n) names))) @ '')''"

definition duplicateNames :: "string list \<Rightarrow> string list" where
  "duplicateNames names =
     sort (map (dupeEntry names)
       (filter (\<lambda>n. length (filter (\<lambda>m. m = n) names) > 1) (remdups names)))"

definition ValidateSet :: "extension list \<Rightarrow> extError list" where
  "ValidateSet exts = concat (map Validate exts) @ map DuplicateExtension (duplicateNames (map eName exts))"

definition sortedReadOnly :: "string list" where
  "sortedReadOnly = filter isReadOnly allGrants"

lemma containsState_iff [simp]: "containsState states s \<longleftrightarrow> s \<in> set states"
  by (auto simp: containsState_def list_ex_iff)

lemma validState_iff: "validState s \<longleftrightarrow> s \<in> set States"
  by (auto simp: validState_def list_ex_iff)

lemma validGrant_iff: "validGrant g \<longleftrightarrow> g \<in> set allGrants"
  by (auto simp: validGrant_def list_ex_iff)

lemma isReadOnly_iff: "isReadOnly g \<longleftrightarrow> g \<in> set readOnly"
  by (simp add: isReadOnly_def)

lemma bindingHas_iff [simp]: "bindingHas b g \<longleftrightarrow> g \<in> set (bGrants b)"
  by (auto simp: bindingHas_def list_ex_iff)

lemma hasGrant_iff: "hasGrant e g \<longleftrightarrow> (\<exists>b \<in> set (eBindings e). g \<in> set (bGrants b))"
  by (auto simp: hasGrant_def list_ex_iff)

lemma set_extGrants: "g \<in> set (extGrants e) \<longleftrightarrow> validGrant g \<and> hasGrant e g"
  by (auto simp: extGrants_def list_ex_iff hasGrant_iff validGrant_iff)

declare grantStates_def [grant_tables] bindableStates_def [grant_tables] requirableStates_def [grant_tables]
  readOnly_def [grant_tables] allGrants_def [grant_tables] States_def [grant_tables]
  lifecycle_def [grant_tables] recurring_def [grant_tables]

lemma itoaLoop_dec: "itoaLoop n b = (if n = 0 then b else nat_dec n @ b)"
proof (induction n b rule: itoaLoop.induct)
  case (1 n b)
  show ?case
  proof (cases "n < 10")
    case True
    then show ?thesis
      using 1 by (auto simp: itoaLoop.simps [of n] nat_dec.simps [of n] itoaLoop.simps [of 0])
  next
    case False
    with 1 show ?thesis by (simp add: itoaLoop.simps [of n] nat_dec.simps [of n])
  qed
qed

text \<open>The hand-written printer agrees with \<open>strconv.Itoa\<close> on counts, and prints nothing below zero.\<close>

lemma digit_zero: "digit 0 = CHR ''0''"
  by code_simp

lemma itoa_is_decimal: "itoa n = (if n < 0 then [] else int_dec n)"
  by (auto simp: itoa_def itoaLoop_dec int_dec_def nat_dec.simps [of 0] digit_zero)

subsection \<open>The type system\<close>

text \<open>
  A grant is well typed for a kind, a state and a precondition; an attachment is well typed for a
  kind. The rules are the ceiling, one per line of it: a gate reads the repository and nothing
  else, an assertion observes, a mutating grant is asked for where its row of the table allows it,
  at the precondition as well as at the state.
\<close>

inductive grant_typed :: "string \<Rightarrow> string \<Rightarrow> string \<Rightarrow> string \<Rightarrow> bool" where
  gate_reads: "grant_typed Gate s r ReadRepo"
| assertion_reads: "g \<in> set readOnly \<Longrightarrow> grant_typed Assertion s r g"
| action_reads: "k \<in> {Transition, Invariant} \<Longrightarrow> g \<in> set readOnly \<Longrightarrow> grant_typed k s r g"
| action_mutates: "k \<in> {Transition, Invariant} \<Longrightarrow> grantStates g = Some ss \<Longrightarrow> s \<in> set ss
    \<Longrightarrow> r = [] \<or> r \<in> set ss \<Longrightarrow> grant_typed k s r g"
| copier_fence: "s \<in> {Scaffolded, Upgraded} \<Longrightarrow> grant_typed Transition s r OwnPaths"

inductive attach_typed :: "string \<Rightarrow> string \<Rightarrow> string \<Rightarrow> bool" where
  gate: "s \<in> {Scaffolded, Configured} \<Longrightarrow> attach_typed Gate s []"
| assertion: "s \<in> set States \<Longrightarrow> attach_typed Assertion s []"
| invariant: "attach_typed Invariant Operating []"
| transition: "s \<in> set States - {Verified, Operating} \<Longrightarrow> r = [] \<or> r = Operating
    \<Longrightarrow> attach_typed Transition s r"

inductive_simps attach_Gate: "attach_typed Gate s r"
inductive_simps attach_Assertion: "attach_typed Assertion s r"
inductive_simps attach_Invariant: "attach_typed Invariant s r"
inductive_simps attach_Transition: "attach_typed Transition s r"
inductive_simps grant_Gate: "grant_typed Gate s r g"
inductive_simps grant_Assertion: "grant_typed Assertion s r g"
inductive_simps grant_Transition: "grant_typed Transition s r g"
inductive_simps grant_Invariant: "grant_typed Invariant s r g"
inductive_cases attachE: "attach_typed k s r"

definition binding_typed :: "binding \<Rightarrow> bool" where
  "binding_typed b \<longleftrightarrow>
     attach_typed (bKind b) (bState b) (bRequires b)
     \<and> (bName b = [] \<or> validName (bName b))
     \<and> bGrants b \<noteq> [] \<and> distinct (bGrants b)
     \<and> (\<forall>g \<in> set (bGrants b). grant_typed (bKind b) (bState b) (bRequires b) g)
     \<and> (bKind b = Transition \<and> bState b = Seeded \<longrightarrow> SecretCustody \<in> set (bGrants b))"

definition extension_typed :: "extension \<Rightarrow> bool" where
  "extension_typed e \<longleftrightarrow>
     validName (eName e) \<and> trim_space (eShort e) \<noteq> []
     \<and> eBindings e \<noteq> [] \<and> (\<forall>b \<in> set (eBindings e). binding_typed b)
     \<and> distinct (map (\<lambda>b. (bKind b, bState b, bName b)) (eBindings e))
     \<and> (\<forall>n \<in> set (eIncomplete e). trim_space n \<noteq> [])"

text \<open>The checker, piece by piece.\<close>

lemma notesLoop_empty: "notesLoop i ns = [] \<longleftrightarrow> (\<forall>n \<in> set ns. trim_space n \<noteq> [])"
  by (induction ns arbitrary: i) auto

lemma grantsLoop_empty:
  "grantsLoop b seen gs = [] \<longleftrightarrow> (\<forall>g \<in> set gs. validGrant g) \<and> distinct gs \<and> set gs \<inter> set seen = {}"
  by (induction gs arbitrary: seen) auto

definition attach_checked :: "binding \<Rightarrow> bool" where
  "attach_checked b \<longleftrightarrow> (case bindableStates (bKind b) of
      None \<Rightarrow> False
    | Some allowed \<Rightarrow> validState (bState b) \<and> (bName b = [] \<or> validName (bName b))
        \<and> bState b \<in> set allowed \<and> checkRequires b = [])"

lemma bindingsLoop_empty:
  "bindingsLoop seen bs = [] \<longleftrightarrow>
     (\<forall>b \<in> set bs. attach_checked b) \<and> distinct (map bindingKey bs) \<and> bindingKey ` set bs \<inter> set seen = {}"
  by (induction bs arbitrary: seen) (auto simp: attach_checked_def split: option.splits)

lemma Validate_empty:
  "Validate e = [] \<longleftrightarrow>
     validName (eName e) \<and> trim_space (eShort e) \<noteq> [] \<and> eBindings e \<noteq> []
     \<and> (\<forall>b \<in> set (eBindings e). attach_checked b) \<and> distinct (map bindingKey (eBindings e))
     \<and> (\<forall>n \<in> set (eIncomplete e). trim_space n \<noteq> [])
     \<and> (\<forall>b \<in> set (eBindings e). bindingGrantErrors b = [])"
  by (auto simp: Validate_def bindingsLoop_empty notesLoop_empty)

text \<open>The rows of the tables, as sets; the proofs below never expand a vocabulary.\<close>

lemma bindable_rows:
  "\<exists>ss. bindableStates Transition = Some ss \<and> set ss = set States - {Verified, Operating}"
  "\<exists>ss. bindableStates Assertion = Some ss \<and> set ss = set States"
  "bindableStates Invariant = Some [Operating]"
  "bindableStates Gate = Some [Scaffolded, Configured]"
  by (simp_all add: grant_tables insert_Diff_if insert_commute)

lemma bindable_kinds: "bindableStates k = None \<longleftrightarrow> k \<notin> {Transition, Assertion, Invariant, Gate}"
  by (simp add: bindableStates_def)

lemma requirable_rows:
  "requirableStates Transition = Some [Operating]"
  "k \<noteq> Transition \<Longrightarrow> requirableStates k = None"
  by (simp_all add: requirableStates_def)

lemma some_states: "Operating \<in> set States" "[] \<notin> set States" "Scaffolded \<in> set States" "Configured \<in> set States"
  by (simp_all add: grant_tables)

lemma checkRequires_empty:
  "checkRequires b = [] \<longleftrightarrow>
     bRequires b = [] \<or> bKind b = Transition \<and> bRequires b = Operating \<and> bState b \<noteq> Operating"
  by (cases "bKind b = Transition")
    (auto simp: checkRequires_def validState_iff requirable_rows some_states)

lemma attach_checked_iff:
  "attach_checked b \<longleftrightarrow>
     attach_typed (bKind b) (bState b) (bRequires b) \<and> (bName b = [] \<or> validName (bName b))"
proof -
  consider "bKind b = Transition" | "bKind b = Assertion" | "bKind b = Invariant" | "bKind b = Gate"
    | "bKind b \<notin> {Transition, Assertion, Invariant, Gate}" by blast
  then show ?thesis
  proof cases
    case 1
    obtain ss where ss: "bindableStates Transition = Some ss" "set ss = set States - {Verified, Operating}"
      using bindable_rows(1) by blast
    have "attach_checked b \<longleftrightarrow> bState b \<in> set States - {Verified, Operating}
        \<and> (bRequires b = [] \<or> bRequires b = Operating) \<and> (bName b = [] \<or> validName (bName b))"
      using 1 ss by (simp add: attach_checked_def checkRequires_empty validState_iff) blast
    with 1 show ?thesis by (simp add: attach_Transition)
  next
    case 2
    obtain ss where ss: "bindableStates Assertion = Some ss" "set ss = set States"
      using bindable_rows(2) by blast
    have "attach_checked b \<longleftrightarrow> bState b \<in> set States \<and> bRequires b = []
        \<and> (bName b = [] \<or> validName (bName b))"
      using 2 ss by (simp add: attach_checked_def checkRequires_empty validState_iff) blast
    with 2 show ?thesis by (simp add: attach_Assertion) blast
  next
    case 3
    then show ?thesis
      by (auto simp: attach_checked_def attach_Invariant bindable_rows(3) checkRequires_empty
          validState_iff some_states)
  next
    case 4
    then show ?thesis
      by (auto simp: attach_checked_def attach_Gate bindable_rows(4) checkRequires_empty
          validState_iff some_states)
  next
    case 5
    then show ?thesis
      using bindable_kinds [of "bKind b"] by (auto simp: attach_checked_def elim!: attachE)
  qed
qed

lemma ceiling_Gate:
  "bKind b = Gate \<Longrightarrow> checkBindingCeiling b = [] \<longleftrightarrow> (\<forall>g \<in> set (bGrants b). g = ReadRepo)"
  by (auto simp: checkBindingCeiling_def filter_empty_conv intro!: bexI [of _ OwnPaths])

lemma own_paths_not_read: "OwnPaths \<notin> set readOnly" "grantStates OwnPaths = None" "validGrant OwnPaths"
  by (simp_all add: grant_tables validGrant_iff)

lemma ceiling_Assertion:
  "bKind b = Assertion \<Longrightarrow> checkBindingCeiling b = [] \<longleftrightarrow> (\<forall>g \<in> set (bGrants b). g \<in> set readOnly)"
  using own_paths_not_read
  by (auto simp: checkBindingCeiling_def filter_empty_conv isReadOnly_iff)

lemma ceiling_action:
  assumes "bKind b = Transition \<or> bKind b = Invariant"
  shows "checkBindingCeiling b = [] \<longleftrightarrow>
     (\<forall>g \<in> set (bGrants b). \<forall>allowed. grantStates g = Some allowed \<longrightarrow> grantHere b allowed)
     \<and> (bKind b = Transition \<and> bState b = Seeded \<longrightarrow> SecretCustody \<in> set (bGrants b))
     \<and> (OwnPaths \<in> set (bGrants b) \<longrightarrow> bKind b = Transition \<and> (bState b = Scaffolded \<or> bState b = Upgraded))"
proof -
  have "bKind b \<noteq> Gate" "bKind b \<noteq> Assertion" using assms by auto
  with assms show ?thesis
    by (simp add: checkBindingCeiling_def split: option.splits) blast
qed

lemma grant_vocabulary:
  "g \<in> set readOnly \<Longrightarrow> grantStates g = None"
  "validGrant g \<longleftrightarrow> g \<in> set readOnly \<or> grantStates g \<noteq> None \<or> g = OwnPaths"
  by (auto simp: grant_tables validGrant_iff)

lemma grant_typed_action:
  assumes "k = Transition \<or> k = Invariant"
  shows "grant_typed k s r g \<longleftrightarrow> validGrant g
    \<and> (\<forall>allowed. grantStates g = Some allowed \<longrightarrow> s \<in> set allowed \<and> (r = [] \<or> r \<in> set allowed))
    \<and> (g = OwnPaths \<longrightarrow> k = Transition \<and> (s = Scaffolded \<or> s = Upgraded))"
proof -
  consider (read) "g \<in> set readOnly" "grantStates g = None" "g \<noteq> OwnPaths"
    | (mutate) ss where "grantStates g = Some ss" "g \<notin> set readOnly" "g \<noteq> OwnPaths"
    | (own) "g = OwnPaths" "g \<notin> set readOnly" "grantStates g = None"
    | (unknown) "\<not> validGrant g" "g \<notin> set readOnly" "grantStates g = None" "g \<noteq> OwnPaths"
    using grant_vocabulary [of g] own_paths_not_read by (cases "grantStates g") auto
  then show ?thesis
    using assms grant_vocabulary(2) [of g]
    by cases (elim disjE; simp add: grant_Transition grant_Invariant)+
qed

lemma grants_checked:
  assumes "attach_typed (bKind b) (bState b) (bRequires b)"
  shows "checkBindingCeiling b = [] \<and> (\<forall>g \<in> set (bGrants b). validGrant g) \<longleftrightarrow>
      (\<forall>g \<in> set (bGrants b). grant_typed (bKind b) (bState b) (bRequires b) g)
      \<and> (bKind b = Transition \<and> bState b = Seeded \<longrightarrow> SecretCustody \<in> set (bGrants b))"
proof -
  consider (Gate) "bKind b = Gate" | (Assertion) "bKind b = Assertion"
    | (action) "bKind b = Transition \<or> bKind b = Invariant"
    using assms by cases auto
  then show ?thesis
  proof cases
    case Gate
    have "validGrant ReadRepo" by (simp add: grant_tables validGrant_iff)
    with Gate show ?thesis by (auto simp: ceiling_Gate grant_Gate)
  next
    case Assertion
    have "grant_typed Assertion s r g \<longleftrightarrow> g \<in> set readOnly" for s r g
      by (simp add: grant_Assertion)
    with Assertion grant_vocabulary(2) show ?thesis by (simp add: ceiling_Assertion) blast
  next
    case action
    have bare: "\<And>g. grant_typed (bKind b) (bState b) (bRequires b) g \<longleftrightarrow> validGrant g
        \<and> (\<forall>allowed. grantStates g = Some allowed \<longrightarrow> grantHere b allowed)
        \<and> (g = OwnPaths \<longrightarrow> bKind b = Transition \<and> (bState b = Scaffolded \<or> bState b = Upgraded))"
      using grant_typed_action [OF action] by (simp add: grantHere_def)
    show ?thesis unfolding ceiling_action [OF action] bare by blast
  qed
qed

lemma binding_checked_iff:
  "attach_checked b \<and> bindingGrantErrors b = [] \<longleftrightarrow> binding_typed b"
  unfolding binding_typed_def attach_checked_iff bindingGrantErrors_def
  using grants_checked [of b] by (auto simp: grantsLoop_empty)

lemma attach_known:
  "attach_typed k s r \<Longrightarrow> k \<in> {Transition, Assertion, Invariant, Gate} \<and> s \<in> set States"
  using some_states by (elim attachE) blast+

lemma known_colon_free:
  assumes "attach_typed k s r"
  shows "CHR '':'' \<notin> set k" "CHR '':'' \<notin> set s"
proof -
  have "list_all (\<lambda>s. CHR '':'' \<notin> set s) States" by (simp add: grant_tables)
  then show "CHR '':'' \<notin> set s" using attach_known [OF assms] unfolding list_all_iff by blast
  have "list_all (\<lambda>s. CHR '':'' \<notin> set s) [Transition, Assertion, Invariant, Gate]" by simp
  then show "CHR '':'' \<notin> set k" using attach_known [OF assms] unfolding list_all_iff set_simps by blast
qed

lemma bindingKey_inj:
  assumes "attach_typed (bKind b) (bState b) (bRequires b)" "attach_typed (bKind c) (bState c) (bRequires c)"
  shows "bindingKey b = bindingKey c \<longleftrightarrow> (bKind b, bState b, bName b) = (bKind c, bState c, bName c)"
proof
  assume a: "bindingKey b = bindingKey c"
  note free = known_colon_free [OF assms(1)] known_colon_free [OF assms(2)]
  have k: "bKind b = bKind c \<and> bState b @ CHR '':'' # bName b = bState c @ CHR '':'' # bName c"
    using a free key_ends [of "CHR '':''" "bKind b" "bKind c"] by (simp add: bindingKey_def)
  moreover have "bState b = bState c \<and> bName b = bName c"
    by (rule key_ends [OF _ _ conjunct2 [OF k]]) (simp_all add: free)
  ultimately show "(bKind b, bState b, bName b) = (bKind c, bState c, bName c)" by simp
qed (simp add: bindingKey_def)

lemma distinct_map_cong:
  assumes "\<And>x y. x \<in> set xs \<Longrightarrow> y \<in> set xs \<Longrightarrow> f x = f y \<longleftrightarrow> g x = g y"
  shows "distinct (map f xs) \<longleftrightarrow> distinct (map g xs)"
  using assms by (auto simp: distinct_map inj_on_def)

text \<open>C19: The checker implements the type system: it reports nothing exactly when the declaration
  is well typed.\<close>

theorem Validate_typed: "Validate e = [] \<longleftrightarrow> extension_typed e"
proof -
  have "distinct (map bindingKey (eBindings e)) \<longleftrightarrow>
      distinct (map (\<lambda>b. (bKind b, bState b, bName b)) (eBindings e))"
    if "\<forall>b \<in> set (eBindings e). binding_typed b"
    using that bindingKey_inj by (intro distinct_map_cong) (auto simp: binding_typed_def)
  moreover have "(\<forall>b \<in> set (eBindings e). attach_checked b) \<and> (\<forall>b \<in> set (eBindings e). bindingGrantErrors b = [])
      \<longleftrightarrow> (\<forall>b \<in> set (eBindings e). binding_typed b)"
    by (simp add: binding_checked_iff [symmetric] ball_conj_distrib)
  ultimately show ?thesis
    by (auto simp: Validate_empty extension_typed_def)
qed

lemma Validate_typed_example:
  "Validate \<lparr>eName = ''rotate-admin'', eShort = ''rotates'', eAlways = False, eComponent = [],
     eBindings = [\<lparr>bKind = Transition, bName = [], bState = Seeded, bRequires = Operating,
        bGrants = [SecretRead, SecretCustody]\<rparr>], eIncomplete = []\<rparr> = []"
  by code_simp

text \<open>A set of extensions: every one well typed, and no name twice.\<close>

lemma copies_distinct: "(\<forall>n. length (filter (\<lambda>m. m = n) names) \<le> 1) \<longleftrightarrow> distinct names"
proof (induction names)
  case (Cons a names)
  define c where "c n = length (filter (\<lambda>m. m = n) names)" for n
  have "length (filter (\<lambda>m. m = n) (a # names)) = (if n = a then Suc (c a) else c n)" for n
    by (auto simp: c_def)
  then have "(\<forall>n. length (filter (\<lambda>m. m = n) (a # names)) \<le> 1) \<longleftrightarrow>
      length (filter (\<lambda>m. m = a) names) = 0 \<and> (\<forall>n. length (filter (\<lambda>m. m = n) names) \<le> 1)"
    unfolding c_def [symmetric] by (auto split: if_splits)
  with Cons.IH show ?case by (simp add: filter_empty_conv) blast
qed simp

lemma copies_none: "n \<notin> set names \<Longrightarrow> length (filter (\<lambda>m. m = n) names) = 0"
  by (simp add: filter_empty_conv) blast

lemma duplicateNames_empty: "duplicateNames names = [] \<longleftrightarrow> distinct names"
proof -
  have "duplicateNames names = [] \<longleftrightarrow> (\<forall>n \<in> set names. length (filter (\<lambda>m. m = n) names) \<le> 1)"
    by (simp add: duplicateNames_def filter_empty_conv not_less flip: set_empty) blast
  also have "\<dots> \<longleftrightarrow> (\<forall>n. length (filter (\<lambda>m. m = n) names) \<le> 1)"
    using copies_none by (metis zero_le)
  finally show ?thesis by (simp only: copies_distinct)
qed

lemma ValidateSet_typed:
  "ValidateSet exts = [] \<longleftrightarrow> (\<forall>e \<in> set exts. extension_typed e) \<and> distinct (map eName exts)"
  by (auto simp: ValidateSet_def duplicateNames_empty Validate_typed)

text \<open>Where a mutating grant of a well-typed extension can stand.\<close>

lemma restricted_grant_placed:
  assumes "grant_typed k s r g" and ss: "grantStates g = Some ss"
  shows "(k = Transition \<or> k = Invariant) \<and> s \<in> set ss \<and> (r = [] \<or> r \<in> set ss)"
proof -
  have "g \<notin> set readOnly" using ss grant_vocabulary(1) by (metis option.distinct(1))
  moreover have "ReadRepo \<in> set readOnly" by (simp add: readOnly_def)
  ultimately have "g \<noteq> ReadRepo" "g \<notin> set readOnly" "g \<noteq> OwnPaths"
    using ss own_paths_not_read(2) by force+
  with assms(1) show ?thesis
  proof cases
    case (action_mutates ss')
    with ss show ?thesis by simp
  qed simp_all
qed

lemma grant_placed:
  assumes "binding_typed b" and "g \<in> set (bGrants b)" and "grantStates g = Some ss"
  shows "(bKind b = Transition \<or> bKind b = Invariant) \<and> bState b \<in> set ss
    \<and> (bRequires b = [] \<or> bRequires b \<in> set ss)"
  using assms by (intro restricted_grant_placed) (simp_all add: binding_typed_def)

lemma assertion_grants_read:
  "binding_typed b \<Longrightarrow> bKind b = Assertion \<Longrightarrow> filter isReadOnly (bGrants b) = bGrants b"
  by (auto simp: binding_typed_def grant_Assertion isReadOnly_iff filter_id_conv)

lemma gate_grants_repo: "binding_typed b \<Longrightarrow> bKind b = Gate \<Longrightarrow> bGrants b = [ReadRepo]"
  by (cases "bGrants b"; cases "tl (bGrants b)") (auto simp: binding_typed_def grant_Gate)

text \<open>
  A well-typed extension may still carry one name on two bindings, at different states or of
  different kinds. The lookup by name then takes the one that is declared first.
\<close>

definition twoOfAName :: extension where
  "twoOfAName = \<lparr>eName = ''assert-identity'', eShort = ''identity'', eAlways = False, eComponent = [],
     eBindings =
       [\<lparr>bKind = Assertion, bName = ''login'', bState = Verified, bRequires = [], bGrants = [ClusterRead]\<rparr>,
        \<lparr>bKind = Transition, bName = ''login'', bState = Converged_st, bRequires = [], bGrants = [ClusterWrite]\<rparr>],
     eIncomplete = []\<rparr>"

lemma same_name_passes_validation:
  "Validate twoOfAName = []"
  "mustBinding twoOfAName ''login'' = Inr (hd (eBindings twoOfAName))"
  by code_simp+

end
