(* ===== verification/Capability.thy ===== *)
theory Capability
  imports Extension_Types
begin

text \<open>
  \<open>internal/shared/capability\<close>: the handles a binding receives for the grants it declares
  (\<open>capability.go\<close>, \<open>writer.go\<close>, \<open>secrets.go\<close>, \<open>baoadmin.go\<close>, \<open>cloud.go\<close>, \<open>kubeapi.go\<close>,
  \<open>wiring.go\<close>; the forge handle is in \<open>Forge_Handle\<close>). Each handle is a datatype with the refusing
  variant as a constructor. An operation is a function from the handle and its arguments to a
  refusal (\<open>Inl\<close>) or to the call it makes of the outside (\<open>Inr\<close>): the argv of kubectl or bao, the
  path in the store, the request to Linode. What the outside then answers is not part of the model.
\<close>

subsection \<open>Refusals and calls\<close>

datatype capError =
    NoSubcommand "string list"
  | NeedsSubcommand string
  | IsMutation string
  | UnclassifiedVerb string
  | NoClusterHandle string
  | FlagInParameter string string
  | NotKeyValue string
  | NoTarget string
  | EmptySelector string
  | FlagAsSelector string
  | FlagWithoutValue string
  | FlagRefused string string
  | NoOrphanName string string
  | NoClusterWrite
  | NoSecretRead
  | NoSecretCustody "string option"
  | NoBaoRead "string list"
  | NoBaoAdmin "string list"
  | BaoNotClassified "string list"
  | NoMethod
  | NoCloudRead string
  | NoCloudMutate string
  | MethodNotClassified string
  | NoKubeWrite string string
  | NoKubeHandle string string
  | NoForgeRead "string list"
  | NoForgeMutate "string list"
  | NoForgeCustody "string list"
  | ForgeNotClassified "string list"

datatype capCall =
    Kubectl "string list"
  | KubectlCombined "string list"
  | KubectlStdin string "string list"
  | KVGet string string
  | KVPut string "(string \<times> string) list"
  | Bao string string string "string list"
  | LinodeRequest string string
  | KubeGet string
  | KubeCreate string
  | KubePatch string
  | Gh "string list"

fun firstErr :: "'e option list \<Rightarrow> 'e option" where
  "firstErr [] = None"
| "firstErr (e # es) = (case e of Some x \<Rightarrow> Some x | None \<Rightarrow> firstErr es)"

text \<open>A check, then the call.\<close>

definition guarded :: "'e option \<Rightarrow> 'a \<Rightarrow> 'e + 'a" where
  "guarded err c = (case err of Some e \<Rightarrow> Inl e | None \<Rightarrow> Inr c)"

lemma guarded_Inr [simp]: "guarded err c = Inr d \<longleftrightarrow> err = None \<and> c = d"
  by (auto simp: guarded_def split: option.splits)

lemma firstErr_None: "firstErr errs = None \<longleftrightarrow> (\<forall>e \<in> set errs. e = None)"
  by (induction errs) (auto split: option.splits)

declare firstErr.simps [simp del]

subsection \<open>The cluster handle (\<open>capability.go\<close>)\<close>

definition readVerbs :: "string list" where
  "readVerbs = [''get'', ''describe'', ''logs'', ''top'', ''version'', ''explain'', ''api-resources'',
     ''api-versions'', ''wait'', ''config'', ''auth'']"

definition writeVerbs :: "string list" where
  "writeVerbs = [''apply'', ''patch'', ''delete'', ''create'', ''replace'', ''rollout'', ''annotate'', ''label'',
     ''scale'', ''edit'', ''set'', ''cp'', ''drain'', ''cordon'', ''uncordon'', ''taint'', ''expose'', ''autoscale'',
     ''exec'', ''debug'', ''port-forward'', ''proxy'', ''attach'']"

definition subverbReads :: "string \<Rightarrow> string list option" where
  "subverbReads = map_of
     [(''config'', [''view'', ''current-context'', ''get-contexts'', ''get-clusters'', ''get-users'']),
      (''rollout'', [''status'', ''history'']),
      (''auth'', [''can-i''])]"

definition dryRunFlag :: "string list" where
  "dryRunFlag = [''apply'', ''create'', ''delete'', ''patch'', ''replace'', ''set'', ''annotate'', ''label'',
     ''scale'', ''taint'', ''expose'', ''autoscale'']"

definition valuedFlags :: "string list" where
  "valuedFlags = [''-n'', ''--namespace'', ''--kubeconfig'', ''--context'', ''--cluster'', ''--user'', ''--as'',
     ''--as-group'', ''--request-timeout'', ''-s'', ''--server'']"

fun Verb :: "string list \<Rightarrow> string" where
  "Verb [] = []"
| "Verb [a] = (if \<not> has_prefix a ''-'' then a else [])"
| "Verb (a # b # args) =
     (if \<not> has_prefix a ''-'' then a
      else if List.member valuedFlags a then Verb args
      else Verb (b # args))"

fun hasDryRun :: "string list \<Rightarrow> bool" where
  "hasDryRun [] = False"
| "hasDryRun (a # args) =
     (if a = ''--'' then False
      else if has_prefix a ''--dry-run'' \<and> a \<noteq> ''--dry-run=none'' then True
      else hasDryRun args)"

fun secondWord :: "string list \<Rightarrow> string \<Rightarrow> string" where
  "secondWord [] verb = []"
| "secondWord [a] verb = []"
| "secondWord (a # b # args) verb = (if a = verb then b else secondWord (b # args) verb)"

datatype clusterHandle = LiveCluster | DeniedCluster

definition clusterPermits :: "string list \<Rightarrow> capError option" where
  "clusterPermits args =
     (let v = Verb args in
      if v = [] then Some (NoSubcommand args)
      else case subverbReads v of
        Some reads \<Rightarrow>
          (let sub = secondWord args v in
           if List.member reads sub then None
           else if sub = [] then Some (NeedsSubcommand v)
           else Some (IsMutation (v @ '' '' @ sub)))
      | None \<Rightarrow>
          if List.member readVerbs v then None
          else if List.member writeVerbs v then
            (if List.member dryRunFlag v \<and> hasDryRun args then None else Some (IsMutation v))
          else Some (UnclassifiedVerb v))"

definition permitsArgv :: "clusterHandle \<Rightarrow> string list \<Rightarrow> capError option" where
  "permitsArgv c args = (case c of
      LiveCluster \<Rightarrow> clusterPermits args
    | DeniedCluster \<Rightarrow> Some (NoClusterHandle (Verb args)))"

definition clusterRun :: "clusterHandle \<Rightarrow> string list \<Rightarrow> capError + capCall" where
  "clusterRun c args = guarded (permitsArgv c args) (Kubectl args)"

definition clusterCombined :: "clusterHandle \<Rightarrow> string list \<Rightarrow> capError + capCall" where
  "clusterCombined c args = guarded (permitsArgv c args) (KubectlCombined args)"

subsection \<open>The named mutations (\<open>writer.go\<close>)\<close>

definition nsArgs :: "string \<Rightarrow> string list" where
  "nsArgs namespace = (if namespace = [] then [] else [''-n'', namespace])"

definition safeArg :: "string \<Rightarrow> string \<Rightarrow> capError option" where
  "safeArg what v = (if has_prefix v ''-'' then Some (FlagInParameter what v) else None)"

definition deleteValuedFlags :: "string list" where
  "deleteValuedFlags = [''-l'', ''--selector'']"

definition deleteFlagPrefixes :: "string list" where
  "deleteFlagPrefixes = [''--selector='', ''--wait='', ''--timeout='']"

definition startsWithAny :: "string \<Rightarrow> string list \<Rightarrow> bool" where
  "startsWithAny s ps \<longleftrightarrow> list_ex (has_prefix s) ps"

definition checkSelector :: "string \<Rightarrow> string \<Rightarrow> capError option" where
  "checkSelector kind sel =
     (if trim_space sel = [] then Some (EmptySelector kind)
      else if has_prefix sel ''-'' then Some (FlagAsSelector sel)
      else None)"

fun checkDeleteTargets :: "string \<Rightarrow> string list \<Rightarrow> capError option" where
  "checkDeleteTargets kind [] = None"
| "checkDeleteTargets kind (t # ts) =
     (if \<not> has_prefix t ''-'' then checkDeleteTargets kind ts
      else if List.member deleteValuedFlags t then
        (case ts of
           [] \<Rightarrow> Some (FlagWithoutValue t)
         | sel # ts' \<Rightarrow> (case checkSelector kind sel of
             Some e \<Rightarrow> Some e
           | None \<Rightarrow> checkDeleteTargets kind ts'))
      else if startsWithAny t deleteFlagPrefixes then
        (case (if has_prefix t ''--selector='' then checkSelector kind (drop 11 t) else None) of
           Some e \<Rightarrow> Some e
         | None \<Rightarrow> checkDeleteTargets kind ts)
      else Some (FlagRefused t kind))"

definition annotateArgs :: "string \<Rightarrow> string \<Rightarrow> string \<Rightarrow> string \<Rightarrow> capError + capCall" where
  "annotateArgs namespace kind name keyValue =
     (case firstErr [safeArg ''namespace'' namespace, safeArg ''kind'' kind, safeArg ''name'' name] of
        Some e \<Rightarrow> Inl e
      | None \<Rightarrow>
          if \<not> contains keyValue ''='' then Inl (NotKeyValue keyValue)
          else Inr (Kubectl (nsArgs namespace @ [''annotate'', kind, name, keyValue, ''--overwrite''])))"

definition deleteArgs :: "string \<Rightarrow> string \<Rightarrow> string list \<Rightarrow> capError + capCall" where
  "deleteArgs namespace kind target =
     (if target = [] then Inl (NoTarget kind)
      else guarded
        (firstErr [safeArg ''namespace'' namespace, safeArg ''kind'' kind, checkDeleteTargets kind target])
        (Kubectl (nsArgs namespace @ [''delete'', kind] @ target @ [''--ignore-not-found''])))"

definition deleteOrphanArgs :: "string \<Rightarrow> string \<Rightarrow> string \<Rightarrow> capError + capCall" where
  "deleteOrphanArgs namespace kind name =
     (if name = [] then Inl (NoOrphanName kind namespace)
      else guarded (firstErr [safeArg ''namespace'' namespace, safeArg ''kind'' kind, safeArg ''name'' name])
        (Kubectl (nsArgs namespace @ [''delete'', kind, name, ''--cascade=orphan'', ''--ignore-not-found''])))"

definition patchMergeArgs :: "string \<Rightarrow> string \<Rightarrow> string \<Rightarrow> string \<Rightarrow> capError + capCall" where
  "patchMergeArgs namespace kind name patchJSON =
     guarded (firstErr [safeArg ''namespace'' namespace, safeArg ''kind'' kind, safeArg ''name'' name])
       (Kubectl (nsArgs namespace @ [''patch'', kind, name, ''--type'', ''merge'', ''-p'', patchJSON]))"

definition rolloutRestartArgs :: "string \<Rightarrow> string \<Rightarrow> capError + capCall" where
  "rolloutRestartArgs namespace target =
     guarded (firstErr [safeArg ''namespace'' namespace, safeArg ''target'' target])
       (Kubectl (nsArgs namespace @ [''rollout'', ''restart'', target]))"

definition createTokenArgs :: "string \<Rightarrow> string \<Rightarrow> string \<Rightarrow> capError + capCall" where
  "createTokenArgs namespace serviceAccount duration =
     guarded (firstErr [safeArg ''namespace'' namespace, safeArg ''serviceaccount'' serviceAccount])
       (Kubectl ([''create'', ''token'', serviceAccount] @ nsArgs namespace
          @ (if duration \<noteq> [] then [''--duration='' @ duration] else [])))"

definition applyArgs :: "string \<Rightarrow> string list" where
  "applyArgs fieldManager = [''apply'', ''--server-side'', ''--force-conflicts'']
     @ (if fieldManager \<noteq> [] then [''--field-manager='' @ fieldManager] else [])"

definition applyServerSideArgs :: "string \<Rightarrow> string \<Rightarrow> capError + capCall" where
  "applyServerSideArgs manifestPath fieldManager =
     Inr (Kubectl (applyArgs fieldManager @ [''-f'', manifestPath]))"

definition applyStdinArgs :: "string \<Rightarrow> string \<Rightarrow> capError + capCall" where
  "applyStdinArgs manifest fieldManager = Inr (KubectlStdin manifest (applyArgs fieldManager @ [''-f'', ''-'']))"

definition createStdinArgs :: "string \<Rightarrow> string \<Rightarrow> capError + capCall" where
  "createStdinArgs namespace manifest =
     guarded (safeArg ''namespace'' namespace)
       (KubectlStdin manifest (nsArgs namespace @ [''create'', ''-f'', ''-'', ''-o'', ''json'']))"

text \<open>The interface: a live writer runs its operation, the refusing one refuses every operation.\<close>

datatype writer = LiveWriter | DeniedWriter

datatype writerOp =
    Annotate string string string string
  | Delete string string "string list"
  | DeleteOrphan string string string
  | PatchMerge string string string string
  | RolloutRestart string string
  | CreateToken string string string
  | ApplyServerSide string string
  | ApplyStdin string string
  | CreateStdin string string

definition writerOperations :: "string list" where
  "writerOperations = [''Annotate'', ''ApplyServerSide'', ''ApplyStdin'', ''CreateStdin'', ''CreateToken'',
     ''Delete'', ''DeleteOrphan'', ''PatchMerge'', ''RolloutRestart'']"

definition permitsWrite :: "writer \<Rightarrow> capError option" where
  "permitsWrite w = (case w of LiveWriter \<Rightarrow> None | DeniedWriter \<Rightarrow> Some NoClusterWrite)"

fun writerArgs :: "writerOp \<Rightarrow> capError + capCall" where
  "writerArgs (Annotate namespace kind name keyValue) = annotateArgs namespace kind name keyValue"
| "writerArgs (Delete namespace kind target) = deleteArgs namespace kind target"
| "writerArgs (DeleteOrphan namespace kind name) = deleteOrphanArgs namespace kind name"
| "writerArgs (PatchMerge namespace kind name patchJSON) = patchMergeArgs namespace kind name patchJSON"
| "writerArgs (RolloutRestart namespace target) = rolloutRestartArgs namespace target"
| "writerArgs (CreateToken namespace serviceAccount duration) = createTokenArgs namespace serviceAccount duration"
| "writerArgs (ApplyServerSide manifestPath fieldManager) = applyServerSideArgs manifestPath fieldManager"
| "writerArgs (ApplyStdin manifest fieldManager) = applyStdinArgs manifest fieldManager"
| "writerArgs (CreateStdin namespace manifest) = createStdinArgs namespace manifest"

definition writerRun :: "writer \<Rightarrow> writerOp \<Rightarrow> capError + capCall" where
  "writerRun w c = (case w of LiveWriter \<Rightarrow> writerArgs c | DeniedWriter \<Rightarrow> Inl NoClusterWrite)"

subsection \<open>OpenBao: secrets, custody and administration (\<open>secrets.go\<close>, \<open>baoadmin.go\<close>)\<close>

datatype secrets = LiveSecrets | DeniedSecrets

datatype custodian = LiveCustodian | DeniedCustodian

definition secretsGet :: "secrets \<Rightarrow> string \<Rightarrow> string \<Rightarrow> capError + capCall" where
  "secretsGet s path field = (case s of
      LiveSecrets \<Rightarrow> Inr (KVGet path field)
    | DeniedSecrets \<Rightarrow> Inl NoSecretRead)"   \<comment> \<open>the code answers the empty value with \<open>Unknown\<close>\<close>

definition permitsSecrets :: "secrets \<Rightarrow> capError option" where
  "permitsSecrets s = (case s of LiveSecrets \<Rightarrow> None | DeniedSecrets \<Rightarrow> Some NoSecretRead)"

definition custodianPut :: "custodian \<Rightarrow> string \<Rightarrow> (string \<times> string) list \<Rightarrow> capError + capCall" where
  "custodianPut c path kvs = (case c of
      LiveCustodian \<Rightarrow> Inr (KVPut path kvs)
    | DeniedCustodian \<Rightarrow> Inl (NoSecretCustody (Some path)))"

definition permitsCustody :: "custodian \<Rightarrow> capError option" where
  "permitsCustody c = (case c of LiveCustodian \<Rightarrow> None | DeniedCustodian \<Rightarrow> Some (NoSecretCustody None))"

definition declares :: "binding \<Rightarrow> string \<Rightarrow> bool" where   \<comment> \<open>the loop over the grants with one flag\<close>
  "declares b g \<longleftrightarrow> list_ex (\<lambda>have. have = g) (bGrants b)"

definition secretHandles :: "binding \<Rightarrow> secrets \<times> custodian" where
  "secretHandles b =
     (let read = declares b SecretRead; custody = declares b SecretCustody in
      (if \<not> read \<and> \<not> custody then DeniedSecrets else LiveSecrets,
       if custody then LiveCustodian else DeniedCustodian))"

datatype baoAction = BaoRead | BaoAdmin | BaoUnclassified

definition baoReads :: "string list" where
  "baoReads = [''status'', ''policy list'', ''policy read'', ''token lookup'', ''audit list'', ''auth list'',
     ''secrets list'', ''operator members'']"

definition baoAdmins :: "string list" where
  "baoAdmins = [''policy write'', ''policy delete'', ''auth enable'', ''auth disable'', ''auth tune'',
     ''token revoke'', ''token create'', ''token renew'', ''secrets enable'', ''secrets disable'',
     ''audit enable'', ''audit disable'', ''operator init'', ''operator unseal'', ''operator seal'',
     ''operator generate-root'', ''operator rekey'', ''operator raft'', ''write'', ''delete'']"

text \<open>The first word of an argv, with the second when that is not a flag.\<close>

definition argvKey :: "string list \<Rightarrow> string" where
  "argvKey args = (case args of
      [] \<Rightarrow> []
    | [a] \<Rightarrow> a
    | a # b # _ \<Rightarrow> if \<not> has_prefix b ''-'' then a @ '' '' @ b else a)"

definition classifyBao :: "string list \<Rightarrow> baoAction" where
  "classifyBao args =
     (if args = [] then BaoUnclassified
      else if hd args = ''kv'' then BaoUnclassified
      else let key = argvKey args in
        if List.member baoAdmins key then BaoAdmin
        else if List.member baoReads key then BaoRead
        else if List.member baoAdmins (hd args) then BaoAdmin
        else if List.member baoReads (hd args) then BaoRead
        else BaoUnclassified)"

datatype baoAdminHandle = DeniedBaoAdmin | LiveBaoAdmin bool bool   \<comment> \<open>read, custody\<close>

definition permitsBao :: "baoAdminHandle \<Rightarrow> string list \<Rightarrow> capError option" where
  "permitsBao h args = (case h of
      DeniedBaoAdmin \<Rightarrow> Some (NoBaoRead args)
    | LiveBaoAdmin read custody \<Rightarrow> (case classifyBao args of
        BaoRead \<Rightarrow> if \<not> read then Some (NoBaoRead args) else None
      | BaoAdmin \<Rightarrow> if \<not> custody then Some (NoBaoAdmin args) else None
      | BaoUnclassified \<Rightarrow> Some (BaoNotClassified args)))"

definition baoRun ::
  "baoAdminHandle \<Rightarrow> string \<Rightarrow> string \<Rightarrow> string \<Rightarrow> string list \<Rightarrow> capError + capCall" where
  "baoRun h pod token stdin args = guarded (permitsBao h args) (Bao pod token stdin args)"

definition baoAdminOf :: "binding \<Rightarrow> baoAdminHandle" where
  "baoAdminOf b =
     (let read = declares b SecretRead; custody = declares b SecretCustody in
      if \<not> read \<and> \<not> custody then DeniedBaoAdmin else LiveBaoAdmin (read \<or> custody) custody)"

subsection \<open>Linode (\<open>cloud.go\<close>)\<close>

definition upper_char :: "char \<Rightarrow> char" where
  "upper_char c =
     (if 97 \<le> (of_char c :: nat) \<and> (of_char c :: nat) \<le> 122
      then char_of ((of_char c :: nat) - 32) else c)"

definition to_upper :: "string \<Rightarrow> string" where
  "to_upper = map upper_char"

definition readMethods :: "string list" where
  "readMethods = [''GET'', ''HEAD'', ''OPTIONS'']"

definition mutateMethods :: "string list" where
  "mutateMethods = [''POST'', ''PUT'', ''PATCH'', ''DELETE'']"

datatype cloud = DeniedCloud | LiveCloud bool bool   \<comment> \<open>read, mutate\<close>

definition permitsMethod :: "cloud \<Rightarrow> string \<Rightarrow> capError option" where
  "permitsMethod c verb = (case c of
      DeniedCloud \<Rightarrow> Some (NoCloudRead (to_upper verb))
    | LiveCloud read mutate \<Rightarrow>
        (let m = to_upper (trim_space verb) in
         if m = [] then Some NoMethod
         else if List.member readMethods m then
           (if read \<or> mutate then None else Some (NoCloudRead m))
         else if List.member mutateMethods m then
           (if mutate then None else Some (NoCloudMutate m))
         else Some (MethodNotClassified m)))"

text \<open>
  \<open>Client\<close> hands out a Linode client whose policy is \<open>Permits\<close>; its \<open>do\<close> asks the policy before
  every request.
\<close>

definition cloudDo :: "cloud \<Rightarrow> string \<Rightarrow> string \<Rightarrow> capError + capCall" where
  "cloudDo c verb url = guarded (permitsMethod c verb) (LinodeRequest verb url)"

definition readOnlyCloud :: cloud where
  "readOnlyCloud = LiveCloud True False"

definition cloudFor :: "binding \<Rightarrow> cloud" where
  "cloudFor b =
     (let read = declares b CloudRead; mutate = declares b CloudMutate in
      if \<not> read \<and> \<not> mutate then DeniedCloud else LiveCloud read mutate)"

subsection \<open>The in-cluster API (\<open>kubeapi.go\<close>)\<close>

datatype kubeAPI = DeniedKube | LiveKube bool   \<comment> \<open>mutate\<close>

definition kubeFor :: "binding \<Rightarrow> kubeAPI" where
  "kubeFor b =
     (let read = declares b ClusterRead; write = declares b ClusterWrite in
      if \<not> read \<and> \<not> write then DeniedKube else LiveKube write)"

definition kubeGetJSON :: "kubeAPI \<Rightarrow> string \<Rightarrow> capError + capCall" where
  "kubeGetJSON k path = (case k of
      DeniedKube \<Rightarrow> Inl (NoKubeHandle ''get'' path)
    | LiveKube mutate \<Rightarrow> Inr (KubeGet path))"

definition kubeCreateJSON :: "kubeAPI \<Rightarrow> string \<Rightarrow> capError + capCall" where
  "kubeCreateJSON k path = (case k of
      DeniedKube \<Rightarrow> Inl (NoKubeHandle ''create'' path)
    | LiveKube mutate \<Rightarrow> if \<not> mutate then Inl (NoKubeWrite ''create'' path) else Inr (KubeCreate path))"

definition kubeMergePatch :: "kubeAPI \<Rightarrow> string \<Rightarrow> capError + capCall" where
  "kubeMergePatch k path = (case k of
      DeniedKube \<Rightarrow> Inl (NoKubeHandle ''patch'' path)
    | LiveKube mutate \<Rightarrow> if \<not> mutate then Inl (NoKubeWrite ''patch'' path) else Inr (KubePatch path))"

subsection \<open>What a delete can name\<close>

text \<open>
  The grammar of a narrowing target: names, selectors that select something, and the two flags
  that only say how long to wait. \<open>checkDeleteTargets\<close> recognises exactly it.
\<close>

definition selector :: "string \<Rightarrow> bool" where
  "selector sel \<longleftrightarrow> trim_space sel \<noteq> [] \<and> \<not> has_prefix sel ''-''"

inductive narrow :: "string list \<Rightarrow> bool" where
  no_more: "narrow []"
| name: "\<not> has_prefix t ''-'' \<Longrightarrow> narrow ts \<Longrightarrow> narrow (t # ts)"
| selector_flag: "f \<in> set deleteValuedFlags \<Longrightarrow> selector sel \<Longrightarrow> narrow ts \<Longrightarrow> narrow (f # sel # ts)"
| selector_eq: "selector sel \<Longrightarrow> narrow ts \<Longrightarrow> narrow ((''--selector='' @ sel) # ts)"
| wait: "p = ''--wait='' \<or> p = ''--timeout='' \<Longrightarrow> narrow ts \<Longrightarrow> narrow ((p @ v) # ts)"

lemma checkSelector_None: "checkSelector kind sel = None \<longleftrightarrow> selector sel"
  by (auto simp: checkSelector_def selector_def)

lemma startsWithAny_delete:
  "startsWithAny t deleteFlagPrefixes \<longleftrightarrow>
     has_prefix t ''--selector='' \<or> has_prefix t ''--wait='' \<or> has_prefix t ''--timeout=''"
  by (simp add: startsWithAny_def deleteFlagPrefixes_def)

lemma checked_narrow: "checkDeleteTargets kind target = None \<Longrightarrow> narrow target"
proof (induction kind target rule: checkDeleteTargets.induct)
  case (1 kind)
  show ?case by (rule narrow.no_more)
next
  case (2 kind t ts)
  show ?case
  proof (cases "has_prefix t ''-''")
    case False
    with 2 show ?thesis by (auto intro: narrow.name)
  next
    case flag: True
    show ?thesis
    proof (cases "List.member deleteValuedFlags t")
      case True
      with flag 2 show ?thesis
        by (auto simp: checkSelector_None split: list.splits option.splits intro!: narrow.selector_flag)
    next
      case False
      with flag 2 have ok: "startsWithAny t deleteFlagPrefixes" "narrow ts"
        "has_prefix t ''--selector='' \<longrightarrow> selector (drop 11 t)"
        by (auto simp: checkSelector_None split: option.splits if_splits)
      have sel: "has_prefix t ''--selector='' \<Longrightarrow> t = ''--selector='' @ drop 11 t"
        by (auto simp: has_prefix_iff)
      from ok(1) consider "has_prefix t ''--selector=''" | v where "t = ''--wait='' @ v"
        | v where "t = ''--timeout='' @ v"
        unfolding startsWithAny_delete by (auto simp only: has_prefix_iff)
      then show ?thesis
      proof cases
        case 1
        then show ?thesis using narrow.selector_eq [of "drop 11 t"] ok sel by simp
      qed (use ok narrow.wait in blast)+
    qed
  qed
qed

lemma narrow_checked: "narrow target \<Longrightarrow> checkDeleteTargets kind target = None"
proof (induction rule: narrow.induct)
  case (selector_flag f sel ts)
  then have "has_prefix f ''-''" by (auto simp: deleteValuedFlags_def has_prefix_def)
  moreover have "checkSelector kind sel = None" using selector_flag checkSelector_None by blast
  ultimately show ?case using selector_flag by simp
next
  case (selector_eq sel ts)
  moreover have "checkSelector kind sel = None" using selector_eq checkSelector_None by blast
  ultimately show ?case
    by (simp add: startsWithAny_delete has_prefix_def deleteValuedFlags_def)
next
  case (wait p ts v)
  then have "has_prefix (p @ v) ''-''" "\<not> List.member deleteValuedFlags (p @ v)"
    "startsWithAny (p @ v) deleteFlagPrefixes" "\<not> has_prefix (p @ v) ''--selector=''"
    by (auto simp: startsWithAny_delete has_prefix_def deleteValuedFlags_def)
  with wait.IH show ?case by simp
qed simp_all

lemma narrow_flags:
  "narrow target \<Longrightarrow> t \<in> set target \<Longrightarrow> has_prefix t ''-'' \<Longrightarrow>
     t \<in> set deleteValuedFlags \<or> startsWithAny t deleteFlagPrefixes"
  by (induction rule: narrow.induct) (auto simp: startsWithAny_delete selector_def has_prefix_iff)

lemma safeArg_None [simp]: "safeArg what v = None \<longleftrightarrow> \<not> has_prefix v ''-''"
  by (simp add: safeArg_def)

text \<open>Delete makes its call exactly for a target that narrows: at least one word, and every
  word a name, a selector that is not blank, or one of the two waiting flags. So no word of it can
  be --all, -A or any other flag.\<close>

theorem delete_is_narrow:
  "deleteArgs namespace kind target = Inr c \<longleftrightarrow>
     target \<noteq> [] \<and> narrow target \<and> \<not> has_prefix namespace ''-'' \<and> \<not> has_prefix kind ''-''
     \<and> c = Kubectl (nsArgs namespace @ [''delete'', kind] @ target @ [''--ignore-not-found''])"
  using checked_narrow [of kind target] narrow_checked [of target kind]
  by (auto simp: deleteArgs_def firstErr_None)

text \<open>The guard asks for a name or a selector; a waiting flag alone satisfies it.\<close>

lemma waiting_flag_is_a_target:
  "deleteArgs ''prod'' ''pod'' [''--wait=false'']
     = Inr (Kubectl [''-n'', ''prod'', ''delete'', ''pod'', ''--wait=false'', ''--ignore-not-found''])"
  by code_simp

subsection \<open>What the read handle lets through\<close>

text \<open>
  kubectl parses its flags up to \<open>--\<close>, and of a repeated flag the last one counts (the rule
  \<open>forge.go\<close> states for the same parser).
\<close>

definition lastDryRun :: "string list \<Rightarrow> string option" where
  "lastDryRun args =
     (case rev (filter (\<lambda>a. has_prefix a ''--dry-run'') (takeWhile (\<lambda>a. a \<noteq> ''--'') args)) of
        [] \<Rightarrow> None | a # _ \<Rightarrow> Some a)"

lemma hasDryRun_iff:
  "hasDryRun args \<longleftrightarrow>
     (\<exists>a \<in> set (takeWhile (\<lambda>a. a \<noteq> ''--'') args). has_prefix a ''--dry-run'' \<and> a \<noteq> ''--dry-run=none'')"
  by (induction args) auto

lemma lastDryRun_in: "lastDryRun args = Some a \<Longrightarrow> a \<in> set args \<and> has_prefix a ''--dry-run''"
proof -
  define fs where "fs = filter (\<lambda>a. has_prefix a ''--dry-run'') (takeWhile (\<lambda>a. a \<noteq> ''--'') args)"
  assume "lastDryRun args = Some a"
  then have "a \<in> set fs"
    by (cases "rev fs") (auto simp: lastDryRun_def fs_def [symmetric] simp flip: set_rev [of fs])
  then show ?thesis by (auto simp: fs_def dest: set_takeWhileD)
qed

lemma lastDryRun_Some: "hasDryRun args \<Longrightarrow> lastDryRun args \<noteq> None"
proof -
  assume "hasDryRun args"
  then have "rev (filter (\<lambda>a. has_prefix a ''--dry-run'') (takeWhile (\<lambda>a. a \<noteq> ''--'') args)) \<noteq> []"
    by (auto simp: hasDryRun_iff filter_empty_conv)
  then show ?thesis unfolding lastDryRun_def by (simp split: list.split)
qed

text \<open>Without \<open>--dry-run=none\<close> in the argv, a write that is let through is a dry run.\<close>

lemma permitted_write_is_dry:
  assumes "clusterPermits args = None" and "Verb args \<in> set writeVerbs" and "subverbReads (Verb args) = None"
    and "''--dry-run=none'' \<notin> set args"
  shows "Verb args \<in> set dryRunFlag \<and> (\<exists>a. lastDryRun args = Some a \<and> a \<noteq> ''--dry-run=none'')"
proof -
  have "Verb args \<notin> set readVerbs"
    using assms(2) by (auto simp: writeVerbs_def readVerbs_def)
  with assms(1-3) have "Verb args \<in> set dryRunFlag" "hasDryRun args"
    by (auto simp: clusterPermits_def Let_def split: if_splits)
  then show ?thesis using lastDryRun_Some lastDryRun_in assms(4) by fastforce
qed

text \<open>
  With it, the handle lets a write through whose last word on the matter is \<open>none\<close>: \<open>hasDryRun\<close>
  takes any, where kubectl takes the last. And a flag that takes its value from the next word but is
  not in \<open>valuedFlags\<close> (kubectl has several, \<open>--cache-dir\<close> and \<open>--token\<close> among them) hides the
  subcommand behind its value.
\<close>

lemma hasDryRun_append: "''--'' \<notin> set xs \<Longrightarrow> hasDryRun (xs @ ys) \<longleftrightarrow> hasDryRun xs \<or> hasDryRun ys"
  by (induction xs) auto

lemma lastDryRun_snoc:
  "''--'' \<notin> set xs \<Longrightarrow> has_prefix a ''--dry-run'' \<Longrightarrow> a \<noteq> ''--'' \<Longrightarrow> lastDryRun (xs @ [a]) = Some a"
proof -
  assume a: "''--'' \<notin> set xs" "has_prefix a ''--dry-run''" "a \<noteq> ''--''"
  then have "takeWhile (\<lambda>a. a \<noteq> ''--'') (xs @ [a]) = xs @ [a]"
    by (subst takeWhile_append2) auto
  with a(2) show ?thesis by (simp add: lastDryRun_def)
qed

lemma dry_run_verb_facts:
  assumes "v \<in> set dryRunFlag"
  shows "v \<noteq> []" "\<not> has_prefix v ''-''" "v \<in> set writeVerbs" "v \<notin> set readVerbs" "subverbReads v = None" "v \<noteq> ''--''"
proof -
  have "list_all (\<lambda>v. v \<noteq> [] \<and> \<not> has_prefix v ''-'' \<and> List.member writeVerbs v \<and> \<not> List.member readVerbs v
      \<and> subverbReads v = None \<and> v \<noteq> ''--'') dryRunFlag"
    by code_simp
  with assms show "v \<noteq> []" "\<not> has_prefix v ''-''" "v \<in> set writeVerbs" "v \<notin> set readVerbs" "subverbReads v = None"
    "v \<noteq> ''--''"
    unfolding list_all_iff by auto
qed

lemma Verb_first: "\<not> has_prefix v ''-'' \<Longrightarrow> Verb (v # args) = v"
  by (cases args) auto

lemma Verb_unlisted_flag:
  "has_prefix f ''-'' \<Longrightarrow> f \<notin> set valuedFlags \<Longrightarrow> \<not> has_prefix w ''-'' \<Longrightarrow> Verb (f # w # args) = w"
  by (cases args) auto

lemma valued_flag_hides_verb:
  "clusterRun LiveCluster [''--cache-dir'', ''get'', ''delete'', ''namespace'', ''prod'']
     = Inr (Kubectl [''--cache-dir'', ''get'', ''delete'', ''namespace'', ''prod''])"
  by code_simp

text \<open>The read handle runs a write for real when --dry-run=none follows another dry-run flag:
  hasDryRun takes any of them, and of a repeated flag kubectl takes the last.\<close>

theorem overridden_dry_run_permitted:
  assumes "v \<in> set dryRunFlag" and "''--'' \<notin> set names"
    and args: "args = v # names @ [''--dry-run=server'', ''--dry-run=none'']"
  shows "clusterRun LiveCluster args = Inr (Kubectl args) \<and> Verb args \<in> set writeVerbs
    \<and> lastDryRun args = Some ''--dry-run=none''"
proof -
  note v = dry_run_verb_facts [OF assms(1)]
  have free: "''--'' \<notin> set (v # names)" using assms(2) v(6) by auto
  have verb: "Verb args = v" unfolding args using v(2) by (rule Verb_first)
  have "hasDryRun args"
    using hasDryRun_append [OF free, of "[''--dry-run=server'', ''--dry-run=none'']"]
    by (simp add: args has_prefix_def)
  with verb have "clusterPermits args = None"
    using v assms(1) by (simp add: clusterPermits_def)
  moreover have "lastDryRun ((v # names @ [''--dry-run=server'']) @ [''--dry-run=none'']) = Some ''--dry-run=none''"
    using free by (intro lastDryRun_snoc) (auto simp: has_prefix_def)
  ultimately show ?thesis using verb v(3) by (simp add: args clusterRun_def permitsArgv_def)
qed

lemma overridden_dry_run_permitted_witness:
  "clusterRun LiveCluster [''delete'', ''namespace'', ''prod'', ''--dry-run=server'', ''--dry-run=none''] =
     Inr (Kubectl [''delete'', ''namespace'', ''prod'', ''--dry-run=server'', ''--dry-run=none''])"
  using overridden_dry_run_permitted [of "''delete''" "[''namespace'', ''prod'']"]
  by (simp add: dryRunFlag_def)

subsection \<open>Words of an operation\<close>

text \<open>The parameters of an operation that become a word of the argv on their own.\<close>

fun parameterWords :: "writerOp \<Rightarrow> string list" where
  "parameterWords (Annotate namespace kind name keyValue) = [namespace, kind, name, keyValue]"
| "parameterWords (Delete namespace kind target) = [namespace, kind]"
| "parameterWords (DeleteOrphan namespace kind name) = [namespace, kind, name]"
| "parameterWords (PatchMerge namespace kind name patchJSON) = [namespace, kind, name]"
| "parameterWords (RolloutRestart namespace target) = [namespace, target]"
| "parameterWords (CreateToken namespace serviceAccount duration) = [namespace, serviceAccount]"
| "parameterWords (ApplyServerSide manifestPath fieldManager) = []"
| "parameterWords (ApplyStdin manifest fieldManager) = []"
| "parameterWords (CreateStdin namespace manifest) = [namespace]"

lemmas writer_args = annotateArgs_def deleteArgs_def deleteOrphanArgs_def patchMergeArgs_def
  rolloutRestartArgs_def createTokenArgs_def applyServerSideArgs_def applyStdinArgs_def createStdinArgs_def

text \<open>No parameter is a flag in disguise, save the \<open>key=value\<close> of an annotation.\<close>

lemma words_are_not_flags:
  "writerArgs op = Inr c \<Longrightarrow> w \<in> set (parameterWords op) \<Longrightarrow>
     (\<And>namespace kind name. op \<noteq> Annotate namespace kind name w) \<Longrightarrow> \<not> has_prefix w ''-''"
  by (cases op) (auto simp: writer_args firstErr_None split: if_splits option.splits)

lemma annotation_may_be_a_flag:
  "writerArgs (Annotate ''prod'' ''pod'' ''web-0'' ''--all=true'')
     = Inr (Kubectl [''-n'', ''prod'', ''annotate'', ''pod'', ''web-0'', ''--all=true'', ''--overwrite''])"
  by code_simp

end
