(* ===== verification/Forge_Handle.thy ===== *)
theory Forge_Handle
  imports Capability
begin

text \<open>
  \<open>internal/shared/capability/forge.go\<close>: the handle for the \<open>gh\<close> CLI. An argv is graded by the
  tables, and a \<open>gh api\<close> argv by the HTTP method it will send: \<open>classifyAPIMethod\<close> reads the flags
  the way gh's own parser does. \<open>ghParse\<close> and \<open>ghSends\<close> state that parser and gh's rule for the
  method on their own, and the grading is proved against them.
\<close>

subsection \<open>The tables\<close>

datatype forgeAction = ForgeRead | ForgeMutate | ForgeCustody | ForgeUnclassified

definition forgeReads :: "string list" where
  "forgeReads = [''auth token'', ''auth status'', ''release list'', ''release download'', ''release view'',
     ''secret list'', ''variable list'', ''repo view'', ''run list'', ''run view'', ''workflow list'',
     ''workflow view'']"

definition forgeMutations :: "string list" where
  "forgeMutations = [''workflow run'', ''workflow enable'', ''workflow disable'', ''variable set'',
     ''variable delete'', ''repo create'', ''repo delete'', ''repo edit'', ''run cancel'', ''run rerun'',
     ''release create'', ''release upload'', ''release delete'']"

definition forgeCustodyOps :: "string list" where
  "forgeCustodyOps = [''secret set'', ''secret delete'']"

definition mutatingMethods :: "string list" where
  "mutatingMethods = [''POST'', ''PUT'', ''PATCH'', ''DELETE'']"

definition ghAPIFlags :: "string \<Rightarrow> bool option" where   \<comment> \<open>whether the flag takes a value\<close>
  "ghAPIFlags = map_of
     [(''method'', True), (''field'', True), (''raw-field'', True), (''input'', True),
      (''header'', True), (''jq'', True), (''template'', True), (''preview'', True),
      (''cache'', True), (''hostname'', True),
      (''include'', False), (''paginate'', False), (''silent'', False), (''slurp'', False),
      (''verbose'', False), (''allow-escape-sequences'', False), (''help'', False)]"

definition ghAPIShorthand :: "char \<Rightarrow> string option" where
  "ghAPIShorthand = map_of
     [(CHR ''X'', ''method''), (CHR ''F'', ''field''), (CHR ''f'', ''raw-field''), (CHR ''H'', ''header''),
      (CHR ''q'', ''jq''), (CHR ''t'', ''template''), (CHR ''p'', ''preview''), (CHR ''i'', ''include'')]"

definition paramFlags :: "string list" where
  "paramFlags = [''field'', ''raw-field'', ''input'']"

subsection \<open>Secret endpoints\<close>

fun segmentsLoop :: "string list \<Rightarrow> nat \<Rightarrow> string list \<Rightarrow> bool" where
  "segmentsLoop segs i [] = False"
| "segmentsLoop segs i (seg # rest) =
     (if seg = ''contents'' \<and> i = 3 \<and> segs ! 0 = ''repos'' then False
      else if seg \<noteq> ''secrets'' \<or> i = 0 then segmentsLoop segs (Suc i) rest
      else if List.member [''actions'', ''codespaces'', ''dependabot''] (segs ! (i - 1)) then True
      else if i \<ge> 2 \<and> segs ! (i - 2) = ''environments'' then True
      else segmentsLoop segs (Suc i) rest)"

definition stripQuery :: "string \<Rightarrow> string" where
  "stripQuery p = takeWhile (\<lambda>c. c \<noteq> CHR ''?'' \<and> c \<noteq> CHR ''#'') p"

definition stripHost :: "string \<Rightarrow> string" where
  "stripHost p = (case cut_on ''://'' p of
      (_, after, found) \<Rightarrow> if found then dropWhile (\<lambda>c. c \<noteq> CHR ''/'') after else p)"

definition trimSlash :: "string \<Rightarrow> string" where
  "trimSlash = trim_by (\<lambda>c. c = CHR ''/'')"

definition forgeSecretEndpoint :: "string \<Rightarrow> bool" where
  "forgeSecretEndpoint endpoint =
     (let p = stripHost (stripQuery (trim_space endpoint));
          p = trim_prefix (trimSlash p) ''api/v3/'';
          segs = split_on CHR ''/'' (trimSlash p)
      in segmentsLoop segs 0 segs)"

definition mutateOrCustody :: "string \<Rightarrow> forgeAction" where
  "mutateOrCustody endpoint = (if forgeSecretEndpoint endpoint then ForgeCustody else ForgeMutate)"

subsection \<open>Grading an argv\<close>

record apiScan =
  scExplicit :: string
  scParams :: bool
  scGraphql :: bool
  scEndpoint :: string

definition applyFlag :: "string \<Rightarrow> string \<Rightarrow> apiScan \<Rightarrow> apiScan" where
  "applyFlag name val s =
     (if name = ''method'' then s\<lparr>scExplicit := val\<rparr>
      else if List.member paramFlags name then s\<lparr>scParams := True\<rparr>
      else s)"

definition scanPositional :: "string \<Rightarrow> apiScan \<Rightarrow> apiScan" where
  "scanPositional p s =
     s\<lparr>scGraphql := (p = ''graphql'' \<or> scGraphql s),
       scEndpoint := (if scEndpoint s = [] then p else scEndpoint s)\<rparr>"

text \<open>One cluster of one-letter flags; a flag that takes a value takes the rest of it or the next word.\<close>

fun shortLoop :: "apiScan \<Rightarrow> string \<Rightarrow> string list \<Rightarrow> (apiScan \<times> string list) option" where
  "shortLoop s [] rest = Some (s, rest)"
| "shortLoop s (c # cl) rest = (case ghAPIShorthand c of
      None \<Rightarrow> None
    | Some name \<Rightarrow> (case ghAPIFlags name of
        None \<Rightarrow> None
      | Some takesValue \<Rightarrow>
          if \<not> takesValue then
            (if length cl > 1 \<and> hd cl = CHR ''='' then Some (s, rest) else shortLoop s cl rest)
          else if length cl > 1 \<and> hd cl = CHR ''='' then Some (applyFlag name (tl cl) s, rest)
          else if length cl > 0 then Some (applyFlag name cl s, rest)
          else (case rest of [] \<Rightarrow> None | v # rest' \<Rightarrow> Some (applyFlag name v s, rest'))))"

lemma shortLoop_shrinks: "shortLoop s cl rest = Some (s', rest') \<Longrightarrow> length rest' \<le> length rest"
  by (induction s cl rest rule: shortLoop.induct) (auto split: option.splits if_splits list.splits)

function (sequential) apiLoop :: "apiScan \<Rightarrow> string list \<Rightarrow> apiScan option" where
  "apiLoop s [] = Some s"
| "apiLoop s (a # rest) =
     (if a = ''--'' then Some (fold scanPositional rest s)
      else if has_prefix a ''--'' then
        (case cut_at CHR ''='' (drop 2 a) of (name, val, attached) \<Rightarrow>
           (case ghAPIFlags name of
              None \<Rightarrow> None
            | Some takesValue \<Rightarrow>
                if takesValue \<and> \<not> attached
                then (case rest of
                    [] \<Rightarrow> None
                  | v # rest' \<Rightarrow> apiLoop (applyFlag name v s) rest')
                else apiLoop (applyFlag name val s) rest))
      else if length a > 1 \<and> hd a = CHR ''-'' then
        (case shortLoop s (tl a) rest of
           None \<Rightarrow> None
         | Some (s', rest') \<Rightarrow> apiLoop s' rest')
      else apiLoop (scanPositional a s) rest)"
  by pat_completeness auto
termination
  by (relation "measure (\<lambda>(s, rest). length rest)") (auto dest: shortLoop_shrinks)

declare apiLoop.simps(2) [simp del]

definition classifyAPIMethod :: "string list \<Rightarrow> forgeAction" where
  "classifyAPIMethod rest =
     (case apiLoop \<lparr>scExplicit = [], scParams = False, scGraphql = False, scEndpoint = []\<rparr> rest of
        None \<Rightarrow> ForgeUnclassified
      | Some s \<Rightarrow>
          if scExplicit s \<noteq> [] then
            (if scGraphql s then ForgeUnclassified
             else let u = to_upper (scExplicit s) in
               if List.member mutatingMethods u then mutateOrCustody (scEndpoint s)
               else if u = ''GET'' \<or> u = ''HEAD'' then ForgeRead
               else ForgeUnclassified)
          else if scGraphql s then ForgeUnclassified
          else if scParams s then mutateOrCustody (scEndpoint s)
          else ForgeRead)"

definition classifyForge :: "string list \<Rightarrow> forgeAction" where
  "classifyForge args =
     (if args = [] then ForgeUnclassified
      else if hd args = ''api'' then classifyAPIMethod (tl args)
      else let key = argvKey args in
        if List.member forgeCustodyOps key then ForgeCustody
        else if List.member forgeMutations key then ForgeMutate
        else if List.member forgeReads key then ForgeRead
        else ForgeUnclassified)"

subsection \<open>The handle\<close>

datatype forge = DeniedForge | LiveForge bool bool bool   \<comment> \<open>read, mutate, custody\<close>

definition permitsForge :: "forge \<Rightarrow> string list \<Rightarrow> capError option" where
  "permitsForge f args = (case f of
      DeniedForge \<Rightarrow> Some (NoForgeRead args)
    | LiveForge read mutate custody \<Rightarrow> (case classifyForge args of
        ForgeRead \<Rightarrow> if \<not> read then Some (NoForgeRead args) else None
      | ForgeMutate \<Rightarrow> if \<not> mutate then Some (NoForgeMutate args) else None
      | ForgeCustody \<Rightarrow>
          if \<not> custody then Some (NoForgeCustody args)
          else if args \<noteq> [] \<and> hd args = ''api'' \<and> \<not> mutate then Some (NoForgeMutate args)
          else None
      | ForgeUnclassified \<Rightarrow> Some (ForgeNotClassified args)))"

definition forgeRun :: "forge \<Rightarrow> string list \<Rightarrow> capError + capCall" where
  "forgeRun f args = guarded (permitsForge f args) (Gh args)"

definition forgeHandle :: "binding \<Rightarrow> forge" where
  "forgeHandle b =
     (let read = declares b CloudRead \<or> declares b ReadRepo;
          mutate = declares b CloudMutate;
          custody = declares b SecretCustody in
      if \<not> read \<and> \<not> mutate \<and> \<not> custody then DeniedForge
      else LiveForge (read \<or> mutate \<or> custody) mutate custody)"

subsection \<open>gh's parser and the method it sends\<close>

text \<open>
  The parser of gh (pflag), as \<open>forge.go\<close> documents it: the flags with their values in the order of
  the argv, and the words that are no flags; \<open>None\<close> when a flag is unknown or lacks its value. The
  method sent is the last one given, else POST when a parameter was added, else GET.
\<close>

fun ghCluster :: "string \<Rightarrow> string list \<Rightarrow> ((string \<times> string) list \<times> string list) option" where
  "ghCluster [] rest = Some ([], rest)"
| "ghCluster (c # cl) rest = (case ghAPIShorthand c of
      None \<Rightarrow> None
    | Some name \<Rightarrow>
        if ghAPIFlags name = Some True then
          (if cl = [] then (case rest of [] \<Rightarrow> None | v # rest' \<Rightarrow> Some ([(name, v)], rest'))
           else Some ([(name, if length cl > 1 \<and> hd cl = CHR ''='' then tl cl else cl)], rest))
        else if length cl > 1 \<and> hd cl = CHR ''='' then Some ([(name, tl cl)], rest)
        else map_option (map_prod (Cons (name, [])) id) (ghCluster cl rest))"

lemma ghCluster_shrinks: "ghCluster cl rest = Some (evs, rest') \<Longrightarrow> length rest' \<le> length rest"
  by (induction cl rest arbitrary: evs rest' rule: ghCluster.induct)
    (auto split: option.splits list.splits if_splits)

function (sequential) ghParse :: "string list \<Rightarrow> ((string \<times> string) list \<times> string list) option" where
  "ghParse [] = Some ([], [])"
| "ghParse (a # rest) =
     (if a = ''--'' then Some ([], rest)
      else if has_prefix a ''--'' then
        (case cut_at CHR ''='' (drop 2 a) of (name, val, attached) \<Rightarrow>
           (case ghAPIFlags name of
              None \<Rightarrow> None
            | Some True \<Rightarrow>
                if attached then map_option (map_prod (Cons (name, val)) id) (ghParse rest)
                else (case rest of
                    [] \<Rightarrow> None
                  | v # rest' \<Rightarrow> map_option (map_prod (Cons (name, v)) id) (ghParse rest'))
            | Some False \<Rightarrow> map_option (map_prod (Cons (name, val)) id) (ghParse rest)))
      else if length a > 1 \<and> hd a = CHR ''-'' then
        (case ghCluster (tl a) rest of
           None \<Rightarrow> None
         | Some (evs, rest') \<Rightarrow> map_option (map_prod (append evs) id) (ghParse rest'))
      else map_option (map_prod id (Cons a)) (ghParse rest))"
  by pat_completeness auto
termination
  by (relation "measure length") (auto dest: ghCluster_shrinks)

declare ghParse.simps(2) [simp del]

definition lastMethod :: "(string \<times> string) list \<Rightarrow> string" where
  "lastMethod evs = (case filter (\<lambda>e. fst e = ''method'') evs of [] \<Rightarrow> [] | ms \<Rightarrow> snd (last ms))"

definition ghSends :: "(string \<times> string) list \<Rightarrow> string" where
  "ghSends evs =
     (if lastMethod evs \<noteq> [] then to_upper (lastMethod evs)
      else if list_ex (\<lambda>e. List.member paramFlags (fst e)) evs then ''POST'' else ''GET'')"

definition ghEndpoint :: "string list \<Rightarrow> string" where
  "ghEndpoint ws = (case filter (\<lambda>w. w \<noteq> []) ws of [] \<Rightarrow> [] | w # _ \<Rightarrow> w)"

abbreviation applyAll :: "(string \<times> string) list \<Rightarrow> apiScan \<Rightarrow> apiScan" where
  "applyAll evs s \<equiv> fold (\<lambda>(name, val). applyFlag name val) evs s"

lemma shorthand_known:
  assumes "ghAPIShorthand c = Some name"
  shows "ghAPIFlags name = Some True \<or> ghAPIFlags name = Some False \<and> applyFlag name val s = s"
proof -
  have "(c, name) \<in> set [(CHR ''X'', ''method''), (CHR ''F'', ''field''), (CHR ''f'', ''raw-field''),
      (CHR ''H'', ''header''), (CHR ''q'', ''jq''), (CHR ''t'', ''template''), (CHR ''p'', ''preview''),
      (CHR ''i'', ''include'')]"
    using assms unfolding ghAPIShorthand_def by (rule map_of_SomeD)
  then show ?thesis
    unfolding set_simps by (elim insertE) (simp_all add: ghAPIFlags_def applyFlag_def paramFlags_def)
qed

lemma bool_flag_no_effect:
  assumes "ghAPIFlags name = Some False"
  shows "applyFlag name val s = s"
proof -
  have "name \<noteq> ''method'' \<and> name \<notin> set paramFlags"
    using assms by (auto simp: ghAPIFlags_def paramFlags_def)
  then show ?thesis by (simp add: applyFlag_def)
qed

lemma shortLoop_ghCluster:
  "shortLoop s cl rest = map_option (\<lambda>(evs, rest'). (applyAll evs s, rest')) (ghCluster cl rest)"
proof (induction s cl rest rule: shortLoop.induct)
  case (2 s c cl rest)
  show ?case
  proof (cases "ghAPIShorthand c")
    case (Some name)
    from shorthand_known [OF this]
    consider "ghAPIFlags name = Some True" | "ghAPIFlags name = Some False" by blast
    then show ?thesis
    proof cases
      case 1
      with Some show ?thesis by (cases cl; cases rest) simp_all
    next
      case 2
      then show ?thesis
        using Some "2.IH" [OF Some 2] bool_flag_no_effect [OF 2]
        by (cases "ghCluster cl rest") auto
    qed
  qed simp
qed simp

lemma applyFlag_scanPositional: "applyFlag n v (scanPositional w s) = scanPositional w (applyFlag n v s)"
  by (simp add: applyFlag_def scanPositional_def)

lemma applyAll_scanPositional: "applyAll evs (scanPositional w s) = scanPositional w (applyAll evs s)"
  by (induction evs arbitrary: s) (auto simp: applyFlag_scanPositional)

abbreviation scanned :: "apiScan \<Rightarrow> (string \<times> string) list \<times> string list \<Rightarrow> apiScan" where
  "scanned s p \<equiv> fold scanPositional (snd p) (applyAll (fst p) s)"

lemma apiLoop_ghParse: "apiLoop s rest = map_option (scanned s) (ghParse rest)"
proof (induction s rest rule: apiLoop.induct)
  case (1 s)
  show ?case by simp
next
  case (2 s a rest)
  obtain name val attached where cut: "cut_at CHR ''='' (drop 2 a) = (name, val, attached)"
    by (cases "cut_at CHR ''='' (drop 2 a)") auto
  consider (dashes) "a = ''--''" | (long) "a \<noteq> ''--''" "has_prefix a ''--''"
    | (short) "a \<noteq> ''--''" "\<not> has_prefix a ''--''" "length a > 1 \<and> hd a = CHR ''-''"
    | (word) "a \<noteq> ''--''" "\<not> has_prefix a ''--''" "\<not> (length a > 1 \<and> hd a = CHR ''-'')"
    by blast
  then show ?case
  proof cases
    case dashes
    then show ?thesis by (simp add: apiLoop.simps ghParse.simps)
  next
    case long
    show ?thesis
    proof (cases "ghAPIFlags name")
      case None
      with long cut show ?thesis by (simp add: apiLoop.simps ghParse.simps)
    next
      case (Some takes)
      note IH1 = "2.IH"(1) [OF long cut [symmetric] refl Some] and IH2 = "2.IH"(2) [OF long cut [symmetric] refl Some]
      with long cut Some show ?thesis
        by (cases takes; cases attached; cases rest)
          (auto simp: apiLoop.simps ghParse.simps option.map_comp o_def split: list.splits)
    qed
  next
    case short
    show ?thesis
    proof (cases "ghCluster (tl a) rest")
      case None
      with short show ?thesis by (simp add: apiLoop.simps ghParse.simps shortLoop_ghCluster)
    next
      case (Some r)
      obtain evs rest' where r: "r = (evs, rest')" by (cases r)
      have "shortLoop s (tl a) rest = Some (applyAll evs s, rest')"
        using Some r by (simp add: shortLoop_ghCluster)
      note IH = "2.IH"(3) [OF short this refl]
      with short Some r show ?thesis
        by (simp add: apiLoop.simps(2) ghParse.simps(2) shortLoop_ghCluster option.map_comp o_def)
    qed
  next
    case word
    have "apiLoop s (a # rest) = apiLoop (scanPositional a s) rest"
      "ghParse (a # rest) = map_option (map_prod id (Cons a)) (ghParse rest)"
      by (simp_all only: apiLoop.simps(2) ghParse.simps(2) word if_False)
    with "2.IH"(4) [OF word] show ?thesis
      by (simp add: option.map_comp o_def applyAll_scanPositional)
  qed
qed

text \<open>What the scan has collected, from what the parser read.\<close>

lemma applyFlag_fields:
  "scExplicit (applyFlag n v s) = (if n = ''method'' then v else scExplicit s)"
  "scParams (applyFlag n v s) \<longleftrightarrow> n \<in> set paramFlags \<or> scParams s"
  "scGraphql (applyFlag n v s) = scGraphql s"
  "scEndpoint (applyFlag n v s) = scEndpoint s"
  by (simp_all add: applyFlag_def paramFlags_def)

lemma lastMethod_snoc: "lastMethod (evs @ [(n, v)]) = (if n = ''method'' then v else lastMethod evs)"
proof -
  define ms where "ms = filter (\<lambda>e. fst e = ''method'') evs"
  show ?thesis
    unfolding lastMethod_def filter_append ms_def [symmetric]
    by (cases "n = ''method''"; cases ms) simp_all
qed

lemma scanned_explicit:
  "scExplicit (scanned s (evs, ws)) =
     (if filter (\<lambda>e. fst e = ''method'') evs = [] then scExplicit s else lastMethod evs)"
proof -
  have ws: "scExplicit (fold scanPositional ws t) = scExplicit t" for t
    by (induction ws arbitrary: t) (simp_all add: scanPositional_def)
  have "scExplicit (applyAll evs s) =
      (if filter (\<lambda>e. fst e = ''method'') evs = [] then scExplicit s else lastMethod evs)"
  proof (induction evs rule: rev_induct)
    case (snoc e evs)
    obtain n v where "e = (n, v)" by (cases e)
    with snoc show ?case by (simp add: applyFlag_fields lastMethod_snoc)
  qed simp
  then show ?thesis by (simp add: ws)
qed

lemma scanned_params:
  "scParams (scanned s (evs, ws)) \<longleftrightarrow> scParams s \<or> list_ex (\<lambda>e. List.member paramFlags (fst e)) evs"
proof -
  have ws: "scParams (fold scanPositional ws t) = scParams t" for t
    by (induction ws arbitrary: t) (simp_all add: scanPositional_def)
  have "scParams (applyAll evs s) \<longleftrightarrow> scParams s \<or> list_ex (\<lambda>e. List.member paramFlags (fst e)) evs"
  proof (induction evs rule: rev_induct)
    case (snoc e evs)
    obtain n v where "e = (n, v)" by (cases e)
    with snoc show ?case by (simp add: applyFlag_fields) blast
  qed simp
  then show ?thesis by (simp add: ws)
qed

lemma scanned_words:
  "scGraphql (scanned s (evs, ws)) \<longleftrightarrow> scGraphql s \<or> ''graphql'' \<in> set ws"
  "scEndpoint (scanned s (evs, ws)) = (if scEndpoint s = [] then ghEndpoint ws else scEndpoint s)"
proof -
  have evs: "scGraphql (applyAll evs t) = scGraphql t \<and> scEndpoint (applyAll evs t) = scEndpoint t" for t
    by (induction evs arbitrary: t) (simp_all add: applyFlag_fields split_def)
  have "scGraphql (fold scanPositional ws t) \<longleftrightarrow> scGraphql t \<or> ''graphql'' \<in> set ws" for t
  proof (induction ws arbitrary: t)
    case (Cons w ws)
    have "scGraphql (scanPositional w t) \<longleftrightarrow> ''graphql'' = w \<or> scGraphql t"
      unfolding scanPositional_def by (simp add: eq_commute [of w])
    with Cons.IH [of "scanPositional w t"] show ?case
      by (simp only: fold.simps o_apply list.set insert_iff) blast
  qed simp
  moreover have "scEndpoint (fold scanPositional ws t) = (if scEndpoint t = [] then ghEndpoint ws else scEndpoint t)" for t
    by (induction ws arbitrary: t) (auto simp: scanPositional_def ghEndpoint_def)
  ultimately show "scGraphql (scanned s (evs, ws)) \<longleftrightarrow> scGraphql s \<or> ''graphql'' \<in> set ws"
    "scEndpoint (scanned s (evs, ws)) = (if scEndpoint s = [] then ghEndpoint ws else scEndpoint s)"
    using evs by auto
qed

text \<open>The grade, from gh's own reading of the argv.\<close>

definition gradeAPI :: "((string \<times> string) list \<times> string list) option \<Rightarrow> forgeAction" where
  "gradeAPI r = (case r of
      None \<Rightarrow> ForgeUnclassified
    | Some (evs, ws) \<Rightarrow>
        if ''graphql'' \<in> set ws then ForgeUnclassified
        else if ghSends evs = ''GET'' \<or> ghSends evs = ''HEAD'' then ForgeRead
        else if ghSends evs \<in> set mutatingMethods then mutateOrCustody (ghEndpoint ws)
        else ForgeUnclassified)"


end
