(* ===== verification/Handles.thy ===== *)
theory Handles
  imports Forge_Handle
begin

text \<open>
  \<open>internal/shared/capability/capability.go\<close> (\<open>For\<close>) and \<open>wiring.go\<close>: the handles of a binding,
  and what the declared grants, the type system of \<open>Extension_Types\<close> and the handles guarantee
  together. \<open>handleOp\<close> is every operation of every handle, \<open>perform\<close> runs one; \<open>opNeeds\<close> states the
  documented contract of the handles, each operation with the grants it asks for.
\<close>

subsection \<open>Building the handles\<close>

record handles =
  hCluster :: clusterHandle
  hWriter :: writer
  hSecrets :: secrets
  hCustodian :: custodian
  hBaoAdmin :: baoAdminHandle
  hForge :: forge
  hCloud :: cloud

definition readOnlyGrants :: "binding \<Rightarrow> binding" where
  "readOnlyGrants b = b\<lparr>bGrants := filter isReadOnly (bGrants b)\<rparr>"

definition deniedHandles :: handles where
  "deniedHandles = \<lparr>hCluster = DeniedCluster, hWriter = DeniedWriter, hSecrets = DeniedSecrets,
     hCustodian = DeniedCustodian, hBaoAdmin = DeniedBaoAdmin, hForge = DeniedForge, hCloud = DeniedCloud\<rparr>"

definition handlesFor :: "binding \<Rightarrow> handles" where
  "handlesFor b =
     (if bKind b = Gate then deniedHandles
      else
        let b = (if bKind b = Assertion then readOnlyGrants b else b);
            read = declares b ClusterRead;
            write = declares b ClusterWrite;
            w = (if write then LiveWriter else DeniedWriter);
            (sec, cust) = secretHandles b;
            fg = forgeHandle b;
            ba = baoAdminOf b;
            cl = cloudFor b
        in if \<not> read \<and> \<not> write
           then \<lparr>hCluster = DeniedCluster, hWriter = w, hSecrets = sec, hCustodian = cust,
                 hBaoAdmin = ba, hForge = fg, hCloud = cl\<rparr>
           else \<lparr>hCluster = LiveCluster, hWriter = w, hSecrets = sec, hCustodian = cust,
                 hBaoAdmin = ba, hForge = fg, hCloud = cl\<rparr>)"

text \<open>\<open>wiring.go\<close>: the assembly panics on a refusing handle; a panic is \<open>Inl\<close>.\<close>

definition mustWriter :: "binding \<Rightarrow> string + writer" where
  "mustWriter b = (case hWriter (handlesFor b) of
      DeniedWriter \<Rightarrow> Inl ClusterWrite | LiveWriter \<Rightarrow> Inr LiveWriter)"

definition mustCluster :: "binding \<Rightarrow> string + clusterHandle" where
  "mustCluster b = (case hCluster (handlesFor b) of
      DeniedCluster \<Rightarrow> Inl ClusterRead | LiveCluster \<Rightarrow> Inr LiveCluster)"

subsection \<open>The operations of the handles\<close>

datatype handleOp =
    OpRun "string list"
  | OpCombined "string list"
  | OpWrite writerOp
  | OpGet string string
  | OpPut string "(string \<times> string) list"
  | OpBao string string string "string list"
  | OpForge "string list"
  | OpCloud string string

fun perform :: "handles \<Rightarrow> handleOp \<Rightarrow> capError + capCall" where
  "perform h (OpRun args) = clusterRun (hCluster h) args"
| "perform h (OpCombined args) = clusterCombined (hCluster h) args"
| "perform h (OpWrite w) = writerRun (hWriter h) w"
| "perform h (OpGet path field) = secretsGet (hSecrets h) path field"
| "perform h (OpPut path kvs) = custodianPut (hCustodian h) path kvs"
| "perform h (OpBao pod token stdin args) = baoRun (hBaoAdmin h) pod token stdin args"
| "perform h (OpForge args) = forgeRun (hForge h) args"
| "perform h (OpCloud verb url) = cloudDo (hCloud h) verb url"

definition fullHandles :: handles where
  "fullHandles = \<lparr>hCluster = LiveCluster, hWriter = LiveWriter, hSecrets = LiveSecrets,
     hCustodian = LiveCustodian, hBaoAdmin = LiveBaoAdmin True True, hForge = LiveForge True True True,
     hCloud = LiveCloud True True\<rparr>"

text \<open>
  What an operation asks for: every list of the result must have a grant that is declared. The
  grants that count are those the kind leaves: none for a gate, the read grants for an assertion.
\<close>

fun opNeeds :: "handleOp \<Rightarrow> string list list" where
  "opNeeds (OpRun args) = [[ClusterRead, ClusterWrite]]"
| "opNeeds (OpCombined args) = [[ClusterRead, ClusterWrite]]"
| "opNeeds (OpWrite w) = [[ClusterWrite]]"
| "opNeeds (OpGet path field) = [[SecretRead, SecretCustody]]"
| "opNeeds (OpPut path kvs) = [[SecretCustody]]"
| "opNeeds (OpBao pod token stdin args) = (case classifyBao args of
      BaoRead \<Rightarrow> [[SecretRead, SecretCustody]]
    | BaoAdmin \<Rightarrow> [[SecretCustody]]
    | BaoUnclassified \<Rightarrow> [])"
| "opNeeds (OpForge args) = (case classifyForge args of
      ForgeRead \<Rightarrow> [[CloudRead, ReadRepo, CloudMutate, SecretCustody]]
    | ForgeMutate \<Rightarrow> [[CloudMutate]]
    | ForgeCustody \<Rightarrow> if args \<noteq> [] \<and> hd args = ''api'' then [[SecretCustody], [CloudMutate]] else [[SecretCustody]]
    | ForgeUnclassified \<Rightarrow> [])"
| "opNeeds (OpCloud verb url) =
     (if List.member mutateMethods (to_upper (trim_space verb)) then [[CloudMutate]]
      else [[CloudRead, CloudMutate]])"

fun mutates :: "handleOp \<Rightarrow> bool" where
  "mutates (OpWrite w) = True"
| "mutates (OpPut path kvs) = True"
| "mutates (OpBao pod token stdin args) = (classifyBao args = BaoAdmin)"
| "mutates (OpForge args) = (classifyForge args = ForgeMutate \<or> classifyForge args = ForgeCustody)"
| "mutates (OpCloud verb url) = List.member mutateMethods (to_upper (trim_space verb))"
| "mutates _ = False"

definition effectiveGrants :: "binding \<Rightarrow> string list" where
  "effectiveGrants b =
     (if bKind b = Gate then []
      else if bKind b = Assertion then filter isReadOnly (bGrants b)
      else bGrants b)"

definition covered :: "string list \<Rightarrow> handleOp \<Rightarrow> bool" where
  "covered gs op \<longleftrightarrow> (\<forall>alts \<in> set (opNeeds op). \<exists>g \<in> set alts. g \<in> set gs)"

subsection \<open>The grant is the handle\<close>

lemma declares_iff: "declares b g \<longleftrightarrow> g \<in> set (bGrants b)"
  by (auto simp: declares_def list_ex_iff)

lemmas handle_makers = secretHandles_def baoAdminOf_def cloudFor_def forgeHandle_def Let_def

text \<open>The handles of a grant list, one per field.\<close>

definition grantHandles :: "string list \<Rightarrow> handles" where
  "grantHandles gs =
     \<lparr>hCluster = (if ClusterRead \<in> set gs \<or> ClusterWrite \<in> set gs then LiveCluster else DeniedCluster),
      hWriter = (if ClusterWrite \<in> set gs then LiveWriter else DeniedWriter),
      hSecrets = (if SecretRead \<in> set gs \<or> SecretCustody \<in> set gs then LiveSecrets else DeniedSecrets),
      hCustodian = (if SecretCustody \<in> set gs then LiveCustodian else DeniedCustodian),
      hBaoAdmin = (if SecretRead \<in> set gs \<or> SecretCustody \<in> set gs
        then LiveBaoAdmin True (SecretCustody \<in> set gs) else DeniedBaoAdmin),
      hForge = (if CloudRead \<in> set gs \<or> ReadRepo \<in> set gs \<or> CloudMutate \<in> set gs \<or> SecretCustody \<in> set gs
        then LiveForge True (CloudMutate \<in> set gs) (SecretCustody \<in> set gs) else DeniedForge),
      hCloud = (if CloudRead \<in> set gs \<or> CloudMutate \<in> set gs
        then LiveCloud (CloudRead \<in> set gs) (CloudMutate \<in> set gs) else DeniedCloud)\<rparr>"

lemma made_handles:
  "secretHandles b = (hSecrets (grantHandles (bGrants b)), hCustodian (grantHandles (bGrants b)))"
  "baoAdminOf b = hBaoAdmin (grantHandles (bGrants b))"
  "cloudFor b = hCloud (grantHandles (bGrants b))"
  "forgeHandle b = hForge (grantHandles (bGrants b))"
  "(if declares b ClusterWrite then LiveWriter else DeniedWriter) = hWriter (grantHandles (bGrants b))"
  "\<not> (\<not> declares b ClusterRead \<and> \<not> declares b ClusterWrite) \<Longrightarrow> hCluster (grantHandles (bGrants b)) = LiveCluster"
  "\<not> declares b ClusterRead \<and> \<not> declares b ClusterWrite \<Longrightarrow> hCluster (grantHandles (bGrants b)) = DeniedCluster"
  by (simp_all add: grantHandles_def handle_makers declares_iff)

lemma grantHandles_Nil: "grantHandles [] = deniedHandles"
  by (simp add: grantHandles_def deniedHandles_def)

lemma handlesFor_grants: "handlesFor b = grantHandles (effectiveGrants b)"
proof (cases "bKind b = Gate")
  case True
  then show ?thesis by (simp add: handlesFor_def effectiveGrants_def grantHandles_Nil)
next
  case False
  define c where "c = (if bKind b = Assertion then readOnlyGrants b else b)"
  have "bGrants c = effectiveGrants b"
    using False by (simp add: c_def effectiveGrants_def readOnlyGrants_def)
  moreover have "handlesFor b = grantHandles (bGrants c)"
  proof (cases "\<not> declares c ClusterRead \<and> \<not> declares c ClusterWrite")
    case True
    show ?thesis
      unfolding handlesFor_def c_def [symmetric] made_handles if_not_P [OF False] Let_def prod.case if_P [OF True]
      by (rule handles.equality) (simp_all add: made_handles(7) [OF True])
  next
    case live: False
    show ?thesis
      unfolding handlesFor_def c_def [symmetric] made_handles if_not_P [OF False] Let_def prod.case if_not_P [OF live]
      by (rule handles.equality) (simp_all add: made_handles(6) [OF live])
  qed
  ultimately show ?thesis by simp
qed

lemma cluster_gate:
  "permitsArgv (if d then LiveCluster else DeniedCluster) args = None \<longleftrightarrow> d \<and> clusterPermits args = None"
  by (simp add: permitsArgv_def)

lemma covered_Nil [simp]: "opNeeds op = [] \<Longrightarrow> covered gs op"
  by (simp add: covered_def)

lemma perform_grants:
  "perform (grantHandles gs) op = Inr c \<longleftrightarrow> perform fullHandles op = Inr c \<and> covered gs op"
proof (cases op)
  case (OpRun args)
  then show ?thesis
    by (auto simp: grantHandles_def fullHandles_def covered_def clusterRun_def cluster_gate permitsArgv_def)
next
  case (OpCombined args)
  then show ?thesis
    by (auto simp: grantHandles_def fullHandles_def covered_def clusterCombined_def cluster_gate permitsArgv_def)
next
  case (OpWrite w)
  then show ?thesis by (simp add: grantHandles_def fullHandles_def covered_def writerRun_def)
next
  case (OpGet path field)
  then show ?thesis by (auto simp: grantHandles_def fullHandles_def covered_def secretsGet_def)
next
  case (OpPut path kvs)
  then show ?thesis by (simp add: grantHandles_def fullHandles_def covered_def custodianPut_def)
next
  case (OpBao pod token stdin args)
  then show ?thesis
    by (cases "classifyBao args")
      (auto simp: grantHandles_def fullHandles_def covered_def baoRun_def permitsBao_def)
next
  case (OpForge args)
  then show ?thesis
    by (cases "classifyForge args")
      (auto simp: grantHandles_def fullHandles_def covered_def forgeRun_def permitsForge_def)
next
  case (OpCloud verb url)
  have "\<not> (List.member readMethods m \<and> List.member mutateMethods m)" for m
    by (auto simp: readMethods_def mutateMethods_def)
  with OpCloud show ?thesis
    by (auto simp: grantHandles_def fullHandles_def covered_def cloudDo_def permitsMethod_def Let_def)
qed

text \<open>The grant is the handle: an operation through the handles of a binding makes a call
  exactly when it would make it through handles that refuse nothing for want of a grant, and the
  grants that the kind of the binding leaves it cover what the operation asks for.\<close>

theorem grant_is_the_handle:
  "perform (handlesFor b) op = Inr c \<longleftrightarrow> perform fullHandles op = Inr c \<and> covered (effectiveGrants b) op"
  by (simp add: handlesFor_grants perform_grants)

text \<open>A change asks for a grant that the ceiling restricts.\<close>

lemma mutation_needs_restricted:
  assumes "mutates op" and "perform fullHandles op = Inr c"
  shows "[ClusterWrite] \<in> set (opNeeds op) \<or> [CloudMutate] \<in> set (opNeeds op) \<or> [SecretCustody] \<in> set (opNeeds op)"
  using assms by (cases op) auto

lemma restricted_rows:
  "\<exists>ss. grantStates ClusterWrite = Some ss" "\<exists>ss. grantStates CloudMutate = Some ss"
  "\<exists>ss. grantStates SecretCustody = Some ss"
  by (simp_all add: grantStates_def)


text \<open>What the kind takes away, a well-typed binding did not have.\<close>

lemma typed_effective:
  assumes "binding_typed b"
  shows "effectiveGrants b = (if bKind b = Gate then [] else bGrants b)"
  using assertion_grants_read [OF assms] by (simp add: effectiveGrants_def)

lemma typed_cloudFor:
  assumes "binding_typed b"
  shows "hCloud (handlesFor b) = cloudFor b"
proof (cases "bKind b = Gate")
  case True
  then have "bGrants b = [ReadRepo]" using gate_grants_repo [OF assms] by simp
  with True show ?thesis
    by (simp add: handlesFor_def deniedHandles_def cloudFor_def declares_iff)
next
  case False
  then show ?thesis by (simp add: handlesFor_grants typed_effective [OF assms] made_handles)
qed

text \<open>
  Outside the type system the makers differ: \<open>handlesFor\<close> narrows a misdeclared assertion, while
  \<open>cloudFor\<close>, \<open>kubeFor\<close> and the repository constructors read the grants as declared.
\<close>

definition misdeclared :: binding where
  "misdeclared = \<lparr>bKind = Assertion, bName = [], bState = Verified, bRequires = [],
     bGrants = [CloudMutate, ClusterWrite]\<rparr>"

lemma kind_rule_only_in_For:
  "hCloud (handlesFor misdeclared) = DeniedCloud" "cloudFor misdeclared = LiveCloud False True"
  "hWriter (handlesFor misdeclared) = DeniedWriter" "kubeFor misdeclared = LiveKube True"
  by code_simp+

text \<open>A well-typed binding is wired exactly when it declares the grant.\<close>

lemma mustWriter_typed:
  "binding_typed b \<Longrightarrow> mustWriter b = (if ClusterWrite \<in> set (bGrants b) then Inr LiveWriter else Inl ClusterWrite)"
  using gate_grants_repo [of b]
  by (auto simp: mustWriter_def handlesFor_grants grantHandles_def typed_effective)

subsection \<open>A binding at work\<close>

definition rotateAdmin :: extension where
  "rotateAdmin = \<lparr>eName = ''rotate-admin'', eShort = ''rotates the admin password'', eAlways = False,
     eComponent = [], eBindings =
       [\<lparr>bKind = Transition, bName = [], bState = Seeded, bRequires = Operating,
         bGrants = [ClusterRead, SecretCustody]\<rparr>], eIncomplete = []\<rparr>"

lemma rotateAdmin_checked: "Validate rotateAdmin = []"
  by code_simp

lemma rotateAdmin_puts:
  "perform (handlesFor (hd (eBindings rotateAdmin))) (OpPut ''secret/admin'' []) = Inr (KVPut ''secret/admin'' [])"
  by code_simp


end
