(* ===== verification/Repo_Fence.thy ===== *)
theory Repo_Fence
  imports Extension_Types
begin

text \<open>
  \<open>internal/shared/capability/repo.go\<close> and \<open>repowrite.go\<close>: the fence around a repository tree.
  A path is a string, as in the code; \<open>segs\<close> are the elements of its cleaned form, and
  \<open>clean_path\<close>, \<open>join_path\<close>, \<open>dir_path\<close>, \<open>base_path\<close> and \<open>rel_path\<close> are the operations of
  \<open>path/filepath\<close> (on a Unix, as documented). The file system is a parameter: \<open>fsEval\<close> answers
  \<open>EvalSymlinks\<close>, \<open>fsLink\<close> says whether \<open>Lstat\<close> finds a symbolic link.
\<close>

subsection \<open>\<open>path/filepath\<close>\<close>

definition rooted :: "string \<Rightarrow> bool" where
  "rooted p \<longleftrightarrow> has_prefix p ''/''"

fun cleanLoop :: "bool \<Rightarrow> string list \<Rightarrow> string list \<Rightarrow> string list" where
  "cleanLoop r out [] = rev out"
| "cleanLoop r out (s # ss) =
     (if s = [] \<or> s = ''.'' then cleanLoop r out ss
      else if s = ''..'' then
        (if out \<noteq> [] \<and> hd out \<noteq> ''..'' then cleanLoop r (tl out) ss
         else if r then cleanLoop r out ss
         else cleanLoop r (s # out) ss)
      else cleanLoop r (s # out) ss)"

definition segs :: "string \<Rightarrow> string list" where
  "segs p = cleanLoop (rooted p) [] (split_on CHR ''/'' p)"

definition render :: "bool \<Rightarrow> string list \<Rightarrow> string" where
  "render r ss = (if r then ''/'' @ join ''/'' ss else if ss = [] then ''.'' else join ''/'' ss)"

definition clean_path :: "string \<Rightarrow> string" where
  "clean_path p = render (rooted p) (segs p)"

definition join_path :: "string \<Rightarrow> string \<Rightarrow> string" where
  "join_path a b =
     (if a = [] \<and> b = [] then []
      else if a = [] then clean_path b
      else if b = [] then clean_path a
      else clean_path (a @ ''/'' @ b))"

definition dir_path :: "string \<Rightarrow> string" where
  "dir_path p = clean_path (rev (dropWhile (\<lambda>c. c \<noteq> CHR ''/'') (rev p)))"

definition base_path :: "string \<Rightarrow> string" where
  "base_path p =
     (if p = [] then ''.''
      else let q = trim_right (\<lambda>c. c = CHR ''/'') p in
        if q = [] then ''/'' else rev (takeWhile (\<lambda>c. c \<noteq> CHR ''/'') (rev q)))"

fun relSegs :: "string list \<Rightarrow> string list \<Rightarrow> string list option" where
  "relSegs [] ys = Some ys"
| "relSegs (x # xs) [] = (if x = ''..'' then None else Some (replicate (Suc (length xs)) ''..''))"
| "relSegs (x # xs) (y # ys) =
     (if x = y then relSegs xs ys
      else if x = ''..'' then None
      else Some (replicate (Suc (length xs)) ''..'' @ y # ys))"

definition rel_path :: "string \<Rightarrow> string \<Rightarrow> string option" where
  "rel_path basepath targpath =
     (if rooted basepath \<noteq> rooted targpath then None
      else map_option (render False) (relSegs (segs basepath) (segs targpath)))"

subsection \<open>The reader\<close>

datatype fenceError =
    AbsolutePath string
  | AboveRoot string
  | RootUnresolved string
  | LinkOutside string string
  | ParentOutside string string
  | ParentUnresolved string
  | LinkUnresolved string
  | NoRepoRead string
  | NoRepoWrite string

record fsys =
  fsEval :: "string \<Rightarrow> string option"
  fsLink :: "string \<Rightarrow> bool"

datatype repo = DeniedRepo | LiveRepo string

definition fencePermits :: "string \<Rightarrow> fenceError option" where
  "fencePermits rel =
     (if rooted rel then Some (AbsolutePath rel)
      else let clean = clean_path rel in
        if clean = ''..'' \<or> has_prefix clean ''../'' then Some (AboveRoot rel) else None)"

definition within :: "string \<Rightarrow> string \<Rightarrow> bool" where
  "within root p = (case rel_path root p of
      None \<Rightarrow> False
    | Some rel \<Rightarrow> rel = ''.'' \<or> (\<not> has_prefix rel ''..'' \<and> \<not> rooted rel))"

definition repoPermits :: "repo \<Rightarrow> string \<Rightarrow> fenceError option" where
  "repoPermits h rel = (case h of DeniedRepo \<Rightarrow> Some (NoRepoRead rel) | LiveRepo root \<Rightarrow> fencePermits rel)"

definition repoResolve :: "fsys \<Rightarrow> repo \<Rightarrow> string \<Rightarrow> fenceError + string" where
  "repoResolve fs h rel = (case h of
      DeniedRepo \<Rightarrow> Inl (NoRepoRead rel)
    | LiveRepo root \<Rightarrow> (case fencePermits rel of
        Some e \<Rightarrow> Inl e
      | None \<Rightarrow>
          (let abs = join_path root rel in
           case fsEval fs abs of
             None \<Rightarrow> Inr abs
           | Some real \<Rightarrow> (case fsEval fs root of
               None \<Rightarrow> Inl (RootUnresolved root)
             | Some rootReal \<Rightarrow>
                 if \<not> within rootReal real then Inl (LinkOutside rel real) else Inr real))))"

text \<open>\<open>ReadFile\<close> and \<open>Stat\<close> ask the file system for the resolved path; \<open>ReadDir\<close> drops the entries
  that resolve outside the tree (\<open>WalkDir\<close> skips the same ones, \<open>walkSkips\<close>).\<close>

definition repoReadFile :: "fsys \<Rightarrow> repo \<Rightarrow> (string \<Rightarrow> 'a) \<Rightarrow> string \<Rightarrow> fenceError + 'a" where
  "repoReadFile fs h readAt rel = (case repoResolve fs h rel of Inl e \<Rightarrow> Inl e | Inr p \<Rightarrow> Inr (readAt p))"

definition escapes :: "fsys \<Rightarrow> string \<Rightarrow> string \<Rightarrow> bool" where
  "escapes fs rootReal p = (case fsEval fs p of None \<Rightarrow> False | Some real \<Rightarrow> \<not> within rootReal real)"

definition repoReadDir :: "fsys \<Rightarrow> repo \<Rightarrow> (string \<Rightarrow> string list) \<Rightarrow> string \<Rightarrow> fenceError + string list" where
  "repoReadDir fs h list rel = (case repoResolve fs h rel of
      Inl e \<Rightarrow> Inl e
    | Inr p \<Rightarrow>
        (let entries = list p; root = (case h of LiveRepo r \<Rightarrow> r | DeniedRepo \<Rightarrow> []) in
         case fsEval fs root of
           None \<Rightarrow> Inl (RootUnresolved root)
         | Some rootReal \<Rightarrow> Inr (filter (\<lambda>e. \<not> escapes fs rootReal (join_path p e)) entries)))"

definition walkSkips :: "fsys \<Rightarrow> string \<Rightarrow> string \<Rightarrow> bool" where
  "walkSkips fs rootReal p \<longleftrightarrow> escapes fs rootReal p"

definition unresolve :: "string \<Rightarrow> string \<Rightarrow> string \<Rightarrow> string" where
  "unresolve base start p = (case rel_path start p of None \<Rightarrow> p | Some rest \<Rightarrow> join_path base rest)"

definition repoAt :: "binding \<Rightarrow> string \<Rightarrow> repo" where
  "repoAt b root =
     (if list_ex (\<lambda>g. g = ReadRepo \<or> g = WriteRepo) (bGrants b) then LiveRepo root else DeniedRepo)"

text \<open>The fence of a caller whose flag names trees to scan: at the longest ascent of them.\<close>

definition ascentOf :: "string \<Rightarrow> string" where
  "ascentOf p =
     (let n = length (takeWhile (\<lambda>s. s = ''..'') (split_on CHR ''/'' (clean_path p))) in
      if n = 0 then ''.''
      else clean_path (join ''/'' (take n (split_on CHR ''/'' (clean_path p)))))"

fun longestAscent :: "string \<Rightarrow> string list \<Rightarrow> string" where
  "longestAscent root [] = root"
| "longestAscent root (d # ds) =
     longestAscent (if length (ascentOf d) > length root then ascentOf d else root) ds"

definition relTo_root :: "string \<Rightarrow> string \<Rightarrow> string" where
  "relTo_root root d = (case rel_path root (clean_path d) of None \<Rightarrow> d | Some rel \<Rightarrow> rel)"

definition repoContainingAll :: "binding \<Rightarrow> string list \<Rightarrow> repo \<times> string list" where
  "repoContainingAll b dirs =
     (if dirs = [] then (repoAt b ''.'', [])
      else if rooted (clean_path (hd dirs)) then
        (let clean = clean_path (hd dirs) in (repoAt b (dir_path clean), [base_path clean]))
      else let root = longestAscent ''.'' dirs in (repoAt b root, map (relTo_root root) dirs))"

definition repoContaining :: "binding \<Rightarrow> string \<Rightarrow> repo \<times> string" where
  "repoContaining b dir = (case repoContainingAll b [dir] of (r, dirs) \<Rightarrow> (r, hd dirs))"

definition repoForGate :: "extension \<Rightarrow> string \<Rightarrow> string + repo" where   \<comment> \<open>\<open>Inl\<close> is the panic\<close>
  "repoForGate e root = (case find (\<lambda>b. bKind b = Gate) (eBindings e) of
      Some b \<Rightarrow> Inr (repoAt b root)
    | None \<Rightarrow> Inl (eName e))"

subsection \<open>The writer\<close>

datatype repoWriter = DeniedRepoWriter | LiveRepoWriter string

partial_function (option) deepestExisting :: "fsys \<Rightarrow> string \<Rightarrow> string option option" where
  "deepestExisting fs p = (case fsEval fs p of
      Some real \<Rightarrow> Some (Some real)
    | None \<Rightarrow> if dir_path p = p then Some None else deepestExisting fs (dir_path p))"

definition resolveForWrite :: "fsys \<Rightarrow> string \<Rightarrow> string \<Rightarrow> bool \<Rightarrow> (fenceError + string) option" where
  "resolveForWrite fs root rel follows = (case fencePermits rel of
      Some e \<Rightarrow> Some (Inl e)
    | None \<Rightarrow>
        (let abs = join_path root rel in
         case fsEval fs root of
           None \<Rightarrow> Some (Inl (RootUnresolved root))
         | Some rootReal \<Rightarrow> (case deepestExisting fs (dir_path abs) of
             None \<Rightarrow> None
           | Some None \<Rightarrow> Some (Inl (ParentUnresolved rel))
           | Some (Some anchor) \<Rightarrow>
               if \<not> within rootReal anchor then Some (Inl (ParentOutside rel anchor))
               else if follows \<and> fsLink fs abs then
                 (case fsEval fs abs of
                    None \<Rightarrow> Some (Inl (LinkUnresolved rel))
                  | Some real \<Rightarrow>
                      if \<not> within rootReal real then Some (Inl (LinkOutside rel real)) else Some (Inr abs))
               else Some (Inr abs))))"

text \<open>\<open>WriteFile\<close> and \<open>MkdirAll\<close> follow a link at the target, \<open>RemoveAll\<close> unlinks it.\<close>

definition followsLeaf :: bool where "followsLeaf = True"

definition unlinksLeaf :: bool where "unlinksLeaf = False"

definition writeFile :: "fsys \<Rightarrow> repoWriter \<Rightarrow> string \<Rightarrow> (fenceError + string) option" where
  "writeFile fs w rel = (case w of
      DeniedRepoWriter \<Rightarrow> Some (Inl (NoRepoWrite rel))
    | LiveRepoWriter root \<Rightarrow> resolveForWrite fs root rel followsLeaf)"

definition mkdirAll :: "fsys \<Rightarrow> repoWriter \<Rightarrow> string \<Rightarrow> (fenceError + string) option" where
  "mkdirAll fs w rel = (case w of
      DeniedRepoWriter \<Rightarrow> Some (Inl (NoRepoWrite rel))
    | LiveRepoWriter root \<Rightarrow> resolveForWrite fs root rel followsLeaf)"

definition removeAll_in :: "fsys \<Rightarrow> repoWriter \<Rightarrow> string \<Rightarrow> (fenceError + string) option" where
  "removeAll_in fs w rel = (case w of
      DeniedRepoWriter \<Rightarrow> Some (Inl (NoRepoWrite rel))
    | LiveRepoWriter root \<Rightarrow> resolveForWrite fs root rel unlinksLeaf)"

definition repoWriterAt :: "binding \<Rightarrow> string \<Rightarrow> repoWriter" where
  "repoWriterAt b root =
     (if list_ex (\<lambda>g. g = WriteRepo) (bGrants b) then LiveRepoWriter root else DeniedRepoWriter)"

definition repoContainingWriter :: "binding \<Rightarrow> string \<Rightarrow> repoWriter \<times> string" where
  "repoContainingWriter b path = (case repoContainingAll b [path] of
      (DeniedRepo, rels) \<Rightarrow> (DeniedRepoWriter, hd rels)
    | (LiveRepo root, rels) \<Rightarrow> (repoWriterAt b root, hd rels))"

subsection \<open>Cleaned paths\<close>

text \<open>A cleaned path: the ascent first (none when the path is rooted), then plain names.\<close>

definition plain :: "string \<Rightarrow> bool" where
  "plain s \<longleftrightarrow> s \<noteq> [] \<and> s \<noteq> ''.'' \<and> s \<noteq> ''..'' \<and> CHR ''/'' \<notin> set s"

definition normal :: "bool \<Rightarrow> string list \<Rightarrow> bool" where
  "normal r ss \<longleftrightarrow> (\<exists>k ns. ss = replicate k ''..'' @ ns \<and> (r \<longrightarrow> k = 0) \<and> (\<forall>n \<in> set ns. plain n))"

lemma normal_Nil [simp]: "normal r []"
  unfolding normal_def by (intro exI [of _ 0] exI [of _ "[]"]) simp

lemma normal_snoc: "normal r ss \<Longrightarrow> plain s \<Longrightarrow> normal r (ss @ [s])"
  unfolding normal_def by (elim exE) (rule exI, rule exI [of _ "_ @ [s]"], auto)

lemma normal_ascent: "normal False ss \<Longrightarrow> set ss \<subseteq> {''..''} \<Longrightarrow> normal False (ss @ [''..''])"
proof -
  assume "normal False ss" "set ss \<subseteq> {''..''}"
  then have "ss = replicate (length ss) ''..''" by (intro replicate_eqI) auto
  then have "ss @ [''..''] = replicate (Suc (length ss)) ''..'' @ []"
    by (metis append_Nil2 replicate_append_same replicate_Suc)
  then show ?thesis unfolding normal_def by (metis empty_iff list.set(1))
qed

lemma snoc_replicate: "ss @ [s] = replicate k a \<Longrightarrow> k \<noteq> 0 \<and> s = a \<and> ss = replicate (k - 1) a"
proof -
  assume a: "ss @ [s] = replicate k a"
  have "set (replicate k a) \<subseteq> {a}" by auto
  with a have sub: "set (ss @ [s]) \<subseteq> {a}" by simp
  have len: "Suc (length ss) = k" using arg_cong [OF a, of length] by simp
  from sub have "ss = replicate (length ss) a" by (intro replicate_eqI) auto
  with len sub show ?thesis by auto
qed

lemma normal_butlast: "normal r (ss @ [s]) \<Longrightarrow> normal r ss"
proof -
  assume "normal r (ss @ [s])"
  then obtain k ns where k: "ss @ [s] = replicate k ''..'' @ ns" "r \<longrightarrow> k = 0" "\<forall>n \<in> set ns. plain n"
    by (auto simp: normal_def)
  show ?thesis
  proof (cases ns rule: rev_cases)
    case Nil
    with k(1) have "ss = replicate (k - 1) ''..'' @ []"
      using snoc_replicate by fastforce
    then show ?thesis using k(2) unfolding normal_def by (metis diff_0_eq_0 empty_iff list.set(1))
  next
    case (snoc ns' n)
    with k show ?thesis unfolding normal_def by (auto intro!: exI [of _ k] exI [of _ ns'])
  qed
qed

lemma normal_last: "normal r (ss @ [s]) \<Longrightarrow> plain s \<or> s = ''..'' \<and> \<not> r \<and> set ss \<subseteq> {''..''}"
proof -
  assume "normal r (ss @ [s])"
  then obtain k ns where k: "ss @ [s] = replicate k ''..'' @ ns" "r \<longrightarrow> k = 0" "\<forall>n \<in> set ns. plain n"
    by (auto simp: normal_def)
  show ?thesis
  proof (cases ns rule: rev_cases)
    case Nil
    with k(1) have "ss @ [s] = replicate k ''..''" by simp
    with k(2) show ?thesis by (auto dest!: snoc_replicate)
  qed (use k in auto)
qed

text \<open>One step of the loop, by the element.\<close>

definition may_pop :: "string list \<Rightarrow> bool" where
  "may_pop out \<longleftrightarrow> out \<noteq> [] \<and> hd out \<noteq> ''..''"

lemma clean_steps:
  "cleanLoop r out ([] # ss) = cleanLoop r out ss"
  "cleanLoop r out (''.'' # ss) = cleanLoop r out ss"
  "plain s \<Longrightarrow> cleanLoop r out (s # ss) = cleanLoop r (s # out) ss"
  "may_pop out \<Longrightarrow> cleanLoop r out (''..'' # ss) = cleanLoop r (tl out) ss"
  "\<not> may_pop out \<Longrightarrow> cleanLoop True out (''..'' # ss) = cleanLoop True out ss"
  "\<not> may_pop out \<Longrightarrow> cleanLoop False out (''..'' # ss) = cleanLoop False (''..'' # out) ss"
  by (simp_all add: plain_def may_pop_def) blast+

lemma clean_cases [consumes 1, case_names empty dot name pop top up]:
  assumes "CHR ''/'' \<notin> set s"
  obtains "s = []" | "s = ''.''" | "plain s" | "s = ''..''" "may_pop out"
    | "s = ''..''" "\<not> may_pop out" r | "s = ''..''" "\<not> may_pop out" "\<not> r"
  using assms by (auto simp: plain_def)

lemma may_pop_plain: "set out \<subseteq> {''..''} \<Longrightarrow> \<not> may_pop out" "plain o1 \<Longrightarrow> may_pop (o1 # os)"
  by (cases out) (auto simp: may_pop_def plain_def)

declare cleanLoop.simps(2) [simp del]

lemma normal_stack: "normal r (rev out) \<Longrightarrow> \<not> may_pop out \<Longrightarrow> set out \<subseteq> {''..''}"
proof (cases out)
  case (Cons o1 os)
  assume "normal r (rev out)" "\<not> may_pop out"
  with Cons show ?thesis using normal_last [of r "rev os" o1] by (auto simp: may_pop_def plain_def)
qed simp

lemma cleanLoop_normal:
  "normal r (rev out) \<Longrightarrow> \<forall>s \<in> set ss. CHR ''/'' \<notin> set s \<Longrightarrow> normal r (cleanLoop r out ss)"
proof (induction ss arbitrary: out)
  case (Cons s ss)
  have free: "\<forall>t \<in> set ss. CHR ''/'' \<notin> set t" and "CHR ''/'' \<notin> set s" using Cons.prems(2) by auto
  note IH = Cons.IH [OF _ free]
  from \<open>CHR ''/'' \<notin> set s\<close> show ?case
  proof (cases rule: clean_cases [of s _ out r])
    case empty
    with IH Cons.prems(1) show ?thesis by (simp add: clean_steps)
  next
    case dot
    with IH Cons.prems(1) show ?thesis by (simp add: clean_steps)
  next
    case name
    then have "normal r (rev (s # out))" using normal_snoc Cons.prems(1) by simp
    with name IH show ?thesis by (simp add: clean_steps)
  next
    case pop
    then obtain o1 os where out: "out = o1 # os" by (cases out) (auto simp: may_pop_def)
    have "normal r (rev os)" using Cons.prems(1) normal_butlast by (simp add: out)
    with pop IH show ?thesis by (simp add: clean_steps out)
  next
    case top
    with IH Cons.prems(1) show ?thesis by (simp add: clean_steps)
  next
    case up
    then have "normal r (rev (s # out))"
      using normal_ascent normal_stack [OF Cons.prems(1)] Cons.prems(1) by simp
    with up IH show ?thesis by (simp add: clean_steps)
  qed
qed simp

lemma segs_normal: "normal (rooted p) (segs p)"
  unfolding segs_def by (rule cleanLoop_normal) (simp_all add: split_on_piece_free)

lemma cleanLoop_plain: "\<forall>n \<in> set ns. plain n \<Longrightarrow> cleanLoop r out ns = rev out @ ns"
  by (induction ns arbitrary: out) (simp_all add: clean_steps)

lemma cleanLoop_ascent:
  "set out \<subseteq> {''..''} \<Longrightarrow> cleanLoop False out (replicate k ''..'' @ ns) = cleanLoop False (replicate k ''..'' @ out) ns"
proof (induction k arbitrary: out)
  case (Suc k)
  have "cleanLoop False out (replicate (Suc k) ''..'' @ ns) = cleanLoop False (''..'' # out) (replicate k ''..'' @ ns)"
    using clean_steps(6) may_pop_plain(1) [OF Suc.prems] by simp
  also have "\<dots> = cleanLoop False (replicate k ''..'' @ ''..'' # out) ns"
    using Suc.prems by (intro Suc.IH) simp
  finally show ?case by (simp add: replicate_app_Cons_same)
qed simp

lemma cleanLoop_id: "normal r ss \<Longrightarrow> cleanLoop r [] ss = ss"
proof -
  assume "normal r ss"
  then obtain k ns where k: "ss = replicate k ''..'' @ ns" "r \<longrightarrow> k = 0" "\<forall>n \<in> set ns. plain n"
    by (auto simp: normal_def)
  show ?thesis
  proof (cases k)
    case 0
    with k show ?thesis by (simp add: cleanLoop_plain)
  next
    case (Suc m)
    with k have "\<not> r" by simp
    with k show ?thesis using cleanLoop_ascent [of "[]" k ns] by (simp add: cleanLoop_plain)
  qed
qed

lemma cleanLoop_append: "cleanLoop r out (xs @ ys) = cleanLoop r (rev (cleanLoop r out xs)) ys"
proof (induction r out xs rule: cleanLoop.induct)
  case (2 r out s ss)
  show ?case
    unfolding append_Cons cleanLoop.simps(2) [of r out s]
    using "2.IH" by (cases "s = [] \<or> s = ''.''"; cases "s = ''..''"; cases "out \<noteq> [] \<and> hd out \<noteq> ''..''"; cases r)
      (simp_all only: if_True if_False simp_thms)
qed simp

lemma split_join: "ss \<noteq> [] \<Longrightarrow> \<forall>s \<in> set ss. c \<notin> set s \<Longrightarrow> split_on c (join [c] ss) = ss"
proof (induction ss)
  case (Cons s ss)
  show ?case
  proof (cases "ss = []")
    case True
    with Cons show ?thesis by (simp add: split_on_free)
  next
    case False
    with Cons show ?thesis by (simp add: join_Cons split_on_append_sep)
  qed
qed simp

lemma normal_slash_free: "normal r ss \<Longrightarrow> \<forall>s \<in> set ss. s \<noteq> [] \<and> CHR ''/'' \<notin> set s"
proof -
  assume "normal r ss"
  then obtain k ns where k: "ss = replicate k ''..'' @ ns" "\<forall>n \<in> set ns. plain n"
    by (auto simp: normal_def)
  have "\<forall>s \<in> set (replicate k ''..''). s \<noteq> [] \<and> CHR ''/'' \<notin> set s" by simp
  moreover have "\<forall>s \<in> set ns. s \<noteq> [] \<and> CHR ''/'' \<notin> set s" using k(2) by (simp add: plain_def)
  ultimately show ?thesis unfolding k(1) set_append by blast
qed

lemma rooted_render: "normal r ss \<Longrightarrow> rooted (render r ss) = r"
proof -
  assume n: "normal r ss"
  show ?thesis
  proof (cases r)
    case True
    then show ?thesis by (simp add: rooted_def render_def has_prefix_def)
  next
    case False
    show ?thesis
    proof (cases ss)
      case Nil
      with False show ?thesis by (simp add: rooted_def render_def has_prefix_def)
    next
      case (Cons s ss')
      then obtain c s' where s: "s = c # s'" "c \<noteq> CHR ''/''"
        using normal_slash_free [OF n] by (cases s) auto
      then have "\<exists>t. join ''/'' ss = c # t" using Cons by (cases ss') auto
      with False Cons s show ?thesis by (auto simp: rooted_def render_def has_prefix_def)
    qed
  qed
qed

lemma segs_render: "normal r ss \<Longrightarrow> segs (render r ss) = ss"
proof -
  assume n: "normal r ss"
  have "cleanLoop r [] (split_on CHR ''/'' (render r ss)) = cleanLoop r [] ss"
  proof (cases "ss = []")
    case True
    then show ?thesis by (simp add: render_def clean_steps)
  next
    case False
    then have "split_on CHR ''/'' (join ''/'' ss) = ss"
      using normal_slash_free [OF n] by (intro split_join) auto
    with False show ?thesis by (simp add: render_def clean_steps)
  qed
  then show ?thesis using rooted_render [OF n] cleanLoop_id [OF n] by (simp add: segs_def)
qed

lemma clean_path_facts [simp]: "segs (clean_path p) = segs p" "rooted (clean_path p) = rooted p"
  using segs_render rooted_render segs_normal by (simp_all add: clean_path_def)

lemma clean_path_idem [simp]: "clean_path (clean_path p) = clean_path p"
  by (simp add: clean_path_def [of "clean_path p"]) (simp add: clean_path_def)

lemma clean_path_eq_iff: "clean_path p = clean_path q \<longleftrightarrow> rooted p = rooted q \<and> segs p = segs q"
proof
  assume "clean_path p = clean_path q"
  then have "segs (clean_path p) = segs (clean_path q)" "rooted (clean_path p) = rooted (clean_path q)" by simp_all
  then show "rooted p = rooted q \<and> segs p = segs q" by simp
qed (simp add: clean_path_def)

lemma split_on_sep_append: "split_on c (a @ c # b) = split_on c a @ split_on c b"
  by (induction a) (auto split: list.splits)

lemma join_path_facts:
  assumes "a \<noteq> []"
  shows "rooted (join_path a b) = rooted a"
    and "segs (join_path a b) = cleanLoop (rooted a) (rev (segs a)) (split_on CHR ''/'' b)"
proof -
  have r: "rooted (a @ ''/'' @ b) = rooted a" using assms by (cases a) (auto simp: rooted_def has_prefix_def)
  show "rooted (join_path a b) = rooted a"
    using assms r by (simp add: join_path_def)
  show "segs (join_path a b) = cleanLoop (rooted a) (rev (segs a)) (split_on CHR ''/'' b)"
  proof (cases "b = []")
    case True
    with assms show ?thesis by (simp add: join_path_def clean_steps)
  next
    case False
    then have "segs (join_path a b) = segs (a @ ''/'' @ b)" using assms by (simp add: join_path_def)
    also have "\<dots> = cleanLoop (rooted a) (rev (segs a)) (split_on CHR ''/'' b)"
      unfolding segs_def [of "a @ ''/'' @ b"] r by (simp add: split_on_sep_append cleanLoop_append segs_def)
    finally show ?thesis .
  qed
qed

subsection \<open>The lexical fence\<close>

lemma render_ascends:
  assumes "normal False ss"
  shows "render False ss = ''..'' \<or> has_prefix (render False ss) ''../'' \<longleftrightarrow> ''..'' \<in> set ss"
proof (cases ss)
  case (Cons s ss')
  have s: "CHR ''/'' \<notin> set s" using normal_slash_free [OF assms] Cons by auto
  have head: "''..'' \<in> set ss \<longleftrightarrow> s = ''..''"
  proof
    obtain k ns where k: "ss = replicate k ''..'' @ ns" "\<forall>n \<in> set ns. plain n"
      using assms by (auto simp: normal_def)
    assume "''..'' \<in> set ss"
    moreover have "''..'' \<notin> set ns" using k(2) by (auto simp: plain_def)
    ultimately have "k \<noteq> 0" using k(1) by auto
    then show "s = ''..''" using k(1) Cons by (cases k) auto
  qed (simp add: Cons)
  show ?thesis
  proof (cases "ss' = []")
    case True
    have "\<not> has_prefix s ''../''" using s by (auto simp: has_prefix_iff)
    with True Cons head show ?thesis by (simp add: render_def)
  next
    case False
    then have r: "render False ss = s @ CHR ''/'' # join ''/'' ss'" using Cons by (simp add: render_def join_Cons)
    have "s @ CHR ''/'' # t = ''..'' @ CHR ''/'' # u \<longleftrightarrow> s = ''..'' \<and> t = u" for t u
      using key_ends [of "CHR ''/''" s "''..''"] s by auto
    then have "has_prefix (render False ss) ''../'' \<longleftrightarrow> s = ''..''" unfolding r by (auto simp: has_prefix_iff)
    moreover have "render False ss \<noteq> ''..''"
      unfolding r by (auto dest: arg_cong [where f = set])
    ultimately show ?thesis using head by simp
  qed
qed (simp add: render_def has_prefix_def)

lemma fencePermits_iff: "fencePermits rel = None \<longleftrightarrow> \<not> rooted rel \<and> ''..'' \<notin> set (segs rel)"
proof (cases "rooted rel")
  case False
  then have "normal False (segs rel)" using segs_normal [of rel] by simp
  with False show ?thesis
    using render_ascends by (simp add: fencePermits_def clean_path_def Let_def)
qed (simp add: fencePermits_def)

lemma ascent_stays: "''..'' \<in> set out \<Longrightarrow> normal False (rev out) \<Longrightarrow> \<forall>s \<in> set ss. CHR ''/'' \<notin> set s \<Longrightarrow>
  ''..'' \<in> set (cleanLoop False out ss)"
proof (induction ss arbitrary: out)
  case (Cons s ss)
  have free: "\<forall>t \<in> set ss. CHR ''/'' \<notin> set t" and "CHR ''/'' \<notin> set s" using Cons.prems(3) by auto
  note IH = Cons.IH [OF _ _ free]
  from \<open>CHR ''/'' \<notin> set s\<close> show ?case
  proof (cases rule: clean_cases [of s _ out False])
    case empty
    with IH Cons.prems show ?thesis by (simp add: clean_steps)
  next
    case dot
    with IH Cons.prems show ?thesis by (simp add: clean_steps)
  next
    case name
    then have "normal False (rev (s # out))" using normal_snoc Cons.prems(2) by simp
    with name IH Cons.prems show ?thesis by (simp add: clean_steps)
  next
    case pop
    then obtain o1 os where out: "out = o1 # os" "o1 \<noteq> ''..''" by (cases out) (auto simp: may_pop_def)
    have "normal False (rev os)" using Cons.prems(2) normal_butlast by (simp add: out)
    moreover have "''..'' \<in> set os" using Cons.prems(1) out by auto
    ultimately show ?thesis using pop IH [of os] by (simp add: clean_steps out(1))
  next
    case up
    have "normal False (rev (s # out))"
      using normal_ascent normal_stack [OF Cons.prems(2)] Cons.prems(2) up by simp
    then show ?thesis using up IH [of "s # out"] Cons.prems by (simp add: clean_steps)
  qed simp
qed simp

text \<open>A path that does not climb, walked from any directory, ends beneath it.\<close>

lemma cleanLoop_beneath:
  "\<forall>n \<in> set out. plain n \<Longrightarrow> \<forall>s \<in> set ss. CHR ''/'' \<notin> set s \<Longrightarrow> ''..'' \<notin> set (cleanLoop False out ss) \<Longrightarrow>
     cleanLoop r (out @ base) ss = rev base @ cleanLoop False out ss"
proof (induction ss arbitrary: out)
  case (Cons s ss)
  have free: "\<forall>t \<in> set ss. CHR ''/'' \<notin> set t" and "CHR ''/'' \<notin> set s" using Cons.prems(2) by auto
  note IH = Cons.IH [OF _ free]
  from \<open>CHR ''/'' \<notin> set s\<close> show ?case
  proof (cases rule: clean_cases [of s _ out False])
    case empty
    with IH Cons.prems show ?thesis by (simp add: clean_steps)
  next
    case dot
    with IH Cons.prems show ?thesis by (simp add: clean_steps)
  next
    case name
    with IH [of "s # out"] Cons.prems show ?thesis by (simp add: clean_steps)
  next
    case pop
    then obtain o1 os where out: "out = o1 # os" by (cases out) (auto simp: may_pop_def)
    moreover have "may_pop (out @ base)" using pop(2) out by (simp add: may_pop_def)
    ultimately show ?thesis using pop IH [of os] Cons.prems by (simp add: clean_steps)
  next
    case up
    have out: "out = []"
    proof (cases out)
      case (Cons o1 os)
      then show ?thesis using up(2) Cons.prems(1) may_pop_plain(2) [of o1 os] by simp
    qed
    have "normal False (rev [''..''])" using normal_ascent [of "[]"] by simp
    then have "''..'' \<in> set (cleanLoop False [''..''] ss)" using free by (intro ascent_stays) simp_all
    with Cons.prems(3) up out show ?thesis by (simp add: clean_steps)
  qed simp
qed simp

lemma fence_join:
  assumes "fencePermits rel = None" and "root \<noteq> []"
  shows "segs (join_path root rel) = segs root @ segs rel" "rooted (join_path root rel) = rooted root"
proof -
  have r: "\<not> rooted rel" "''..'' \<notin> set (segs rel)" using assms(1) by (simp_all add: fencePermits_iff)
  then have s: "segs rel = cleanLoop False [] (split_on CHR ''/'' rel)" by (simp add: segs_def)
  have "cleanLoop (rooted root) ([] @ rev (segs root)) (split_on CHR ''/'' rel)
      = rev (rev (segs root)) @ cleanLoop False [] (split_on CHR ''/'' rel)"
    using r s by (intro cleanLoop_beneath) (auto simp: split_on_piece_free)
  then show "segs (join_path root rel) = segs root @ segs rel"
    using assms(2) s by (simp add: join_path_facts)
qed (simp add: assms(2) join_path_facts)

subsection \<open>\<open>within\<close>\<close>

lemma relSegs_prefix: "relSegs xs (xs @ ys) = Some ys"
  by (induction xs) auto

lemma relSegs_down: "relSegs xs ys = Some zs \<Longrightarrow> (zs = [] \<or> hd zs \<noteq> ''..'') \<Longrightarrow> ys = xs @ zs"
  by (induction xs ys rule: relSegs.induct) (auto split: if_splits)

lemma render_False_Nil: "render False ss = ''.'' \<longleftrightarrow> ss = []" if "normal False ss"
proof
  assume "render False ss = ''.''"
  then have "segs (render False ss) = []" by (simp add: segs_def clean_steps)
  with segs_render [OF that] show "ss = []" by simp
qed (simp add: render_def)

lemma normal_drop: "normal r (xs @ ys) \<Longrightarrow> normal r ys"
proof (induction ys rule: rev_induct)
  case (snoc y ys)
  then have "normal r ys" using normal_butlast [of r "xs @ ys" y] by simp
  moreover from normal_last [of r "xs @ ys" y] snoc.prems
  have "plain y \<or> y = ''..'' \<and> \<not> r \<and> set ys \<subseteq> {''..''}" by auto
  ultimately show ?case using normal_snoc normal_ascent by (cases r) auto
qed simp

lemma normal_climb: "normal False ys \<Longrightarrow> normal False (replicate k ''..'' @ ys)"
proof -
  assume "normal False ys"
  then obtain j ns where "ys = replicate j ''..'' @ ns" "\<forall>n \<in> set ns. plain n" by (auto simp: normal_def)
  then show ?thesis
    unfolding normal_def by (intro exI [of _ "k + j"] exI [of _ ns]) (simp add: replicate_add)
qed

lemma relSegs_normal: "relSegs xs ys = Some zs \<Longrightarrow> normal r ys \<Longrightarrow> normal False zs"
proof (induction xs ys rule: relSegs.induct)
  case (1 ys)
  then show ?case by (auto simp: normal_def)
next
  case (2 x xs)
  then have "zs = replicate (Suc (length xs)) ''..'' @ []" by (auto split: if_splits)
  then show ?case using normal_climb [OF normal_Nil, of "Suc (length xs)"] by simp
next
  case (3 x xs y ys)
  show ?case
  proof (cases "x = y")
    case True
    moreover have "normal r ys" using normal_drop [of r "[y]" ys] "3.prems"(2) by simp
    ultimately show ?thesis using 3 by simp
  next
    case False
    then have "zs = replicate (Suc (length xs)) ''..'' @ y # ys" using "3.prems"(1) by (auto split: if_splits)
    moreover have "normal False (y # ys)" using "3.prems"(2) by (auto simp: normal_def)
    ultimately show ?thesis using normal_climb [of "y # ys" "Suc (length xs)"] by simp
  qed
qed

lemma render_head: "zs \<noteq> [] \<Longrightarrow> \<exists>t. render False zs = hd zs @ t \<and> (t = [] \<or> hd t = CHR ''/'')"
  by (cases zs; cases "tl zs") (auto simp: render_def)

lemma render_dots:
  assumes "normal False zs" and "zs \<noteq> []"
  shows "has_prefix (render False zs) ''..'' \<longleftrightarrow> has_prefix (hd zs) ''..''"
proof -
  obtain t where t: "render False zs = hd zs @ t" "t = [] \<or> hd t = CHR ''/''" using render_head assms(2) by blast
  have "hd zs \<noteq> []" using normal_slash_free [OF assms(1)] assms(2) by (cases zs) auto
  then obtain a as where h: "hd zs = a # as" by (cases "hd zs") auto
  show ?thesis
  proof (cases as)
    case Nil
    then show ?thesis using t h by (cases t) (auto simp: has_prefix_def)
  qed (use t h in \<open>auto simp: has_prefix_def\<close>)
qed

text \<open>
  What \<open>within\<close> decides: the elements of the root come first, and the name after them does not
  begin with two dots. The first part is containment; the second also turns away an entry of the
  root itself named like \<open>..data\<close>.
\<close>

lemma within_iff:
  "within root p \<longleftrightarrow> rooted p = rooted root
     \<and> (\<exists>s. segs p = segs root @ s \<and> (s = [] \<or> \<not> has_prefix (hd s) ''..''))"
proof
  assume w: "within root p"
  then obtain zs where r: "rooted root = rooted p" and z: "relSegs (segs root) (segs p) = Some zs"
    and rel: "render False zs = ''.'' \<or> \<not> has_prefix (render False zs) ''..''"
    by (auto simp: within_def rel_path_def split: option.splits if_splits)
  have n: "normal False zs" using relSegs_normal [OF z segs_normal] .
  have "zs = [] \<or> \<not> has_prefix (hd zs) ''..''"
    using rel render_False_Nil [OF n] render_dots [OF n] by blast
  moreover have "hd zs \<noteq> ''..''" if "\<not> has_prefix (hd zs) ''..''" using that by (auto simp: has_prefix_def)
  ultimately show "rooted p = rooted root \<and> (\<exists>s. segs p = segs root @ s \<and> (s = [] \<or> \<not> has_prefix (hd s) ''..''))"
    using relSegs_down [OF z] r by auto
next
  assume "rooted p = rooted root \<and> (\<exists>s. segs p = segs root @ s \<and> (s = [] \<or> \<not> has_prefix (hd s) ''..''))"
  then obtain s where r: "rooted p = rooted root" and p: "segs p = segs root @ s" and
    s: "s = [] \<or> \<not> has_prefix (hd s) ''..''" by blast
  have z: "relSegs (segs root) (segs p) = Some s" by (simp add: p relSegs_prefix)
  have n: "normal False s" using relSegs_normal [OF z segs_normal] .
  have "render False s = ''.'' \<or> \<not> has_prefix (render False s) ''..''"
    using s render_False_Nil [OF n] render_dots [OF n] by blast
  then show "within root p"
    using r z rooted_render [OF n] by (auto simp: within_def rel_path_def)
qed

lemma dotted_name_refused:
  "within ''/repo'' ''/repo/..data/app.yaml'' = False"
  "fencePermits ''..data/app.yaml'' = None"
  by code_simp+


definition demoFs :: fsys where
  "demoFs = \<lparr>fsEval = (\<lambda>p. if p = ''/repo'' then Some ''/srv/repo''
       else if p = ''/repo/current/x'' then Some ''/srv/repo/releases/7/x'' else None),
     fsLink = (\<lambda>p. p = ''/repo/current/x'')\<rparr>"


subsection \<open>Writing\<close>

lemma render_snoc:
  "normal r (ss @ [s]) \<Longrightarrow> render r (ss @ [s]) = (if ss = [] then (if r then ''/'' else []) else render r ss @ ''/'') @ s"
proof (induction ss)
  case (Cons a ss)
  have "join ''/'' (xs @ [s]) = join ''/'' xs @ ''/'' @ s" if "xs \<noteq> []" for xs :: "string list"
    using that
  proof (induction xs)
    case (Cons x xs)
    then show ?case by (cases "xs = []") (simp_all add: join_Cons)
  qed simp
  from this [of "a # ss"] show ?case by (simp add: render_def)
qed (simp add: render_def)

lemma upto_slash: "CHR ''/'' \<notin> set s \<Longrightarrow> rev (dropWhile (\<lambda>c. c \<noteq> CHR ''/'') (rev (a @ CHR ''/'' # s))) = a @ ''/''"
proof -
  assume "CHR ''/'' \<notin> set s"
  then have "dropWhile (\<lambda>c. c \<noteq> CHR ''/'') (rev s @ CHR ''/'' # rev a) = CHR ''/'' # rev a"
    by (subst dropWhile_append2) auto
  then show ?thesis by simp
qed

lemma segs_slash: "a \<noteq> [] \<Longrightarrow> segs (a @ ''/'') = segs a \<and> rooted (a @ ''/'') = rooted a"
proof -
  assume "a \<noteq> []"
  then have "rooted (a @ ''/'') = rooted a" by (cases a) (auto simp: rooted_def has_prefix_def)
  then show ?thesis
    using split_on_sep_append [of "CHR ''/''" a "[]"] by (simp add: segs_def cleanLoop_append clean_steps)
qed

lemma render_not_Nil: "normal r ss \<Longrightarrow> render r ss \<noteq> []"
proof -
  assume "normal r ss"
  then show ?thesis using normal_slash_free by (cases ss; cases "tl ss") (auto simp: render_def)
qed

lemma dir_render: "normal r (ss @ [s]) \<Longrightarrow> dir_path (render r (ss @ [s])) = render r ss"
proof -
  assume n: "normal r (ss @ [s])"
  have free: "CHR ''/'' \<notin> set s" using normal_slash_free [OF n] by simp
  have n': "normal r ss" using normal_butlast [OF n] .
  show ?thesis
  proof (cases "ss = [] \<and> \<not> r")
    case True
    have none: "dropWhile (\<lambda>c. c \<noteq> CHR ''/'') (rev s) = []" using free by auto
    have whole: "render r (ss @ [s]) = s" using True by (simp add: render_def)
    have "dir_path (render r (ss @ [s])) = clean_path []" unfolding whole dir_path_def none by simp
    also have "\<dots> = render r ss" using True by (simp add: clean_path_def segs_def rooted_def has_prefix_def clean_steps)
    finally show ?thesis .
  next
    case False
    define a where "a = (if ss = [] then [] else render r ss)"
    have "render r (ss @ [s]) = a @ CHR ''/'' # s" using False by (auto simp: render_snoc [OF n] a_def)
    then have d: "dir_path (render r (ss @ [s])) = clean_path (a @ ''/'')"
      unfolding dir_path_def by (simp only: upto_slash [OF free])
    have "segs (a @ ''/'') = ss \<and> rooted (a @ ''/'') = r"
    proof (cases "ss = []")
      case True
      then show ?thesis using False by (simp add: a_def segs_def rooted_def has_prefix_def clean_steps)
    next
      case False
      then show ?thesis
        using segs_slash [OF render_not_Nil [OF n']] segs_render [OF n'] rooted_render [OF n'] by (simp add: a_def)
    qed
    then show ?thesis by (simp add: d clean_path_def)
  qed
qed

lemma dir_render_Nil: "dir_path (render r []) = render r []"
  by (cases r) (simp_all add: render_def dir_path_def clean_path_def segs_def rooted_def has_prefix_def clean_steps)

text \<open>The walk to the deepest existing ancestor ends: every parent of a cleaned path has one element less.\<close>

lemma deepestExisting_ends: "normal r ss \<Longrightarrow> deepestExisting fs (render r ss) \<noteq> None"
proof (induction ss rule: rev_induct)
  case Nil
  show ?case
    by (subst deepestExisting.simps) (simp add: dir_render_Nil split: option.split)
next
  case (snoc s ss)
  have "deepestExisting fs (render r ss) \<noteq> None" using snoc normal_butlast by blast
  then show ?case
    by (subst deepestExisting.simps) (simp add: dir_render [OF snoc.prems] split: option.split)
qed

lemma resolveForWrite_returns: "resolveForWrite fs root rel follows \<noteq> None"
proof -
  define d where "d = dir_path (join_path root rel)"
  have "\<exists>q. d = clean_path q" unfolding d_def dir_path_def by blast
  then obtain q where "d = render (rooted q) (segs q)" by (auto simp: clean_path_def)
  then have "deepestExisting fs d \<noteq> None" using deepestExisting_ends [OF segs_normal] by simp
  then show ?thesis
    by (auto simp: resolveForWrite_def Let_def d_def split: option.splits)
qed

lemma resolveForWrite_inside:
  assumes "resolveForWrite fs root rel follows = Some (Inr tgt)"
  shows "tgt = join_path root rel
    \<and> (\<exists>rootReal anchor s. fsEval fs root = Some rootReal \<and> deepestExisting fs (dir_path tgt) = Some (Some anchor)
         \<and> rooted anchor = rooted rootReal \<and> segs anchor = segs rootReal @ s
         \<and> (follows \<and> fsLink fs tgt \<longrightarrow> (\<exists>real t. fsEval fs tgt = Some real
              \<and> rooted real = rooted rootReal \<and> segs real = segs rootReal @ t)))"
proof -
  from assms obtain rootReal anchor where r: "fsEval fs root = Some rootReal"
    and tgt: "tgt = join_path root rel" and a: "deepestExisting fs (dir_path tgt) = Some (Some anchor)"
    and w: "within rootReal anchor"
    and leaf: "follows \<and> fsLink fs tgt \<longrightarrow> (\<exists>real. fsEval fs tgt = Some real \<and> within rootReal real)"
    by (auto simp: resolveForWrite_def Let_def split: option.splits if_splits)
  obtain s where s: "rooted anchor = rooted rootReal" "segs anchor = segs rootReal @ s"
    using w by (auto simp: within_iff)
  have "follows \<and> fsLink fs tgt \<longrightarrow> (\<exists>real t. fsEval fs tgt = Some real
      \<and> rooted real = rooted rootReal \<and> segs real = segs rootReal @ t)"
    using leaf by (auto simp: within_iff)
  with r tgt a s show ?thesis by blast
qed



subsection \<open>The tree that contains a directory\<close>

lemma cleanLoop_climb:
  "\<forall>n \<in> set ns. plain n \<Longrightarrow> cleanLoop r (rev ns @ base) (replicate (length ns) ''..'' @ ss) = cleanLoop r base ss"
proof (induction ns rule: rev_induct)
  case (snoc n ns)
  then have "may_pop (n # rev ns @ base)" by (intro may_pop_plain(2)) simp
  with snoc show ?case by (simp add: clean_steps)
qed simp

lemma normal_take: "normal r (a @ b) \<Longrightarrow> normal r a"
  by (induction b rule: rev_induct) (auto simp flip: append_assoc dest: normal_butlast)

lemma normal_names: "normal r (l @ x # xs) \<Longrightarrow> x \<noteq> ''..'' \<Longrightarrow> \<forall>n \<in> set (x # xs). plain n"
proof (induction xs rule: rev_induct)
  case Nil
  then show ?case using normal_last [of r l x] by auto
next
  case (snoc y xs)
  then show ?case
    using normal_last [of r "l @ x # xs" y] normal_butlast [of r "l @ x # xs" y] by auto
qed

lemma cleanLoop_normal_tail: "normal r (rev base @ ys) \<Longrightarrow> cleanLoop r base ys = rev base @ ys"
  using cleanLoop_append [of r "[]" "rev base" ys] cleanLoop_id [of r "rev base"] normal_take [of r "rev base" ys]
  by (simp add: cleanLoop_id)

text \<open>Going from the base by the relative path leads to the target.\<close>

lemma relSegs_leads:
  "relSegs xs ys = Some zs \<Longrightarrow> normal r (rev base @ xs) \<Longrightarrow> normal r (rev base @ ys) \<Longrightarrow>
     cleanLoop r (rev xs @ base) zs = rev base @ ys"
proof (induction xs ys arbitrary: base rule: relSegs.induct)
  case (1 ys)
  then show ?case by (simp add: cleanLoop_normal_tail)
next
  case (2 x xs)
  then have z: "zs = replicate (length (x # xs)) ''..'' @ []" and "x \<noteq> ''..''" by (auto split: if_splits)
  then have "\<forall>n \<in> set (x # xs). plain n" using normal_names "2.prems"(2) by blast
  from cleanLoop_climb [OF this, of r base "[]"] show ?case unfolding z by simp
next
  case (3 x xs y ys)
  show ?case
  proof (cases "x = y")
    case True
    with "3.IH" [of "x # base"] "3.prems" show ?thesis by simp
  next
    case False
    then have z: "zs = replicate (length (x # xs)) ''..'' @ y # ys" and "x \<noteq> ''..''"
      using "3.prems"(1) by (auto split: if_splits)
    then have "\<forall>n \<in> set (x # xs). plain n" using normal_names "3.prems"(2) by blast
    from cleanLoop_climb [OF this, of r base "y # ys"] show ?thesis
      unfolding z using cleanLoop_normal_tail [OF "3.prems"(3)] by simp
  qed
qed

lemma rel_join:
  assumes "rel_path root d = Some rel" and "root \<noteq> []"
  shows "join_path root rel = clean_path d"
proof -
  obtain zs where r: "rooted root = rooted d" and z: "relSegs (segs root) (segs d) = Some zs"
    and rel: "rel = render False zs"
    using assms(1) by (auto simp: rel_path_def split: if_splits)
  have n: "normal False zs" using relSegs_normal [OF z segs_normal] .
  have walk: "cleanLoop (rooted root) (rev (segs root)) zs = segs d"
    using relSegs_leads [OF z, of "rooted root" "[]"] segs_normal [of root] segs_normal [of d] r by simp
  have "split_on CHR ''/'' rel = (if zs = [] then [''.''] else zs)"
    using split_join [of zs "CHR ''/''"] normal_slash_free [OF n] by (auto simp: rel render_def)
  then have "segs (join_path root rel) = segs d"
    using walk by (simp add: join_path_facts assms(2) clean_steps split: if_splits)
  moreover have "rooted (join_path root rel) = rooted d" using r by (simp add: join_path_facts assms(2))
  moreover have "join_path root rel = clean_path (join_path root rel)"
    using assms(2) by (simp add: join_path_def)
  ultimately show ?thesis unfolding clean_path_def [of d] clean_path_def [of "join_path root rel"] by simp
qed

lemma ascentOf_segs:
  assumes "\<not> rooted d" and d: "segs d = replicate k ''..'' @ ns" and "\<forall>n \<in> set ns. plain n"
  shows "segs (ascentOf d) = replicate k ''..''" "\<not> rooted (ascentOf d)" "ascentOf d \<noteq> []"
    "length (ascentOf d) = (if k = 0 then 1 else 3 * k - 1)"
proof -
  have n: "normal False (segs d)" using segs_normal [of d] assms(1) by simp
  have nk: "normal False (replicate k ''..'')" using normal_climb [OF normal_Nil, of k] by simp
  have tw: "takeWhile (\<lambda>s. s = ''..'') (segs d) = replicate k ''..''"
  proof -
    have "takeWhile (\<lambda>s. s = ''..'') ns = []" using assms(3) by (cases ns) (auto simp: plain_def)
    then show ?thesis unfolding d by (subst takeWhile_append2) auto
  qed
  have a: "ascentOf d = render False (replicate k ''..'')"
  proof (cases "segs d = []")
    case True
    then show ?thesis
      using d assms(1) by (simp add: ascentOf_def clean_path_def render_def Let_def)
  next
    case False
    then have sp: "split_on CHR ''/'' (clean_path d) = segs d"
      using split_join [of "segs d" "CHR ''/''"] normal_slash_free [OF n] assms(1) by (simp add: clean_path_def render_def)
    show ?thesis
    proof (cases "k = 0")
      case True
      then show ?thesis by (simp add: ascentOf_def sp tw render_def)
    next
      case k: False
      then have "take k (segs d) = replicate k ''..''" using d by simp
      moreover have "clean_path (join ''/'' (replicate k ''..'')) = render False (replicate k ''..'')"
      proof -
        have j: "join ''/'' (replicate k ''..'') = render False (replicate k ''..'')" using k by (simp add: render_def)
        show ?thesis unfolding j by (simp add: clean_path_def segs_render [OF nk] rooted_render [OF nk])
      qed
      ultimately show ?thesis using k by (simp add: ascentOf_def sp tw Let_def)
    qed
  qed
  show "segs (ascentOf d) = replicate k ''..''" "\<not> rooted (ascentOf d)"
    unfolding a using segs_render [OF nk] rooted_render [OF nk] by simp_all
  show "ascentOf d \<noteq> []" unfolding a using render_not_Nil [OF nk] .
  have "length (join ''/'' (replicate (Suc m) ''..'')) = 3 * Suc m - 1" for m
    by (induction m) (simp_all add: join_Cons)
  then show "length (ascentOf d) = (if k = 0 then 1 else 3 * k - 1)"
    unfolding a by (cases k) (simp_all add: render_def del: replicate.simps)
qed

text \<open>A reader fenced around the tree that contains a directory reaches that directory: under
  the root it chose, the path it hands back is the directory the caller named, and its own fence
  accepts it.\<close>

theorem containing_reaches:
  assumes "\<not> rooted dir" and "repoContaining b dir = (r, rel)"
  shows "\<exists>root. r = repoAt b root \<and> join_path root rel = clean_path dir \<and> fencePermits rel = None"
proof -
  obtain k ns where k: "segs dir = replicate k ''..'' @ ns" "\<forall>n \<in> set ns. plain n"
    using segs_normal [of dir] assms(1) by (auto simp: normal_def)
  note asc = ascentOf_segs [OF assms(1) k]
  define root where "root = longestAscent ''.'' [dir]"
  have root: "segs root = replicate k ''..''" "\<not> rooted root" "root \<noteq> []"
  proof -
    have dot: "segs ''.'' = []" "\<not> rooted ''.''" by (simp_all add: segs_def clean_steps rooted_def has_prefix_def)
    have "k \<noteq> 0 \<Longrightarrow> length (ascentOf dir) > 1" using asc(4) by auto
    then have "root = (if k = 0 then ''.'' else ascentOf dir)" using asc(4) by (simp add: root_def)
    then show "segs root = replicate k ''..''" "\<not> rooted root" "root \<noteq> []" using asc dot by auto
  qed
  have rs: "relSegs (segs root) (segs dir) = Some ns" by (simp add: root k relSegs_prefix)
  then have rp: "rel_path root (clean_path dir) = Some (render False ns)"
    using root(2) assms(1) by (simp add: rel_path_def)
  then have "r = repoAt b root" "rel = render False ns"
    using assms by (simp_all add: repoContaining_def repoContainingAll_def root_def Let_def relTo_root_def)
  moreover have "join_path root (render False ns) = clean_path dir"
    using rel_join [OF rp root(3)] by simp
  moreover have "fencePermits (render False ns) = None"
  proof -
    have n: "normal False ns" using normal_drop [of False "replicate k ''..''" ns] segs_normal [of dir] assms(1) k(1) by simp
    moreover have "''..'' \<notin> set ns" using k(2) by (auto simp: plain_def)
    ultimately show ?thesis by (simp add: fencePermits_iff segs_render rooted_render)
  qed
  ultimately show ?thesis by blast
qed

definition someGate :: binding where
  "someGate = \<lparr>bKind = Gate, bName = [], bState = Configured, bRequires = [], bGrants = [ReadRepo]\<rparr>"

lemma containing_reaches_witness:
  "repoContaining someGate ''../.github/workflows'' = (LiveRepo ''..'', ''.github/workflows'')
     \<and> fencePermits ''.github/workflows'' = None"
proof -
  have r: "repoContaining someGate ''../.github/workflows'' = (LiveRepo ''..'', ''.github/workflows'')" by code_simp
  moreover have "\<not> rooted ''../.github/workflows''" by code_simp
  ultimately show ?thesis using containing_reaches [of "''../.github/workflows''" someGate] by fastforce
qed

text \<open>
  With several directories of different ascents, one that cannot be expressed from the longest is
  handed back as it was, and the fence accepts it: under that root it names another directory.
\<close>

lemma containing_other_tree:
  "repoContainingAll someGate [''../../charts'', ''rendered''] = (LiveRepo ''../..'', [''charts'', ''rendered''])"
  "fencePermits ''rendered'' = None"
  "join_path ''../..'' ''rendered'' = ''../../rendered''"
  by code_simp+

end
