(* ===== verification/Promotion.thy ===== *)
theory Promotion
  imports Go_Prelude
begin

text \<open>
  The order in which a change walks through the deployments of an instance:
  \<open>internal/shared/envtopology/topology.go\<close> (pairs), \<open>internal/shared/validate/validate.go\<close> (names and
  roles), and \<open>internal/extensions/lifecycle/promote\<close>: \<open>rank.go\<close> (the line of ranked deployments),
  \<open>stages.go\<close> (reading a pipeline back and judging it), \<open>gen.go\<close> (generating it). A Go map is an
  association list with distinct keys. A workflow file is a \<open>promoteDoc\<close>: its head (banner and title)
  and its jobs with the fields the code writes and reads; two files are equal when these are. The
  YAML parser, the tfvars files and the copier answers are parameters.
\<close>

subsection \<open>Names and roles (\<open>validate.go\<close>)\<close>

abbreviation RoleActive :: string where "RoleActive \<equiv> ''active''"
abbreviation RoleStandby :: string where "RoleStandby \<equiv> ''standby''"
abbreviation roleStandalone :: string where "roleStandalone \<equiv> ''standalone''"

definition lowerLetter :: "char \<Rightarrow> bool" where
  "lowerLetter c \<longleftrightarrow> 97 \<le> (of_char c :: nat) \<and> (of_char c :: nat) \<le> 122"

text \<open>\<open>^[a-z][a-z0-9-]{1,30}$\<close>\<close>

definition envNameRe :: "string \<Rightarrow> bool" where
  "envNameRe s \<longleftrightarrow> (case s of
      [] \<Rightarrow> False
    | c # cs \<Rightarrow> lowerLetter c \<and> 1 \<le> length cs \<and> length cs \<le> 30
        \<and> list_all (\<lambda>d. lowerLetter d \<or> is_digit d \<or> d = CHR ''-'') cs)"

definition reservedEnvNames :: "string list" where
  "reservedEnvNames = [''llz-preflight'']"

datatype nameError = BadEnvName string | ReservedEnvName string

definition envName :: "string \<Rightarrow> nameError option" where
  "envName env =
     (if \<not> envNameRe env then Some (BadEnvName env)
      else if List.member reservedEnvNames env then Some (ReservedEnvName env)
      else None)"

datatype haError = GroupOnStandalone | RoleNeedsGroup string | BadRole string

definition haTopology :: "string \<Rightarrow> string \<Rightarrow> haError option" where
  "haTopology role grp =
     (if role = [] \<or> role = roleStandalone
      then (if grp \<noteq> [] then Some GroupOnStandalone else None)
      else if role = RoleActive \<or> role = RoleStandby
      then (if grp = [] then Some (RoleNeedsGroup role) else None)
      else Some (BadRole role))"

definition forgeNames :: "string list" where
  "forgeNames = [''github'', ''github-enterprise'', ''github-enterprise-server'', ''gitlab'']"

definition forgeValid :: "string \<Rightarrow> bool" where
  "forgeValid f \<longleftrightarrow> List.member forgeNames f"

subsection \<open>Pairs (\<open>topology.go\<close>)\<close>

record deployment =
  dpName :: string
  dpRole :: string
  dpGroup :: string

text \<open>The spec's environments: name, role, group. A role that is not set is standalone.\<close>

definition topologyFromSpec :: "(string \<times> string \<times> string) list \<Rightarrow> deployment list" where
  "topologyFromSpec envs =
     sort_key dpName (map (\<lambda>(name, role, grp).
       \<lparr>dpName = name, dpRole = (if role = [] then roleStandalone else role), dpGroup = grp\<rparr>) envs)"

text \<open>The tfvars path: the fields of one file, each absent or there.\<close>

definition topologyFromTfvars :: "(string \<times> string option \<times> string option) list \<Rightarrow> deployment list" where
  "topologyFromTfvars files =
     map (\<lambda>(name, role, grp).
       \<lparr>dpName = name,
        dpRole = (case role of None \<Rightarrow> roleStandalone | Some r \<Rightarrow> if r = [] then roleStandalone else r),
        dpGroup = (case grp of None \<Rightarrow> [] | Some g \<Rightarrow> g)\<rparr>) files"

definition findDeployment :: "deployment list \<Rightarrow> string \<Rightarrow> deployment option" where
  "findDeployment deps name = find (\<lambda>d. dpName d = name) deps"

definition haMembers :: "deployment list \<Rightarrow> string list" where
  "haMembers deps = sort (map dpName (filter (\<lambda>d. dpRole d \<noteq> roleStandalone) deps))"

definition byRole :: "deployment list \<Rightarrow> string \<Rightarrow> string list" where
  "byRole deps role = sort (map dpName (filter (\<lambda>d. dpRole d = role) deps))"

datatype peerError = AmbiguousPeer string string "string list"

definition peerOf :: "deployment list \<Rightarrow> string \<Rightarrow> peerError + string option" where
  "peerOf deps name = (case findDeployment deps name of
      None \<Rightarrow> Inr None
    | Some self \<Rightarrow>
        if dpRole self = roleStandalone \<or> dpGroup self = [] then Inr None
        else (case map dpName (filter (\<lambda>d. dpName d \<noteq> name \<and> dpGroup d = dpGroup self) deps) of
            [] \<Rightarrow> Inr None
          | [p] \<Rightarrow> Inr (Some p)
          | peers \<Rightarrow> Inl (AmbiguousPeer (dpGroup self) name (sort peers))))"

datatype topologyError =
    StandaloneWithGroup string string
  | MemberWithoutGroup string string
  | InvalidRole string string
  | UnpairedGroup string "string list" "string list"

fun topologyLoop :: "deployment list \<Rightarrow> topologyError + (string \<times> deployment) list" where
  "topologyLoop [] = Inr []"
| "topologyLoop (d # ds) =
     (if dpRole d = roleStandalone then
        (if dpGroup d \<noteq> [] then Inl (StandaloneWithGroup (dpName d) (dpGroup d)) else topologyLoop ds)
      else if dpRole d = RoleActive \<or> dpRole d = RoleStandby then
        (if dpGroup d = [] then Inl (MemberWithoutGroup (dpName d) (dpRole d))
         else (case topologyLoop ds of Inl e \<Rightarrow> Inl e | Inr gs \<Rightarrow> Inr ((dpGroup d, d) # gs)))
      else Inl (InvalidRole (dpName d) (dpRole d)))"

text \<open>The groups are a map; here they are walked in the order of their first members.\<close>

definition groupError :: "(string \<times> deployment) list \<Rightarrow> string \<Rightarrow> topologyError option" where
  "groupError gs g =
     (let members = map snd (filter (\<lambda>p. fst p = g) gs);
          actives = map dpName (filter (\<lambda>d. dpRole d = RoleActive) members);
          standbys = map dpName (filter (\<lambda>d. dpRole d \<noteq> RoleActive) members)
      in if length actives \<noteq> 1 \<or> length standbys \<noteq> 1 then Some (UnpairedGroup g actives standbys) else None)"

definition validateTopology :: "deployment list \<Rightarrow> topologyError option" where
  "validateTopology deps = (case topologyLoop deps of
      Inl e \<Rightarrow> Some e
    | Inr gs \<Rightarrow> (case List.map_filter (groupError gs) (remdups (map fst gs)) of [] \<Rightarrow> None | e # _ \<Rightarrow> Some e))"

definition haFilter :: "deployment list \<Rightarrow> bool \<Rightarrow> string \<Rightarrow> string list" where
  "haFilter deps haOnly role =
     (if role \<noteq> [] then byRole deps role
      else if haOnly then haMembers deps
      else sort (map dpName deps))"

text \<open>\<open>ListDeployments\<close>: the names of the tfvars files and of the spec, the valid ones, once each.\<close>

definition listDeployments :: "string list \<Rightarrow> string list \<Rightarrow> string list" where
  "listDeployments tfvars spec =
     sort (remdups
       (filter (\<lambda>n. n \<noteq> ''terraform'' \<and> n \<noteq> ''terraform.example'' \<and> envName n = None) tfvars
        @ filter (\<lambda>n. envName n = None) spec))"

subsection \<open>The line of ranked deployments (\<open>rank.go\<close>)\<close>

record promoStage =
  psName :: string
  psRank :: int

datatype rankError = DuplicateRank int string string

fun readLoop :: "(int \<times> string) list \<Rightarrow> (string \<times> int) list \<Rightarrow> rankError + promoStage list" where
  "readLoop seen [] = Inr []"
| "readLoop seen ((name, rank) # rest) =
     (if rank \<le> 0 then readLoop seen rest
      else (case map_of seen rank of
          Some other \<Rightarrow> Inl (DuplicateRank rank other name)
        | None \<Rightarrow> (case readLoop ((rank, name) # seen) rest of
            Inl e \<Rightarrow> Inl e
          | Inr stages \<Rightarrow> Inr (\<lparr>psName = name, psRank = rank\<rparr> # stages))))"

definition readPromotion :: "(string \<times> int) list \<Rightarrow> rankError + promoStage list" where
  "readPromotion ranks = (case readLoop [] (sort_key fst ranks) of
      Inl e \<Rightarrow> Inl e
    | Inr stages \<Rightarrow> Inr (sort_key psRank stages))"

definition promotionOrder :: "promoStage list \<Rightarrow> string list" where
  "promotionOrder stages = map psName stages"

fun nextStage :: "promoStage list \<Rightarrow> string \<Rightarrow> string option" where
  "nextStage [] name = None"
| "nextStage (s # rest) name =
     (if psName s = name then (case rest of [] \<Rightarrow> None | t # _ \<Rightarrow> Some (psName t)) else nextStage rest name)"

definition findStage :: "promoStage list \<Rightarrow> string \<Rightarrow> promoStage option" where
  "findStage stages name = find (\<lambda>s. psName s = name) stages"

subsection \<open>Reading a pipeline back (\<open>stages.go\<close>)\<close>

record promoteJob =
  jbId :: string
  jbName :: string
  jbUses :: string
  jbRepo :: string
  jbRegion :: string
  jbAction :: string
  jbNeeds :: "string list"

datatype docHead =
    PlaceholderHead
  | SoloHead "string list"
  | ChainHead "string list"
  | OtherHead string

record promoteDoc =
  dcHead :: docHead
  dcParses :: bool
  dcJobs :: "promoteJob list"

record stageRef =
  stJob :: string
  stEnv :: string
  stAction :: string
  stNeeds :: "string list"

definition unresolvable :: "string \<Rightarrow> bool" where
  "unresolvable v \<longleftrightarrow> contains v ''${{''"

definition isStage :: "promoteJob \<Rightarrow> bool" where
  "isStage j \<longleftrightarrow> contains (jbUses j) ''llz-terraform.yml''"

definition stageOf :: "promoteJob \<Rightarrow> stageRef" where
  "stageOf j = \<lparr>stJob = jbId j, stEnv = jbRegion j, stAction = jbAction j, stNeeds = jbNeeds j\<rparr>"

text \<open>The parser refuses a document that is no YAML or repeats a job id.\<close>

definition workflowStages :: "promoteDoc \<Rightarrow> unit + stageRef list" where
  "workflowStages d =
     (if \<not> dcParses d \<or> \<not> distinct (map jbId (dcJobs d)) then Inl ()
      else Inr (map stageOf (filter isStage (sort_key jbId (dcJobs d)))))"

definition promotingStages :: "stageRef list \<Rightarrow> stageRef list" where
  "promotingStages stages = filter (\<lambda>s. stAction s = ''apply'' \<or> unresolvable (stAction s)) stages"

definition unordered :: "stageRef list \<Rightarrow> bool" where
  "unordered stages =
     (let promoting = promotingStages stages; ids = map stJob promoting in
      if length promoting < 2 then False
      else \<not> list_ex (\<lambda>s. list_ex (\<lambda>n. List.member ids n) (stNeeds s)) promoting)"

definition missingPreflight :: "stageRef list \<Rightarrow> bool" where
  "missingPreflight stages =
     (if stages = [] then False
      else \<not> list_ex (\<lambda>s. list_ex (\<lambda>n. \<not> List.member (map stJob stages) n) (stNeeds s)) stages)"

definition namesMissingDeployment :: "stageRef list \<Rightarrow> stageRef list" where
  "namesMissingDeployment flagged = filter (\<lambda>s. stEnv s \<noteq> [] \<and> \<not> unresolvable (stEnv s)) flagged"

fun undeclaredStages :: "stageRef list \<Rightarrow> string list \<Rightarrow> stageRef list \<times> stageRef list" where
  "undeclaredStages [] declared = ([], [])"
| "undeclaredStages (s # rest) declared =
     (case undeclaredStages rest declared of (bad, unresolved) \<Rightarrow>
        if unresolvable (stEnv s) then (bad, s # unresolved)
        else if stEnv s = [] \<or> \<not> List.member declared (stEnv s) then (s # bad, unresolved)
        else (bad, unresolved))"

record plan =
  plPath :: string
  plContent :: "promoteDoc option"   \<comment> \<open>\<open>None\<close> leaves the file alone\<close>
  plChanged :: bool
  plOrder :: "string list"
  plStages :: "stageRef list"
  plUndeclared :: "stageRef list"
  plUnresolved :: "stageRef list"
  plDeclared :: "string list"

datatype planError =
    UndeclaredStages "stageRef list" "string list"
  | OutOfDate
  | NoOrder "stageRef list"
  | NothingApplied "string list"
  | OthersSkipped "string list"

definition undeclaredErr :: "plan \<Rightarrow> planError option" where
  "undeclaredErr p = (if plUndeclared p = [] then None else Some (UndeclaredStages (plUndeclared p) (plDeclared p)))"

definition unorderedErr :: "plan \<Rightarrow> planError option" where
  "unorderedErr p = (if \<not> unordered (plStages p) then None else Some (NoOrder (promotingStages (plStages p))))"

definition noPipelineErr :: "plan \<Rightarrow> planError option" where
  "noPipelineErr p =
     (let applies = promotingStages (plStages p) in
      if length applies \<ge> 2 \<or> length applies = 1 \<and> length (plDeclared p) = 1 then None
      else if length applies = 0 then Some (NothingApplied (plDeclared p))
      else Some (OthersSkipped (plDeclared p)))"

definition runnableErr :: "plan \<Rightarrow> bool \<Rightarrow> planError option" where
  "runnableErr p requirePipeline = (case undeclaredErr p of
      Some e \<Rightarrow> Some e
    | None \<Rightarrow>
        if plChanged p then Some OutOfDate
        else (case unorderedErr p of
            Some e \<Rightarrow> Some e
          | None \<Rightarrow> if requirePipeline then noPipelineErr p else None))"

definition applied :: "plan \<Rightarrow> plan" where
  "applied p =
     (let stages = (case plContent p of None \<Rightarrow> [] | Some d \<Rightarrow>
            (case workflowStages d of Inl _ \<Rightarrow> [] | Inr ss \<Rightarrow> ss));
          (bad, unresolved) = undeclaredStages stages (plDeclared p)
      in p\<lparr>plChanged := False, plStages := stages, plUndeclared := bad, plUnresolved := unresolved\<rparr>)"

datatype advisory = Unverified stageRef | NoPreflight bool

definition advisories :: "plan \<Rightarrow> advisory list" where
  "advisories p = map Unverified (plUnresolved p)
     @ (if missingPreflight (plStages p) then [NoPreflight (length (plDeclared p) = 1)] else [])"

datatype passed = NoStages | AllExpressions | Checked bool nat   \<comment> \<open>ordered, unverified stages\<close>

definition passedMsg :: "plan \<Rightarrow> passed" where
  "passedMsg p =
     (if plStages p = [] then NoStages
      else if length (plUnresolved p) = length (plStages p) then AllExpressions
      else Checked (length (promotingStages (plStages p)) \<ge> 2) (length (plUnresolved p)))"

datatype reportLine = NotAnInstance | Advice advisory | Passed passed

definition checkReport :: "plan \<Rightarrow> bool \<Rightarrow> bool \<Rightarrow> planError + reportLine list" where
  "checkReport p check requirePipeline =
     (if plPath p = [] then Inr (if check then [NotAnInstance] else [])
      else (case runnableErr p requirePipeline of
          Some e \<Rightarrow> Inl e
        | None \<Rightarrow> Inr (map Advice (advisories p) @ (if check then [Passed (passedMsg p)] else []))))"

subsection \<open>Generating it (\<open>gen.go\<close>)\<close>

record promoCaller =
  pcUses :: string
  pcRepo :: string

definition localTerraformUses :: string where
  "localTerraformUses = ''./.github/workflows/llz-terraform.yml''"

definition preflightJob :: string where
  "preflightJob = ''llz-preflight''"

definition crossMark :: string where
  "crossMark = ''/lke-landing-zone/.github/workflows/llz-terraform.yml@''"

text \<open>The cross-repository form: something, the mark, something, and no blank.\<close>

definition crossUses :: "string \<Rightarrow> bool" where
  "crossUses u \<longleftrightarrow> (case cut_on crossMark u of (a, b, found) \<Rightarrow>
      found \<and> a \<noteq> [] \<and> b \<noteq> [] \<and> list_all (\<lambda>c. \<not> is_space c) u)"

definition firstWord :: "string \<Rightarrow> string" where
  "firstWord v = takeWhile (\<lambda>c. \<not> is_space c) (dropWhile is_space v)"

definition callerFromWorkflow :: "promoteDoc option \<Rightarrow> promoCaller option" where
  "callerFromWorkflow d = (case d of
      None \<Rightarrow> None
    | Some d \<Rightarrow>
        (let uses = map jbUses (dcJobs d);
             found = (if List.member uses localTerraformUses then Some localTerraformUses
                else (case find crossUses uses of
                    Some u \<Rightarrow> if \<not> contains u ''<@'' then Some u else None
                  | None \<Rightarrow> None));
             repo = (case find (\<lambda>r. r \<noteq> []) (map (firstWord \<circ> jbRepo) (dcJobs d)) of Some r \<Rightarrow> r | None \<Rightarrow> [])
         in (case found of
               None \<Rightarrow> None
             | Some u \<Rightarrow>
                 if repo = [] \<or> contains repo ''<@'' then None
                 else Some \<lparr>pcUses = u, pcRepo = repo\<rparr>)))"

definition resolveCaller :: "promoteDoc option \<Rightarrow> promoteDoc option \<Rightarrow> string \<Rightarrow> promoCaller option" where
  "resolveCaller promote terraform answersRepo = (case callerFromWorkflow promote of
      Some c \<Rightarrow> Some c
    | None \<Rightarrow> (case callerFromWorkflow terraform of
        Some c \<Rightarrow> Some c
      | None \<Rightarrow>
          if answersRepo = [] then None
          else Some \<lparr>pcUses = localTerraformUses, pcRepo = answersRepo\<rparr>))"

definition llzGenerated :: "promoteDoc option \<Rightarrow> bool" where
  "llzGenerated d = (case d of
      None \<Rightarrow> False
    | Some d \<Rightarrow> (case dcHead d of OtherHead t \<Rightarrow> has_prefix t ''# GENERATED'' | _ \<Rightarrow> True))"

definition preflight :: promoteJob where
  "preflight = \<lparr>jbId = preflightJob, jbName = ''Promotion pipeline matches the spec'', jbUses = [], jbRepo = [],
     jbRegion = [], jbAction = [], jbNeeds = []\<rparr>"

definition renderPlaceholderWorkflow :: promoteDoc where
  "renderPlaceholderWorkflow = \<lparr>dcHead = PlaceholderHead, dcParses = True, dcJobs = [preflight]\<rparr>"

definition stageJob :: "promoCaller \<Rightarrow> bool \<Rightarrow> string \<Rightarrow> promoStage \<Rightarrow> promoteJob" where
  "stageJob c solo after s =
     \<lparr>jbId = psName s,
      jbName = (if solo then msg [''Promote '', r_arrow, '' '', psName s, '' (the only deployment)'']
        else msg [''Promote '', r_arrow, '' '', psName s, '' (rank '', int_dec (psRank s), '')'']),
      jbUses = pcUses c, jbRepo = pcRepo c, jbRegion = psName s, jbAction = ''apply'', jbNeeds = [after]\<rparr>"

fun stageJobs :: "promoCaller \<Rightarrow> bool \<Rightarrow> string \<Rightarrow> promoStage list \<Rightarrow> promoteJob list" where
  "stageJobs c solo after [] = []"
| "stageJobs c solo after (s # rest) = stageJob c solo after s # stageJobs c solo (psName s) rest"

definition renderPromoteWorkflow :: "promoCaller \<Rightarrow> promoStage list \<Rightarrow> promoteDoc" where
  "renderPromoteWorkflow c stages =
     (let solo = (length stages = 1); names = map psName stages in
      \<lparr>dcHead = (if solo then SoloHead names else ChainHead names), dcParses = True,
       dcJobs = preflight # stageJobs c solo preflightJob stages\<rparr>)"

text \<open>The path to generate at; \<open>None\<close> on a checkout of the template, where nothing is generated.\<close>

definition promoteWorkflowPath :: "string \<Rightarrow> string option" where
  "promoteWorkflowPath relPrefix =
     (if relPrefix \<noteq> [] then None else Some ''.github/workflows/promote.yml'')"

datatype fileState = Absent | Unreadable | File promoteDoc

record repoState =
  rsDeclared :: "string list option"   \<comment> \<open>\<open>None\<close>: the spec or the directory cannot be read\<close>
  rsRanks :: "(string \<times> int) list option"
  rsPromote :: fileState
  rsTerraform :: "promoteDoc option"
  rsAnswers :: string

datatype planFailure = NoDeclared | ParseFailure | ReadFailure | NoRanks | RankFailure rankError | NoCaller

definition fileDoc :: "fileState \<Rightarrow> promoteDoc option" where
  "fileDoc f = (case f of File d \<Rightarrow> Some d | _ \<Rightarrow> None)"

definition emptyPlan :: plan where
  "emptyPlan = \<lparr>plPath = [], plContent = None, plChanged = False, plOrder = [], plStages = [],
     plUndeclared = [], plUnresolved = [], plDeclared = []\<rparr>"

definition onDiskStages :: "fileState \<Rightarrow> planFailure + stageRef list" where
  "onDiskStages f = (case f of
      Absent \<Rightarrow> Inr []
    | Unreadable \<Rightarrow> Inl ReadFailure
    | File d \<Rightarrow> (case workflowStages d of Inl _ \<Rightarrow> Inl ParseFailure | Inr ss \<Rightarrow> Inr ss))"

definition decideWorkflow ::
  "repoState \<Rightarrow> string \<Rightarrow> string list \<Rightarrow> stageRef list \<Rightarrow> promoStage list \<Rightarrow> planFailure + plan" where
  "decideWorkflow r path declared onDisk stages =
     (let (undeclared, unresolved) = undeclaredStages onDisk declared;
          got = fileDoc (rsPromote r);
          caller = resolveCaller got (rsTerraform r) (rsAnswers r);
          base = \<lparr>plPath = path, plContent = None, plChanged = False, plOrder = [], plStages = onDisk,
            plUndeclared = undeclared, plUnresolved = unresolved, plDeclared = declared\<rparr>;
          missing = namesMissingDeployment undeclared;
          soloWritable = (missing \<noteq> [] \<or> promotingStages onDisk = [] \<or> llzGenerated got)
      in if length stages < 2 then
           (if caller \<noteq> None \<and> length declared = 1 \<and> soloWritable then
              (let only = (if length stages = 1 then hd stages else \<lparr>psName = hd declared, psRank = 0\<rparr>);
                   want = renderPromoteWorkflow (the caller) [only]
               in if got = Some want then Inr base
                  else Inr (base\<lparr>plContent := Some want, plChanged := True, plOrder := [psName only]\<rparr>))
            else if missing = [] then Inr base
            else Inr (base\<lparr>plContent := Some renderPlaceholderWorkflow, plChanged := True\<rparr>))
         else (case caller of
             None \<Rightarrow> Inl NoCaller
           | Some c \<Rightarrow>
               (let want = renderPromoteWorkflow c stages in
                if got = Some want then Inr base
                else Inr (base\<lparr>plContent := Some want, plChanged := True, plOrder := map psName stages\<rparr>))))"

definition planWorkflow :: "repoState \<Rightarrow> string \<Rightarrow> planFailure + plan" where
  "planWorkflow r relPrefix = (case promoteWorkflowPath relPrefix of
       None \<Rightarrow> Inr emptyPlan
     | Some path \<Rightarrow> (case rsDeclared r of
         None \<Rightarrow> Inl NoDeclared
       | Some declared \<Rightarrow> (case onDiskStages (rsPromote r) of
           Inl e \<Rightarrow> Inl e
         | Inr onDisk \<Rightarrow> (case rsRanks r of
             None \<Rightarrow> Inl NoRanks
           | Some ranks \<Rightarrow> (case readPromotion ranks of
               Inl e \<Rightarrow> Inl (RankFailure e)
             | Inr stages \<Rightarrow> decideWorkflow r path declared onDisk stages)))))"

subsection \<open>Pairs\<close>

lemma find_unique_name:
  "distinct (map f xs) \<Longrightarrow> x \<in> set xs \<Longrightarrow> find (\<lambda>y. f y = f x) xs = Some x"
  by (induction xs) (auto simp: rev_image_eqI)

lemma topologyLoop_ok:
  "topologyLoop deps = Inr gs \<Longrightarrow>
     gs = map (\<lambda>d. (dpGroup d, d)) (filter (\<lambda>d. dpRole d \<noteq> roleStandalone) deps)
     \<and> (\<forall>d \<in> set deps. dpRole d = roleStandalone \<and> dpGroup d = []
          \<or> (dpRole d = RoleActive \<or> dpRole d = RoleStandby) \<and> dpGroup d \<noteq> [])"
  by (induction deps arbitrary: gs) (auto split: if_splits sum.splits)

lemma map_filter_Nil: "List.map_filter f xs = [] \<longleftrightarrow> (\<forall>x \<in> set xs. f x = None)"
  by (induction xs) (auto simp: List.map_filter_def)

lemma length_one: "length xs = 1 \<longleftrightarrow> (\<exists>x. xs = [x])"
  by (cases xs; cases "tl xs") auto

lemma filter_split: "filter P xs = [a] \<Longrightarrow> filter (\<lambda>x. \<not> P x) xs = [b] \<Longrightarrow> set xs = {a, b} \<and> length xs = 2 \<and> P a \<and> \<not> P b"
proof -
  assume a: "filter P xs = [a]" "filter (\<lambda>x. \<not> P x) xs = [b]"
  have "set xs = set (filter P xs) \<union> set (filter (\<lambda>x. \<not> P x) xs)" by auto
  moreover have "length xs = length (filter P xs) + length (filter (\<lambda>x. \<not> P x) xs)"
    by (rule sum_length_filter_compl [symmetric])
  moreover have "a \<in> set (filter P xs)" "b \<in> set (filter (\<lambda>x. \<not> P x) xs)" using a by simp_all
  then have "P a" "\<not> P b" unfolding set_filter by blast+
  ultimately show ?thesis using a by auto
qed

text \<open>In a valid topology the members of a group are one active and one standby.\<close>

lemma group_members:
  assumes v: "validateTopology deps = None" and d: "d \<in> set deps" "dpRole d \<noteq> roleStandalone"
  shows "\<exists>a b. set (filter (\<lambda>e. dpGroup e = dpGroup d) deps) = {a, b}
    \<and> length (filter (\<lambda>e. dpGroup e = dpGroup d) deps) = 2 \<and> dpRole a = RoleActive \<and> dpRole b = RoleStandby"
proof -
  obtain gs where gs: "topologyLoop deps = Inr gs" "\<forall>g \<in> set (map fst gs). groupError gs g = None"
    using v by (auto simp: validateTopology_def map_filter_Nil split: sum.splits list.splits)
  note ok = topologyLoop_ok [OF gs(1)]
  have g: "dpGroup d \<noteq> []" using ok d by auto
  define ms where "ms = filter (\<lambda>e. dpGroup e = dpGroup d) deps"
  have roles: "dpRole e = RoleActive \<or> dpRole e = RoleStandby" if "e \<in> set ms" for e
    using ok that g by (auto simp: ms_def)
  have "map snd (filter (\<lambda>p. fst p = dpGroup d) gs) = filter (\<lambda>e. dpGroup e = dpGroup d \<and> dpRole e \<noteq> roleStandalone) deps"
    using ok by (simp add: filter_map o_def conj_commute)
  also have "\<dots> = ms" unfolding ms_def using ok g by (intro filter_cong) auto
  finally have ms: "map snd (filter (\<lambda>p. fst p = dpGroup d) gs) = ms" .
  have "groupError gs (dpGroup d) = None" using gs(2) ok d by force
  then have "length (filter (\<lambda>e. dpRole e = RoleActive) ms) = 1" "length (filter (\<lambda>e. dpRole e \<noteq> RoleActive) ms) = 1"
    unfolding groupError_def ms Let_def by (simp_all split: if_splits)
  then obtain a b where "filter (\<lambda>e. dpRole e = RoleActive) ms = [a]" "filter (\<lambda>e. \<not> dpRole e = RoleActive) ms = [b]"
    unfolding length_one by auto
  from filter_split [OF this] have "set ms = {a, b} \<and> length ms = 2 \<and> dpRole a = RoleActive \<and> dpRole b \<noteq> RoleActive" .
  then show ?thesis using roles unfolding ms_def [symmetric] by blast
qed

text \<open>C24: In a topology that validates, pairing is mutual: every active or standby deployment has
  exactly one peer, of the opposite role, and it is the peer of its peer.\<close>

theorem peers_are_mutual:
  assumes "validateTopology deps = None" and "distinct (map dpName deps)"
    and "d \<in> set deps" and "dpRole d \<noteq> roleStandalone"
  shows "\<exists>e \<in> set deps. peerOf deps (dpName d) = Inr (Some (dpName e)) \<and> peerOf deps (dpName e) = Inr (Some (dpName d))
    \<and> {dpRole d, dpRole e} = {RoleActive, RoleStandby}"
proof -
  obtain a b where ms: "set (filter (\<lambda>e. dpGroup e = dpGroup d) deps) = {a, b}" and
    ab: "dpRole a = RoleActive" "dpRole b = RoleStandby"
    using group_members [OF assms(1,3,4)] by blast
  have "topologyLoop deps \<noteq> Inl e" for e using assms(1) by (auto simp: validateTopology_def)
  then have g: "dpGroup d \<noteq> []" using topologyLoop_ok assms(3,4) by (cases "topologyLoop deps") auto
  have in_deps: "a \<in> set deps" "b \<in> set deps" "dpGroup a = dpGroup d" "dpGroup b = dpGroup d"
    using ms by auto
  have "a \<noteq> b" using ab by auto
  then have names: "dpName a \<noteq> dpName b" using assms(2) in_deps(1,2) by (auto simp: distinct_map dest: inj_onD)
  have peer: "peerOf deps (dpName x) = Inr (Some (dpName y))"
    if xy: "{x, y} = {a, b}" "x \<noteq> y" for x y
  proof -
    have x: "x \<in> set deps" "dpGroup x = dpGroup d" "dpRole x \<noteq> roleStandalone"
      using xy in_deps ab by (auto simp: doubleton_eq_iff)
    have self: "findDeployment deps (dpName x) = Some x"
      unfolding findDeployment_def using find_unique_name [OF assms(2) x(1)] .
    define ps where "ps = filter (\<lambda>e. dpName e \<noteq> dpName x \<and> dpGroup e = dpGroup x) deps"
    have only: "set ps = {y}"
    proof -
      have "set ps = set (filter (\<lambda>e. dpGroup e = dpGroup d) deps) - {e. dpName e = dpName x}"
        by (auto simp: ps_def x)
      also have "\<dots> = {x, y} - {e. dpName e = dpName x}" using ms xy by simp
      also have "\<dots> = {y}" using names xy by (auto simp: doubleton_eq_iff)
      finally show ?thesis .
    qed
    have "distinct ps" unfolding ps_def using assms(2) by (simp add: distinct_map)
    then have "length ps = 1" using distinct_card [of ps] only by simp
    then have "ps = [y]" using only unfolding length_one by (elim exE) simp
    then show ?thesis using self x g by (simp add: peerOf_def ps_def)
  qed
  have pa: "peerOf deps (dpName a) = Inr (Some (dpName b))" using \<open>a \<noteq> b\<close> by (intro peer) auto
  have pb: "peerOf deps (dpName b) = Inr (Some (dpName a))" using \<open>a \<noteq> b\<close> by (intro peer) auto
  have "d = a \<or> d = b" using assms(3) ms by auto
  then show ?thesis
  proof
    assume "d = a"
    then show ?thesis using pa pb in_deps(2) ab by (intro bexI [of _ b]) simp_all
  next
    assume "d = b"
    then show ?thesis using pa pb in_deps(1) ab by (intro bexI [of _ a]) (simp_all add: insert_commute)
  qed
qed

definition pairDemo :: "deployment list" where
  "pairDemo = [\<lparr>dpName = ''east'', dpRole = RoleActive, dpGroup = ''g1''\<rparr>,
     \<lparr>dpName = ''lab'', dpRole = roleStandalone, dpGroup = []\<rparr>,
     \<lparr>dpName = ''west'', dpRole = RoleStandby, dpGroup = ''g1''\<rparr>]"

lemma peers_are_mutual_witness:
  "\<exists>e \<in> set pairDemo. peerOf pairDemo ''east'' = Inr (Some (dpName e)) \<and> peerOf pairDemo (dpName e) = Inr (Some ''east'')"
proof -
  have "validateTopology pairDemo = None" by code_simp
  moreover have "distinct (map dpName pairDemo)" by code_simp
  ultimately show ?thesis
    using peers_are_mutual [of pairDemo "hd pairDemo"] by (auto simp: pairDemo_def)
qed

subsection \<open>The line\<close>

lemma readLoop_ok:
  "readLoop seen ranks = Inr stages \<Longrightarrow>
     map (\<lambda>s. (psName s, psRank s)) stages = filter (\<lambda>p. snd p > 0) ranks
     \<and> distinct (map psRank stages) \<and> (\<forall>s \<in> set stages. psRank s \<notin> fst ` set seen)"
proof (induction seen ranks arbitrary: stages rule: readLoop.induct)
  case (2 seen name rank rest)
  show ?case
  proof (cases "rank \<le> 0")
    case True
    with 2 show ?thesis by simp
  next
    case False
    with "2.prems" obtain ss where ss: "map_of seen rank = None" "readLoop ((rank, name) # seen) rest = Inr ss"
      "stages = \<lparr>psName = name, psRank = rank\<rparr> # ss"
      by (auto split: option.splits sum.splits)
    from "2.IH"(2) [OF False ss(1,2)] show ?thesis
      using ss False by (auto simp: map_of_eq_None_iff image_iff)
  qed
qed simp

lemma readLoop_total:
  "distinct (map snd (filter (\<lambda>p. snd p > 0) ranks)) \<Longrightarrow> \<forall>p \<in> set ranks. snd p > 0 \<longrightarrow> snd p \<notin> fst ` set seen \<Longrightarrow>
     \<exists>stages. readLoop seen ranks = Inr stages"
proof (induction seen ranks rule: readLoop.induct)
  case (2 seen name rank rest)
  show ?case
  proof (cases "rank \<le> 0")
    case False
    then have none: "map_of seen rank = None" using "2.prems"(2) by (auto simp: map_of_eq_None_iff image_iff)
    have "\<exists>stages. readLoop ((rank, name) # seen) rest = Inr stages"
      using "2.prems" False by (intro "2.IH"(2) [OF False none]) (auto simp: image_iff)
    then show ?thesis using False none by auto
  qed (use 2 in simp)
qed simp

text \<open>What the line holds: the deployments with a positive rank, in strictly rising rank.\<close>

lemma readPromotion_ok:
  assumes "readPromotion ranks = Inr stages"
  shows "(\<lambda>s. (psName s, psRank s)) ` set stages = {p \<in> set ranks. snd p > 0}"
    and "sorted_wrt (<) (map psRank stages)"
    and "distinct (map fst ranks) \<Longrightarrow> distinct (map psName stages)"
proof -
  obtain ss where ss: "readLoop [] (sort_key fst ranks) = Inr ss" "stages = sort_key psRank ss"
    using assms by (auto simp: readPromotion_def split: sum.splits)
  note ok = readLoop_ok [OF ss(1)]
  have "(\<lambda>s. (psName s, psRank s)) ` set stages = set (map (\<lambda>s. (psName s, psRank s)) ss)" using ss(2) by simp
  also have "\<dots> = {p \<in> set ranks. snd p > 0}" using ok by auto
  finally show "(\<lambda>s. (psName s, psRank s)) ` set stages = {p \<in> set ranks. snd p > 0}" .
  have "distinct (map psRank stages)" using ok ss(2) by (simp add: distinct_map)
  then show "sorted_wrt (<) (map psRank stages)"
    using ss(2) by (simp add: strict_sorted_iff)
  assume "distinct (map fst ranks)"
  then have d: "distinct (map fst (filter (\<lambda>p. snd p > 0) (sort_key fst ranks)))"
    by (auto simp: distinct_map intro: inj_on_subset)
  have "map psName ss = map fst (map (\<lambda>s. (psName s, psRank s)) ss)" by (simp add: o_def)
  also have "\<dots> = map fst (filter (\<lambda>p. snd p > 0) (sort_key fst ranks))" using ok by simp
  finally have "distinct (map psName ss)" using d by simp
  then show "distinct (map psName stages)" using ss(2) by (simp add: distinct_map)
qed

lemma nextStage_split:
  "distinct (map psName (xs @ s # ys)) \<Longrightarrow>
     nextStage (xs @ s # ys) (psName s) = (case ys of [] \<Rightarrow> None | t # _ \<Rightarrow> Some (psName t))"
  by (induction xs) auto

text \<open>The pipeline is a line: every deployment with a positive rank is on it, and the stage after
  one is the deployment with the least greater rank; only the one of greatest rank has none.\<close>

theorem next_is_least_greater:
  assumes "readPromotion ranks = Inr stages" and "distinct (map fst ranks)"
    and "(name, rank) \<in> set ranks" and "0 < rank"
  shows "nextStage stages name = (case filter (\<lambda>p. rank < snd p) (sort_key snd ranks) of [] \<Rightarrow> None | p # _ \<Rightarrow> Some (fst p))"
proof -
  note ok = readPromotion_ok [OF assms(1)]
  obtain s where s: "s \<in> set stages" "psName s = name" "psRank s = rank"
  proof -
    have "(name, rank) \<in> (\<lambda>s. (psName s, psRank s)) ` set stages" using ok(1) assms(3,4) by simp
    with that show thesis by auto
  qed
  then obtain xs ys where st: "stages = xs @ s # ys" by (auto simp: in_set_conv_decomp)
  have inc: "sorted_wrt (<) (map psRank xs @ psRank s # map psRank ys)" using ok(2) st by simp
  define tl' where "tl' = filter (\<lambda>p. rank < snd p) (sort_key snd ranks)"
  have set_tl: "set tl' = (\<lambda>s. (psName s, psRank s)) ` set ys"
  proof -
    have "set tl' = {p \<in> (\<lambda>s. (psName s, psRank s)) ` set stages. rank < snd p}"
      using ok(1) assms(4) by (auto simp: tl'_def)
    also have "\<dots> = (\<lambda>s. (psName s, psRank s)) ` set ys"
      using inc s(3) by (fastforce simp: st sorted_wrt_append)
    finally show ?thesis .
  qed
  have sorted_tl: "sorted (map snd tl')" unfolding tl'_def by (intro sorted_filter) simp
  show ?thesis
  proof (cases ys)
    case Nil
    then have "tl' = []" using set_tl by simp
    then show ?thesis
      using nextStage_split [of xs s ys] ok(3) [OF assms(2)] st s(2) Nil by (simp add: tl'_def)
  next
    case (Cons t ys')
    then obtain p ps where p: "tl' = p # ps" using set_tl by (cases tl') auto
    have "(psName t, psRank t) \<in> set tl'" using set_tl Cons by simp
    then have "snd p \<le> psRank t" using sorted_tl p by auto
    moreover have "psRank t \<le> psRank u" if "u \<in> set ys" for u
      using that inc Cons by (auto simp: sorted_wrt_append less_imp_le)
    moreover obtain u where u: "u \<in> set ys" "p = (psName u, psRank u)" using set_tl p by auto
    ultimately have "psRank u = psRank t" by fastforce
    moreover have "distinct (map psRank ys)"
      using inc by (auto simp: sorted_wrt_append strict_sorted_iff)
    ultimately have "u = t" using u(1) Cons unfolding distinct_map by (metis inj_onD list.set_intros(1))
    then show ?thesis
      using nextStage_split [of xs s ys] ok(3) [OF assms(2)] st s(2) Cons p u(2) by (simp add: tl'_def)
  qed
qed

lemma next_is_least_greater_witness:
  "nextStage [\<lparr>psName = ''dev'', psRank = 1\<rparr>, \<lparr>psName = ''prod'', psRank = 7\<rparr>] ''dev'' = Some ''prod''"
proof -
  have r: "readPromotion [(''prod'', 7), (''lab'', 0), (''dev'', 1)]
      = Inr [\<lparr>psName = ''dev'', psRank = 1\<rparr>, \<lparr>psName = ''prod'', psRank = 7\<rparr>]"
    by code_simp
  show ?thesis using next_is_least_greater [OF r, of "''dev''" 1] by simp
qed

subsection \<open>The generated pipeline, read back\<close>

lemma cut_on_found: "cut_on sep s = (a, b, True) \<Longrightarrow> s = a @ sep @ b"
proof (induction sep s arbitrary: a b rule: cut_on.induct)
  case (2 sep c s)
  show ?case
  proof (cases "has_prefix (c # s) sep")
    case True
    with "2.prems" have "a = []" "b = drop (length sep) (c # s)" by auto
    with True show ?thesis by (simp add: has_prefix_def) (metis append_take_drop_id)
  next
    case False
    with 2 show ?thesis by (auto split: prod.splits)
  qed
qed (auto split: if_splits)

lemma env_plain:
  assumes "envName s = None"
  shows "s \<noteq> [] \<and> \<not> unresolvable s \<and> s \<noteq> preflightJob"
proof -
  have re: "envNameRe s" "s \<noteq> preflightJob"
    using assms by (auto simp: envName_def reservedEnvNames_def preflightJob_def split: if_splits)
  then have "CHR ''$'' \<notin> set s"
    by (auto simp: envNameRe_def lowerLetter_def is_digit_def list_all_iff split: list.splits)
  then have "\<not> unresolvable s" by (auto simp: unresolvable_def contains_iff)
  with re show ?thesis by (auto simp: envNameRe_def)
qed

definition goodCaller :: "promoCaller \<Rightarrow> bool" where
  "goodCaller c \<longleftrightarrow> (pcUses c = localTerraformUses \<or> crossUses (pcUses c) \<and> \<not> contains (pcUses c) ''<@'')
     \<and> pcRepo c \<noteq> [] \<and> firstWord (pcRepo c) = pcRepo c \<and> \<not> contains (pcRepo c) ''<@''"

lemma firstWord_idem: "firstWord (firstWord v) = firstWord v"
proof -
  have "\<forall>c \<in> set (firstWord v). \<not> is_space c" by (auto simp: firstWord_def dest: set_takeWhileD)
  then have "dropWhile is_space (firstWord v) = firstWord v"
    by (cases "firstWord v") auto
  with \<open>\<forall>c \<in> set (firstWord v). \<not> is_space c\<close> show ?thesis
    unfolding firstWord_def [of "firstWord v"] by (simp add: takeWhile_eq_all_conv)
qed

lemma callerFromWorkflow_good:
  assumes "callerFromWorkflow d = Some c"
  shows "goodCaller c"
proof -
  from assms obtain d' where d: "d = Some d'" by (auto simp: callerFromWorkflow_def split: option.splits)
  define repos where "repos = map (firstWord \<circ> jbRepo) (dcJobs d')"
  from assms obtain repo where repo: "find (\<lambda>r. r \<noteq> []) repos = Some repo" "pcRepo c = repo" "\<not> contains repo ''<@''"
    by (auto simp: callerFromWorkflow_def d Let_def repos_def split: option.splits if_splits)
  have "repo \<in> set repos" "repo \<noteq> []" using find_Some_in [OF repo(1)] by auto
  then have "firstWord repo = repo" by (auto simp: repos_def firstWord_idem)
  moreover have "pcUses c = localTerraformUses \<or> crossUses (pcUses c) \<and> \<not> contains (pcUses c) ''<@''"
    using assms by (auto simp: callerFromWorkflow_def d Let_def dest!: find_Some_in split: option.splits if_splits)
  ultimately show ?thesis using repo \<open>repo \<noteq> []\<close> by (simp add: goodCaller_def)
qed

lemma resolveCaller_good:
  assumes "resolveCaller got tf ans = Some c"
    and "ans = [] \<or> firstWord ans = ans \<and> \<not> contains ans ''<@''"
  shows "goodCaller c"
  using assms callerFromWorkflow_good
  by (auto simp: resolveCaller_def goodCaller_def split: option.splits if_splits)

lemma stage_uses: "goodCaller c \<Longrightarrow> contains (pcUses c) ''llz-terraform.yml''"
proof -
  have m: "contains crossMark ''llz-terraform.yml''" "contains localTerraformUses ''llz-terraform.yml''" by code_simp+
  assume "goodCaller c"
  then consider "pcUses c = localTerraformUses" | "crossUses (pcUses c)" by (auto simp: goodCaller_def)
  then show ?thesis
  proof cases
    case 2
    then obtain a b where "cut_on crossMark (pcUses c) = (a, b, True)" by (auto simp: crossUses_def split: prod.splits)
    from cut_on_found [OF this] show ?thesis using contains_append [OF m(1), of a b] by simp
  qed (use m in simp)
qed

lemma stageJobs_facts:
  "map jbId (stageJobs c solo after ss) = map psName ss"
  "j \<in> set (stageJobs c solo after ss) \<Longrightarrow> jbUses j = pcUses c \<and> jbRepo j = pcRepo c \<and> jbRegion j = jbId j
     \<and> jbAction j = ''apply'' \<and> jbId j \<in> psName ` set ss"
  by (induction ss arbitrary: after) (auto simp: stageJob_def)

lemma caller_reread:
  assumes "goodCaller c"
  shows "callerFromWorkflow (Some (renderPromoteWorkflow c (s # ss))) = Some c"
proof -
  define js where "js = stageJobs c (length (s # ss) = 1) (psName s) ss"
  define solo where "solo = (length (s # ss) = 1)"
  have jobs: "dcJobs (renderPromoteWorkflow c (s # ss)) = preflight # stageJob c solo preflightJob s # js"
    by (simp add: renderPromoteWorkflow_def js_def solo_def Let_def)
  have js: "\<forall>j \<in> set js. jbUses j = pcUses c" using stageJobs_facts(2) by (simp add: js_def)
  have nil: "firstWord [] = []" "\<not> crossUses []" "[] \<noteq> localTerraformUses"
    by (simp_all add: firstWord_def crossUses_def crossMark_def localTerraformUses_def)
  have repo: "find (\<lambda>r. r \<noteq> []) (map (firstWord \<circ> jbRepo) (preflight # stageJob c solo preflightJob s # js)) = Some (pcRepo c)"
    using assms by (simp add: preflight_def stageJob_def nil goodCaller_def)
  have uses: "map jbUses (preflight # stageJob c solo preflightJob s # js) = [] # pcUses c # map jbUses js"
    by (simp add: preflight_def stageJob_def)
  have member: "List.member ([] # pcUses c # map jbUses js) localTerraformUses \<longleftrightarrow> pcUses c = localTerraformUses"
    using js nil(3) by auto
  have cross: "pcUses c \<noteq> localTerraformUses \<Longrightarrow> find crossUses ([] # pcUses c # map jbUses js) = Some (pcUses c)
      \<and> \<not> contains (pcUses c) ''<@''"
    using assms nil(2) by (simp add: goodCaller_def)
  show ?thesis
    unfolding callerFromWorkflow_def option.case jobs Let_def repo uses member
    using cross assms by (auto simp: goodCaller_def)
qed

lemma undeclared_none:
  "\<forall>s \<in> set ss. stEnv s \<noteq> [] \<and> \<not> unresolvable (stEnv s) \<and> stEnv s \<in> set declared \<Longrightarrow>
     undeclaredStages ss declared = ([], [])"
  by (induction ss) auto

definition stageLine :: "promoCaller \<Rightarrow> promoStage list \<Rightarrow> stageRef list" where
  "stageLine c stages = map stageOf (sort_key jbId (stageJobs c (length stages = 1) preflightJob stages))"

lemma rendered_stages:
  assumes "goodCaller c" and "distinct (map psName stages)" and "preflightJob \<notin> psName ` set stages"
  shows "workflowStages (renderPromoteWorkflow c stages) = Inr (stageLine c stages)"
proof -
  define js where "js = stageJobs c (length stages = 1) preflightJob stages"
  have ids: "map jbId (preflight # js) = preflightJob # map psName stages"
    by (simp add: js_def stageJobs_facts preflight_def)
  have stage: "filter isStage (preflight # js) = js"
  proof -
    have "\<forall>j \<in> set js. isStage j" using stage_uses [OF assms(1)] stageJobs_facts(2) by (simp add: isStage_def js_def)
    moreover have "\<not> isStage preflight" by (simp add: isStage_def preflight_def)
    ultimately show ?thesis by simp
  qed
  have "distinct (map jbId (preflight # js))" unfolding ids using assms(2,3) by simp
  moreover have "filter isStage (sort_key jbId (preflight # js)) = sort_key jbId js"
    unfolding filter_sort stage ..
  ultimately show ?thesis
    by (simp add: workflowStages_def renderPromoteWorkflow_def js_def Let_def stageLine_def)
qed

lemma stageLine_facts:
  assumes "s \<in> set (stageLine c stages)"
  shows "stAction s = ''apply''" "stEnv s = stJob s" "stJob s \<in> psName ` set stages"
proof -
  from assms obtain j where "j \<in> set (stageJobs c (length stages = 1) preflightJob stages)" "s = stageOf j"
    by (auto simp: stageLine_def)
  with stageJobs_facts(2) [OF this(1)] show "stAction s = ''apply''" "stEnv s = stJob s" "stJob s \<in> psName ` set stages"
    by (simp_all add: stageOf_def)
qed

lemma stageLine_promoting: "promotingStages (stageLine c stages) = stageLine c stages"
  using stageLine_facts(1) by (simp add: promotingStages_def)

lemma length_stageLine: "length (stageLine c stages) = length stages"
proof -
  have "length (stageJobs c solo after ss) = length ss" for solo after ss
    using stageJobs_facts(1) [of c solo after ss] by (metis length_map)
  then show ?thesis by (simp add: stageLine_def)
qed

lemma stageLine_ordered: "\<not> unordered (stageLine c stages)"
proof (cases stages)
  case (Cons s0 rest)
  show ?thesis
  proof (cases rest)
    case Nil
    then show ?thesis
      unfolding unordered_def stageLine_promoting Let_def using Cons by (simp add: length_stageLine)
  next
    case (Cons s1 ss)
    note stages = \<open>stages = s0 # rest\<close> Cons
    have "stageOf (stageJob c False (psName s0) s1) \<in> set (stageLine c stages)"
      "stageOf (stageJob c False preflightJob s0) \<in> set (stageLine c stages)"
      unfolding stageLine_def set_map set_sort by (simp_all add: stages)
    then have "list_ex (\<lambda>s. list_ex (\<lambda>n. List.member (map stJob (stageLine c stages)) n) (stNeeds s)) (stageLine c stages)"
      unfolding list_ex_iff by (intro bexI [of _ "stageOf (stageJob c False (psName s0) s1)"])
        (force simp: stageOf_def stageJob_def)+
    then show ?thesis unfolding unordered_def stageLine_promoting Let_def by (simp only: if_False simp_thms if_cancel)
  qed
qed (simp add: unordered_def stageLine_def promotingStages_def)

text \<open>
  What \<open>planWorkflow\<close> needs of an instance: valid deployment names, ranks only of declared ones, and
  copier answers that hold a rendered repository name or none.
\<close>

definition instanceOk :: "repoState \<Rightarrow> bool" where
  "instanceOk r \<longleftrightarrow>
     (\<forall>ds. rsDeclared r = Some ds \<longrightarrow> list_all (\<lambda>d. envName d = None) ds)
     \<and> (\<forall>ds ranks. rsDeclared r = Some ds \<and> rsRanks r = Some ranks \<longrightarrow>
          distinct (map fst ranks) \<and> list_all (List.member ds) (map fst ranks))
     \<and> (rsAnswers r = [] \<or> firstWord (rsAnswers r) = rsAnswers r \<and> \<not> contains (rsAnswers r) ''<@'')"

text \<open>What a plan's file settles to, once written.\<close>

definition settled :: "plan \<Rightarrow> bool" where
  "settled p \<longleftrightarrow> plContent p = None \<and> \<not> plChanged p \<and> runnableErr p False = None"

lemma settled_line:
  assumes "rsPromote r = File (renderPromoteWorkflow c (s # ss))" and "goodCaller c"
    and "\<forall>t \<in> set (s # ss). envName (psName t) = None \<and> psName t \<in> set declared"
    and "distinct (map psName (s # ss))"
  shows "onDiskStages (rsPromote r) = Inr (stageLine c (s # ss))"
    and "undeclaredStages (stageLine c (s # ss)) declared = ([], [])"
    and "resolveCaller (fileDoc (rsPromote r)) tf ans = Some c"
proof -
  have "preflightJob \<notin> psName ` set (s # ss)"
  proof
    assume "preflightJob \<in> psName ` set (s # ss)"
    then obtain t where t: "t \<in> set (s # ss)" "psName t = preflightJob" by (metis imageE)
    from assms(3) t(1) have "envName (psName t) = None" by blast
    from env_plain [OF this] t(2) show False by simp
  qed
  from rendered_stages [OF assms(2,4) this]
  show "onDiskStages (rsPromote r) = Inr (stageLine c (s # ss))" by (simp add: onDiskStages_def assms(1))
  show "undeclaredStages (stageLine c (s # ss)) declared = ([], [])"
  proof (intro undeclared_none ballI)
    fix st assume "st \<in> set (stageLine c (s # ss))"
    then have "stEnv st \<in> psName ` set (s # ss)"
      using stageLine_facts(2,3) [of st c "s # ss"] by simp
    then obtain t where t: "t \<in> set (s # ss)" "stEnv st = psName t" by blast
    with assms(3) have "envName (psName t) = None" "psName t \<in> set declared" by blast+
    then show "stEnv st \<noteq> [] \<and> \<not> unresolvable (stEnv st) \<and> stEnv st \<in> set declared"
      using env_plain t(2) by simp
  qed
  show "resolveCaller (fileDoc (rsPromote r)) tf ans = Some c"
    using caller_reread [OF assms(2), of s ss] by (simp add: resolveCaller_def fileDoc_def assms(1))
qed

lemma settledI:
  "plContent p = None \<Longrightarrow> \<not> plChanged p \<Longrightarrow> plUndeclared p = [] \<Longrightarrow> \<not> unordered (plStages p) \<Longrightarrow> settled p"
  by (simp add: settled_def runnableErr_def undeclaredErr_def unorderedErr_def)

text \<open>The second look at a chain, at a single stage and at the placeholder.\<close>

lemma chain_settles:
  assumes r: "rsPromote r' = File (renderPromoteWorkflow c stages)" and "goodCaller c" and "2 \<le> length stages"
    and names: "\<forall>t \<in> set stages. envName (psName t) = None \<and> psName t \<in> set declared" "distinct (map psName stages)"
  shows "\<exists>p. decideWorkflow r' path declared (stageLine c stages) stages = Inr p \<and> settled p
     \<and> plStages p = stageLine c stages \<and> plDeclared p = declared"
proof -
  obtain s ss where st: "stages = s # ss" using assms(3) by (cases stages) auto
  note again = settled_line [OF r [unfolded st] assms(2) names [unfolded st], folded st]
  show ?thesis
    using assms(3) again(2,3) r stageLine_ordered
    by (auto simp: decideWorkflow_def Let_def fileDoc_def intro!: settledI)
qed

lemma solo_settles:
  assumes r: "rsPromote r' = File (renderPromoteWorkflow c [only])" and "goodCaller c"
    and only: "declared = [psName only]" "envName (psName only) = None"
      "stages = [only] \<or> stages = [] \<and> psRank only = 0"
  shows "\<exists>p. decideWorkflow r' path declared (stageLine c [only]) stages = Inr p \<and> settled p
     \<and> plStages p = stageLine c [only] \<and> plDeclared p = declared"
proof -
  have again: "undeclaredStages (stageLine c [only]) declared = ([], [])"
    "resolveCaller (fileDoc (rsPromote r')) (rsTerraform r') (rsAnswers r') = Some c"
    using settled_line [OF r assms(2), of declared] only by auto
  have gen: "llzGenerated (fileDoc (rsPromote r'))"
    by (simp add: llzGenerated_def fileDoc_def r renderPromoteWorkflow_def Let_def)
  have same: "psRank only = 0 \<Longrightarrow> \<lparr>psName = psName only, psRank = 0\<rparr> = only" by (cases only) simp
  have "\<exists>p. decideWorkflow r' path declared (stageLine c [only]) stages = Inr p \<and> plContent p = None
      \<and> \<not> plChanged p \<and> plUndeclared p = [] \<and> plStages p = stageLine c [only] \<and> plDeclared p = declared"
    using only(3)
  proof
    assume "stages = [only]"
    then show ?thesis using again gen only(1) by (simp add: decideWorkflow_def Let_def) (simp add: fileDoc_def r)
  next
    assume st: "stages = [] \<and> psRank only = 0"
    then have "hd declared = psName only" "length stages = 0" "\<lparr>psName = psName only, psRank = 0\<rparr> = only"
      using only(1) same by simp_all
    then show ?thesis
      using again gen only(1) by (simp add: decideWorkflow_def Let_def) (simp add: fileDoc_def r)
  qed
  then show ?thesis using settledI stageLine_ordered by fastforce
qed

lemma placeholder_settles:
  assumes r: "rsPromote r' = File renderPlaceholderWorkflow"
    and caller: "callerFromWorkflow (rsTerraform r') = None \<and> rsAnswers r' = [] \<or> length declared \<noteq> 1"
    and "length stages < 2"
  shows "\<exists>p. decideWorkflow r' path declared [] stages = Inr p \<and> settled p \<and> plStages p = [] \<and> plDeclared p = declared"
proof -
  have "callerFromWorkflow (Some renderPlaceholderWorkflow) = None"
    by (simp add: callerFromWorkflow_def renderPlaceholderWorkflow_def preflight_def crossUses_def crossMark_def
        localTerraformUses_def)
  then have "resolveCaller (fileDoc (rsPromote r')) (rsTerraform r') (rsAnswers r') = None \<or> length declared \<noteq> 1"
    using caller by (auto simp: resolveCaller_def fileDoc_def r)
  then have "\<exists>p. decideWorkflow r' path declared [] stages = Inr p \<and> plContent p = None \<and> \<not> plChanged p
      \<and> plUndeclared p = [] \<and> plStages p = [] \<and> plDeclared p = declared"
    using assms(3) by (auto simp: decideWorkflow_def Let_def namesMissingDeployment_def)
  moreover have "\<not> unordered []" by (simp add: unordered_def promotingStages_def)
  ultimately show ?thesis using settledI by fastforce
qed

lemma workflowStages_placeholder: "workflowStages renderPlaceholderWorkflow = Inr []"
  by (simp add: workflowStages_def renderPlaceholderWorkflow_def isStage_def preflight_def)

lemma planWorkflow_decide:
  "planWorkflow r [] = Inr p \<longleftrightarrow> (\<exists>declared onDisk ranks stages. rsDeclared r = Some declared
     \<and> onDiskStages (rsPromote r) = Inr onDisk \<and> rsRanks r = Some ranks \<and> readPromotion ranks = Inr stages
     \<and> decideWorkflow r ''.github/workflows/promote.yml'' declared onDisk stages = Inr p)"
  by (auto simp: planWorkflow_def promoteWorkflowPath_def split: option.splits sum.splits)

text \<open>The three ways a plan can have something to write.\<close>

lemma decide_cases:
  assumes "decideWorkflow r path declared onDisk stages = Inr p" and "plContent p = Some d"
  obtains (chain) c where "2 \<le> length stages" "d = renderPromoteWorkflow c stages"
      "resolveCaller (fileDoc (rsPromote r)) (rsTerraform r) (rsAnswers r) = Some c"
  | (solo) c only where "d = renderPromoteWorkflow c [only]" "length declared = 1"
      "resolveCaller (fileDoc (rsPromote r)) (rsTerraform r) (rsAnswers r) = Some c"
      "stages = [only] \<or> stages = [] \<and> only = \<lparr>psName = hd declared, psRank = 0\<rparr>"
  | (placeholder) "d = renderPlaceholderWorkflow" "length stages < 2"
      "resolveCaller (fileDoc (rsPromote r)) (rsTerraform r) (rsAnswers r) = None \<or> length declared \<noteq> 1"
proof -
  define caller where "caller = resolveCaller (fileDoc (rsPromote r)) (rsTerraform r) (rsAnswers r)"
  obtain bad un where u: "undeclaredStages onDisk declared = (bad, un)" by fastforce
  note unf = assms(1) [unfolded decideWorkflow_def Let_def u prod.case caller_def [symmetric]]
  show thesis
  proof (cases "length stages < 2")
    case False
    then obtain c where c: "caller = Some c" "d = renderPromoteWorkflow c stages"
      using unf assms(2) by (auto split: option.splits if_splits)
    show thesis using False c by (intro chain) (simp_all add: caller_def)
  next
    case few: True
    show thesis
    proof (cases "caller \<noteq> None \<and> length declared = 1 \<and>
        (namesMissingDeployment bad \<noteq> [] \<or> promotingStages onDisk = [] \<or> llzGenerated (fileDoc (rsPromote r)))")
      case True
      then obtain c where c: "caller = Some c" by auto
      define only where "only = (if length stages = 1 then hd stages else \<lparr>psName = hd declared, psRank = 0\<rparr>)"
      have "d = renderPromoteWorkflow c [only]"
        using unf assms(2) few True c by (auto simp: only_def split: if_splits)
      moreover have "stages = [only] \<or> stages = [] \<and> only = \<lparr>psName = hd declared, psRank = 0\<rparr>"
        using few by (cases stages) (auto simp: only_def)
      ultimately show thesis using True c by (intro solo [of c only]) (simp_all add: caller_def)
    next
      case False
      then have m: "namesMissingDeployment bad \<noteq> [] \<and> p = \<lparr>plPath = path, plContent = Some renderPlaceholderWorkflow,
          plChanged = True, plOrder = [], plStages = onDisk, plUndeclared = bad, plUnresolved = un, plDeclared = declared\<rparr>"
        using unf assms(2) few by (auto split: if_splits)
      show thesis using False m few assms(2) by (intro placeholder) (auto simp: caller_def)
    qed
  qed
qed

text \<open>C25: llz env pipeline settles: after the file a plan asks for is written, the next plan leaves it
  alone, every check passes without a pipeline being required, and what it reads back is what
  Applied predicted.\<close>

theorem pipeline_settles:
  assumes ok: "instanceOk r" and p: "planWorkflow r [] = Inr p" and d: "plContent p = Some d"
  shows "\<exists>q. planWorkflow (r\<lparr>rsPromote := File d\<rparr>) [] = Inr q \<and> settled q \<and> plStages q = plStages (applied p)"
proof -
  obtain declared onDisk ranks stages where pl: "rsDeclared r = Some declared" "rsRanks r = Some ranks"
    "readPromotion ranks = Inr stages" "decideWorkflow r ''.github/workflows/promote.yml'' declared onDisk stages = Inr p"
    using p by (auto simp: planWorkflow_decide)
  define r' where "r' = r\<lparr>rsPromote := File d\<rparr>"
  have r': "rsPromote r' = File d" "rsDeclared r' = Some declared" "rsRanks r' = Some ranks"
    "rsTerraform r' = rsTerraform r" "rsAnswers r' = rsAnswers r" using pl by (simp_all add: r'_def)
  have valid: "\<forall>n \<in> set declared. envName n = None" "distinct (map fst ranks)" "fst ` set ranks \<subseteq> set declared"
    using ok pl by (auto simp: instanceOk_def list_all_iff)
  note ranked = readPromotion_ok [OF pl(3)]
  have names: "\<forall>t \<in> set stages. envName (psName t) = None \<and> psName t \<in> set declared"
  proof
    fix t assume "t \<in> set stages"
    then have "(psName t, psRank t) \<in> set ranks" using ranked(1) by (auto simp: set_eq_iff image_iff)
    then have "psName t \<in> set declared" using valid(3) by force
    then show "envName (psName t) = None \<and> psName t \<in> set declared" using valid(1) by simp
  qed
  have good: "goodCaller c" if "resolveCaller (fileDoc (rsPromote r)) (rsTerraform r) (rsAnswers r) = Some c" for c
    using resolveCaller_good [OF that] ok by (auto simp: instanceOk_def)
  have stages_of: "plStages (applied p) = ss" if "workflowStages d = Inr ss" for ss
    using that d by (simp add: applied_def Let_def split: prod.split)
  from pl(4) d have "\<exists>ss q. onDiskStages (rsPromote r') = Inr ss \<and> workflowStages d = Inr ss
      \<and> decideWorkflow r' ''.github/workflows/promote.yml'' declared ss stages = Inr q \<and> settled q \<and> plStages q = ss"
  proof (cases rule: decide_cases)
    case (chain c)
    have "workflowStages d = Inr (stageLine c stages)"
      unfolding chain(2) using good [OF chain(3)] ranked(3) [OF valid(2)] names env_plain
      by (intro rendered_stages) (auto simp: image_iff, metis)
    moreover obtain q where "decideWorkflow r' ''.github/workflows/promote.yml'' declared (stageLine c stages) stages = Inr q"
      "settled q" "plStages q = stageLine c stages"
      using chain_settles [OF _ good [OF chain(3)] chain(1) names ranked(3) [OF valid(2)]] r'(1) chain(2) by metis
    ultimately show ?thesis by (simp add: onDiskStages_def r'(1))
  next
    case (solo c only)
    obtain n where n: "declared = [n]" using solo(2) by (cases declared; cases "tl declared") auto
    have o: "psName only = n" "stages = [only] \<or> stages = [] \<and> psRank only = 0"
      using solo(4) names n by auto
    have en: "envName (psName only) = None" using o valid(1) n by simp
    have "workflowStages d = Inr (stageLine c [only])"
      unfolding solo(1) using good [OF solo(3)] env_plain [OF en] by (intro rendered_stages) auto
    moreover obtain q where "decideWorkflow r' ''.github/workflows/promote.yml'' declared (stageLine c [only]) stages = Inr q"
      "settled q" "plStages q = stageLine c [only]"
      using solo_settles [OF _ good [OF solo(3)] _ en o(2), of r' declared] r'(1) solo(1) n o(1) by metis
    ultimately show ?thesis by (simp add: onDiskStages_def r'(1))
  next
    case placeholder
    have "callerFromWorkflow (rsTerraform r') = None \<and> rsAnswers r' = [] \<or> length declared \<noteq> 1"
      using placeholder(3) by (auto simp: resolveCaller_def r'(4,5) split: option.splits if_splits)
    from placeholder_settles [OF _ this placeholder(2)] r'(1) placeholder(1)
    obtain q where "decideWorkflow r' ''.github/workflows/promote.yml'' declared [] stages = Inr q" "settled q" "plStages q = []"
      by metis
    then show ?thesis using placeholder(1) by (simp add: onDiskStages_def r'(1) workflowStages_placeholder)
  qed
  then obtain ss q where "onDiskStages (rsPromote r') = Inr ss" "workflowStages d = Inr ss"
    "decideWorkflow r' ''.github/workflows/promote.yml'' declared ss stages = Inr q" "settled q" "plStages q = ss" by blast
  moreover from this have "planWorkflow r' [] = Inr q" using r'(2,3) pl(3) by (auto simp: planWorkflow_decide)
  ultimately show ?thesis using stages_of unfolding r'_def by metis
qed

definition freshInstance :: repoState where
  "freshInstance = \<lparr>rsDeclared = Some [''dev'', ''prod''], rsRanks = Some [(''prod'', 2), (''dev'', 1)],
     rsPromote = Absent, rsTerraform = None, rsAnswers = ''acme/landing''\<rparr>"

definition freshChain :: promoteDoc where
  "freshChain = renderPromoteWorkflow \<lparr>pcUses = localTerraformUses, pcRepo = ''acme/landing''\<rparr>
     [\<lparr>psName = ''dev'', psRank = 1\<rparr>, \<lparr>psName = ''prod'', psRank = 2\<rparr>]"

lemma freshInstance_plans:
  "case planWorkflow freshInstance [] of Inr p \<Rightarrow> plContent p = Some freshChain \<and> plChanged p | Inl _ \<Rightarrow> False"
  by code_simp

lemma pipeline_settles_witness:
  "\<exists>q. planWorkflow (freshInstance\<lparr>rsPromote := File freshChain\<rparr>) [] = Inr q \<and> settled q"
proof -
  obtain p where p: "planWorkflow freshInstance [] = Inr p" "plContent p = Some freshChain"
    using freshInstance_plans by (cases "planWorkflow freshInstance []") auto
  have env: "envName ''dev'' = None" "envName ''prod'' = None"
    "firstWord ''acme/landing'' = ''acme/landing''" "\<not> contains ''acme/landing'' ''<@''"
    by code_simp+
  then have "instanceOk freshInstance" by (simp add: instanceOk_def freshInstance_def)
  from pipeline_settles [OF this p] show ?thesis by blast
qed

end
