(* ===== verification/Spec_Types.thy ===== *)
theory Spec_Types
  imports Promotion "HOL-Library.AList"
begin

text \<open>
  \<open>internal/shared/clusterspec\<close> (\<open>types.go\<close>, \<open>components.go\<close>, \<open>merge.go\<close>, \<open>defaults.go\<close>, \<open>instance.go\<close>): the
  landing-zone spec, the component registry, and how an instance is assembled: the shared defaults
  folded under every environment, then the built-in defaults. A pointer is an option, a slice that
  may be nil too; a Go map is an association list with distinct keys (nil and empty read alike).
  YAML decoding is left out: documents come decoded. The lemmas give the precedence of every field
  and show that both steps are idempotent.
\<close>

named_theorems spec_defs \<open>the operations of the spec, by definition\<close>

subsection \<open>The spec (\<open>types.go\<close>)\<close>

record nodePool =
  npType :: string
  npCount :: int
  npAutoscaler :: "bool option"
  npMin :: "int option"
  npMax :: "int option"

record controlPlane =
  cpHA :: "bool option"
  cpAudit :: "bool option"

record allowCIDRs =
  acV4 :: "string list option"
  acV6 :: "string list option"

record clusterNetwork =
  nwVPC :: string
  nwSubnet :: string

record haSpec =
  haRole :: string
  haGroup :: string

record aplValues =
  avRepoURL :: string
  avRevision :: string
  avUsername :: string

record bootstrap =
  bsName :: string
  bsDomainSuffix :: string
  bsAplChart :: string
  bsAplValues :: aplValues
  bsAppsRevision :: string
  bsManaged :: bool
  bsManageApl :: "bool option"
  bsManagedApps :: "string list option"

record objectStorage =
  osCluster :: string
  osRotationDays :: int

record database =
  dbRegion :: string
  dbVPCID :: int
  dbSubnetID :: int
  dbEngine :: string
  dbNodeType :: string
  dbSize :: int

record clusterSpec =
  clLabel :: string
  clRegion :: string
  clK8s :: string
  clTags :: "string list option"
  clPool :: nodePool
  clControl :: controlPlane
  clAllow :: allowCIDRs
  clNetwork :: clusterNetwork
  clHA :: haSpec
  clRank :: int
  clBoot :: bootstrap
  clObj :: objectStorage
  clDatabases :: "(string \<times> database) list"

record componentToggle =
  tgEnabled :: "bool option"
  tgExplicit :: "bool option"
  tgRetention :: string
  tgStorage :: string
  tgReplicas :: "int option"
  tgRegistry :: string
  tgPATLabel :: string
  tgPATDeployments :: string

record environment =
  enCluster :: clusterSpec
  enComponents :: "(string \<times> componentToggle) list"

record specDefaults =
  sdCluster :: clusterSpec
  sdComponents :: "(string \<times> componentToggle) list"

record specInstance =
  siOrg :: string
  siRepo :: string
  siForge :: string
  siPrefix :: string

record team =
  tmName :: string
  tmSubtree :: string
  tmQuota :: "(string \<times> string) list"

record alerting =
  alReceivers :: "string list"
  alChannel :: string
  alChannelCrit :: string

record oWrite =
  owPath :: string

record oMount =
  moPath :: string
  moType :: string
  moTTL :: string
  moConfig :: "oWrite list"
  moOperators :: "string list"

record oRule =
  ruPath :: string
  ruCaps :: "string list"

record oPolicy =
  poName :: string
  poRules :: "oRule list"

record oRole =
  roName :: string
  roAccounts :: "string list"
  roNamespaces :: "string list"
  roPolicies :: "string list"
  roTTL :: string

record openbaoExt =
  oeMounts :: "oMount list"
  oePolicies :: "oPolicy list"
  oeRoles :: "oRole list"

record landingZone =
  lzAPIVersion :: string
  lzKind :: string
  lzName :: string
  lzInstance :: specInstance
  lzNetworks :: "(string \<times> string) list"   \<comment> \<open>the region of each network\<close>
  lzDefaults :: specDefaults
  lzAlerting :: alerting
  lzEnvironments :: "(string \<times> environment) list"
  lzTeams :: "team list"
  lzOpenBao :: openbaoExt

abbreviation apiVersion_llz :: string where "apiVersion_llz \<equiv> ''llz.akamai-consulting.io/v1alpha1''"
abbreviation kind_LandingZone :: string where "kind_LandingZone \<equiv> ''LandingZone''"

text \<open>A Go map: lookup is \<open>map_of\<close>, a store is \<open>AList.update\<close>.\<close>

definition sortedKeys :: "(string \<times> 'v) list \<Rightarrow> string list" where
  "sortedKeys m = sort (map fst m)"

definition envNames :: "landingZone \<Rightarrow> string list" where
  "envNames lz = sortedKeys (lzEnvironments lz)"

definition aplVersionManaged :: "bootstrap \<Rightarrow> bool" where
  "aplVersionManaged b \<longleftrightarrow> (case bsManageApl b of None \<Rightarrow> True | Some v \<Rightarrow> v)"

definition managedAppsOf :: "bootstrap \<Rightarrow> string list" where   \<comment> \<open>ranging over a nil slice\<close>
  "managedAppsOf b = (case bsManagedApps b of None \<Rightarrow> [] | Some l \<Rightarrow> l)"

definition managedAppEnabled :: "bootstrap \<Rightarrow> string \<Rightarrow> bool" where
  "managedAppEnabled b app \<longleftrightarrow> List.member (managedAppsOf b) app"

definition aplValuesBranch :: "bootstrap \<Rightarrow> string \<Rightarrow> string" where
  "aplValuesBranch b env =
     (if avRevision (bsAplValues b) \<noteq> [] then avRevision (bsAplValues b) else ''apl-'' @ env)"

definition appsRevision :: "bootstrap \<Rightarrow> string" where
  "appsRevision b = (if bsAppsRevision b \<noteq> [] then bsAppsRevision b else ''main'')"

subsection \<open>The component registry (\<open>components.go\<close>)\<close>

record component =
  cmName :: string
  cmMandatory :: bool
  cmDependsOn :: "string list"
  cmCoreApps :: "string list"
  cmManifests :: "string list"
  cmArgoApps :: "string list"
  cmPatches :: "string list"   \<comment> \<open>their paths\<close>
  cmCarvedApp :: "(string \<times> int \<times> string) option"   \<comment> \<open>its name, wave and namespace\<close>
  cmDefaultDisabled :: bool
  cmManagedSkip :: bool
  cmCondApp :: string
  cmCondComponent :: string

definition plainComponent :: "string \<Rightarrow> component" where   \<comment> \<open>the zero value with a name\<close>
  "plainComponent nm = \<lparr>cmName = nm, cmMandatory = False, cmDependsOn = [], cmCoreApps = [],
     cmManifests = [], cmArgoApps = [], cmPatches = [], cmCarvedApp = None, cmDefaultDisabled = False,
     cmManagedSkip = False, cmCondApp = [], cmCondComponent = []\<rparr>"

definition Components :: "component list" where
  "Components = [
    (plainComponent ''argocd'') \<lparr>cmMandatory := True, cmManifests := [''argocd''],
       cmArgoApps := [''platform-support-project.yaml'']\<rparr>,
    (plainComponent ''clusterFoundation'') \<lparr>cmMandatory := True,
       cmArgoApps := [''applications/cluster-foundation.yaml''], cmManagedSkip := True\<rparr>,
    (plainComponent ''externalSecrets'') \<lparr>cmManifests := [''external-secrets/network-policies.yaml''],
       cmArgoApps := [''applications/external-secrets-operator.yaml''],
       cmCarvedApp := Some (''llz-externalsecrets'', - 10, ''external-secrets'')\<rparr>,
    (plainComponent ''argoWorkflows'') \<lparr>cmManifests := [''argo-workflows/network-policies.yaml'',
         ''argo-workflows/cert-automation-namespace.yaml''],
       cmArgoApps := [''applications/argo-workflows.yaml''], cmCondComponent := ''clusterHealthWorkflow''\<rparr>,
    (plainComponent ''argoEvents'') \<lparr>cmManifests := [''argo-events/network-policies.yaml''],
       cmArgoApps := [''applications/argo-events.yaml''], cmManagedSkip := True\<rparr>,
    (plainComponent ''certManagerBootstrapCA'') \<lparr>cmManifests := [''openbao-bootstrap-ca.yaml'']\<rparr>,
    (plainComponent ''imageSignature'') \<lparr>cmManifests := [''kyverno-verify-llz-image-signature.yaml''],
       cmCondApp := ''kyverno''\<rparr>,
    (plainComponent ''openbao'') \<lparr>cmDependsOn := [''externalSecrets'', ''certManagerBootstrapCA''],
       cmManifests := [''openbao/openbao-cert-watcher.yaml''], cmArgoApps := [''applications/openbao.yaml'']\<rparr>,
    (plainComponent ''observability'')
      \<lparr>cmCoreApps := [''prometheus'', ''alertmanager'', ''grafana'', ''loki'', ''otel''],
       cmManifests := [''observability/otel-bootstrap-ca.yaml'', ''observability/otel-collector.yaml'',
         ''observability/prometheus-rules/openbao-alerts.yaml'',
         ''observability/prometheus-rules/support-plane-alerts.yaml''],
       cmPatches := [''otel-collector-tls-san-patch.yaml''],
       cmCarvedApp := Some (''llz-observability'', - 5, ''llz-observability''), cmCondApp := ''loki''\<rparr>,
    (plainComponent ''harbor'') \<lparr>cmCoreApps := [''harbor''],
       cmManifests := [''harbor/harbor-admin-push.yaml'', ''harbor/harbor-robot-provisioner''],
       cmPatches := [''harbor-provisioner-env-patch.yaml''],
       cmCarvedApp := Some (''llz-harbor'', 5, ''harbor''), cmCondApp := ''harbor''\<rparr>,
    (plainComponent ''policyEngine'') \<lparr>cmCoreApps := [''kyverno'', ''policy-reporter''], cmManagedSkip := True\<rparr>,
    (plainComponent ''imageScanning'') \<lparr>cmCoreApps := [''trivy''], cmManagedSkip := True\<rparr>,
    (plainComponent ''gitea'') \<lparr>cmCoreApps := [''gitea''], cmDefaultDisabled := True, cmManagedSkip := True\<rparr>,
    (plainComponent ''cidrFirewall'') \<lparr>cmDependsOn := [''externalSecrets''],
       cmManifests := [''llz-cidr-firewall''], cmDefaultDisabled := True\<rparr>,
    (plainComponent ''broadPatRotator'') \<lparr>cmDependsOn := [''externalSecrets''],
       cmManifests := [''broad-pat-rotator''], cmDefaultDisabled := True,
       cmPatches := [''broad-pat-rotator-env-patch.yaml''],
       cmCarvedApp := Some (''llz-broad-pat-rotator'', 5, ''llz-pat-rotator'')\<rparr>,
    (plainComponent ''objProxy'') \<lparr>cmDependsOn := [''externalSecrets''], cmManifests := [''obj-proxy''],
       cmDefaultDisabled := True,
       cmPatches := [''obj-proxy-env-patch.yaml'', ''obj-proxy-cert-patch.yaml'', ''obj-proxy-dns-patch.yaml''],
       cmCarvedApp := Some (''llz-obj-proxy'', 5, ''obj-proxy'')\<rparr>,
    (plainComponent ''llzReconciler'') \<lparr>cmDependsOn := [''observability''], cmManifests := [''llz-reconciler''],
       cmPatches := [''llz-reconciler-env-patch.yaml''],
       cmCarvedApp := Some (''llz-reconciler'', 5, ''llz-reconciler'')\<rparr>,
    (plainComponent ''clusterHealthWorkflow'') \<lparr>cmDependsOn := [''argoWorkflows''],
       cmManifests := [''llz-cluster-health-workflow''], cmDefaultDisabled := True\<rparr>]"

definition componentByName :: "string \<Rightarrow> component option" where
  "componentByName name = find (\<lambda>c. cmName c = name) Components"

definition KnownComponent :: "string \<Rightarrow> bool" where
  "KnownComponent name \<longleftrightarrow> componentByName name \<noteq> None"

type_synonym toggles = "(string \<times> componentToggle) list"

definition ComponentEnabled :: "toggles \<Rightarrow> string \<Rightarrow> bool" where
  "ComponentEnabled ts name = (case (case map_of ts name of None \<Rightarrow> None | Some t \<Rightarrow> tgEnabled t) of
      Some b \<Rightarrow> b
    | None \<Rightarrow> (case componentByName name of None \<Rightarrow> False | Some c \<Rightarrow> \<not> cmDefaultDisabled c))"

definition explicitlyEnabled :: "toggles \<Rightarrow> string \<Rightarrow> bool" where
  "explicitlyEnabled ts name = (case map_of ts name of
      None \<Rightarrow> False
    | Some t \<Rightarrow> tgExplicit t = Some True \<and> tgEnabled t = Some True)"

definition EmitOnManaged :: "component \<Rightarrow> bootstrap \<Rightarrow> toggles \<Rightarrow> bool" where
  "EmitOnManaged c b ts =
     (if cmManagedSkip c then False
      else if cmCondApp c \<noteq> [] then managedAppEnabled b (cmCondApp c)
      else if cmCondComponent c \<noteq> []
      then ComponentEnabled ts (cmCondComponent c) \<or> explicitlyEnabled ts (cmName c)
      else True)"

definition Backends :: "component \<Rightarrow> string list" where
  "Backends c = (if cmCoreApps c \<noteq> [] then [''apl-core''] else [])
     @ (if cmManifests c \<noteq> [] \<or> cmArgoApps c \<noteq> [] \<or> cmPatches c \<noteq> [] then [''llz-argo''] else [])"

text \<open>\<open>component_emits.go\<close>: is the content of a component on the cluster of an environment?\<close>

definition ComponentEmits :: "toggles \<Rightarrow> bootstrap \<Rightarrow> string \<Rightarrow> bool" where
  "ComponentEmits ts b name = (case componentByName name of
      None \<Rightarrow> False
    | Some c \<Rightarrow> cmMandatory c \<or> ComponentEnabled ts name \<and> EmitOnManaged c b ts)"

text \<open>The instance is as \<open>Detected\<close> finds it: an error, no spec, or the spec.\<close>

definition DisabledComponents :: "string + landingZone option \<Rightarrow> string \<Rightarrow> string list" where
  "DisabledComponents detected env = (case detected of
      Inl _ \<Rightarrow> []
    | Inr None \<Rightarrow> []
    | Inr (Some lz) \<Rightarrow> (case map_of (lzEnvironments lz) env of
          None \<Rightarrow> []
        | Some e \<Rightarrow> filter (\<lambda>n. \<not> ComponentEmits (enComponents e) (clBoot (enCluster e)) n)
            (map cmName Components)))"

subsection \<open>Inheritance (\<open>merge.go\<close>)\<close>

definition pickStr :: "string \<Rightarrow> string \<Rightarrow> string" where
  "pickStr base over = (if over \<noteq> [] then over else base)"

definition pickInt :: "int \<Rightarrow> int \<Rightarrow> int" where
  "pickInt base over = (if over > 0 then over else base)"

definition pickPtr :: "'a option \<Rightarrow> 'a option \<Rightarrow> 'a option" where   \<comment> \<open>\<open>pickBoolPtr\<close>, \<open>pickIntPtr\<close>, \<open>pickSlice\<close>\<close>
  "pickPtr base over = (if over \<noteq> None then over else base)"

definition mergeBoot :: "bootstrap \<Rightarrow> bootstrap \<Rightarrow> bootstrap" where   \<comment> \<open>the bootstrap lines of \<open>mergeCluster\<close>\<close>
  "mergeBoot base over = over
     \<lparr>bsName := pickStr (bsName base) (bsName over),
      bsDomainSuffix := pickStr (bsDomainSuffix base) (bsDomainSuffix over),
      bsManaged := (bsManaged base \<or> bsManaged over),
      bsManageApl := pickPtr (bsManageApl base) (bsManageApl over),
      bsManagedApps := pickPtr (bsManagedApps base) (bsManagedApps over),
      bsAplChart := pickStr (bsAplChart base) (bsAplChart over),
      bsAppsRevision := pickStr (bsAppsRevision base) (bsAppsRevision over),
      bsAplValues := (bsAplValues over)
        \<lparr>avRepoURL := pickStr (avRepoURL (bsAplValues base)) (avRepoURL (bsAplValues over)),
         avRevision := pickStr (avRevision (bsAplValues base)) (avRevision (bsAplValues over)),
         avUsername := pickStr (avUsername (bsAplValues base)) (avUsername (bsAplValues over))\<rparr>\<rparr>"

definition mergeCluster :: "clusterSpec \<Rightarrow> clusterSpec \<Rightarrow> clusterSpec" where
  "mergeCluster base over = over
     \<lparr>clLabel := pickStr (clLabel base) (clLabel over),
      clRegion := pickStr (clRegion base) (clRegion over),
      clK8s := pickStr (clK8s base) (clK8s over),
      clTags := pickPtr (clTags base) (clTags over),
      clRank := pickInt (clRank base) (clRank over),
      clPool := (clPool over)
        \<lparr>npType := pickStr (npType (clPool base)) (npType (clPool over)),
         npCount := pickInt (npCount (clPool base)) (npCount (clPool over)),
         npAutoscaler := pickPtr (npAutoscaler (clPool base)) (npAutoscaler (clPool over))\<rparr>,
      clControl := (clControl over)
        \<lparr>cpHA := pickPtr (cpHA (clControl base)) (cpHA (clControl over)),
         cpAudit := pickPtr (cpAudit (clControl base)) (cpAudit (clControl over))\<rparr>,
      clAllow := (clAllow over)
        \<lparr>acV4 := pickPtr (acV4 (clAllow base)) (acV4 (clAllow over)),
         acV6 := pickPtr (acV6 (clAllow base)) (acV6 (clAllow over))\<rparr>,
      clNetwork := (clNetwork over)
        \<lparr>nwVPC := pickStr (nwVPC (clNetwork base)) (nwVPC (clNetwork over)),
         nwSubnet := pickStr (nwSubnet (clNetwork base)) (nwSubnet (clNetwork over))\<rparr>,
      clHA := (clHA over)
        \<lparr>haRole := pickStr (haRole (clHA base)) (haRole (clHA over)),
         haGroup := pickStr (haGroup (clHA base)) (haGroup (clHA over))\<rparr>,
      clBoot := mergeBoot (clBoot base) (clBoot over),
      clObj := (clObj over)
        \<lparr>osCluster := pickStr (osCluster (clObj base)) (osCluster (clObj over)),
         osRotationDays := pickInt (osRotationDays (clObj base)) (osRotationDays (clObj over))\<rparr>\<rparr>"

definition zeroToggle :: componentToggle where
  "zeroToggle = \<lparr>tgEnabled = None, tgExplicit = None, tgRetention = [], tgStorage = [], tgReplicas = None,
     tgRegistry = [], tgPATLabel = [], tgPATDeployments = []\<rparr>"

definition mergeToggle :: "componentToggle \<Rightarrow> componentToggle \<Rightarrow> componentToggle" where
  "mergeToggle base over =
     \<lparr>tgEnabled = pickPtr (tgEnabled base) (tgEnabled over), tgExplicit = None,
      tgRetention = pickStr (tgRetention base) (tgRetention over),
      tgStorage = pickStr (tgStorage base) (tgStorage over),
      tgReplicas = pickPtr (tgReplicas base) (tgReplicas over),
      tgRegistry = pickStr (tgRegistry base) (tgRegistry over),
      tgPATLabel = pickStr (tgPATLabel base) (tgPATLabel over),
      tgPATDeployments = pickStr (tgPATDeployments base) (tgPATDeployments over)\<rparr>"

definition toggleAt :: "toggles \<Rightarrow> string \<Rightarrow> componentToggle" where   \<comment> \<open>\<open>out[k]\<close>\<close>
  "toggleAt ts k = (case map_of ts k of None \<Rightarrow> zeroToggle | Some t \<Rightarrow> t)"

definition mergeComponents :: "toggles \<Rightarrow> toggles \<Rightarrow> toggles" where
  "mergeComponents base over =
     fold (\<lambda>(k, v) out. AList.update k (mergeToggle (toggleAt out k) v) out) over
       (fold (\<lambda>(k, v). AList.update k v) base [])"

definition mergeEnvironment :: "specDefaults \<Rightarrow> environment \<Rightarrow> environment" where
  "mergeEnvironment d env = env
     \<lparr>enCluster := mergeCluster (sdCluster d) (enCluster env),
      enComponents := mergeComponents (sdComponents d) (enComponents env)\<rparr>"

definition applyInheritance :: "landingZone \<Rightarrow> landingZone" where
  "applyInheritance lz = lz
     \<lparr>lzEnvironments := map (\<lambda>(n, e). (n, mergeEnvironment (lzDefaults lz) e)) (lzEnvironments lz)\<rparr>"

subsection \<open>The built-in defaults (\<open>defaults.go\<close>)\<close>

definition DefaultManagedApps :: "string list" where
  "DefaultManagedApps = [''harbor'', ''loki'', ''grafana'', ''kyverno'']"

definition fillToggle :: "component \<Rightarrow> componentToggle option \<Rightarrow> componentToggle" where
  "fillToggle r found = (case found of
      None \<Rightarrow> zeroToggle \<lparr>tgEnabled := Some (\<not> cmDefaultDisabled r), tgExplicit := Some False\<rparr>
    | Some t \<Rightarrow> t
        \<lparr>tgExplicit := (if tgExplicit t = None then Some (tgEnabled t \<noteq> None) else tgExplicit t),
         tgEnabled := (if tgEnabled t = None then Some (\<not> cmDefaultDisabled r) else tgEnabled t)\<rparr>)"

definition defaultToggle :: "component \<Rightarrow> toggles \<Rightarrow> toggles" where   \<comment> \<open>one round of the loop over \<open>Components\<close>\<close>
  "defaultToggle r ts = AList.update (cmName r) (fillToggle r (map_of ts (cmName r))) ts"

definition defaultApps :: "bootstrap \<Rightarrow> bootstrap" where
  "defaultApps b = (if managedAppsOf b = [] then b \<lparr>bsManagedApps := Some DefaultManagedApps\<rparr> else b)"

definition defaultEnvironment :: "environment \<Rightarrow> environment" where
  "defaultEnvironment env = env
     \<lparr>enCluster := (enCluster env) \<lparr>clBoot := defaultApps (clBoot (enCluster env))\<rparr>,
      enComponents := fold defaultToggle Components (enComponents env)\<rparr>"

definition DefaultsSpec :: "landingZone \<Rightarrow> landingZone" where
  "DefaultsSpec lz = lz \<lparr>lzEnvironments := map (\<lambda>(n, e). (n, defaultEnvironment e)) (lzEnvironments lz)\<rparr>"

subsection \<open>Loading an instance (\<open>parse.go\<close>, \<open>instance.go\<close>)\<close>

abbreviation KindClusterDefinition :: string where "KindClusterDefinition \<equiv> ''ClusterDefinition''"

record clusterDefinition =
  cdAPIVersion :: string
  cdKind :: string
  cdName :: string
  cdSpec :: environment

text \<open>Reading and decoding a file are parameters: \<open>rd\<close> is \<open>os.ReadFile\<close>, \<open>ulz\<close> and \<open>ucd\<close> are \<open>UnmarshalStrict\<close>.\<close>

datatype loadError =
    NoSpec
  | ReadFailed string
  | ParseFailed string
  | InlineEnvironments
  | BadDefinitionKind string
  | BadDefinitionVersion string
  | NamelessDefinition
  | DuplicateEnvironment string string

definition DecodeSpec :: "(string \<Rightarrow> string + landingZone) \<Rightarrow> string \<Rightarrow> loadError + landingZone" where
  "DecodeSpec ulz b = (case ulz b of
      Inl e \<Rightarrow> Inl (ParseFailed e)
    | Inr lz \<Rightarrow> Inr (DefaultsSpec (applyInheritance lz)))"

definition LoadSpec :: "(string \<Rightarrow> string + string) \<Rightarrow> (string \<Rightarrow> string + landingZone) \<Rightarrow> string
    \<Rightarrow> loadError + landingZone" where
  "LoadSpec rd ulz path = (case rd path of Inl e \<Rightarrow> Inl (ReadFailed e) | Inr b \<Rightarrow> DecodeSpec ulz b)"

definition DecodeClusterDefinition :: "(string \<Rightarrow> string + clusterDefinition) \<Rightarrow> string
    \<Rightarrow> loadError + clusterDefinition" where
  "DecodeClusterDefinition ucd b = (case ucd b of
      Inl e \<Rightarrow> Inl (ParseFailed e)
    | Inr cd \<Rightarrow>
        if cdKind cd \<noteq> KindClusterDefinition then Inl (BadDefinitionKind (cdKind cd))
        else if cdAPIVersion cd \<noteq> apiVersion_llz then Inl (BadDefinitionVersion (cdAPIVersion cd))
        else if cdName cd = [] then Inl NamelessDefinition
        else Inr cd)"

definition loadClusterDefinition :: "(string \<Rightarrow> string + string) \<Rightarrow> (string \<Rightarrow> string + clusterDefinition) \<Rightarrow> string
    \<Rightarrow> loadError + clusterDefinition" where
  "loadClusterDefinition rd ucd path = (case rd path of
      Inl e \<Rightarrow> Inl (ReadFailed e) | Inr b \<Rightarrow> DecodeClusterDefinition ucd b)"

fun assemble :: "(string \<Rightarrow> loadError + clusterDefinition) \<Rightarrow> string list \<Rightarrow> (string \<times> environment) list
    \<Rightarrow> loadError + (string \<times> environment) list" where   \<comment> \<open>the loop over \<open>environments/*.yaml\<close>\<close>
  "assemble load [] envs = Inr envs"
| "assemble load (f # fs) envs = (case load f of
      Inl e \<Rightarrow> Inl e
    | Inr cd \<Rightarrow>
        if map_of envs (cdName cd) \<noteq> None then Inl (DuplicateEnvironment f (cdName cd))
        else assemble load fs (AList.update (cdName cd) (cdSpec cd) envs))"

text \<open>\<open>spec\<close> is the path of \<open>landingzone.yaml\<close> and \<open>globbed\<close> what \<open>environments/*.yaml\<close> matches.\<close>

definition LoadSplit :: "(string \<Rightarrow> string + string) \<Rightarrow> (string \<Rightarrow> string + landingZone)
    \<Rightarrow> (string \<Rightarrow> string + clusterDefinition) \<Rightarrow> string \<Rightarrow> string list \<Rightarrow> loadError + landingZone" where
  "LoadSplit rd ulz ucd spec globbed = (case LoadSpec rd ulz spec of
      Inl e \<Rightarrow> Inl e
    | Inr lz \<Rightarrow>
        if lzEnvironments lz \<noteq> [] then Inl InlineEnvironments
        else (case assemble (loadClusterDefinition rd ucd) (sort globbed) [] of
            Inl e \<Rightarrow> Inl e
          | Inr envs \<Rightarrow> Inr (DefaultsSpec (applyInheritance (lz \<lparr>lzEnvironments := envs\<rparr>)))))"

definition LoadInstance :: "bool \<Rightarrow> (string \<Rightarrow> string + string) \<Rightarrow> (string \<Rightarrow> string + landingZone)
    \<Rightarrow> (string \<Rightarrow> string + clusterDefinition) \<Rightarrow> string \<Rightarrow> string list \<Rightarrow> loadError + landingZone" where
  "LoadInstance present rd ulz ucd spec globbed =
     (if \<not> present then Inl NoSpec else LoadSplit rd ulz ucd spec globbed)"

subsection \<open>Maps\<close>

lemma update_same: "map_of m k = Some v \<Longrightarrow> AList.update k v m = m"
  by (induction m) (auto split: if_splits)

lemma map_of_store:
  "distinct (map fst xs) \<Longrightarrow>
     map_of (fold (\<lambda>(k, v). AList.update k v) xs m) k = (case map_of xs k of None \<Rightarrow> map_of m k | Some v \<Rightarrow> Some v)"
proof (induction xs arbitrary: m)
  case (Cons x xs)
  obtain a b where x: "x = (a, b)" by (cases x)
  have "map_of xs a = None" using Cons.prems x by (simp add: map_of_eq_None_iff)
  then show ?case using Cons x by (auto simp: update_conv' split: option.splits)
qed simp

lemma toggleAt_map_of: "map_of m k = map_of m' k \<Longrightarrow> toggleAt m k = toggleAt m' k"
  by (simp add: toggleAt_def)

lemma map_of_merge_fold:
  "distinct (map fst over) \<Longrightarrow>
     map_of (fold (\<lambda>(k, v) out. AList.update k (mergeToggle (toggleAt out k) v) out) over m) n
       = (case map_of over n of None \<Rightarrow> map_of m n | Some v \<Rightarrow> Some (mergeToggle (toggleAt m n) v))"
proof (induction over arbitrary: m)
  case (Cons x xs)
  obtain a b where x: "x = (a, b)" by (cases x)
  have new: "map_of xs a = None" using Cons.prems x by (simp add: map_of_eq_None_iff)
  have "toggleAt (AList.update a (mergeToggle (toggleAt m a) b) m) n = toggleAt m n" if "n \<noteq> a"
    using that by (intro toggleAt_map_of) (simp add: update_conv')
  then show ?case using Cons x new by (auto simp: update_conv' split: option.splits)
qed simp

lemma map_of_mergeComponents:
  assumes "distinct (map fst base)" "distinct (map fst over)"
  shows "map_of (mergeComponents base over) n = (case map_of over n of
      None \<Rightarrow> map_of base n | Some v \<Rightarrow> Some (mergeToggle (toggleAt base n) v))"
proof -
  have m: "map_of (fold (\<lambda>(k, v). AList.update k v) base []) n = map_of base n"
    using map_of_store [OF assms(1), of "[]" n] by (simp split: option.splits)
  show ?thesis unfolding mergeComponents_def map_of_merge_fold [OF assms(2)] m toggleAt_map_of [OF m] ..
qed

lemma map_of_defaultToggles:
  "distinct (map cmName cs) \<Longrightarrow>
     map_of (fold defaultToggle cs ts) n = (case find (\<lambda>c. cmName c = n) cs of
       None \<Rightarrow> map_of ts n | Some r \<Rightarrow> Some (fillToggle r (map_of ts n)))"
proof (induction cs arbitrary: ts)
  case (Cons c cs)
  have "find (\<lambda>r. cmName r = cmName c) cs = None" using Cons.prems by (simp add: find_None_iff) (metis imageI)
  then show ?case using Cons by (auto simp: defaultToggle_def update_conv' split: option.splits)
qed simp

lemma distinct_Components: "distinct (map cmName Components)"
  by code_simp

lemmas map_of_defaulted = map_of_defaultToggles [OF distinct_Components, folded componentByName_def]

lemma componentByName_in: "c \<in> set Components \<Longrightarrow> componentByName (cmName c) = Some c"
  unfolding componentByName_def by (rule find_unique_name [OF distinct_Components])

subsection \<open>Idempotence\<close>

lemma fillToggle_again: "fillToggle r (Some (fillToggle r found)) = fillToggle r found"
  by (cases found) (simp_all add: fillToggle_def zeroToggle_def)

lemma fold_defaultToggle_id:
  "\<forall>c \<in> set cs. map_of ts (cmName c) = Some (fillToggle c (map_of ts (cmName c))) \<Longrightarrow> fold defaultToggle cs ts = ts"
  by (induction cs) (simp_all add: defaultToggle_def update_same)

lemma defaultToggles_again: "fold defaultToggle Components (fold defaultToggle Components ts) = fold defaultToggle Components ts"
  by (intro fold_defaultToggle_id ballI) (simp add: map_of_defaulted componentByName_in fillToggle_again)

lemma defaultApps_again: "defaultApps (defaultApps b) = defaultApps b"
  by (simp add: defaultApps_def managedAppsOf_def)

text \<open>The built-in defaults are idempotent: a second pass changes nothing, and in particular does
  not take its own fill for a toggle the author wrote.\<close>

theorem defaults_idempotent: "DefaultsSpec (DefaultsSpec lz) = DefaultsSpec lz"
  by (simp add: DefaultsSpec_def defaultEnvironment_def o_def case_prod_unfold defaultToggles_again defaultApps_again)

lemma pick_again [simp]:
  "pickStr s (pickStr s t) = pickStr s t" "pickInt i (pickInt i j) = pickInt i j" "pickPtr p (pickPtr p q) = pickPtr p q"
  by (simp_all add: pickStr_def pickInt_def pickPtr_def)

lemma mergeBoot_again: "mergeBoot base (mergeBoot base over) = mergeBoot base over"
  by (simp add: mergeBoot_def)

lemma mergeCluster_again: "mergeCluster base (mergeCluster base over) = mergeCluster base over"
  by (simp add: mergeCluster_def mergeBoot_again)

lemma mergeToggle_again: "mergeToggle base (mergeToggle base over) = mergeToggle base over"
  by (simp add: mergeToggle_def)

lemma inheritance_idempotent:
  assumes "distinct (map fst (sdComponents d))" "distinct (map fst (enComponents e))"
    and "\<forall>t \<in> snd ` set (sdComponents d). tgExplicit t = None"
  shows "enCluster (mergeEnvironment d (mergeEnvironment d e)) = enCluster (mergeEnvironment d e)"
    and "map_of (enComponents (mergeEnvironment d (mergeEnvironment d e))) n = map_of (enComponents (mergeEnvironment d e)) n"
proof -
  let ?m = "mergeComponents (sdComponents d) (enComponents e)"
  have dist: "distinct (map fst (fold (\<lambda>(k, v). AList.update k v) xs m))" if "distinct (map fst m)"
    for xs :: toggles and m
    using that by (induction xs arbitrary: m) (auto simp: case_prod_beta distinct_update)
  have dist2: "distinct (map fst (fold (\<lambda>(k, v) out. AList.update k (mergeToggle (toggleAt out k) v) out) xs m))"
    if "distinct (map fst m)" for xs :: toggles and m
    using that by (induction xs arbitrary: m) (auto simp: case_prod_beta distinct_update)
  have d: "distinct (map fst ?m)" unfolding mergeComponents_def by (intro dist2 dist) simp
  have plain: "mergeToggle t t = t" if "map_of (sdComponents d) n = Some t" for t
    using assms(3) that by (cases t) (force simp: mergeToggle_def pickStr_def pickPtr_def dest: map_of_SomeD)
  show "map_of (enComponents (mergeEnvironment d (mergeEnvironment d e))) n = map_of (enComponents (mergeEnvironment d e)) n"
    by (simp add: mergeEnvironment_def map_of_mergeComponents [OF assms(1) d] map_of_mergeComponents [OF assms(1,2)]
        mergeToggle_again toggleAt_def plain split: option.splits)
qed (simp add: mergeEnvironment_def mergeCluster_again)

subsection \<open>What is loaded\<close>

lemma assemble_ok:
  "assemble load fs envs = Inr es \<Longrightarrow>
     (\<forall>n e. map_of envs n = Some e \<longrightarrow> map_of es n = Some e)
     \<and> (\<forall>f \<in> set fs. \<exists>cd. load f = Inr cd \<and> map_of es (cdName cd) = Some (cdSpec cd))"
proof (induction fs arbitrary: envs)
  case (Cons f fs)
  then obtain cd where cd: "load f = Inr cd" "map_of envs (cdName cd) = None"
    "assemble load fs (AList.update (cdName cd) (cdSpec cd) envs) = Inr es"
    by (auto split: sum.splits if_splits)
  note ih = Cons.IH [OF cd(3)]
  have "map_of es (cdName cd) = Some (cdSpec cd)" using ih by (simp add: update_conv')
  moreover have "map_of es n = Some e" if "map_of envs n = Some e" for n e
    using ih that cd(2) by (cases "n = cdName cd") (auto simp: update_conv')
  ultimately show ?case using ih cd(1) by auto
qed simp

lemma assemble_origin:
  "assemble load fs envs = Inr es \<Longrightarrow> map_of es n = Some e \<Longrightarrow>
     map_of envs n = Some e \<or> (\<exists>f \<in> set fs. \<exists>cd. load f = Inr cd \<and> cdName cd = n \<and> cdSpec cd = e)"
proof (induction fs arbitrary: envs)
  case (Cons f fs)
  then obtain cd where cd: "load f = Inr cd" "map_of envs (cdName cd) = None"
    "assemble load fs (AList.update (cdName cd) (cdSpec cd) envs) = Inr es"
    by (auto split: sum.splits if_splits)
  show ?case using Cons.IH [OF cd(3) Cons.prems(2)] cd(1) by (auto simp: update_conv' split: if_splits)
qed simp

text \<open>An environment as a file declares it, with the shared and the built-in defaults folded under it.\<close>

definition completed :: "specDefaults \<Rightarrow> environment \<Rightarrow> environment" where
  "completed d e = defaultEnvironment (mergeEnvironment d e)"

lemma LoadSplit_ok:
  assumes "LoadSplit rd ulz ucd spec globbed = Inr lz"
  shows "\<exists>envs. assemble (loadClusterDefinition rd ucd) (sort globbed) [] = Inr envs
    \<and> lzEnvironments lz = map (\<lambda>(n, e). (n, completed (lzDefaults lz) e)) envs"
  using assms unfolding LoadSplit_def
  by (auto simp: DefaultsSpec_def applyInheritance_def completed_def split: sum.splits if_splits)

lemma map_of_map_snd: "map_of (map (\<lambda>(n, e). (n, f e)) xs) k = map_option f (map_of xs k)"
  by (induction xs) auto

lemma loaded_env:
  assumes "LoadSplit rd ulz ucd spec globbed = Inr lz" "f \<in> set globbed"
  shows "\<exists>cd. loadClusterDefinition rd ucd f = Inr cd
    \<and> map_of (lzEnvironments lz) (cdName cd) = Some (completed (lzDefaults lz) (cdSpec cd))"
proof -
  from LoadSplit_ok [OF assms(1)] obtain envs where
    e: "assemble (loadClusterDefinition rd ucd) (sort globbed) [] = Inr envs"
      "lzEnvironments lz = map (\<lambda>(n, e). (n, completed (lzDefaults lz) e)) envs" by blast
  have "\<forall>f \<in> set (sort globbed). \<exists>cd. loadClusterDefinition rd ucd f = Inr cd \<and> map_of envs (cdName cd) = Some (cdSpec cd)"
    using assemble_ok [OF e(1)] by blast
  then show ?thesis using assms(2) unfolding e(2) map_of_map_snd by fastforce
qed

definition authored :: "toggles \<Rightarrow> string \<Rightarrow> bool option" where   \<comment> \<open>what \<open>enabled:\<close> says, if anything\<close>
  "authored ts n = (case map_of ts n of None \<Rightarrow> None | Some t \<Rightarrow> tgEnabled t)"

lemma completed_toggle:
  assumes "distinct (map fst (enComponents e))" "distinct (map fst (sdComponents d))"
    and "\<forall>t \<in> snd ` set (sdComponents d). tgExplicit t = None" and "c \<in> set Components"
  shows "map_of (enComponents (completed d e)) (cmName c) = Some t \<Longrightarrow>
    tgEnabled t = Some (case pickPtr (authored (sdComponents d) (cmName c)) (authored (enComponents e) (cmName c)) of
        Some b \<Rightarrow> b | None \<Rightarrow> \<not> cmDefaultDisabled c)
    \<and> tgExplicit t = Some (pickPtr (authored (sdComponents d) (cmName c)) (authored (enComponents e) (cmName c)) \<noteq> None)"
    and "map_of (enComponents (completed d e)) (cmName c) \<noteq> None"
proof -
  have base: "tgExplicit t = None" if "map_of (sdComponents d) (cmName c) = Some t" for t
    using assms(3) that by (force dest: map_of_SomeD)
  have t: "map_of (enComponents (completed d e)) (cmName c)
    = Some (fillToggle c (map_of (mergeComponents (sdComponents d) (enComponents e)) (cmName c)))"
    by (simp add: completed_def defaultEnvironment_def mergeEnvironment_def map_of_defaulted componentByName_in [OF assms(4)])
  show "map_of (enComponents (completed d e)) (cmName c) \<noteq> None" using t by simp
  show "tgEnabled t = Some (case pickPtr (authored (sdComponents d) (cmName c)) (authored (enComponents e) (cmName c)) of
        Some b \<Rightarrow> b | None \<Rightarrow> \<not> cmDefaultDisabled c)
    \<and> tgExplicit t = Some (pickPtr (authored (sdComponents d) (cmName c)) (authored (enComponents e) (cmName c)) \<noteq> None)"
    if t': "map_of (enComponents (completed d e)) (cmName c) = Some t"
  proof -
    have "t = fillToggle c (map_of (mergeComponents (sdComponents d) (enComponents e)) (cmName c))" using t t' by simp
    then have t'': "t = fillToggle c (case map_of (enComponents e) (cmName c) of
        None \<Rightarrow> map_of (sdComponents d) (cmName c)
      | Some v \<Rightarrow> Some (mergeToggle (toggleAt (sdComponents d) (cmName c)) v))"
      unfolding map_of_mergeComponents [OF assms(2,1)] .
    show ?thesis
      by (cases "map_of (enComponents e) (cmName c)"; cases "map_of (sdComponents d) (cmName c)")
        (simp_all add: t'' fillToggle_def authored_def pickPtr_def toggleAt_def zeroToggle_def mergeToggle_def base
          split: option.split)
  qed
qed

text \<open>C35: In a loaded instance every file of \<open>environments/\<close> is an environment of the declared name,
  and whether a registered component is on there is what the file says, else what the shared defaults
  say, else the built-in default; it counts as explicitly enabled exactly when one of the two files
  says \<open>enabled: true\<close> and no file overrides it.\<close>

theorem loaded_components:
  assumes "LoadSplit rd ulz ucd spec globbed = Inr lz" and "f \<in> set globbed" and "c \<in> set Components"
    and "loadClusterDefinition rd ucd f = Inr cd"
    and "distinct (map fst (enComponents (cdSpec cd)))" and "distinct (map fst (sdComponents (lzDefaults lz)))"
    and "\<forall>t \<in> snd ` set (sdComponents (lzDefaults lz)). tgExplicit t = None"
  shows "\<exists>env. map_of (lzEnvironments lz) (cdName cd) = Some env
    \<and> ComponentEnabled (enComponents env) (cmName c) = (case authored (enComponents (cdSpec cd)) (cmName c) of
        Some b \<Rightarrow> b
      | None \<Rightarrow> (case authored (sdComponents (lzDefaults lz)) (cmName c) of Some b \<Rightarrow> b | None \<Rightarrow> \<not> cmDefaultDisabled c))
    \<and> explicitlyEnabled (enComponents env) (cmName c) = (case authored (enComponents (cdSpec cd)) (cmName c) of
        Some b \<Rightarrow> b | None \<Rightarrow> authored (sdComponents (lzDefaults lz)) (cmName c) = Some True)"
proof -
  let ?env = "completed (lzDefaults lz) (cdSpec cd)"
  have env: "map_of (lzEnvironments lz) (cdName cd) = Some ?env" using loaded_env [OF assms(1,2)] assms(4) by simp
  obtain t where t: "map_of (enComponents ?env) (cmName c) = Some t"
    using completed_toggle(2) [OF assms(5,6,7,3)] by auto
  note tg = completed_toggle(1) [OF assms(5,6,7,3) t]
  show ?thesis
    by (intro exI [of _ ?env] conjI env)
      (simp_all add: ComponentEnabled_def explicitlyEnabled_def t tg pickPtr_def split: option.splits)
qed

definition demoCluster :: clusterSpec where
  "demoCluster = \<lparr>clLabel = ''lz'', clRegion = ''us-ord'', clK8s = ''1.33'', clTags = None,
     clPool = \<lparr>npType = ''g8-dedicated-8-4'', npCount = 3, npAutoscaler = None, npMin = None, npMax = None\<rparr>,
     clControl = \<lparr>cpHA = None, cpAudit = None\<rparr>, clAllow = \<lparr>acV4 = None, acV6 = None\<rparr>,
     clNetwork = \<lparr>nwVPC = [], nwSubnet = []\<rparr>, clHA = \<lparr>haRole = [], haGroup = []\<rparr>, clRank = 0,
     clBoot = \<lparr>bsName = ''lz'', bsDomainSuffix = [], bsAplChart = [],
       bsAplValues = \<lparr>avRepoURL = [], avRevision = [], avUsername = []\<rparr>, bsAppsRevision = [], bsManaged = True,
       bsManageApl = None, bsManagedApps = None\<rparr>,
     clObj = \<lparr>osCluster = [], osRotationDays = 0\<rparr>, clDatabases = []\<rparr>"

definition demoDefaults :: clusterSpec where
  "demoDefaults = \<lparr>clLabel = [], clRegion = [], clK8s = [], clTags = None,
     clPool = \<lparr>npType = [], npCount = 0, npAutoscaler = None, npMin = Some 3, npMax = Some 6\<rparr>,
     clControl = \<lparr>cpHA = None, cpAudit = None\<rparr>, clAllow = \<lparr>acV4 = None, acV6 = None\<rparr>,
     clNetwork = \<lparr>nwVPC = [], nwSubnet = []\<rparr>, clHA = \<lparr>haRole = [], haGroup = []\<rparr>, clRank = 0,
     clBoot = \<lparr>bsName = [], bsDomainSuffix = [], bsAplChart = [],
       bsAplValues = \<lparr>avRepoURL = [], avRevision = [], avUsername = []\<rparr>, bsAppsRevision = [], bsManaged = False,
       bsManageApl = None, bsManagedApps = None\<rparr>,
     clObj = \<lparr>osCluster = [], osRotationDays = 0\<rparr>, clDatabases = []\<rparr>"

definition demoSpec :: landingZone where
  "demoSpec = \<lparr>lzAPIVersion = apiVersion_llz, lzKind = kind_LandingZone, lzName = ''demo'',
     lzInstance = \<lparr>siOrg = ''acme'', siRepo = ''acme/demo'', siForge = ''github'', siPrefix = []\<rparr>,
     lzNetworks = [], lzDefaults = \<lparr>sdCluster = demoDefaults,
       sdComponents = [(''objProxy'', zeroToggle \<lparr>tgEnabled := Some True\<rparr>)]\<rparr>,
     lzAlerting = \<lparr>alReceivers = [], alChannel = [], alChannelCrit = []\<rparr>, lzEnvironments = [], lzTeams = [],
     lzOpenBao = \<lparr>oeMounts = [], oePolicies = [], oeRoles = []\<rparr>\<rparr>"

definition demoDefinition :: clusterDefinition where
  "demoDefinition = \<lparr>cdAPIVersion = apiVersion_llz, cdKind = KindClusterDefinition, cdName = ''lab'',
     cdSpec = \<lparr>enCluster = demoCluster, enComponents = [(''harbor'', zeroToggle \<lparr>tgEnabled := Some False\<rparr>)]\<rparr>\<rparr>"

definition demoLoaded :: "loadError + landingZone" where
  "demoLoaded = LoadSplit Inr (\<lambda>_. Inr demoSpec) (\<lambda>_. Inr demoDefinition) ''landingzone.yaml'' [''environments/lab.yaml'']"

lemma demoLoaded_ok: "\<exists>lz. demoLoaded = Inr lz \<and> lzDefaults lz = lzDefaults demoSpec"
  by (simp add: demoLoaded_def LoadSplit_def LoadSpec_def DecodeSpec_def DefaultsSpec_def applyInheritance_def
      demoSpec_def loadClusterDefinition_def DecodeClusterDefinition_def demoDefinition_def)

lemma loaded_components_witness:
  "\<exists>lz env. demoLoaded = Inr lz \<and> map_of (lzEnvironments lz) ''lab'' = Some env
    \<and> \<not> ComponentEnabled (enComponents env) ''harbor''"
proof -
  obtain lz where lz: "demoLoaded = Inr lz" "lzDefaults lz = lzDefaults demoSpec" using demoLoaded_ok by blast
  have c: "(plainComponent ''harbor'') \<lparr>cmCoreApps := [''harbor''],
       cmManifests := [''harbor/harbor-admin-push.yaml'', ''harbor/harbor-robot-provisioner''],
       cmPatches := [''harbor-provisioner-env-patch.yaml''],
       cmCarvedApp := Some (''llz-harbor'', 5, ''harbor''), cmCondApp := ''harbor''\<rparr> \<in> set Components" (is "?c \<in> _")
    by (simp add: Components_def)
  have cd: "loadClusterDefinition Inr (\<lambda>_. Inr demoDefinition) ''environments/lab.yaml'' = Inr demoDefinition"
    by (simp add: loadClusterDefinition_def DecodeClusterDefinition_def demoDefinition_def)
  have "\<exists>env. map_of (lzEnvironments lz) (cdName demoDefinition) = Some env
    \<and> ComponentEnabled (enComponents env) (cmName ?c) = False"
    using loaded_components [OF lz(1) [unfolded demoLoaded_def] _ c cd]
    by (auto simp: lz(2) demoDefinition_def demoSpec_def authored_def zeroToggle_def plainComponent_def)
  then show ?thesis using lz(1) by (auto simp: demoDefinition_def plainComponent_def)
qed

subsection \<open>The autoscaler bounds\<close>

text \<open>A bound set under \<open>spec.defaults\<close> never reaches an environment: \<open>mergeCluster\<close> takes the two from
  the environment only.\<close>

theorem default_autoscaler_ignored:
  "npMin (clPool (mergeCluster base over)) = npMin (clPool over)"
  "npMax (clPool (mergeCluster base over)) = npMax (clPool over)"
  by (simp_all add: mergeCluster_def)

text \<open>An explicit empty list of managed apps is replaced by the default list.\<close>

theorem empty_managed_apps_defaulted:
  "bsManagedApps b = Some [] \<Longrightarrow> bsManagedApps (defaultApps b) = Some DefaultManagedApps"
  by (simp add: defaultApps_def managedAppsOf_def)

end
