(* ===== verification/OpenBao_Ext.thy ===== *)
theory OpenBao_Ext
  imports Spec_Types Regexp
begin

text \<open>
  What an instance may add to OpenBao: \<open>internal/shared/clusterspec/openbao_ext.go\<close> (mounts, policies and
  Kubernetes roles of \<open>spec.openbao\<close>, their validation, and the operator policy of a mount), with the
  team checks of \<open>validate.go\<close> that give a team its subtree. \<open>PolicyPathMatches\<close> is how OpenBao reads a
  policy path, so the theorems say which paths an accepted policy can reach. Error messages are values
  of \<open>baoError\<close> and \<open>teamError\<close>. \<open>time.ParseDuration\<close> is modelled with the floating-point product of a
  fraction as the parameter \<open>frac\<close>.
\<close>

subsection \<open>\<open>time.ParseDuration\<close>\<close>

fun leadingInt :: "nat \<Rightarrow> string \<Rightarrow> nat option" where   \<comment> \<open>on the digits\<close>
  "leadingInt x [] = Some x"
| "leadingInt x (c # cs) =
     (if x > 2 ^ 63 div 10 then None
      else let y = x * 10 + digit_val c in if y > 2 ^ 63 then None else leadingInt y cs)"

fun leadingFraction :: "nat \<Rightarrow> nat \<Rightarrow> string \<Rightarrow> nat \<times> nat" where   \<comment> \<open>on the digits; stops at an overflow\<close>
  "leadingFraction x scale [] = (x, scale)"
| "leadingFraction x scale (c # cs) =
     (if x > (2 ^ 63 - 1) div 10 then (x, scale)
      else let y = x * 10 + digit_val c in
        if y > 2 ^ 63 then (x, scale) else leadingFraction y (scale * 10) cs)"

definition micro_us :: "string list" where   \<comment> \<open>\<open>U+00B5 s\<close> and \<open>U+03BC s\<close>\<close>
  "micro_us = [[CHR 0xC2, CHR 0xB5, CHR ''s''], [CHR 0xCE, CHR 0xBC, CHR ''s'']]"

definition unitMap :: "string \<Rightarrow> nat option" where
  "unitMap u =
     (if u = ''ns'' then Some 1
      else if u = ''us'' \<or> List.member micro_us u then Some 1000
      else if u = ''ms'' then Some 1000000
      else if u = ''s'' then Some 1000000000
      else if u = ''m'' then Some 60000000000
      else if u = ''h'' then Some 3600000000000
      else None)"

abbreviation numChar :: "char \<Rightarrow> bool" where "numChar c \<equiv> is_digit c \<or> c = CHR ''.''"

function durationLoop :: "(nat \<Rightarrow> nat \<Rightarrow> nat \<Rightarrow> nat) \<Rightarrow> nat \<Rightarrow> string \<Rightarrow> nat option" where
  "durationLoop frac d s =
     (if s = [] then Some d
      else if \<not> numChar (hd s) then None
      else (case leadingInt 0 (takeWhile is_digit s) of
          None \<Rightarrow> None
        | Some v \<Rightarrow>
            let s1 = dropWhile is_digit s;
                dot = (s1 \<noteq> [] \<and> hd s1 = CHR ''.'');
                fs = (if dot then takeWhile is_digit (tl s1) else []);
                s2 = (if dot then dropWhile is_digit (tl s1) else s1);
                (f, scale) = leadingFraction 0 1 fs;
                u = takeWhile (\<lambda>c. \<not> numChar c) s2
            in if (takeWhile is_digit s = [] \<and> fs = []) \<or> u = [] then None
               else (case unitMap u of
                   None \<Rightarrow> None
                 | Some un \<Rightarrow>
                     if v > 2 ^ 63 div un then None
                     else let v' = v * un + (if f > 0 then frac f un scale else 0);
                              d' = (d + v') mod 2 ^ 64
                          in if f > 0 \<and> v' > 2 ^ 63 then None
                             else if d' > 2 ^ 63 then None
                             else durationLoop frac d' (dropWhile (\<lambda>c. \<not> numChar c) s2))))"
  by pat_completeness auto

termination
proof (relation "measure (\<lambda>(frac, d, s). length s)", goal_cases)
  case (2 frac d s v s1 dot fs s2 p f scale u un v' d')
  have "length s2 \<le> length s"
    using length_dropWhile_le [of is_digit s] length_dropWhile_le [of is_digit "tl s1"] 2
    by (cases s1) (auto split: if_splits)
  moreover have "takeWhile (\<lambda>c. \<not> numChar c) s2 \<noteq> []" using 2 by blast
  then have "length (dropWhile (\<lambda>c. \<not> numChar c) s2) < length s2"
    by (cases s2) (auto simp: le_imp_less_Suc length_dropWhile_le split: if_splits)
  ultimately show ?case by simp
qed simp

declare durationLoop.simps [simp del]

definition ParseDuration :: "(nat \<Rightarrow> nat \<Rightarrow> nat \<Rightarrow> nat) \<Rightarrow> string \<Rightarrow> int option" where
  "ParseDuration frac s0 =
     (let neg = (s0 \<noteq> [] \<and> hd s0 = CHR ''-'');
          s = (if s0 \<noteq> [] \<and> (hd s0 = CHR ''-'' \<or> hd s0 = CHR ''+'') then tl s0 else s0)
      in if s = ''0'' then Some 0
         else if s = [] then None
         else (case durationLoop frac 0 s of
             None \<Rightarrow> None
           | Some d \<Rightarrow> if neg then Some (- int d) else if d > 2 ^ 63 - 1 then None else Some (int d)))"

subsection \<open>Evaluating a pattern\<close>

text \<open>Derivatives with the dead parts dropped: the same matches, and quick to evaluate.\<close>

fun seqS :: "rx \<Rightarrow> rx \<Rightarrow> rx" where
  "seqS RNone s = RNone"
| "seqS REps s = s"
| "seqS r s = RSeq r s"

fun altS :: "rx \<Rightarrow> rx \<Rightarrow> rx" where
  "altS RNone s = s"
| "altS r s = (case s of RNone \<Rightarrow> r | _ \<Rightarrow> RAlt r s)"

fun derivS :: "char \<Rightarrow> rx \<Rightarrow> rx" where
  "derivS c RNone = RNone"
| "derivS c REps = RNone"
| "derivS c (RChar p) = (if p c then REps else RNone)"
| "derivS c (RSeq r s) =
     (if nullable r then altS (seqS (derivS c r) s) (derivS c s) else seqS (derivS c r) s)"
| "derivS c (RAlt r s) = altS (derivS c r) (derivS c s)"
| "derivS c (RStar r) = seqS (derivS c r) (RStar r)"

fun matchS :: "rx \<Rightarrow> string \<Rightarrow> bool" where
  "matchS r [] = nullable r"
| "matchS r (c # s) = matchS (derivS c r) s"

lemma rx_lang_seqS: "rx_lang (seqS r s) t \<longleftrightarrow> rx_lang (RSeq r s) t"
  by (induction r s rule: seqS.induct) (auto simp: rx_lang_Seq)

lemma rx_lang_altS: "rx_lang (altS r s) t \<longleftrightarrow> rx_lang r t \<or> rx_lang s t"
  by (induction r s rule: altS.induct) (auto split: rx.splits)

lemma rx_lang_derivS: "rx_lang (derivS c r) t \<longleftrightarrow> rx_lang (deriv c r) t"
  by (induction r arbitrary: t) (auto simp: rx_lang_seqS rx_lang_altS rx_lang_Seq)

lemma rx_match_fast [code]: "rx_match r s = matchS r s"
proof -
  have "matchS r s \<longleftrightarrow> rx_lang r s"
    by (induction s arbitrary: r) (simp_all add: nullable_iff rx_lang_derivS deriv_iff)
  then show ?thesis by (simp add: rx_match_iff)
qed

subsection \<open>Patterns\<close>

definition lowerAlnum :: "char \<Rightarrow> bool" where
  "lowerAlnum c \<longleftrightarrow> lowerLetter c \<or> is_digit c"

abbreviation kebabByte :: "char \<Rightarrow> bool" where "kebabByte c \<equiv> lowerAlnum c \<or> c = CHR ''-''"
abbreviation nameChar :: "char \<Rightarrow> bool" where "nameChar c \<equiv> lowerAlnum c \<or> c = CHR ''_'' \<or> c = CHR ''-''"

definition kebabRx :: rx where   \<comment> \<open>\<open>[a-z0-9]([a-z0-9-]*[a-z0-9])?\<close>\<close>
  "kebabRx = RSeq (RChar lowerAlnum) (ropt (RSeq (RStar (RChar kebabByte)) (RChar lowerAlnum)))"

definition extNameRe :: "string \<Rightarrow> bool" where
  "extNameRe s = rx_match kebabRx s"

definition nameRx :: rx where   \<comment> \<open>\<open>[a-z0-9][a-z0-9_-]*\<close>\<close>
  "nameRx = RSeq (RChar lowerAlnum) (RStar (RChar nameChar))"

definition rulePathRe :: "string \<Rightarrow> bool" where
  "rulePathRe s = rx_match (RSeq nameRx (RSeq
     (RStar (RSeq (rlit CHR ''/'') (RAlt (RSeq (RChar nameChar) (RStar (RChar nameChar))) (rlit CHR ''+''))))
     (ropt (RAlt (rlits ''/*'') (rlit CHR ''*''))))) s"

definition k8sNameRe :: "string \<Rightarrow> bool" where
  "k8sNameRe s = rx_match (RSeq (RChar lowerAlnum)
     (ropt (RSeq (RStar (RChar (\<lambda>c. kebabByte c \<or> c = CHR ''.''))) (RChar lowerAlnum)))) s"

definition roleRx :: rx where   \<comment> \<open>\<open>([a-z0-9][a-z0-9_-]*|\+)\<close>\<close>
  "roleRx = RAlt nameRx (rlit CHR ''+'')"

definition issueRx :: rx where   \<comment> \<open>\<open>(issue|sign)/ROLE\<close>\<close>
  "issueRx = RSeq (RAlt (rlits ''issue'') (rlits ''sign'')) (RSeq (rlit CHR ''/'') roleRx)"

definition workloadIssuanceRe :: "string \<Rightarrow> bool" where
  "workloadIssuanceRe s =
     rx_match (RSeq (ropt (RSeq (rlits ''issuer/'') (RSeq roleRx (rlit CHR ''/'')))) issueRx) s"

definition mountConfigAllow :: "string \<Rightarrow> rx list" where
  "mountConfigAllow engine = (if engine = ''pki'' then
     [RSeq (rlits ''roles/'') nameRx,
      RSeq (rlits ''config/'') (RAlt (rlits ''crl'') (RAlt (rlits ''auto-tidy'') (RAlt (rlits ''urls'')
        (RAlt (rlits ''cluster'') (rlits ''issuers'')))))] else [])"

definition openbaoSubtreeRe :: "string \<Rightarrow> bool" where
  "openbaoSubtreeRe s = rx_match (RSeq (rlits ''secret/'') (RSeq kebabRx (RStar (RSeq (rlit CHR ''/'') kebabRx)))) s"

subsection \<open>Teams (\<open>validate.go\<close>)\<close>

definition reservedTeamNames :: "string list" where
  "reservedTeamNames = [''admin'', ''platform-admin'', ''all-teams-admin'']"

definition SystemSecretNamespaces :: "string list" where
  "SystemSecretNamespaces =
     [''alerts'', ''cert-automation'', ''grafana'', ''harbor'', ''infra'', ''linode'', ''loki'', ''obj'', ''otel'']"

definition subtreeNamespace :: "string \<Rightarrow> string" where
  "subtreeNamespace subtree = (case cut_at CHR ''/'' (trim_prefix subtree ''secret/'') of (a, _, _) \<Rightarrow> a)"

definition quotaNameRx :: rx where   \<comment> \<open>\<open>[a-z0-9]([-a-z0-9.]*[a-z0-9])?\<close>\<close>
  "quotaNameRx = RSeq (RChar lowerAlnum)
     (ropt (RSeq (RStar (RChar (\<lambda>c. kebabByte c \<or> c = CHR ''.''))) (RChar lowerAlnum)))"

definition quotaNameRe :: "string \<Rightarrow> bool" where
  "quotaNameRe s = rx_match (RSeq quotaNameRx (ropt (RSeq (rlit CHR ''/'') quotaNameRx))) s"

definition quotaValueRe :: "string \<Rightarrow> bool" where
  "quotaValueRe s = rx_match (RSeq (RSeq (RChar is_digit) (RStar (RChar is_digit)))
     (RSeq (ropt (RSeq (rlit CHR ''.'') (RSeq (RChar is_digit) (RStar (RChar is_digit)))))
       (ropt (RSeq (RChar (\<lambda>c. List.member ''munkKMGTPE'' c)) (ropt (rlit CHR ''i'')))))) s"

datatype teamError =
    TeamNameMissing nat
  | TeamNameBad nat nameError
  | TeamNameHyphen nat string
  | TeamNameReserved nat string
  | TeamNameTwice string
  | SubtreeMissing nat
  | SubtreeMount nat string
  | SubtreeGlob nat string
  | SubtreeSlash nat string
  | SubtreePlatform nat string
  | SubtreeShape nat string
  | QuotaKey nat string
  | QuotaEmpty nat string
  | QuotaValue nat string string

definition validateTeamResourceQuota :: "nat \<Rightarrow> team \<Rightarrow> teamError list" where
  "validateTeamResourceQuota i t = concat (map (\<lambda>k.
     let v = (case map_of (tmQuota t) k of None \<Rightarrow> [] | Some v \<Rightarrow> v) in
     if \<not> quotaNameRe k then [QuotaKey i k]
     else if v = [] then [QuotaEmpty i k]
     else if \<not> quotaValueRe v then [QuotaValue i k v]
     else []) (sortedKeys (tmQuota t)))"

definition teamNameErrors :: "nat \<Rightarrow> string list \<Rightarrow> team \<Rightarrow> teamError list" where
  "teamNameErrors i seen t =
     (if tmName t = [] then [TeamNameMissing i]
      else (case envName (tmName t) of
          Some e \<Rightarrow> [TeamNameBad i e]
        | None \<Rightarrow>
            if has_suffix (tmName t) ''-'' then [TeamNameHyphen i (tmName t)]
            else if List.member reservedTeamNames (tmName t) then [TeamNameReserved i (tmName t)]
            else []))
     @ (if List.member seen (tmName t) \<and> tmName t \<noteq> [] then [TeamNameTwice (tmName t)] else [])"

definition subtreeErrors :: "nat \<Rightarrow> string \<Rightarrow> teamError list" where
  "subtreeErrors i sub =
     (if sub = [] then [SubtreeMissing i]
      else if \<not> has_prefix sub ''secret/'' then [SubtreeMount i sub]
      else if contains sub ''*'' then [SubtreeGlob i sub]
      else if has_suffix sub ''/'' then [SubtreeSlash i sub]
      else if List.member SystemSecretNamespaces (subtreeNamespace sub) then [SubtreePlatform i sub]
      else if \<not> openbaoSubtreeRe sub then [SubtreeShape i sub]
      else [])"

fun teamsLoop :: "nat \<Rightarrow> string list \<Rightarrow> team list \<Rightarrow> teamError list" where
  "teamsLoop i seen [] = []"
| "teamsLoop i seen (t # ts) =
     teamNameErrors i seen t @ subtreeErrors i (tmSubtree t) @ validateTeamResourceQuota i t
     @ teamsLoop (Suc i) (tmName t # seen) ts"

definition validateTeams :: "team list \<Rightarrow> teamError list" where
  "validateTeams teams = teamsLoop 0 [] teams"

subsection \<open>Policy paths (\<open>openbao_ext.go\<close>)\<close>

text \<open>\<open>+\<close> in a rule stands for one segment; a trailing \<open>*\<close> makes the rest a prefix.\<close>

definition segMatches :: "string \<Rightarrow> string \<Rightarrow> bool" where   \<comment> \<open>\<open>rs[i] == "+" || rs[i] == ps[i]\<close>\<close>
  "segMatches r p \<longleftrightarrow> r = ''+'' \<or> r = p"

definition PolicyPathMatches :: "string \<Rightarrow> string \<Rightarrow> bool" where
  "PolicyPathMatches rule path =
     (let glob = has_suffix rule ''*'';
          rs = split_on CHR ''/'' (trim_suffix rule ''*'');
          ps = split_on CHR ''/'' path;
          n = length rs - 1
      in if \<not> glob then length rs = length ps \<and> list_all2 segMatches rs ps
         else length rs \<le> length ps \<and> list_all2 segMatches (take n rs) (take n ps)
           \<and> has_prefix (ps ! n) (rs ! n))"

definition writeCapabilities :: "string list" where
  "writeCapabilities = [''create'', ''update'', ''patch'', ''delete'']"

definition allowedCaps :: "string list" where
  "allowedCaps = [''create'', ''read'', ''update'', ''patch'', ''delete'', ''list'', ''deny'']"

definition ReservedOpenBaoMounts :: "string list" where
  "ReservedOpenBaoMounts = [''secret'', ''sys'', ''auth'', ''identity'', ''cubbyhole'']"

definition ReservedOpenBaoPolicies :: "string list" where
  "ReservedOpenBaoPolicies = [''root'', ''default'', ''llz-spec-openbao-manifest'', ''platform-ci'',
     ''secret-propagator'', ''eso-pusher'', ''linode-rotator'', ''harbor-provisioner'', ''reconciler-read'',
     ''broad-pat-rotator'']"

definition ReservedOpenBaoKubernetesRoles :: "string list" where
  "ReservedOpenBaoKubernetesRoles = [''eso'', ''eso-pusher'', ''harbor-provisioner'', ''reconciler'', ''broad-pat-rotator'']"

definition EmptyExt :: "openbaoExt \<Rightarrow> bool" where
  "EmptyExt e \<longleftrightarrow> oeMounts e = [] \<and> oePolicies e = [] \<and> oeRoles e = []"

definition EffectiveTTL :: "oRole \<Rightarrow> string" where
  "EffectiveTTL r = (if roTTL r = [] then ''15m'' else roTTL r)"

definition OperatorPolicyName :: "string \<Rightarrow> string" where
  "OperatorPolicyName mount = mount @ ''-operator''"

definition OperatorMountsFor :: "openbaoExt \<Rightarrow> string \<Rightarrow> string list" where
  "OperatorMountsFor e tm = sort (concat (map (\<lambda>m.
     map (\<lambda>_. moPath m) (filter (\<lambda>q. q = tm) (moOperators m))) (oeMounts e)))"

subsection \<open>The operator policy of a mount\<close>

definition SpecOwnedPaths :: "oMount \<Rightarrow> string list" where
  "SpecOwnedPaths m = map (\<lambda>w. moPath m @ ''/'' @ owPath w) (moConfig m)"

definition operatorTable :: "(string \<times> string list) list" where   \<comment> \<open>below the mount\<close>
  "operatorTable = [
     (''intermediate/generate/internal'', [''create'', ''update'']),
     (''intermediate/set-signed'', [''create'', ''update'']),
     (''issuers'', [''list'']),
     (''issuer/+'', [''read'', ''update'']),
     (''keys'', [''list'']),
     (''key/+'', [''read'', ''update'']),
     (''roles'', [''list'']),
     (''roles/+'', [''create'', ''read'', ''update'', ''delete'']),
     (''certs'', [''list'']),
     (''cert/+'', [''read'']),
     (''revoke'', [''create'', ''update'']),
     (''tidy'', [''create'', ''update'']),
     (''tidy-status'', [''read'']),
     (''crl/rotate'', [''read''])]
     @ map (\<lambda>c. (''config/'' @ c, [''create'', ''read'', ''update'']))
         [''crl'', ''auto-tidy'', ''urls'', ''cluster'', ''issuers'', ''keys'']"

definition narrowRule :: "string \<Rightarrow> oRule list \<Rightarrow> oRule list" where   \<comment> \<open>one round of the loop over the owned paths\<close>
  "narrowRule path rules =
     (if \<exists>r \<in> set rules. ruPath r = path
      then map (\<lambda>r. if ruPath r = path then r\<lparr>ruCaps := [''read'']\<rparr> else r) rules
      else rules @ [\<lparr>ruPath = path, ruCaps = [''read'']\<rparr>])"

definition OperatorRules :: "oMount \<Rightarrow> oRule list" where
  "OperatorRules m =
     (if moType m \<noteq> ''pki'' then []
      else fold narrowRule (SpecOwnedPaths m)
        (map (\<lambda>(p, caps). \<lparr>ruPath = moPath m @ ''/'' @ p, ruCaps = caps\<rparr>) operatorTable))"

abbreviation ProbeSegment :: string where "ProbeSegment \<equiv> ''_llz_probe''"

definition custodyTable :: "string list" where   \<comment> \<open>below the mount\<close>
  "custodyTable = [''root'', ''root/generate/internal'', ''root/generate/exported'', ''root/sign-intermediate'',
     ''root/sign-self-issued'', ''intermediate/generate/exported'', ''issuers/generate/root/internal'',
     ''issuers/generate/root/exported'', ''issuers/generate/intermediate/exported'', ''sign-verbatim'',
     ''sign-verbatim/'' @ ProbeSegment, ''issuer/'' @ ProbeSegment @ ''/sign-verbatim'',
     ''issuer/'' @ ProbeSegment @ ''/sign-intermediate'', ''issuer/'' @ ProbeSegment @ ''/sign-self-issued'',
     ''issuer/'' @ ProbeSegment @ ''/sign-revocation-list'', ''config/ca'', ''keys/import'', ''issuers/import/bundle'']"

definition caCustodyPaths :: "string \<Rightarrow> string list" where
  "caCustodyPaths mount = map (\<lambda>p. mount @ ''/'' @ p) custodyTable"

definition issuanceTable :: "string list" where
  "issuanceTable = [''issue/'' @ ProbeSegment, ''sign/'' @ ProbeSegment,
     ''issuer/'' @ ProbeSegment @ ''/issue/'' @ ProbeSegment, ''issuer/'' @ ProbeSegment @ ''/sign/'' @ ProbeSegment]"

definition OperatorDeniedPaths :: "oMount \<Rightarrow> string list" where
  "OperatorDeniedPaths m =
     (if moType m \<noteq> ''pki'' then []
      else (''sys/mounts/'' @ moPath m) # caCustodyPaths (moPath m)
        @ map (\<lambda>p. moPath m @ ''/'' @ p) issuanceTable)"

subsection \<open>Validation\<close>

datatype baoError =
    MountShape nat string
  | MountReserved nat string
  | MountTwice nat string
  | MountType nat string
  | MountTTL nat string
  | MountConfig nat nat string
  | MountOperator nat nat string
  | PolicyShape nat string
  | PolicyReserved nat string
  | PolicyTwice nat string
  | PolicyNoRules nat
  | RulePath nat nat string
  | RuleScope nat nat string
  | RuleWrites nat nat string
  | RuleNoCaps nat nat
  | RuleCap nat nat string
  | RuleMixesDeny nat nat
  | RoleShape nat string
  | RoleReserved nat string
  | RoleTwice nat string
  | RoleUnbound nat
  | RoleBinds nat string
  | RoleNoPolicies nat
  | RolePolicy nat string
  | RoleTTL nat string

definition configPathAllowed :: "string \<Rightarrow> string \<Rightarrow> bool" where
  "configPathAllowed engine p \<longleftrightarrow> \<not> contains p ''..'' \<and> (\<exists>re \<in> set (mountConfigAllow engine). rx_match re p)"

definition firstSegment :: "string \<Rightarrow> string" where   \<comment> \<open>up to the first slash\<close>
  "firstSegment p = (case cut_at CHR ''/'' p of (a, _, _) \<Rightarrow> a)"

definition ruleInScope :: "string \<Rightarrow> string list \<Rightarrow> team list \<Rightarrow> bool" where
  "ruleInScope p mounts teams \<longleftrightarrow>
     List.member mounts (firstSegment p) \<and> firstSegment p \<noteq> p
     \<or> (\<exists>t \<in> set teams. let sub = trim_prefix (tmSubtree t) ''secret/'' in
          has_prefix p (''secret/data/'' @ sub @ ''/'') \<or> has_prefix p (''secret/metadata/'' @ sub @ ''/''))"

definition workloadWriteAllowed :: "oRule \<Rightarrow> string list \<Rightarrow> bool" where
  "workloadWriteAllowed r mounts =
     (let writes = (\<exists>c \<in> set (ruCaps r). List.member writeCapabilities c) in
      case cut_at CHR ''/'' (ruPath r) of (first, rest, _) \<Rightarrow>
        if \<not> writes \<or> \<not> List.member mounts first then True else workloadIssuanceRe rest)"

text \<open>\<open>mounts\<close> is the key set of the map of the mounts read so far.\<close>

definition mountErrors :: "(nat \<Rightarrow> nat \<Rightarrow> nat \<Rightarrow> nat) \<Rightarrow> team list \<Rightarrow> nat \<Rightarrow> string list \<Rightarrow> oMount \<Rightarrow> baoError list" where
  "mountErrors frac teams i mounts m =
     (if \<not> extNameRe (moPath m) then [MountShape i (moPath m)]
      else if List.member ReservedOpenBaoMounts (moPath m) \<or> List.member [''kubernetes'', ''jwt'', ''keycloak''] (moPath m)
      then [MountReserved i (moPath m)]
      else if List.member mounts (moPath m) then [MountTwice i (moPath m)]
      else [])
     @ (if moType m \<noteq> ''pki'' then [MountType i (moType m)] else [])
     @ (if moTTL m \<noteq> [] \<and> ParseDuration frac (moTTL m) = None then [MountTTL i (moTTL m)] else [])
     @ concat (map (\<lambda>(j, w). if configPathAllowed (moType m) (owPath w) then [] else [MountConfig i j (owPath w)])
         (List.enumerate 0 (moConfig m)))
     @ concat (map (\<lambda>(j, q). if List.member (map tmName teams) q then [] else [MountOperator i j q])
         (List.enumerate 0 (moOperators m)))"

fun mountsLoop :: "(nat \<Rightarrow> nat \<Rightarrow> nat \<Rightarrow> nat) \<Rightarrow> team list \<Rightarrow> nat \<Rightarrow> string list \<Rightarrow> oMount list \<Rightarrow> baoError list \<times> string list" where
  "mountsLoop frac teams i mounts [] = ([], mounts)"
| "mountsLoop frac teams i mounts (m # ms) =
     (let mounts' = (if moPath m \<noteq> [] then moPath m # mounts else mounts);
          (errs, final) = mountsLoop frac teams (Suc i) mounts' ms
      in (mountErrors frac teams i mounts m @ errs, final))"

definition ruleErrors :: "string list \<Rightarrow> team list \<Rightarrow> nat \<Rightarrow> nat \<Rightarrow> oRule \<Rightarrow> baoError list" where
  "ruleErrors mounts teams i j r =
     (if \<not> rulePathRe (ruPath r) \<or> contains (ruPath r) ''..'' then [RulePath i j (ruPath r)]
      else if \<not> ruleInScope (ruPath r) mounts teams then [RuleScope i j (ruPath r)]
      else if \<not> workloadWriteAllowed r mounts then [RuleWrites i j (ruPath r)]
      else [])
     @ (if ruCaps r = [] then [RuleNoCaps i j] else [])
     @ concat (map (\<lambda>c. (if List.member allowedCaps c then [] else [RuleCap i j c])
         @ (if c = ''deny'' \<and> length (ruCaps r) > 1 then [RuleMixesDeny i j] else [])) (ruCaps r))"

fun policiesLoop :: "string list \<Rightarrow> team list \<Rightarrow> nat \<Rightarrow> string list \<Rightarrow> oPolicy list \<Rightarrow> baoError list" where
  "policiesLoop mounts teams i seen [] = []"
| "policiesLoop mounts teams i seen (p # ps) =
     (if \<not> extNameRe (poName p) then [PolicyShape i (poName p)]
      else if List.member ReservedOpenBaoPolicies (poName p) \<or> has_suffix (poName p) ''-reader''
        \<or> has_suffix (poName p) ''-writer'' \<or> has_suffix (poName p) ''-operator'' then [PolicyReserved i (poName p)]
      else if List.member seen (poName p) then [PolicyTwice i (poName p)]
      else [])
     @ (if poRules p = [] then [PolicyNoRules i] else [])
     @ concat (map (\<lambda>(j, r). ruleErrors mounts teams i j r) (List.enumerate 0 (poRules p)))
     @ policiesLoop mounts teams (Suc i) (poName p # seen) ps"

definition oneHour :: int where "oneHour = 3600000000000"

definition roleErrors :: "(nat \<Rightarrow> nat \<Rightarrow> nat \<Rightarrow> nat) \<Rightarrow> string list \<Rightarrow> nat \<Rightarrow> string list \<Rightarrow> oRole \<Rightarrow> baoError list" where
  "roleErrors frac policies i seen r =
     (if \<not> extNameRe (roName r) then [RoleShape i (roName r)]
      else if List.member ReservedOpenBaoKubernetesRoles (roName r) then [RoleReserved i (roName r)]
      else if List.member seen (roName r) then [RoleTwice i (roName r)]
      else [])
     @ (if roAccounts r = [] \<or> roNamespaces r = [] then [RoleUnbound i] else [])
     @ concat (map (\<lambda>n. if n = ''*'' \<or> \<not> k8sNameRe n then [RoleBinds i n] else []) (roAccounts r @ roNamespaces r))
     @ (if roPolicies r = [] then [RoleNoPolicies i] else [])
     @ concat (map (\<lambda>p. if List.member policies p then [] else [RolePolicy i p]) (roPolicies r))
     @ (case ParseDuration frac (EffectiveTTL r) of
          None \<Rightarrow> [RoleTTL i (roTTL r)]
        | Some d \<Rightarrow> if d \<le> 0 \<or> d > oneHour then [RoleTTL i (roTTL r)] else [])"

fun rolesLoop :: "(nat \<Rightarrow> nat \<Rightarrow> nat \<Rightarrow> nat) \<Rightarrow> string list \<Rightarrow> nat \<Rightarrow> string list \<Rightarrow> oRole list \<Rightarrow> baoError list" where
  "rolesLoop frac policies i seen [] = []"
| "rolesLoop frac policies i seen (r # rs) =
     roleErrors frac policies i seen r @ rolesLoop frac policies (Suc i) (roName r # seen) rs"

definition ValidateOpenBao :: "(nat \<Rightarrow> nat \<Rightarrow> nat \<Rightarrow> nat) \<Rightarrow> openbaoExt \<Rightarrow> team list \<Rightarrow> baoError list" where
  "ValidateOpenBao frac e teams =
     (let (merrs, mounts) = mountsLoop frac teams 0 [] (oeMounts e)
      in merrs @ policiesLoop mounts teams 0 [] (oePolicies e)
         @ rolesLoop frac (map poName (oePolicies e)) 0 [] (oeRoles e))"

subsection \<open>Paths and segments\<close>

lemma split_on_join: "xs \<noteq> [] \<Longrightarrow> \<forall>x \<in> set xs. c \<notin> set x \<Longrightarrow> split_on c (join [c] xs) = xs"
proof (induction xs)
  case (Cons x xs)
  then show ?case by (cases xs) (simp_all add: split_on_append_sep split_on_free)
qed simp

lemma split_on_inj: "split_on c s = split_on c t \<Longrightarrow> s = t"
  by (metis join_split_on)

text \<open>\<open>PolicyPathMatches\<close> on segments.\<close>

definition segsMatch :: "bool \<Rightarrow> string list \<Rightarrow> string list \<Rightarrow> bool" where
  "segsMatch glob rs ps =
     (if \<not> glob then list_all2 segMatches rs ps
      else length rs \<le> length ps \<and> list_all2 segMatches (take (length rs - 1) rs) (take (length rs - 1) ps)
        \<and> has_prefix (ps ! (length rs - 1)) (rs ! (length rs - 1)))"

lemma PolicyPathMatches_segs:
  "PolicyPathMatches rule path
     = segsMatch (has_suffix rule ''*'') (split_on CHR ''/'' (trim_suffix rule ''*'')) (split_on CHR ''/'' path)"
  unfolding PolicyPathMatches_def segsMatch_def Let_def by (auto dest: list_all2_lengthD)

lemma segsMatch_Cons:
  assumes "rs \<noteq> []"
  shows "segsMatch glob (x # rs) ps \<longleftrightarrow> (\<exists>p ps'. ps = p # ps' \<and> segMatches x p \<and> segsMatch glob rs ps')"
  using assms by (cases ps; cases rs) (auto simp: segsMatch_def)

lemma segsMatch_append:
  assumes "rs \<noteq> []" "''+'' \<notin> set pre"
  shows "segsMatch glob (pre @ rs) ps \<longleftrightarrow> (\<exists>ps'. ps = pre @ ps' \<and> segsMatch glob rs ps')"
  using assms(2)
proof (induction pre arbitrary: ps)
  case (Cons x pre)
  have "segMatches x p \<longleftrightarrow> p = x" for p using Cons.prems by (auto simp: segMatches_def)
  then show ?case using Cons assms(1) by (auto simp: segsMatch_Cons)
qed simp

lemma star_suffix:
  "has_suffix (pre @ CHR ''/'' # rest) ''*'' = has_suffix rest ''*''"
  "trim_suffix (pre @ CHR ''/'' # rest) ''*'' = pre @ CHR ''/'' # trim_suffix rest ''*''"
proof -
  show a: "has_suffix (pre @ CHR ''/'' # rest) ''*'' = has_suffix rest ''*''"
    by (cases rest rule: rev_cases) (auto simp: has_suffix_iff)
  show "trim_suffix (pre @ CHR ''/'' # rest) ''*'' = pre @ CHR ''/'' # trim_suffix rest ''*''"
    unfolding trim_suffix_def a by (cases rest rule: rev_cases) (auto simp: has_suffix_iff)
qed

text \<open>A rule below a plain prefix matches exactly the paths below that prefix that the rest matches.\<close>

lemma matches_beneath:
  assumes "''+'' \<notin> set (split_on CHR ''/'' pre)"
  shows "PolicyPathMatches (pre @ CHR ''/'' # rest) path
    \<longleftrightarrow> (\<exists>t. path = pre @ CHR ''/'' # t \<and> PolicyPathMatches rest t)" (is "_ \<longleftrightarrow> ?R")
proof -
  let ?g = "has_suffix rest ''*''" and ?rs = "split_on CHR ''/'' (trim_suffix rest ''*'')"
  have "PolicyPathMatches (pre @ CHR ''/'' # rest) path
    \<longleftrightarrow> (\<exists>ps. split_on CHR ''/'' path = split_on CHR ''/'' pre @ ps \<and> segsMatch ?g ?rs ps)"
    unfolding PolicyPathMatches_segs star_suffix split_on_append
    using segsMatch_append [OF split_on_not_Nil assms] .
  also have "\<dots> \<longleftrightarrow> ?R"
  proof
    assume "\<exists>ps. split_on CHR ''/'' path = split_on CHR ''/'' pre @ ps \<and> segsMatch ?g ?rs ps"
    then obtain ps where ps: "split_on CHR ''/'' path = split_on CHR ''/'' pre @ ps" "segsMatch ?g ?rs ps" by blast
    have ne: "ps \<noteq> []" using ps(2) split_on_not_Nil [of "CHR ''/''" "trim_suffix rest ''*''"]
      by (auto simp: segsMatch_def split: if_splits)
    have "\<forall>x \<in> set ps. CHR ''/'' \<notin> set x" using split_on_piece_free ps(1) by (metis UnCI set_append)
    then have sp: "split_on CHR ''/'' (join ''/'' ps) = ps" using split_on_join [OF ne] by blast
    have "split_on CHR ''/'' path = split_on CHR ''/'' (pre @ CHR ''/'' # join ''/'' ps)"
      unfolding split_on_append sp using ps(1) .
    then have "path = pre @ CHR ''/'' # join ''/'' ps" by (rule split_on_inj)
    then show ?R using ps(2) sp by (auto simp: PolicyPathMatches_segs)
  qed (auto simp: PolicyPathMatches_segs split_on_append)
  finally show ?thesis .
qed

lemma beneath_slash_free:
  assumes "CHR ''/'' \<notin> set m" "m \<noteq> ''+''"
  shows "PolicyPathMatches (m @ CHR ''/'' # rest) (m @ CHR ''/'' # t) = PolicyPathMatches rest t"
  using assms by (subst matches_beneath) (auto simp: split_on_free)

subsection \<open>What the patterns accept\<close>

fun rx_over :: "(char \<Rightarrow> bool) \<Rightarrow> rx \<Rightarrow> bool" where   \<comment> \<open>every character of a match satisfies \<open>P\<close>\<close>
  "rx_over P RNone = True"
| "rx_over P REps = True"
| "rx_over P (RChar p) = (\<forall>c. p c \<longrightarrow> P c)"
| "rx_over P (RSeq r s) = (rx_over P r \<and> rx_over P s)"
| "rx_over P (RAlt r s) = (rx_over P r \<and> rx_over P s)"
| "rx_over P (RStar r) = rx_over P r"

lemma rx_over_chars: "rx_lang r s \<Longrightarrow> rx_over P r \<Longrightarrow> list_all P s"
  by (induction r s rule: rx_lang.induct) auto

lemma rx_over_lits: "rx_over P (rlits p) \<longleftrightarrow> list_all P p"
  by (induction p) auto

lemma not_name: "\<not> lowerAlnum CHR ''/''" "\<not> lowerAlnum CHR ''+''" "\<not> lowerAlnum CHR ''*''" "\<not> lowerAlnum CHR ''.''"
  by code_simp+

lemma kebabRx_chars: "rx_lang kebabRx s \<Longrightarrow> s \<noteq> [] \<and> list_all kebabByte s"
  using rx_over_chars [of kebabRx s kebabByte] by (auto simp: kebabRx_def rx_lang_Seq)

lemma extName_plain: "extNameRe s \<Longrightarrow> s \<noteq> [] \<and> CHR ''/'' \<notin> set s \<and> s \<noteq> ''+''"
  using kebabRx_chars [of s] not_name by (auto simp: extNameRe_def rx_match_iff list_all_iff)

definition rolePiece :: "string \<Rightarrow> bool" where   \<comment> \<open>a role name or \<open>+\<close>\<close>
  "rolePiece r \<longleftrightarrow> r = ''+'' \<or> r \<noteq> [] \<and> list_all nameChar r"

lemma roleRx_piece: "rx_lang roleRx r \<Longrightarrow> rolePiece r"
  using rx_over_chars [of nameRx r nameChar]
  by (auto simp: roleRx_def rolePiece_def nameRx_def rx_lang_Seq)

lemma issueRx_shape:
  assumes "rx_lang issueRx s"
  shows "\<exists>a r. (a = ''issue'' \<or> a = ''sign'') \<and> rolePiece r \<and> s = a @ CHR ''/'' # r"
proof -
  obtain a t where a: "a = ''issue'' \<or> a = ''sign''" "s = a @ t" "rx_lang (RSeq (rlit CHR ''/'') roleRx) t"
    using assms unfolding issueRx_def rx_lang_Seq rx_lang_Alt rx_lang_lits by blast
  then obtain r where "t = CHR ''/'' # r" "rx_lang roleRx r" unfolding rx_lang_lit_Seq by blast
  then show ?thesis using a roleRx_piece by blast
qed

text \<open>What may be written: a role of the mount, or of one of its issuers.\<close>

lemma issuance_shape:
  assumes "workloadIssuanceRe s"
  shows "\<exists>a r. (a = ''issue'' \<or> a = ''sign'') \<and> rolePiece r
    \<and> (s = a @ CHR ''/'' # r \<or> (\<exists>i. rolePiece i \<and> s = ''issuer'' @ CHR ''/'' # i @ CHR ''/'' # a @ CHR ''/'' # r))"
proof -
  obtain p q where pq: "s = p @ q" "p = [] \<or> rx_lang (RSeq (rlits ''issuer/'') (RSeq roleRx (rlit CHR ''/''))) p"
      "rx_lang issueRx q"
    using assms unfolding workloadIssuanceRe_def rx_match_iff rx_lang_Seq [of "ropt _"] rx_lang_Alt rx_lang_Eps by blast
  obtain a r where ar: "a = ''issue'' \<or> a = ''sign''" "rolePiece r" "q = a @ CHR ''/'' # r"
    using issueRx_shape [OF pq(3)] by blast
  show ?thesis
  proof (cases "p = []")
    case False
    then obtain t where t: "p = ''issuer/'' @ t" "rx_lang (RSeq roleRx (rlit CHR ''/'')) t"
      using pq(2) unfolding rx_lang_lits_Seq by blast
    then obtain i where "rolePiece i" "t = i @ ''/''" unfolding rx_lang_Seq rx_lang_Char
      using roleRx_piece by blast
    then show ?thesis using t ar pq(1) by auto
  qed (use ar pq in auto)
qed

subsection \<open>What an accepted extension may reach\<close>

lemma in_enumerate: "x \<in> set xs \<Longrightarrow> \<exists>j. (j, x) \<in> set (List.enumerate n xs)"
proof (induction xs arbitrary: n)
  case (Cons y xs)
  then show ?case by (cases "x = y") auto
qed simp

lemma mountsLoop_ok:
  "mountsLoop frac teams i known ms = ([], final) \<Longrightarrow>
     set final = set known \<union> moPath ` set ms
     \<and> (\<forall>m \<in> set ms. \<exists>j seen. mountErrors frac teams j seen m = [])"
proof (induction ms arbitrary: i known)
  case (Cons m ms)
  from Cons.prems have m: "mountErrors frac teams i known m = []"
    and rest: "mountsLoop frac teams (Suc i) (if moPath m \<noteq> [] then moPath m # known else known) ms = ([], final)"
    by (auto simp: Let_def split: prod.splits if_splits)
  have "extNameRe (moPath m)" using m by (simp add: mountErrors_def split: if_splits)
  then have "moPath m \<noteq> []" using extName_plain by blast
  then show ?case using Cons.IH [OF rest] m by auto
qed simp

lemma mountErrors_Nil:
  assumes "mountErrors frac teams i seen m = []"
  shows "extNameRe (moPath m)" "moPath m \<notin> set ReservedOpenBaoMounts" "moType m = ''pki''"
    and "\<forall>w \<in> set (moConfig m). configPathAllowed ''pki'' (owPath w)"
    and "\<forall>q \<in> set (moOperators m). q \<in> tmName ` set teams"
proof -
  show "extNameRe (moPath m)" "moPath m \<notin> set ReservedOpenBaoMounts" and t: "moType m = ''pki''"
    using assms by (simp_all add: mountErrors_def List.member_iff split: if_splits)
  show "\<forall>w \<in> set (moConfig m). configPathAllowed ''pki'' (owPath w)"
    using assms in_enumerate [of _ "moConfig m" 0] unfolding t [symmetric]
    by (force simp: mountErrors_def split: if_splits)
  show "\<forall>q \<in> set (moOperators m). q \<in> tmName ` set teams"
    using assms in_enumerate [of _ "moOperators m" 0]
    by (force simp: mountErrors_def List.member_iff split: if_splits)
qed

lemma policiesLoop_ok:
  "policiesLoop mounts teams i seen ps = [] \<Longrightarrow> p \<in> set ps \<Longrightarrow> r \<in> set (poRules p) \<Longrightarrow>
     \<exists>i j. ruleErrors mounts teams i j r = []"
proof (induction ps arbitrary: i seen)
  case (Cons q ps)
  from Cons.prems(1) have rules: "\<forall>(j, r) \<in> set (List.enumerate 0 (poRules q)). ruleErrors mounts teams i j r = []"
    and rest: "policiesLoop mounts teams (Suc i) (poName q # seen) ps = []" by auto
  show ?case
  proof (cases "p = q")
    case True
    then show ?thesis using rules in_enumerate [OF Cons.prems(3), of 0] by fast
  qed (use Cons.IH [OF rest] Cons.prems in auto)
qed simp

lemma accepted_mount:
  assumes "ValidateOpenBao frac e teams = []" and "m \<in> set (oeMounts e)"
  shows "extNameRe (moPath m)" "moPath m \<notin> set ReservedOpenBaoMounts" "moType m = ''pki''"
    and "\<forall>w \<in> set (moConfig m). configPathAllowed ''pki'' (owPath w)"
proof -
  obtain final where "mountsLoop frac teams 0 [] (oeMounts e) = ([], final)"
    using assms(1) by (auto simp: ValidateOpenBao_def split: prod.splits)
  from mountsLoop_ok [OF this] obtain j seen where "mountErrors frac teams j seen m = []" using assms(2) by blast
  from mountErrors_Nil [OF this]
  show "extNameRe (moPath m)" "moPath m \<notin> set ReservedOpenBaoMounts" "moType m = ''pki''"
    "\<forall>w \<in> set (moConfig m). configPathAllowed ''pki'' (owPath w)" by blast+
qed

lemma accepted_rule:
  assumes "ValidateOpenBao frac e teams = []" and "p \<in> set (oePolicies e)" and "r \<in> set (poRules p)"
  shows "\<exists>mounts. set mounts = moPath ` set (oeMounts e) \<and> ruleInScope (ruPath r) mounts teams
    \<and> workloadWriteAllowed r mounts"
proof -
  obtain mounts where ml: "mountsLoop frac teams 0 [] (oeMounts e) = ([], mounts)"
    and pl: "policiesLoop mounts teams 0 [] (oePolicies e) = []"
    using assms(1) by (auto simp: ValidateOpenBao_def split: prod.splits)
  obtain i j where "ruleErrors mounts teams i j r = []" using policiesLoop_ok [OF pl assms(2,3)] by blast
  then have "ruleInScope (ruPath r) mounts teams \<and> workloadWriteAllowed r mounts"
    by (simp add: ruleErrors_def split: if_splits)
  then show ?thesis using mountsLoop_ok [OF ml] by (intro exI [of _ mounts]) simp
qed

lemma firstSegment_cut:
  assumes "firstSegment p \<noteq> p"
  shows "\<exists>rest. p = firstSegment p @ CHR ''/'' # rest \<and> cut_at CHR ''/'' p = (firstSegment p, rest, True)
    \<and> CHR ''/'' \<notin> set (firstSegment p)"
proof -
  have "CHR ''/'' \<in> set p"
  proof (rule ccontr)
    assume "CHR ''/'' \<notin> set p"
    from cut_at_free [OF this] show False using assms by (simp add: firstSegment_def)
  qed
  then obtain a rest where p: "p = a @ CHR ''/'' # rest" "CHR ''/'' \<notin> set a" using split_list_first by metis
  then show ?thesis using cut_at_append [of "CHR ''/''" a rest] by (simp add: firstSegment_def)
qed

lemma firstSegment_append: "CHR ''/'' \<notin> set m \<Longrightarrow> firstSegment (m @ CHR ''/'' # t) = m"
  using cut_at_append [of "CHR ''/''" m t] by (simp add: firstSegment_def)

lemma sep_cancel: "c \<notin> set a \<Longrightarrow> c \<notin> set b \<Longrightarrow> a @ c # s = b @ c # t \<longleftrightarrow> a = b \<and> s = t"
proof
  assume free: "c \<notin> set a" "c \<notin> set b" and eq: "a @ c # s = b @ c # t"
  from eq have "cut_at c (a @ c # s) = cut_at c (b @ c # t)" by (rule arg_cong)
  then show "a = b \<and> s = t" unfolding cut_at_append [OF free(1)] cut_at_append [OF free(2)] by simp
qed simp

lemma piece_chars: "x \<in> set (split_on c s) \<Longrightarrow> set x \<subseteq> set s"
proof (induction s arbitrary: x)
  case (Cons y s)
  obtain p ps where ps: "split_on c s = p # ps" using split_on_not_Nil [of c s] by (cases "split_on c s") auto
  have "set p \<subseteq> set s" and "\<forall>q \<in> set ps. set q \<subseteq> set s" using Cons.IH ps by simp_all
  then show ?case using Cons.prems ps by (cases "y = c") auto
qed simp

lemma no_plus_piece: "CHR ''+'' \<notin> set s \<Longrightarrow> ''+'' \<notin> set (split_on CHR ''/'' s)"
  using piece_chars [of "''+''" "CHR ''/''" s] by auto

lemma teamsLoop_ok: "teamsLoop i seen ts = [] \<Longrightarrow> t \<in> set ts \<Longrightarrow> \<exists>j. subtreeErrors j (tmSubtree t) = []"
  by (induction ts arbitrary: i seen) auto

text \<open>An accepted team has a subtree of plain segments outside the platform's namespaces.\<close>

lemma accepted_team:
  assumes "validateTeams teams = []" and "t \<in> set teams"
  shows "\<exists>sub. tmSubtree t = ''secret/'' @ sub \<and> CHR ''+'' \<notin> set sub"
    and "subtreeNamespace (tmSubtree t) \<notin> set SystemSecretNamespaces"
proof -
  obtain j where e: "subtreeErrors j (tmSubtree t) = []"
    using teamsLoop_ok assms unfolding validateTeams_def by blast
  then show "subtreeNamespace (tmSubtree t) \<notin> set SystemSecretNamespaces"
    by (simp add: subtreeErrors_def List.member_iff split: if_splits)
  from e have "openbaoSubtreeRe (tmSubtree t)" by (simp add: subtreeErrors_def split: if_splits)
  then obtain sub where sub: "tmSubtree t = ''secret/'' @ sub" "rx_lang (RSeq kebabRx (RStar (RSeq (rlit CHR ''/'') kebabRx))) sub"
    unfolding openbaoSubtreeRe_def rx_match_iff rx_lang_lits_Seq by blast
  have "list_all (\<lambda>c. kebabByte c \<or> c = CHR ''/'') sub"
    by (rule rx_over_chars [OF sub(2)]) (auto simp: kebabRx_def)
  then have "CHR ''+'' \<notin> set sub" using not_name by (auto simp: list_all_iff)
  then show "\<exists>sub. tmSubtree t = ''secret/'' @ sub \<and> CHR ''+'' \<notin> set sub" using sub(1) by blast
qed

text \<open>The two shapes of an accepted rule: below a declared mount, or below the subtree of a team.\<close>

lemma scope_cases:
  assumes "ValidateOpenBao frac e teams = []" and "validateTeams teams = []"
    and "p \<in> set (oePolicies e)" and "r \<in> set (poRules p)" and "PolicyPathMatches (ruPath r) path"
  obtains (mount) m rest t where "m \<in> set (oeMounts e)" "ruPath r = moPath m @ CHR ''/'' # rest"
      "path = moPath m @ CHR ''/'' # t" "PolicyPathMatches rest t"
      "(\<exists>c \<in> set (ruCaps r). c \<in> set writeCapabilities) \<longrightarrow> workloadIssuanceRe rest"
  | (team) tm sub kind u where "tm \<in> set teams" "tmSubtree tm = ''secret/'' @ sub" "kind = ''data'' \<or> kind = ''metadata''"
      "path = ''secret/'' @ kind @ ''/'' @ sub @ ''/'' @ u"
proof -
  obtain mounts where ms: "set mounts = moPath ` set (oeMounts e)" "ruleInScope (ruPath r) mounts teams"
    "workloadWriteAllowed r mounts" using accepted_rule [OF assms(1,3,4)] by blast
  from ms(2) consider (a) "firstSegment (ruPath r) \<in> set mounts" "firstSegment (ruPath r) \<noteq> ruPath r"
    | (b) tm kind where "tm \<in> set teams" "kind = ''data'' \<or> kind = ''metadata''"
        "has_prefix (ruPath r) (''secret/'' @ kind @ ''/'' @ trim_prefix (tmSubtree tm) ''secret/'' @ ''/'')"
    unfolding ruleInScope_def Let_def List.member_iff by fastforce
  then show thesis
  proof cases
    case a
    then obtain m where m: "m \<in> set (oeMounts e)" "firstSegment (ruPath r) = moPath m" using ms(1) by auto
    from accepted_mount(1) [OF assms(1) m(1)] have plain: "CHR ''/'' \<notin> set (moPath m)" "moPath m \<noteq> ''+''"
      using extName_plain by blast+
    obtain rest where rest: "ruPath r = moPath m @ CHR ''/'' # rest" "cut_at CHR ''/'' (ruPath r) = (moPath m, rest, True)"
      using firstSegment_cut [OF a(2)] m(2) by auto
    obtain t where t: "path = moPath m @ CHR ''/'' # t" "PolicyPathMatches rest t"
      using assms(5) matches_beneath [of "moPath m" rest path] plain unfolding rest(1) by (auto simp: split_on_free)
    have "(\<exists>c \<in> set (ruCaps r). c \<in> set writeCapabilities) \<longrightarrow> workloadIssuanceRe rest"
      using ms(1,3) m(1) by (auto simp: workloadWriteAllowed_def rest(2) List.member_iff split: if_splits)
    with mount m(1) rest(1) t show thesis by blast
  next
    case b
    obtain sub where sub: "tmSubtree tm = ''secret/'' @ sub" "CHR ''+'' \<notin> set sub"
      using accepted_team(1) [OF assms(2) b(1)] by blast
    define pre where "pre = ''secret/'' @ kind @ ''/'' @ sub"
    obtain v where v: "ruPath r = pre @ CHR ''/'' # v"
      using b(3) unfolding sub(1) pre_def trim_prefix_append has_prefix_iff by auto
    have "CHR ''+'' \<notin> set pre" using sub(2) b(2) by (auto simp: pre_def)
    then obtain u where "path = pre @ CHR ''/'' # u"
      using assms(5) matches_beneath [OF no_plus_piece] unfolding v by blast
    then show thesis using team [OF b(1) sub(1) b(2), of u] by (simp add: pre_def)
  qed
qed

text \<open>C28: Whatever path a policy rule of an accepted extension matches lies below a declared mount, which
  is none of OpenBao's own, or below the data or metadata of a declared team's subtree, which is in no
  namespace of the platform.\<close>

theorem accepted_rule_in_scope:
  assumes "ValidateOpenBao frac e teams = []" and "validateTeams teams = []"
    and "p \<in> set (oePolicies e)" and "r \<in> set (poRules p)" and "PolicyPathMatches (ruPath r) path"
  shows "(firstSegment path \<in> moPath ` set (oeMounts e) \<and> firstSegment path \<notin> set ReservedOpenBaoMounts)
    \<or> (\<exists>tm \<in> set teams. \<exists>sub. tmSubtree tm = ''secret/'' @ sub
        \<and> subtreeNamespace (tmSubtree tm) \<notin> set SystemSecretNamespaces
        \<and> (has_prefix path (''secret/data/'' @ sub @ ''/'') \<or> has_prefix path (''secret/metadata/'' @ sub @ ''/'')))"
  using assms
proof (cases rule: scope_cases)
  case (mount m rest t)
  note ok = accepted_mount [OF assms(1) mount(1)]
  have "firstSegment path = moPath m" unfolding mount(3) using extName_plain [OF ok(1)] firstSegment_append by blast
  then show ?thesis using mount(1) ok(2) by auto
next
  case (team tm sub kind u)
  have "has_prefix path (''secret/data/'' @ sub @ ''/'') \<or> has_prefix path (''secret/metadata/'' @ sub @ ''/'')"
    using team(3,4) by (auto simp: has_prefix_iff)
  then show ?thesis using team(1,2) accepted_team(2) [OF assms(2) team(1)] by blast
qed

lemma PolicyPathMatches_segment:
  assumes "CHR ''/'' \<notin> set i" and "PolicyPathMatches (i @ CHR ''/'' # rest) u"
  shows "\<exists>x t. u = x @ CHR ''/'' # t \<and> CHR ''/'' \<notin> set x \<and> PolicyPathMatches rest t"
proof -
  obtain x ps where ps: "split_on CHR ''/'' u = x # ps" "segsMatch (has_suffix rest ''*'') (split_on CHR ''/'' (trim_suffix rest ''*'')) ps"
    using assms(2) unfolding PolicyPathMatches_segs star_suffix split_on_append_sep [OF assms(1)]
      segsMatch_Cons [OF split_on_not_Nil] by blast
  then have ne: "ps \<noteq> []" using split_on_not_Nil [of "CHR ''/''" "trim_suffix rest ''*''"]
    by (auto simp: segsMatch_def split: if_splits)
  have free: "\<forall>y \<in> set (x # ps). CHR ''/'' \<notin> set y" unfolding ps(1) [symmetric] by (intro ballI split_on_piece_free)
  then have sp: "split_on CHR ''/'' (join ''/'' ps) = ps" using split_on_join [OF ne] by simp
  have "u = join ''/'' (x # ps)" unfolding ps(1) [symmetric] join_split_on ..
  then have "u = x @ CHR ''/'' # join ''/'' ps" using ne by (simp add: join_Cons)
  moreover have "PolicyPathMatches rest (join ''/'' ps)" using ps(2) by (simp add: PolicyPathMatches_segs sp)
  moreover have "CHR ''/'' \<notin> set x" using free by simp
  ultimately show ?thesis by blast
qed

lemma PolicyPathMatches_role:
  assumes "rolePiece r" and "PolicyPathMatches r x"
  shows "CHR ''/'' \<notin> set x"
proof -
  have r: "CHR ''/'' \<notin> set r" "CHR ''*'' \<notin> set r" using assms(1) not_name by (auto simp: rolePiece_def list_all_iff)
  then have "\<not> has_suffix r ''*''" by (auto simp: has_suffix_iff)
  then have "length (split_on CHR ''/'' x) = 1"
    using assms(2) r by (simp add: PolicyPathMatches_def trim_suffix_def split_on_free Let_def)
  then obtain y where y: "split_on CHR ''/'' x = [y]" unfolding length_one by blast
  then have "x = y" using join_split_on [of "CHR ''/''" x] by simp
  then show ?thesis using split_on_piece_free [of y "CHR ''/''" x] y by simp
qed

definition issuancePath :: "string \<Rightarrow> bool" where   \<comment> \<open>\<open>issue/x\<close>, \<open>sign/x\<close>, \<open>issuer/i/issue/x\<close> or \<open>issuer/i/sign/x\<close>\<close>
  "issuancePath t \<longleftrightarrow> (case split_on CHR ''/'' t of
      [a, x] \<Rightarrow> a = ''issue'' \<or> a = ''sign''
    | [s, i, a, x] \<Rightarrow> s = ''issuer'' \<and> (a = ''issue'' \<or> a = ''sign'')
    | _ \<Rightarrow> False)"

lemma issuance_matches:
  assumes "workloadIssuanceRe rest" and "PolicyPathMatches rest t"
  shows "issuancePath t"
proof -
  have a_free: "CHR ''/'' \<notin> set a" "''+'' \<notin> set (split_on CHR ''/'' a)" if "a = ''issue'' \<or> a = ''sign''" for a
    using that by auto
  obtain a r where ar: "a = ''issue'' \<or> a = ''sign''" "rolePiece r"
    and shape: "rest = a @ CHR ''/'' # r \<or> (\<exists>i. rolePiece i \<and> rest = ''issuer'' @ CHR ''/'' # i @ CHR ''/'' # a @ CHR ''/'' # r)"
    using issuance_shape [OF assms(1)] by blast
  from shape show ?thesis
  proof
    assume "rest = a @ CHR ''/'' # r"
    then obtain x where x: "t = a @ CHR ''/'' # x" "PolicyPathMatches r x"
      using assms(2) matches_beneath [OF a_free(2) [OF ar(1)]] by blast
    then show ?thesis using ar(1) a_free(1) [OF ar(1)] PolicyPathMatches_role [OF ar(2) x(2)]
      by (simp add: issuancePath_def split_on_append_sep split_on_free)
  next
    assume "\<exists>i. rolePiece i \<and> rest = ''issuer'' @ CHR ''/'' # i @ CHR ''/'' # a @ CHR ''/'' # r"
    then obtain i where i: "rolePiece i" "rest = ''issuer'' @ CHR ''/'' # i @ CHR ''/'' # a @ CHR ''/'' # r" by blast
    have iss: "''+'' \<notin> set (split_on CHR ''/'' ''issuer'')" "CHR ''/'' \<notin> set ''issuer''" by simp_all
    obtain u where u: "t = ''issuer'' @ CHR ''/'' # u" "PolicyPathMatches (i @ CHR ''/'' # a @ CHR ''/'' # r) u"
      using assms(2) matches_beneath [OF iss(1)] unfolding i(2) by blast
    have "CHR ''/'' \<notin> set i" using i(1) not_name by (auto simp: rolePiece_def list_all_iff)
    then obtain j v where j: "u = j @ CHR ''/'' # v" "CHR ''/'' \<notin> set j" "PolicyPathMatches (a @ CHR ''/'' # r) v"
      using PolicyPathMatches_segment u(2) by blast
    obtain x where x: "v = a @ CHR ''/'' # x" "PolicyPathMatches r x"
      using j(3) matches_beneath [OF a_free(2) [OF ar(1)]] by blast
    have "split_on CHR ''/'' t = [''issuer'', j, a, x]"
      unfolding u(1) j(1) x(1) split_on_append_sep [OF iss(2)] split_on_append_sep [OF j(2)]
        split_on_append_sep [OF a_free(1) [OF ar(1)]] split_on_free [OF PolicyPathMatches_role [OF ar(2) x(2)]] ..
    then show ?thesis using ar(1) by (simp add: issuancePath_def)
  qed
qed

lemma custody_not_issuance: "\<forall>c \<in> set custodyTable. \<not> issuancePath c"
  by code_simp

text \<open>C29: A workload's rule that grants create, update, patch or delete matches below a declared mount
  nothing but the issuing and signing of a role, so none of the paths that hold the custody of a CA.\<close>

theorem workload_writes_only_issue:
  assumes "ValidateOpenBao frac e teams = []" and "validateTeams teams = []"
    and "p \<in> set (oePolicies e)" and "r \<in> set (poRules p)" and "PolicyPathMatches (ruPath r) path"
    and "c \<in> set (ruCaps r)" and "c \<in> set writeCapabilities"
    and "m \<in> set (oeMounts e)" and "firstSegment path = moPath m"
  shows "(\<exists>t. path = moPath m @ ''/'' @ t \<and> issuancePath t) \<and> path \<notin> set (caCustodyPaths (moPath m))"
proof -
  have "\<exists>t. path = moPath m @ CHR ''/'' # t \<and> issuancePath t"
    using assms(1-5)
  proof (cases rule: scope_cases)
    case (mount m' rest t)
    have "CHR ''/'' \<notin> set (moPath m')" using accepted_mount(1) [OF assms(1) mount(1)] extName_plain by blast
    then have "moPath m' = moPath m" using assms(9) firstSegment_append unfolding mount(3) by simp
    moreover have "issuancePath t" using issuance_matches mount(4,5) assms(6,7) by blast
    ultimately show ?thesis using mount(3) by auto
  next
    case (team tm sub kind u)
    have "path = ''secret'' @ CHR ''/'' # (kind @ ''/'' @ sub @ ''/'' @ u)" unfolding team(4) by simp
    then have "firstSegment path = ''secret''"
      using firstSegment_append [of "''secret''" "kind @ ''/'' @ sub @ ''/'' @ u"] by simp
    moreover have "''secret'' \<in> set ReservedOpenBaoMounts" by (simp add: ReservedOpenBaoMounts_def)
    ultimately show ?thesis using accepted_mount(2) [OF assms(1,8)] assms(9) by metis
  qed
  then obtain t where t: "path = moPath m @ CHR ''/'' # t" "issuancePath t" by blast
  have "path \<notin> set (caCustodyPaths (moPath m))"
    using t custody_not_issuance by (auto simp: caCustodyPaths_def)
  with t show ?thesis by auto
qed

definition demoTeams :: "team list" where
  "demoTeams = [\<lparr>tmName = ''pay'', tmSubtree = ''secret/pay'', tmQuota = [(''pods'', ''50'')]\<rparr>]"

definition demoMount :: oMount where
  "demoMount = \<lparr>moPath = ''pki'', moType = ''pki'', moTTL = [], moConfig = [\<lparr>owPath = ''roles/web''\<rparr>, \<lparr>owPath = ''config/urls''\<rparr>],
     moOperators = [''pay'']\<rparr>"

definition demoRules :: "oRule list" where
  "demoRules = [\<lparr>ruPath = ''pki/issue/+'', ruCaps = [''update'']\<rparr>, \<lparr>ruPath = ''pki/*'', ruCaps = [''read'', ''list'']\<rparr>,
     \<lparr>ruPath = ''secret/data/pay/*'', ruCaps = [''create'', ''read'']\<rparr>]"

definition demoExt :: openbaoExt where
  "demoExt = \<lparr>oeMounts = [demoMount], oePolicies = [\<lparr>poName = ''web-issuer'', poRules = demoRules\<rparr>], oeRoles = []\<rparr>"

lemma demoTeams_ok: "validateTeams demoTeams = []"
  by code_simp

lemma demo_mount_ok: "mountErrors frac demoTeams 0 [] demoMount = []"
  by (simp only: mountErrors_def demoMount_def oMount.simps) code_simp

lemma demo_rules_ok:
  "ruleErrors [''pki''] demoTeams 0 0 \<lparr>ruPath = ''pki/issue/+'', ruCaps = [''update'']\<rparr> = []"
  "ruleErrors [''pki''] demoTeams 0 (Suc 0) \<lparr>ruPath = ''pki/*'', ruCaps = [''read'', ''list'']\<rparr> = []"
  "ruleErrors [''pki''] demoTeams 0 (Suc (Suc 0)) \<lparr>ruPath = ''secret/data/pay/*'', ruCaps = [''create'', ''read'']\<rparr> = []"
  by code_simp+

lemma demo_policy_name: "extNameRe ''web-issuer''" "\<not> List.member ReservedOpenBaoPolicies ''web-issuer''"
  "\<not> has_suffix ''web-issuer'' ''-reader''" "\<not> has_suffix ''web-issuer'' ''-writer''" "\<not> has_suffix ''web-issuer'' ''-operator''"
  by code_simp+

lemma demoExt_ok: "ValidateOpenBao frac demoExt demoTeams = []"
  using demo_mount_ok [of frac] demo_policy_name
  by (simp add: ValidateOpenBao_def demoExt_def demoRules_def List.member_iff)
    (simp add: demoMount_def demo_rules_ok)

lemma demo_in: "\<lparr>poName = ''web-issuer'', poRules = demoRules\<rparr> \<in> set (oePolicies demoExt)"
  "\<lparr>ruPath = ''pki/issue/+'', ruCaps = [''update'']\<rparr> \<in> set demoRules"
  "\<lparr>ruPath = ''secret/data/pay/*'', ruCaps = [''create'', ''read'']\<rparr> \<in> set demoRules"
  "demoMount \<in> set (oeMounts demoExt)"
  by (simp_all add: demoExt_def demoRules_def)

lemma demo_rule_in: "\<lparr>ruPath = ''secret/data/pay/*'', ruCaps = [''create'', ''read'']\<rparr>
    \<in> set (poRules \<lparr>poName = ''web-issuer'', poRules = demoRules\<rparr>)"
  using demo_in(3) by simp

lemma demo_rule_matches: "PolicyPathMatches (ruPath \<lparr>ruPath = ''secret/data/pay/*'', ruCaps = [''create'', ''read'']\<rparr>) ''secret/data/pay/db''"
  by code_simp

lemma accepted_rule_in_scope_witness:
  "(firstSegment ''secret/data/pay/db'' \<in> moPath ` set (oeMounts demoExt)
      \<and> firstSegment ''secret/data/pay/db'' \<notin> set ReservedOpenBaoMounts)
    \<or> (\<exists>tm \<in> set demoTeams. \<exists>sub. tmSubtree tm = ''secret/'' @ sub
        \<and> subtreeNamespace (tmSubtree tm) \<notin> set SystemSecretNamespaces
        \<and> (has_prefix ''secret/data/pay/db'' (''secret/data/'' @ sub @ ''/'')
           \<or> has_prefix ''secret/data/pay/db'' (''secret/metadata/'' @ sub @ ''/'')))"
  by (rule accepted_rule_in_scope [OF demoExt_ok demoTeams_ok demo_in(1) demo_rule_in demo_rule_matches])

lemma workload_writes_only_issue_witness:
  "\<exists>t. ''pki/issue/web'' = moPath demoMount @ ''/'' @ t \<and> issuancePath t"
proof -
  have "PolicyPathMatches ''pki/issue/+'' ''pki/issue/web''" by code_simp
  moreover have "firstSegment ''pki/issue/web'' = moPath demoMount" by code_simp
  ultimately show ?thesis
    using workload_writes_only_issue [OF demoExt_ok demoTeams_ok demo_in(1), of "\<lparr>ruPath = ''pki/issue/+'', ruCaps = [''update'']\<rparr>"
        "''pki/issue/web''" "''update''" demoMount] demo_in(2,4)
    by (simp add: writeCapabilities_def)
qed

subsection \<open>The operator policy\<close>

definition ownedConfig :: "string list" where
  "ownedConfig = [''config/crl'', ''config/auto-tidy'', ''config/urls'', ''config/cluster'', ''config/issuers'']"

lemma config_shape:
  assumes "configPathAllowed ''pki'' q"
  shows "(\<exists>n. q = ''roles'' @ CHR ''/'' # n)
    \<or> q \<in> set ownedConfig"
proof -
  obtain re where re: "re \<in> set (mountConfigAllow ''pki'')" "rx_lang re q"
    using assms unfolding configPathAllowed_def rx_match_iff by blast
  then consider (roles) "rx_lang (RSeq (rlits ''roles/'') nameRx) q"
    | (config) c where "q = ''config/'' @ c" "c \<in> {''crl'', ''auto-tidy'', ''urls'', ''cluster'', ''issuers''}"
    unfolding mountConfigAllow_def by (auto simp: rx_lang_lits_Seq simp del: rlits.simps)
  then show ?thesis
  proof cases
    case roles
    then obtain n where "q = ''roles/'' @ n" unfolding rx_lang_lits_Seq by blast
    then show ?thesis by simp
  next
    case config
    then show ?thesis by (elim insertE) (simp_all add: ownedConfig_def)
  qed
qed

lemma narrowRule_paths: "ruPath ` set (narrowRule p rules) = insert p (ruPath ` set rules)"
proof (cases "\<exists>r \<in> set rules. ruPath r = p")
  case True
  then have "map ruPath (narrowRule p rules) = map ruPath rules" by (simp add: narrowRule_def)
  then have "set (map ruPath (narrowRule p rules)) = set (map ruPath rules)" by (rule arg_cong)
  then show ?thesis using True by auto
qed (auto simp: narrowRule_def)

lemma fold_narrow_paths: "ruPath ` set (fold narrowRule ps rules) = set ps \<union> ruPath ` set rules"
  by (induction ps arbitrary: rules) (auto simp: narrowRule_paths)

lemma narrow_keeps_narrowed:
  assumes "\<forall>r \<in> set rules. ruPath r = q \<longrightarrow> ruCaps r = [''read'']"
  shows "\<forall>r \<in> set (fold narrowRule ps rules). ruPath r = q \<longrightarrow> ruCaps r = [''read'']"
  using assms
proof (induction ps arbitrary: rules)
  case (Cons p ps)
  have "\<forall>r \<in> set (narrowRule p rules). ruPath r = q \<longrightarrow> ruCaps r = [''read'']"
    using Cons.prems by (auto simp: narrowRule_def)
  then show ?case using Cons.IH by simp
qed simp

lemma fold_narrow:
  "q \<in> set ps \<Longrightarrow> \<forall>r \<in> set (fold narrowRule ps rules). ruPath r = q \<longrightarrow> ruCaps r = [''read'']"
proof (induction ps arbitrary: rules)
  case (Cons p ps)
  show ?case
  proof (cases "p = q")
    case True
    have "\<forall>r \<in> set (narrowRule q rules). ruPath r = q \<longrightarrow> ruCaps r = [''read'']" by (auto simp: narrowRule_def)
    then show ?thesis using narrow_keeps_narrowed [of "narrowRule q rules" q ps] True by simp
  qed (use Cons in simp)
qed simp

lemma operator_segs_denied:
  "\<forall>a \<in> set (map (\<lambda>p. (has_suffix (fst p) ''*'', split_on CHR ''/'' (trim_suffix (fst p) ''*''))) operatorTable).
     \<forall>b \<in> set (map (split_on CHR ''/'') (custodyTable @ issuanceTable)). \<not> segsMatch (fst a) (snd a) b"
  by code_simp

lemma operator_table_denied:
  "a \<in> fst ` set operatorTable \<Longrightarrow> b \<in> set (custodyTable @ issuanceTable) \<Longrightarrow> \<not> PolicyPathMatches a b"
proof (elim imageE)
  fix p assume p: "a = fst p" "p \<in> set operatorTable" and b: "b \<in> set (custodyTable @ issuanceTable)"
  let ?f = "\<lambda>p. (has_suffix (fst p) ''*'', split_on CHR ''/'' (trim_suffix (fst p) ''*''))"
  have "?f p \<in> set (map ?f operatorTable)" unfolding set_map using p(2) by (rule imageI)
  moreover have "split_on CHR ''/'' b \<in> set (map (split_on CHR ''/'') (custodyTable @ issuanceTable))"
    unfolding set_map using b by (rule imageI)
  ultimately have "\<not> segsMatch (fst (?f p)) (snd (?f p)) (split_on CHR ''/'' b)" using operator_segs_denied by blast
  then show "\<not> PolicyPathMatches a b" unfolding PolicyPathMatches_segs p(1) by simp
qed

lemma roles_not_denied: "b \<in> set (custodyTable @ issuanceTable) \<Longrightarrow> firstSegment b \<noteq> ''roles''"
proof -
  have "\<forall>b \<in> set (custodyTable @ issuanceTable). firstSegment b \<noteq> ''roles''" by code_simp
  then show "b \<in> set (custodyTable @ issuanceTable) \<Longrightarrow> firstSegment b \<noteq> ''roles''" by blast
qed

lemma owned_config_denied:
  "\<forall>a \<in> set ownedConfig. \<forall>b \<in> set (custodyTable @ issuanceTable). \<not> PolicyPathMatches a b"
  by code_simp

lemma operator_denied:
  assumes "ValidateOpenBao frac e teams = []" and "m \<in> set (oeMounts e)"
    and r: "r \<in> set (OperatorRules m)" and path: "path \<in> set (OperatorDeniedPaths m)"
  shows "\<not> PolicyPathMatches (ruPath r) path"
proof -
  note ok = accepted_mount [OF assms(1,2)]
  have plain: "CHR ''/'' \<notin> set (moPath m)" "moPath m \<noteq> ''+''" using extName_plain [OF ok(1)] by blast+
  let ?table = "map (\<lambda>(p, caps). \<lparr>ruPath = moPath m @ ''/'' @ p, ruCaps = caps\<rparr>) operatorTable"
  have rules: "OperatorRules m = fold narrowRule (SpecOwnedPaths m) ?table" using ok(3) by (simp add: OperatorRules_def)
    have "ruPath r \<in> set (SpecOwnedPaths m) \<union> ruPath ` set ?table"
      using r unfolding rules fold_narrow_paths [symmetric] by (rule imageI)
    then have "\<exists>a. ruPath r = moPath m @ CHR ''/'' # a \<and> (a \<in> fst ` set operatorTable \<or> configPathAllowed ''pki'' a)"
    proof
      assume "ruPath r \<in> set (SpecOwnedPaths m)"
      then obtain w where "w \<in> set (moConfig m)" "ruPath r = moPath m @ ''/'' @ owPath w"
        unfolding SpecOwnedPaths_def by auto
      then show ?thesis using ok(4) by (intro exI [of _ "owPath w"]) simp
    next
      assume "ruPath r \<in> ruPath ` set ?table"
      then obtain x where "x \<in> set operatorTable" "ruPath r = moPath m @ ''/'' @ fst x" by (auto simp: case_prod_beta)
      then show ?thesis by (intro exI [of _ "fst x"]) simp
    qed
    then obtain a where a: "ruPath r = moPath m @ CHR ''/'' # a"
      "a \<in> fst ` set operatorTable \<or> configPathAllowed ''pki'' a" by blast
    have denied: "\<not> PolicyPathMatches a b" if b: "b \<in> set (custodyTable @ issuanceTable)" for b
      using a(2)
    proof
      assume "configPathAllowed ''pki'' a"
      from config_shape [OF this] show ?thesis
      proof
        assume "\<exists>n. a = ''roles'' @ CHR ''/'' # n"
        then obtain n where n: "a = ''roles'' @ CHR ''/'' # n" by blast
        have "''+'' \<notin> set (split_on CHR ''/'' ''roles'')" "CHR ''/'' \<notin> set ''roles''" by simp_all
        then show ?thesis using matches_beneath [of "''roles''" n b] firstSegment_append [of "''roles''"] roles_not_denied [OF b]
          unfolding n by blast
      next
        assume "a \<in> set ownedConfig"
        then show ?thesis using owned_config_denied b by (blast intro: bspec)
      qed
    next
      assume "a \<in> fst ` set operatorTable"
      then show ?thesis using b by (rule operator_table_denied)
    qed
    have "path = ''sys'' @ CHR ''/'' # ''mounts/'' @ moPath m \<or> (\<exists>b \<in> set (custodyTable @ issuanceTable). path = moPath m @ CHR ''/'' # b)"
      using path ok(3) by (auto simp: OperatorDeniedPaths_def caCustodyPaths_def)
    then show "\<not> PolicyPathMatches (ruPath r) path"
    proof
      assume sys: "path = ''sys'' @ CHR ''/'' # ''mounts/'' @ moPath m"
      have s: "CHR ''/'' \<notin> set ''sys''" by simp
      have "moPath m \<noteq> ''sys''" using ok(2) by (auto simp: ReservedOpenBaoMounts_def)
      then show ?thesis unfolding a(1) sys
        using matches_beneath [of "moPath m" a] plain sep_cancel [OF s plain(1)] split_on_free [OF plain(1)] by auto
    next
      assume "\<exists>b \<in> set (custodyTable @ issuanceTable). path = moPath m @ CHR ''/'' # b"
      then show ?thesis using beneath_slash_free [OF plain] denied a(1) by auto
    qed
qed

text \<open>C30: The operators of an accepted mount are granted neither the mount itself nor a path that holds
  the CA's custody nor the issuing of a certificate; and what the spec configures they may only read.\<close>

theorem operators_hold_no_custody:
  assumes "ValidateOpenBao frac e teams = []" and "m \<in> set (oeMounts e)"
  shows "(\<forall>r \<in> set (OperatorRules m). \<forall>path \<in> set (OperatorDeniedPaths m). \<not> PolicyPathMatches (ruPath r) path)
    \<and> (\<forall>path \<in> set (SpecOwnedPaths m). (\<exists>r \<in> set (OperatorRules m). ruPath r = path)
        \<and> (\<forall>r \<in> set (OperatorRules m). ruPath r = path \<longrightarrow> ruCaps r = [''read'']))"
proof (intro conjI ballI)
  fix r path assume "r \<in> set (OperatorRules m)" "path \<in> set (OperatorDeniedPaths m)"
  then show "\<not> PolicyPathMatches (ruPath r) path" by (rule operator_denied [OF assms])
next
  fix path assume "path \<in> set (SpecOwnedPaths m)"
  moreover obtain table where rules: "OperatorRules m = fold narrowRule (SpecOwnedPaths m) table"
    using accepted_mount(3) [OF assms] by (simp add: OperatorRules_def)
  ultimately have "path \<in> ruPath ` set (OperatorRules m)" and
    narrow: "\<forall>r \<in> set (OperatorRules m). ruPath r = path \<longrightarrow> ruCaps r = [''read'']"
    unfolding rules using fold_narrow_paths fold_narrow by fast+
  then show "\<exists>r \<in> set (OperatorRules m). ruPath r = path" by blast
  show "ruPath r = path \<longrightarrow> ruCaps r = [''read'']" if "r \<in> set (OperatorRules m)" for r
    using narrow that by blast
qed

lemma demo_operator_row: "let r = hd (OperatorRules demoMount) in r \<in> set (OperatorRules demoMount)
    \<and> ''pki/root/generate/internal'' \<in> set (OperatorDeniedPaths demoMount)"
  by code_simp

lemma operators_hold_no_custody_witness:
  "\<not> PolicyPathMatches (ruPath (hd (OperatorRules demoMount))) (''pki/root/generate/internal'')"
  using operators_hold_no_custody [OF demoExt_ok demo_in(4), THEN conjunct1] demo_operator_row [unfolded Let_def] by blast

end
