(* ===== verification/Net_CIDR.thy ===== *)
theory Net_CIDR
  imports Promotion "HOL-Library.Word"
begin

unbundle bit_operations_syntax

text \<open>
  CIDR text and the checks on it: the parts of Go's \<open>net\<close> package the spec relies on
  (\<open>ParseCIDR\<close>, \<open>ParseIP\<close>, \<open>IP.To4\<close>, \<open>IPNet.Contains\<close>, the size of a mask) on machine words, and
  \<open>internal/shared/validate/validate.go\<close> on lists of CIDRs. A 4-byte address is an \<open>IP4\<close>, a 16-byte
  one an \<open>IP6\<close>; an \<open>IP6\<close> that maps an IPv4 address (\<open>::ffff:a.b.c.d\<close>) is one that \<open>To4\<close> takes back.
\<close>

subsection \<open>Addresses\<close>

datatype ipAddr = IP4 "32 word" | IP6 "128 word"

definition to4 :: "ipAddr \<Rightarrow> 32 word option" where
  "to4 ip = (case ip of
      IP4 w \<Rightarrow> Some w
    | IP6 w \<Rightarrow> if drop_bit 32 w = 0xFFFF then Some (ucast w) else None)"

text \<open>One field of a dotted address: digits, no leading zero, at most 255.\<close>

definition octet :: "string \<Rightarrow> nat option" where
  "octet s =
     (if s = [] \<or> \<not> list_all is_digit s \<or> (hd s = CHR ''0'' \<and> length s > 1) \<or> dec_val s > 255 then None
      else Some (dec_val s))"

definition parseIPv4 :: "string \<Rightarrow> 32 word option" where
  "parseIPv4 s = (case map octet (split_on CHR ''.'' s) of
      [Some a, Some b, Some c, Some d] \<Rightarrow> Some (((of_nat a * 256 + of_nat b) * 256 + of_nat c) * 256 + of_nat d)
    | _ \<Rightarrow> None)"

definition hex_val :: "char \<Rightarrow> nat option" where
  "hex_val c =
     (if is_digit c then Some (digit_val c)
      else if CHR ''a'' \<le> c \<and> c \<le> CHR ''f'' then Some (of_char c - 87)
      else if CHR ''A'' \<le> c \<and> c \<le> CHR ''F'' then Some (of_char c - 55)
      else None)"

definition hexNum :: "string \<Rightarrow> 16 word" where   \<comment> \<open>of at most four digits\<close>
  "hexNum s = foldl (\<lambda>n c. 16 * n + (case hex_val c of None \<Rightarrow> 0 | Some v \<Rightarrow> of_nat v)) 0 s"

text \<open>
  The loop of \<open>parseIPv6\<close>: \<open>room\<close> is how many 16-bit groups are left, \<open>acc\<close> the groups so far (in
  reverse) and \<open>ell\<close> where \<open>::\<close> stood. It gives the groups, the place of \<open>::\<close> and the text left over.
\<close>

fun v6Loop :: "nat \<Rightarrow> 16 word list \<Rightarrow> nat option \<Rightarrow> string \<Rightarrow> (16 word list \<times> nat option \<times> string) option" where
  "v6Loop 0 acc ell s = Some (rev acc, ell, s)"
| "v6Loop (Suc room) acc ell s =
     (let ds = takeWhile (\<lambda>c. hex_val c \<noteq> None) s; s' = drop (length ds) s in
      if ds = [] \<or> length ds > 4 then None
      else if s' \<noteq> [] \<and> hd s' = CHR ''.'' then
        (if (ell = None \<and> length acc \<noteq> 6) \<or> length acc > 6 then None
         else (case parseIPv4 s of
             None \<Rightarrow> None
           | Some w \<Rightarrow> Some (rev acc @ [ucast (drop_bit 16 w), ucast w], ell, [])))
      else let acc' = hexNum ds # acc in
        (case s' of
            [] \<Rightarrow> Some (rev acc', ell, [])
          | [c] \<Rightarrow> None
          | c # d # s'' \<Rightarrow>
              if c \<noteq> CHR '':'' then None
              else if d = CHR '':'' then
                (if ell \<noteq> None then None
                 else if s'' = [] then Some (rev acc', Some (length acc'), [])
                 else v6Loop room acc' (Some (length acc')) s'')
              else v6Loop room acc' ell (d # s'')))"

definition groupsWord :: "16 word list \<Rightarrow> 128 word" where
  "groupsWord gs = foldl (\<lambda>n g. push_bit 16 n OR ucast g) 0 gs"

text \<open>An address with a zone (\<open>%\<close>) is refused: \<open>ParseCIDR\<close> refuses every zone.\<close>

definition parseIPv6 :: "string \<Rightarrow> 128 word option" where
  "parseIPv6 s =
     (if CHR ''%'' \<in> set s then None
      else if s = ''::'' then Some 0
      else (case (if has_prefix s ''::'' then v6Loop 8 [] (Some 0) (drop 2 s) else v6Loop 8 [] None s) of
          None \<Rightarrow> None
        | Some (gs, ell, rest) \<Rightarrow>
            if rest \<noteq> [] then None
            else if length gs < 8 then (case ell of
                None \<Rightarrow> None
              | Some i \<Rightarrow> Some (groupsWord (take i gs @ replicate (8 - length gs) 0 @ drop i gs)))
            else if ell \<noteq> None then None
            else Some (groupsWord gs)))"

definition parseIP :: "string \<Rightarrow> ipAddr option" where   \<comment> \<open>the first of \<open>.\<close>, \<open>:\<close> and \<open>%\<close> decides\<close>
  "parseIP s = (case find (\<lambda>c. c = CHR ''.'' \<or> c = CHR '':'' \<or> c = CHR ''%'') s of
      None \<Rightarrow> None
    | Some c \<Rightarrow>
        if c = CHR ''.'' then map_option IP4 (parseIPv4 s)
        else if c = CHR '':'' then map_option IP6 (parseIPv6 s)
        else None)"

definition bitLen :: "ipAddr \<Rightarrow> nat" where
  "bitLen ip = (case ip of IP4 _ \<Rightarrow> 32 | IP6 _ \<Rightarrow> 128)"

definition maskIP :: "ipAddr \<Rightarrow> nat \<Rightarrow> ipAddr" where
  "maskIP ip n = (case ip of IP4 w \<Rightarrow> IP4 (w AND NOT (mask (32 - n))) | IP6 w \<Rightarrow> IP6 (w AND NOT (mask (128 - n))))"

record ipNet =
  inIP :: ipAddr
  inOnes :: nat   \<comment> \<open>\<open>Mask.Size\<close>; the mask is as wide as the address\<close>

text \<open>\<open>dtoi\<close> reads digits and stops at \<open>0xFFFFFF\<close>, far above any prefix length.\<close>

definition ParseCIDR :: "string \<Rightarrow> (ipAddr \<times> ipNet) option" where
  "ParseCIDR s = (case cut_at CHR ''/'' s of (addr, m, found) \<Rightarrow>
     if \<not> found then None
     else (case parseIP addr of
         None \<Rightarrow> None
       | Some ip \<Rightarrow>
           if m = [] \<or> \<not> list_all is_digit m \<or> dec_val m > bitLen ip then None
           else Some (ip, \<lparr>inIP = maskIP ip (dec_val m), inOnes = dec_val m\<rparr>)))"

text \<open>\<open>networkNumberAndMask\<close>: a network of IPv4-mapped addresses is one of IPv4 addresses.\<close>

datatype netNumber = Net4 "32 word" nat | Net6 "128 word" nat

definition networkNumber :: "ipNet \<Rightarrow> netNumber" where
  "networkNumber n = (case inIP n of
      IP4 w \<Rightarrow> Net4 w (inOnes n)
    | IP6 w \<Rightarrow> (case to4 (inIP n) of
          Some v \<Rightarrow> Net4 v (inOnes n - 96)   \<comment> \<open>the last four bytes of the mask\<close>
        | None \<Rightarrow> Net6 w (inOnes n)))"

definition Contains :: "ipNet \<Rightarrow> ipAddr \<Rightarrow> bool" where
  "Contains n ip = (case networkNumber n of
      Net4 w k \<Rightarrow> (case to4 ip of
          None \<Rightarrow> False
        | Some v \<Rightarrow> w AND NOT (mask (32 - k)) = v AND NOT (mask (32 - k)))
    | Net6 w k \<Rightarrow> (case to4 ip of
          Some _ \<Rightarrow> False
        | None \<Rightarrow> (case ip of
            IP4 _ \<Rightarrow> False
          | IP6 v \<Rightarrow> w AND NOT (mask (128 - k)) = v AND NOT (mask (128 - k)))))"

subsection \<open>Lists of CIDRs (\<open>validate.go\<close>)\<close>

datatype IPFamily = AnyFamily | IPv4 | IPv6

definition addrFamily :: "ipAddr \<Rightarrow> IPFamily" where
  "addrFamily ip = (if to4 ip \<noteq> None then IPv4 else IPv6)"

definition IsOpenWorldCIDR :: "string \<Rightarrow> bool" where
  "IsOpenWorldCIDR entry = (case ParseCIDR (trim_space entry) of
      None \<Rightarrow> False | Some (_, network) \<Rightarrow> inOnes network = 0)"

datatype cidrError =
    NotCIDR string string "string option"   \<comment> \<open>field, entry, the prefixed form to use\<close>
  | WrongFamily string string IPFamily
  | OpenWorld string string ipNet

definition fullHint :: "string \<Rightarrow> string option" where   \<comment> \<open>a bare address with its full prefix length\<close>
  "fullHint entry = (case parseIP entry of
      None \<Rightarrow> None | Some ip \<Rightarrow> Some (entry @ (if to4 ip = None then ''/128'' else ''/32'')))"

fun cidrLoop :: "string \<Rightarrow> IPFamily \<Rightarrow> string list \<Rightarrow> cidrError option" where
  "cidrLoop field want [] = None"
| "cidrLoop field want (raw # rest) =
     (let entry = trim_space raw in
      if entry = [] then cidrLoop field want rest
      else (case ParseCIDR entry of
          None \<Rightarrow> Some (NotCIDR field entry (fullHint entry))
        | Some (_, network) \<Rightarrow>
            let got = addrFamily (inIP network) in
            if want \<noteq> AnyFamily \<and> got \<noteq> want then Some (WrongFamily field entry got)
            else if IsOpenWorldCIDR entry then Some (OpenWorld field entry network)
            else cidrLoop field want rest))"

definition CIDRList :: "string \<Rightarrow> string \<Rightarrow> IPFamily \<Rightarrow> cidrError option" where
  "CIDRList field csv want = cidrLoop field want (split_on CHR '','' csv)"

subsection \<open>Networks as address sets\<close>

lemma coarser_mask:
  fixes x v :: "'a::len word"
  assumes "x AND NOT (mask m) = v AND NOT (mask m)" and "m \<le> k"
  shows "x AND NOT (mask k) = v AND NOT (mask k)"
proof (rule bit_word_eqI)
  fix i assume i: "i < LENGTH('a)"
  have "bit (x AND NOT (mask m)) i = bit (v AND NOT (mask m)) i" using assms(1) by simp
  then show "bit (x AND NOT (mask k)) i = bit (v AND NOT (mask k)) i"
    using i assms(2) by (auto simp: bit_simps)
qed

lemma masks_nest:
  fixes x v w :: "'a::len word"
  assumes "w AND NOT (mask m) = x AND NOT (mask m)" and "v AND NOT (mask k) = x AND NOT (mask k)"
  shows "w AND NOT (mask m) = v AND NOT (mask m) \<or> v AND NOT (mask k) = w AND NOT (mask k)"
proof (cases "m \<le> k")
  case True
  then show ?thesis using coarser_mask [OF assms(1)] assms(2) by simp
next
  case False
  then show ?thesis using coarser_mask [OF assms(2), of m] assms(1) by simp
qed

lemma Contains_own: "Contains n (inIP n)"
  by (cases "inIP n") (auto simp: Contains_def networkNumber_def to4_def split: option.splits)

text \<open>Two networks share an address exactly when one contains the number of the other.\<close>

lemma share_iff: "(\<exists>ip. Contains a ip \<and> Contains b ip) \<longleftrightarrow> Contains a (inIP b) \<or> Contains b (inIP a)"
proof
  assume "\<exists>ip. Contains a ip \<and> Contains b ip"
  then obtain ip where c: "Contains a ip" "Contains b ip" by blast
  show "Contains a (inIP b) \<or> Contains b (inIP a)"
  proof (cases "to4 ip")
    case (Some x)
    then obtain w k v l where n: "networkNumber a = Net4 w k" "networkNumber b = Net4 v l"
      using c by (auto simp: Contains_def split: netNumber.splits ipAddr.splits)
    then have ips: "to4 (inIP a) = Some w" "to4 (inIP b) = Some v"
      by (auto simp: networkNumber_def to4_def split: ipAddr.splits option.splits if_splits)
    from c n Some have "w AND NOT (mask (32 - k)) = x AND NOT (mask (32 - k))"
      "v AND NOT (mask (32 - l)) = x AND NOT (mask (32 - l))" by (simp_all add: Contains_def)
    from masks_nest [OF this] show ?thesis using n ips by (simp add: Contains_def)
  next
    case None
    then obtain w k v l x where n: "networkNumber a = Net6 w k" "networkNumber b = Net6 v l" and x: "ip = IP6 x"
      using c by (auto simp: Contains_def split: netNumber.splits ipAddr.splits)
    then have ips: "to4 (inIP a) = None" "to4 (inIP b) = None" "inIP a = IP6 w" "inIP b = IP6 v"
      by (auto simp: networkNumber_def split: ipAddr.splits option.splits)
    from c n None x have "w AND NOT (mask (128 - k)) = x AND NOT (mask (128 - k))"
      "v AND NOT (mask (128 - l)) = x AND NOT (mask (128 - l))" by (simp_all add: Contains_def)
    from masks_nest [OF this] show ?thesis using n ips by (simp add: Contains_def)
  qed
qed (use Contains_own in blast)

lemma flipped_outside:
  fixes w :: "'a::len word"
  assumes "n < LENGTH('a)"
  shows "w AND NOT (mask n) \<noteq> NOT w AND NOT (mask n)"
proof
  assume "w AND NOT (mask n) = NOT w AND NOT (mask n)"
  then have "bit (w AND NOT (mask n)) n = bit (NOT w AND NOT (mask n)) n" by simp
  then show False using assms by (simp add: bit_simps)
qed

lemma cidrLoop_ok:
  "cidrLoop field want raws = None \<Longrightarrow> raw \<in> set raws \<Longrightarrow> trim_space raw \<noteq> [] \<Longrightarrow>
     \<exists>ip network. ParseCIDR (trim_space raw) = Some (ip, network) \<and> (want = AnyFamily \<or> addrFamily (inIP network) = want)
       \<and> inOnes network \<noteq> 0"
proof (induction raws)
  case (Cons r raws)
  show ?case
  proof (cases "raw = r")
    case True
    have "trim_space (trim_space r) = trim_space r" by (simp add: trim_space_def trim_by_idem)
    then show ?thesis using Cons.prems True
      by (auto simp: Let_def IsOpenWorldCIDR_def split: option.splits if_splits)
  qed (use Cons in \<open>auto simp: Let_def split: option.splits if_splits\<close>)
qed simp

lemma set_cut_at: "set (fst (cut_at c s)) \<subseteq> set s"
  by (cases "index_of c s") (simp_all add: cut_at_def set_take_subset)

lemma ParseCIDR_dotted:
  assumes "ParseCIDR s = Some (ip, n)" and "CHR '':'' \<notin> set s"
  shows "\<exists>w. ip = IP4 w \<and> inIP n = IP4 (w AND NOT (mask (32 - inOnes n))) \<and> inOnes n \<le> 32"
proof -
  obtain addr m found where cut: "cut_at CHR ''/'' s = (addr, m, found)" by (cases "cut_at CHR ''/'' s")
  from assms(1) have f: found by (simp add: ParseCIDR_def cut split: if_splits)
  from assms(1) have c: "parseIP addr = Some ip" "dec_val m \<le> bitLen ip" "n = \<lparr>inIP = maskIP ip (dec_val m), inOnes = dec_val m\<rparr>"
    by (simp_all add: ParseCIDR_def cut f split: option.splits if_splits)
  have "set addr \<subseteq> set s"
    using set_cut_at [of "CHR ''/''" s] by (simp add: cut)
  then have "CHR '':'' \<notin> set addr" using assms(2) by blast
  then have "find (\<lambda>c. c = CHR ''.'' \<or> c = CHR '':'' \<or> c = CHR ''%'') addr \<noteq> Some CHR '':''"
    by (auto dest!: find_Some_in)
  then obtain w where "ip = IP4 w" using c(1) unfolding parseIP_def
    by (simp split: option.splits if_splits) blast
  then show ?thesis using c by (simp add: maskIP_def bitLen_def)
qed

text \<open>Every entry of an accepted list is a CIDR of the family the list is for, and one written in
  dotted form leaves an IPv4 address out.\<close>

theorem accepted_list_is_narrow:
  assumes "CIDRList field csv want = None" and "raw \<in> set (split_on CHR '','' csv)" and "trim_space raw \<noteq> []"
  shows "\<exists>ip network. ParseCIDR (trim_space raw) = Some (ip, network)
    \<and> (want = AnyFamily \<or> addrFamily (inIP network) = want)
    \<and> (CHR '':'' \<in> set (trim_space raw) \<or> (\<exists>w. \<not> Contains network (IP4 w)))"
proof -
  obtain ip n where n: "ParseCIDR (trim_space raw) = Some (ip, n)" "want = AnyFamily \<or> addrFamily (inIP n) = want" "inOnes n \<noteq> 0"
    using cidrLoop_ok [OF assms(1) [unfolded CIDRList_def] assms(2,3)] by blast
  have "\<exists>w. \<not> Contains n (IP4 w)" if colon: "CHR '':'' \<notin> set (trim_space raw)"
  proof -
    obtain w where w: "inIP n = IP4 w" "inOnes n \<le> 32" using ParseCIDR_dotted [OF n(1) colon] by blast
    have "w AND NOT (mask (32 - inOnes n)) \<noteq> NOT w AND NOT (mask (32 - inOnes n))"
      using n(3) w(2) by (intro flipped_outside) simp
    then show ?thesis using w(1)
      by (intro exI [of _ "NOT w"]) (simp add: Contains_def networkNumber_def to4_def)
  qed
  with n show ?thesis by blast
qed

lemma accepted_list_is_narrow_witness:
  "\<exists>ip network. ParseCIDR ''203.0.113.0/24'' = Some (ip, network) \<and> (\<exists>w. \<not> Contains network (IP4 w))"
proof -
  have "CIDRList ''f'' ''203.0.113.0/24'' IPv4 = None" by code_simp
  moreover have "''203.0.113.0/24'' \<in> set (split_on CHR '','' ''203.0.113.0/24'')" by code_simp
  moreover have "trim_space ''203.0.113.0/24'' = ''203.0.113.0/24''" by code_simp
  ultimately show ?thesis
    using accepted_list_is_narrow [of "''f''" "''203.0.113.0/24''" IPv4 "''203.0.113.0/24''"] by simp blast
qed

lemma full_mask: "NOT (mask 32) = (0 :: 32 word)"
  by (rule bit_word_eqI) (simp add: bit_simps)

text \<open>Written as IPv4-mapped IPv6, the network of all IPv4 addresses passes as an IPv4 entry.\<close>

theorem mapped_world_accepted:
  "CIDRList ''f'' ''::ffff:0.0.0.0/96'' IPv4 = None"
  "\<exists>ip n. ParseCIDR ''::ffff:0.0.0.0/96'' = Some (ip, n) \<and> (\<forall>w. Contains n (IP4 w))"
proof -
  show "CIDRList ''f'' ''::ffff:0.0.0.0/96'' IPv4 = None" by code_simp
  have "ParseCIDR ''::ffff:0.0.0.0/96''
    = Some (IP6 0xFFFF00000000, \<lparr>inIP = IP6 0xFFFF00000000, inOnes = 96\<rparr>)" by code_simp
  moreover have "Contains \<lparr>inIP = IP6 0xFFFF00000000, inOnes = 96\<rparr> (IP4 w)" for w
    using full_mask by (simp add: Contains_def networkNumber_def to4_def drop_bit_eq_div)
  ultimately show "\<exists>ip n. ParseCIDR ''::ffff:0.0.0.0/96'' = Some (ip, n) \<and> (\<forall>w. Contains n (IP4 w))" by blast
qed

end
