(* ===== verification/Spec_Validate.thy ===== *)
theory Spec_Validate
  imports OpenBao_Ext Net_CIDR
begin

text \<open>
  The validation of the assembled spec: \<open>internal/shared/clusterspec/validate.go\<close> and
  \<open>objlabels.go\<close>. \<open>ValidateSpec\<close> returns every problem, as values of \<open>specError\<close>. Where the source
  ranges over a Go map without sorting (the settings of one component) the model fixes an order. The
  lemmas say what a spec without problems is: its pairs, its networks, its components, its labels.
\<close>

subsection \<open>Object-storage labels (\<open>objlabels.go\<close>)\<close>

abbreviation objLabelMaxLen :: nat where "objLabelMaxLen \<equiv> 63"
abbreviation objLongestSuffix :: string where "objLongestSuffix \<equiv> ''-harbor-registry-''"

definition objLabelRe :: "string \<Rightarrow> bool" where
  "objLabelRe s = rx_match kebabRx s"

definition ObjLabelPrefixMaxLen :: nat where "ObjLabelPrefixMaxLen = 40"

fun sanitizeLoop :: "bool \<Rightarrow> string \<Rightarrow> string \<Rightarrow> string" where   \<comment> \<open>\<open>prevHyphen\<close>, what is written, what is left\<close>
  "sanitizeLoop prev b [] = b"
| "sanitizeLoop prev b (r # rs) =
     (if lowerAlnum r then sanitizeLoop False (b @ [r]) rs
      else if \<not> prev \<and> b \<noteq> [] then sanitizeLoop True (b @ ''-'') rs
      else sanitizeLoop prev b rs)"

abbreviation trimHyphens :: "string \<Rightarrow> string" where "trimHyphens \<equiv> trim_by (\<lambda>c. c = CHR ''-'')"

definition SanitizeObjLabelPrefix :: "string \<Rightarrow> string" where
  "SanitizeObjLabelPrefix name =
     (let out = trimHyphens (sanitizeLoop False [] (to_lower (trim_space name)))
      in if length out > ObjLabelPrefixMaxLen then trimHyphens (take ObjLabelPrefixMaxLen out) else out)"

definition ObjLabelPrefix :: "landingZone \<Rightarrow> string" where
  "ObjLabelPrefix lz =
     (let p = trim_space (siPrefix (lzInstance lz)) in
      if p \<noteq> [] then p else SanitizeObjLabelPrefix (lzName lz))"

definition objLabel :: "string \<Rightarrow> string \<Rightarrow> string \<Rightarrow> string" where
  "objLabel pre name env = (if pre = [] \<or> env = [] then [] else pre @ ''-'' @ name @ ''-'' @ env)"

definition ObjLokiChunksBucket :: "string \<Rightarrow> string \<Rightarrow> string" where
  "ObjLokiChunksBucket pre env = objLabel pre ''loki-chunks'' env"

definition ObjHarborRegistryBucket :: "string \<Rightarrow> string \<Rightarrow> string" where
  "ObjHarborRegistryBucket pre env = objLabel pre ''harbor-registry'' env"

definition ObjKeyLabels :: "string \<Rightarrow> string \<Rightarrow> string list" where
  "ObjKeyLabels pre env =
     (if pre = [] \<or> env = [] then []
      else [objLabel pre ''loki'' env, objLabel pre ''harbor-registry'' env, objLabel pre ''obj'' env])"

datatype labelError =   \<comment> \<open>the flag: the prefix is the operator's, not derived from the name\<close>
    EmptyPrefix bool
  | PrefixShape bool string
  | PrefixLong bool string
  | BucketLong bool string string

definition validateObjLabelLengths :: "landingZone \<Rightarrow> string \<Rightarrow> bool \<Rightarrow> labelError list" where
  "validateObjLabelLengths lz pre explicit =
     (if pre = [] then []
      else concat (map (\<lambda>env.
        let label = pre @ objLongestSuffix @ env in
        if length label > objLabelMaxLen then [BucketLong explicit label env] else []) (envNames lz)))"

definition validateObjLabelPrefix :: "landingZone \<Rightarrow> labelError list" where
  "validateObjLabelPrefix lz =
     (let explicit = (trim_space (siPrefix (lzInstance lz)) \<noteq> []); got = ObjLabelPrefix lz in
      if got = [] then [EmptyPrefix explicit]
      else (if \<not> objLabelRe got then [PrefixShape explicit got] else [])
        @ (if length got > ObjLabelPrefixMaxLen then [PrefixLong explicit got] else [])
        @ validateObjLabelLengths lz got explicit)"

definition LabelPrefixFor :: "loadError + landingZone \<Rightarrow> loadError option + string" where   \<comment> \<open>of \<open>LoadInstance\<close>\<close>
  "LabelPrefixFor loaded = (case loaded of
      Inl e \<Rightarrow> Inl (Some e)
    | Inr lz \<Rightarrow> if ObjLabelPrefix lz = [] then Inl None else Inr (ObjLabelPrefix lz))"

subsection \<open>The repository of the values\<close>

definition lastTwo :: "string list \<Rightarrow> string option" where
  "lastTwo parts = (case rev parts of a # b # _ \<Rightarrow> Some (b @ ''/'' @ a) | _ \<Rightarrow> None)"

definition repoPath :: "string \<Rightarrow> string" where
  "repoPath u0 =
     (let u1 = trim_suffix (trim_suffix (trim_space (to_lower u0)) ''/'') ''.git'';
          u2 = (case cut_on ''://'' u1 of (_, after, found) \<Rightarrow> if found then after else u1);
          u3 = (case cut_at CHR ''@'' u2 of (_, after, found) \<Rightarrow> if found then after else u2);
          u4 = map (\<lambda>c. if c = CHR '':'' then CHR ''/'' else c) u3
      in case lastTwo (split_on CHR ''/'' (trim_by (\<lambda>c. c = CHR ''/'') u4)) of None \<Rightarrow> u4 | Some p \<Rightarrow> p)"

definition sameRepoURL :: "string \<Rightarrow> string \<Rightarrow> bool" where
  "sameRepoURL a b \<longleftrightarrow> repoPath a = repoPath b"

subsection \<open>Problems\<close>

datatype envError =
    EnvKey nameError
  | ObjProxyNoCluster
  | NoLabel | NoRegion | NoK8sVersion
  | NoPoolType | StandardTier string | NoNodes
  | NoBootstrapName | NotManaged | DomainSuffixSet
  | BadApp string nameError
  | BadHA haError
  | BadOBJCluster string
  | SubnetNotCIDR string | SubnetNotIPv4 string | SubnetSize string
  | SameBranch string
  | DbName string nameError | DbNoRegion string | DbRegion string string | DbNoVPC string | DbNoSubnet string
  | DbSize string int
  | RenamedComponent string | UnknownComponent string
  | SettingNotRead string string | BadReplicas string | BadRetention string string | BadQuantity string string string
  | MandatoryOff string | DependencyOff string string | RotatorUnset

datatype specError =
    BadAPIVersion string | BadKind string | NoInstanceName
  | NoUpstreamOrg | NoRepo | BadForge string | ForgeNotYet string
  | LabelProblem labelError
  | ForeignRepo string string
  | NoEnvironments
  | EnvProblem string envError
  | DefaultsDatabases "string list"
  | HAGroupPair string "string list" "string list"
  | NetworkName nameError | NetworkNoRegion string | NetworkUndeclared string string | NetworkRegion string string string
  | SubnetsOverlap string "string \<times> string" "string \<times> string"
  | HAOverlap string "string \<times> string" "string \<times> string"
  | BadReceiver string | NoneWithSlack | SlackUnused
  | TeamProblem teamError
  | BaoProblem baoError

definition validateAplValuesRepo :: "landingZone \<Rightarrow> specError list" where
  "validateAplValuesRepo lz =
     (if siRepo (lzInstance lz) = [] then []
      else concat (map (\<lambda>(name, e).
        let got = trim_space (avRepoURL (bsAplValues (clBoot (enCluster e)))) in
        if got = [] \<or> sameRepoURL got (siRepo (lzInstance lz)) then [] else [ForeignRepo name got])
        (sort_key fst (lzEnvironments lz))))"

subsection \<open>An environment (\<open>validate.go\<close>)\<close>

text \<open>\<open>^[a-z]{2}-[a-z]+-[0-9]+$\<close>\<close>

definition objClusterRe :: "string \<Rightarrow> bool" where
  "objClusterRe s = rx_match (RSeq (RChar lowerLetter) (RSeq (RChar lowerLetter) (RSeq (rlit CHR ''-'')
     (RSeq (RSeq (RChar lowerLetter) (RStar (RChar lowerLetter))) (RSeq (rlit CHR ''-'')
       (RSeq (RChar is_digit) (RStar (RChar is_digit)))))))) s"

definition OBJClusterID :: "string \<Rightarrow> bool" where   \<comment> \<open>no error\<close>
  "OBJClusterID v \<longleftrightarrow> v = [] \<or> objClusterRe v"

definition validateSubnetCIDR :: "string \<Rightarrow> envError option" where
  "validateSubnetCIDR cidr = (case ParseCIDR cidr of
      None \<Rightarrow> Some (SubnetNotCIDR cidr)
    | Some (ip, ipnet) \<Rightarrow>
        if to4 ip = None then Some (SubnetNotIPv4 cidr)
        else if inOnes ipnet \<noteq> 13 \<and> inOnes ipnet \<noteq> 14 then Some (SubnetSize cidr)
        else None)"

definition validateDatabases :: "clusterSpec \<Rightarrow> envError list" where
  "validateDatabases c = concat (map (\<lambda>(name, d).
     (case envName name of Some e \<Rightarrow> [DbName name e] | None \<Rightarrow> [])
     @ (if dbRegion d = [] then [DbNoRegion name]
        else if clRegion c \<noteq> [] \<and> dbRegion d \<noteq> clRegion c then [DbRegion name (dbRegion d)] else [])
     @ (if dbVPCID d \<le> 0 then [DbNoVPC name] else [])
     @ (if dbSubnetID d \<le> 0 then [DbNoSubnet name] else [])
     @ (if List.member [0, 1, 2, 3] (dbSize d) then [] else [DbSize name (dbSize d)]))
     (sort_key fst (clDatabases c)))"

definition sizingKnobs :: "string \<Rightarrow> string list" where
  "sizingKnobs name =
     (if name = ''observability'' then [''retention'', ''storage'', ''replicas'']
      else if name = ''harbor'' then [''registryStorage'']
      else if name = ''broadPatRotator'' then [''broadPATLabel'', ''broadPATDeployments'']
      else [])"

definition digitsRx :: rx where "digitsRx = RSeq (RChar is_digit) (RStar (RChar is_digit))"

definition anyOf :: "string list \<Rightarrow> rx" where "anyOf ws = foldr (\<lambda>w r. RAlt (rlits w) r) ws RNone"

definition durationRe :: "string \<Rightarrow> bool" where
  "durationRe s = rx_match (RSeq digitsRx (anyOf [''ns'', ''us'', [CHR 0xC2, CHR 0xB5, CHR ''s''], ''ms'', ''s'', ''m'', ''h'',
     ''d'', ''w'', ''y''])) s"

definition quantityRe :: "string \<Rightarrow> bool" where
  "quantityRe s = rx_match (RSeq digitsRx (RSeq (ropt (RSeq (rlit CHR ''.'') digitsRx))
     (ropt (anyOf [''Ki'', ''Mi'', ''Gi'', ''Ti'', ''Pi'', ''Ei'', ''k'', ''M'', ''G'', ''T'', ''P'', ''E'', ''m''])))) s"

definition setKnobs :: "componentToggle \<Rightarrow> string list" where   \<comment> \<open>the keys of \<open>set\<close>\<close>
  "setKnobs t =
     (if tgRetention t \<noteq> [] then [''retention''] else []) @ (if tgStorage t \<noteq> [] then [''storage''] else [])
     @ (if tgRegistry t \<noteq> [] then [''registryStorage''] else [])
     @ (if tgPATLabel t \<noteq> [] then [''broadPATLabel''] else [])
     @ (if tgPATDeployments t \<noteq> [] then [''broadPATDeployments''] else [])
     @ (if tgReplicas t \<noteq> None then [''replicas''] else [])"

definition validateComponentSizing :: "string \<Rightarrow> componentToggle \<Rightarrow> envError list" where
  "validateComponentSizing name t =
     map (SettingNotRead name) (filter (\<lambda>k. \<not> List.member (sizingKnobs name) k) (setKnobs t))
     @ (case tgReplicas t of Some n \<Rightarrow> if n < 1 then [BadReplicas name] else [] | None \<Rightarrow> [])
     @ (if tgRetention t \<noteq> [] \<and> \<not> durationRe (tgRetention t) then [BadRetention name (tgRetention t)] else [])
     @ concat (map (\<lambda>(knob, v). if v \<noteq> [] \<and> \<not> quantityRe v then [BadQuantity name knob v] else [])
         [(''storage'', tgStorage t), (''registryStorage'', tgRegistry t)])"

definition toggleProblems :: "string \<Rightarrow> componentToggle \<Rightarrow> envError list" where   \<comment> \<open>the loop over the names\<close>
  "toggleProblems n t =
     (if \<not> KnownComponent n
      then (if n = ''certManager'' \<or> n = ''certAutomation'' then [RenamedComponent n] else [UnknownComponent n])
      else validateComponentSizing n t)"

definition componentProblems :: "toggles \<Rightarrow> component \<Rightarrow> envError list" where   \<comment> \<open>the loop over \<open>Components\<close>\<close>
  "componentProblems ts r =
     (if cmMandatory r \<and> \<not> ComponentEnabled ts (cmName r) then [MandatoryOff (cmName r)] else [])
     @ (if ComponentEnabled ts (cmName r)
        then map (DependencyOff (cmName r)) (filter (\<lambda>dep. \<not> ComponentEnabled ts dep) (cmDependsOn r))
          @ (if cmName r = ''broadPatRotator''
               \<and> (tgPATLabel (toggleAt ts (cmName r)) = [] \<or> tgPATDeployments (toggleAt ts (cmName r)) = [])
             then [RotatorUnset] else [])
        else [])"

definition validateComponents :: "toggles \<Rightarrow> envError list" where
  "validateComponents ts =
     concat (map (\<lambda>(n, t). toggleProblems n t) (sort_key fst ts)) @ concat (map (componentProblems ts) Components)"

definition objProxyOn :: "toggles \<Rightarrow> bool" where
  "objProxyOn ts = (case map_of ts ''objProxy'' of None \<Rightarrow> False | Some t \<Rightarrow> tgEnabled t = Some True)"

definition validatePool :: "clusterSpec \<Rightarrow> envError list" where
  "validatePool c =
     (if npType (clPool c) = [] then [NoPoolType]
      else if has_prefix (npType (clPool c)) ''g6-'' \<or> has_prefix (npType (clPool c)) ''g5-''
      then [StandardTier (npType (clPool c))] else [])
     @ (if npCount (clPool c) \<le> 0 then [NoNodes] else [])"

definition validateBootstrap :: "bootstrap \<Rightarrow> envError list" where
  "validateBootstrap b =
     (if bsName b = [] then [NoBootstrapName] else [])
     @ (if \<not> bsManaged b then [NotManaged] else [])
     @ (if bsDomainSuffix b \<noteq> [] then [DomainSuffixSet] else [])
     @ concat (map (\<lambda>app. case envName app of Some e \<Rightarrow> [BadApp app e] | None \<Rightarrow> []) (managedAppsOf b))"

definition validateEnv :: "string \<Rightarrow> environment \<Rightarrow> envError list" where
  "validateEnv name env =
     (let c = enCluster env; b = clBoot c in
      (case envName name of Some e \<Rightarrow> [EnvKey e] | None \<Rightarrow> [])
      @ (if objProxyOn (enComponents env) \<and> osCluster (clObj c) = [] then [ObjProxyNoCluster] else [])
      @ (if clLabel c = [] then [NoLabel] else [])
      @ (if clRegion c = [] then [NoRegion] else [])
      @ (if clK8s c = [] then [NoK8sVersion] else [])
      @ validatePool c
      @ validateBootstrap b
      @ (case haTopology (haRole (clHA c)) (haGroup (clHA c)) of Some e \<Rightarrow> [BadHA e] | None \<Rightarrow> [])
      @ (if OBJClusterID (osCluster (clObj c)) then [] else [BadOBJCluster (osCluster (clObj c))])
      @ (if nwSubnet (clNetwork c) = [] then []
         else (case validateSubnetCIDR (nwSubnet (clNetwork c)) of Some e \<Rightarrow> [e] | None \<Rightarrow> []))
      @ (if aplValuesBranch b name = appsRevision b then [SameBranch (appsRevision b)] else [])
      @ validateDatabases c
      @ validateComponents (enComponents env))"

subsection \<open>Across environments\<close>

abbreviation DefaultSubnetCIDR :: string where "DefaultSubnetCIDR \<equiv> ''10.0.0.0/13''"

definition cidrsOverlap :: "string \<Rightarrow> string \<Rightarrow> bool" where
  "cidrsOverlap a b = (case (ParseCIDR a, ParseCIDR b) of
      (Some (_, na), Some (_, nb)) \<Rightarrow> Contains na (inIP nb) \<or> Contains nb (inIP na)
    | _ \<Rightarrow> False)"

definition effectiveSubnet :: "clusterSpec \<Rightarrow> string" where
  "effectiveSubnet c = (if nwSubnet (clNetwork c) = [] then DefaultSubnetCIDR else nwSubnet (clNetwork c))"

fun overlaps :: "(string \<times> string) list \<Rightarrow> ((string \<times> string) \<times> (string \<times> string)) list" where
  \<comment> \<open>the pairs \<open>i < j\<close> of one group that overlap\<close>
  "overlaps [] = []"
| "overlaps (m # ms) = map (Pair m) (filter (\<lambda>k. cidrsOverlap (snd m) (snd k)) ms) @ overlaps ms"

definition groupOf :: "(string \<times> 'v) list \<Rightarrow> string \<Rightarrow> 'v list" where   \<comment> \<open>\<open>groups[g]\<close>, in order\<close>
  "groupOf ps g = map snd (filter (\<lambda>p. fst p = g) ps)"

definition groupKeys :: "(string \<times> 'v) list \<Rightarrow> string list" where   \<comment> \<open>the keys, sorted\<close>
  "groupKeys ps = sort (remdups (map fst ps))"

definition attachError :: "landingZone \<Rightarrow> string \<times> environment \<Rightarrow> specError option" where
  "attachError lz = (\<lambda>(name, e).
     let c = enCluster e; ref = nwVPC (clNetwork c) in
     if ref = [] then None
     else (case map_of (lzNetworks lz) ref of
         None \<Rightarrow> Some (NetworkUndeclared name ref)
       | Some region \<Rightarrow>
           if region \<noteq> [] \<and> clRegion c \<noteq> [] \<and> region \<noteq> clRegion c then Some (NetworkRegion name ref region)
           else None))"

definition sharedMembers :: "landingZone \<Rightarrow> (string \<times> (string \<times> string)) list" where
  "sharedMembers lz = map (\<lambda>(name, e). (nwVPC (clNetwork (enCluster e)), name, effectiveSubnet (enCluster e)))
     (filter (\<lambda>ne. nwVPC (clNetwork (enCluster (snd ne))) \<noteq> [] \<and> attachError lz ne = None)
       (sort_key fst (lzEnvironments lz)))"

definition validateNetworks :: "landingZone \<Rightarrow> specError list" where
  "validateNetworks lz =
     concat (map (\<lambda>(name, region).
       (case envName name of Some e \<Rightarrow> [NetworkName e] | None \<Rightarrow> [])
       @ (if region = [] then [NetworkNoRegion name] else [])) (sort_key fst (lzNetworks lz)))
     @ List.map_filter (attachError lz) (sort_key fst (lzEnvironments lz))
     @ concat (map (\<lambda>ref. map (\<lambda>(m, k). SubnetsOverlap ref m k) (overlaps (groupOf (sharedMembers lz) ref)))
         (groupKeys (sharedMembers lz)))"

definition haSubnets :: "landingZone \<Rightarrow> (string \<times> (string \<times> string)) list" where
  "haSubnets lz = map (\<lambda>(name, e). (haGroup (clHA (enCluster e)), name, effectiveSubnet (enCluster e)))
     (filter (\<lambda>ne. haGroup (clHA (enCluster (snd ne))) \<noteq> []) (sort_key fst (lzEnvironments lz)))"

definition validateHAVPCCIDRs :: "landingZone \<Rightarrow> specError list" where
  "validateHAVPCCIDRs lz =
     concat (map (\<lambda>g. map (\<lambda>(m, k). HAOverlap g m k) (overlaps (groupOf (haSubnets lz) g))) (groupKeys (haSubnets lz)))"

definition haMembersOf :: "landingZone \<Rightarrow> (string \<times> (string \<times> string)) list" where   \<comment> \<open>group, name, role\<close>
  "haMembersOf lz = map (\<lambda>(name, e). (haGroup (clHA (enCluster e)), name, haRole (clHA (enCluster e))))
     (filter (\<lambda>ne. haGroup (clHA (enCluster (snd ne))) \<noteq> []) (sort_key fst (lzEnvironments lz)))"

definition validateHAGroups :: "landingZone \<Rightarrow> specError list" where
  "validateHAGroups lz = concat (map (\<lambda>g.
     let ms = groupOf (haMembersOf lz) g;
         actives = map fst (filter (\<lambda>m. snd m = RoleActive) ms);
         standbys = map fst (filter (\<lambda>m. snd m = RoleStandby) ms)
     in if length actives \<noteq> 1 \<or> length standbys \<noteq> 1 then [HAGroupPair g actives standbys] else [])
     (groupKeys (haMembersOf lz)))"

definition validateAlerting :: "alerting \<Rightarrow> specError list" where
  "validateAlerting a =
     (let hasSlack = List.member (alReceivers a) ''slack''; hasNone = List.member (alReceivers a) ''none'' in
      map BadReceiver (filter (\<lambda>r. r \<noteq> ''slack'' \<and> r \<noteq> ''none'') (alReceivers a))
      @ (if hasNone \<and> hasSlack then [NoneWithSlack] else [])
      @ (if (alChannel a \<noteq> [] \<or> alChannelCrit a \<noteq> []) \<and> \<not> hasSlack then [SlackUnused] else []))"

definition forgeSupported :: "string \<Rightarrow> bool" where   \<comment> \<open>\<open>forge.Supported\<close>: no error\<close>
  "forgeSupported f \<longleftrightarrow> f = ''github''"

definition validateInstance :: "specInstance \<Rightarrow> specError list" where
  "validateInstance i =
     (if siOrg i = [] then [NoUpstreamOrg] else [])
     @ (if siRepo i = [] then [NoRepo] else [])
     @ (if \<not> forgeValid (siForge i) then [BadForge (siForge i)]
        else if \<not> forgeSupported (siForge i) then [ForgeNotYet (siForge i)] else [])"

definition validateDatabaseDefaults :: "landingZone \<Rightarrow> specError list" where
  "validateDatabaseDefaults lz =
     (if clDatabases (sdCluster (lzDefaults lz)) = [] then []
      else [DefaultsDatabases (sortedKeys (clDatabases (sdCluster (lzDefaults lz))))])"

definition ValidateSpec :: "(nat \<Rightarrow> nat \<Rightarrow> nat \<Rightarrow> nat) \<Rightarrow> landingZone \<Rightarrow> specError list" where
  "ValidateSpec frac lz =
     (if lzAPIVersion lz \<noteq> apiVersion_llz then [BadAPIVersion (lzAPIVersion lz)] else [])
     @ (if lzKind lz \<noteq> kind_LandingZone then [BadKind (lzKind lz)] else [])
     @ (if lzName lz = [] then [NoInstanceName] else [])
     @ validateInstance (lzInstance lz)
     @ map LabelProblem (validateObjLabelPrefix lz)
     @ validateAplValuesRepo lz
     @ (if lzEnvironments lz = [] then [NoEnvironments] else [])
     @ concat (map (\<lambda>(name, e). map (EnvProblem name) (validateEnv name e)) (sort_key fst (lzEnvironments lz)))
     @ validateDatabaseDefaults lz
     @ validateHAGroups lz
     @ validateNetworks lz
     @ validateHAVPCCIDRs lz
     @ validateAlerting (lzAlerting lz)
     @ map TeamProblem (validateTeams (lzTeams lz))
     @ map BaoProblem (ValidateOpenBao frac (lzOpenBao lz) (lzTeams lz))"

subsection \<open>Lists\<close>

lemma map_insort_key: "map g (insort_key (\<lambda>x. f (g x)) x xs) = insort_key f (g x) (map g xs)"
  by (induction xs) auto

lemma map_sort_key: "map g (sort_key (\<lambda>x. f (g x)) xs) = sort_key f (map g xs)"
  by (induction xs) (simp_all add: map_insort_key)

lemma envNames_sorted: "envNames lz = map fst (sort_key fst (lzEnvironments lz))"
  using map_sort_key [of fst "\<lambda>x. x" "lzEnvironments lz"] by (simp add: envNames_def sortedKeys_def)

text \<open>The parts of a spec without problems.\<close>

lemma valid_parts:
  assumes "ValidateSpec frac lz = []"
  shows "(n, e) \<in> set (lzEnvironments lz) \<Longrightarrow> validateEnv n e = []"
    and "validateHAGroups lz = []" "validateNetworks lz = []" "validateHAVPCCIDRs lz = []"
    and "validateObjLabelPrefix lz = []" "validateTeams (lzTeams lz) = []"
    and "ValidateOpenBao frac (lzOpenBao lz) (lzTeams lz) = []"
proof -
  have "\<forall>x \<in> set (sort_key fst (lzEnvironments lz)). map (EnvProblem (fst x)) (validateEnv (fst x) (snd x)) = []"
    using assms by (simp add: ValidateSpec_def case_prod_beta split: if_splits)
  then show "(n, e) \<in> set (lzEnvironments lz) \<Longrightarrow> validateEnv n e = []" by fastforce
qed (use assms in \<open>simp_all add: ValidateSpec_def split: if_splits\<close>)

subsection \<open>Pairs\<close>

definition specPairs :: "landingZone \<Rightarrow> (string \<times> string \<times> string) list" where   \<comment> \<open>name, role and group, as \<open>topologyFromSpec\<close> reads them\<close>
  "specPairs lz = map (\<lambda>(n, e). (n, haRole (clHA (enCluster e)), haGroup (clHA (enCluster e)))) (lzEnvironments lz)"

definition deploymentOf :: "string \<times> environment \<Rightarrow> deployment" where
  "deploymentOf = (\<lambda>(n, e). \<lparr>dpName = n,
     dpRole = (if haRole (clHA (enCluster e)) = [] then roleStandalone else haRole (clHA (enCluster e))),
     dpGroup = haGroup (clHA (enCluster e))\<rparr>)"

lemma deploymentOf_group: "dpGroup (deploymentOf x) = haGroup (clHA (enCluster (snd x)))"
  by (cases x) (simp add: deploymentOf_def)

lemma topologyFromSpec_deployments:
  "topologyFromSpec (specPairs lz) = map deploymentOf (sort_key fst (lzEnvironments lz))"
proof -
  have "topologyFromSpec (specPairs lz) = sort_key dpName (map deploymentOf (lzEnvironments lz))"
    unfolding topologyFromSpec_def specPairs_def map_map by (intro arg_cong2 [where f = sort_key] map_cong refl)
      (auto simp: deploymentOf_def)
  also have "\<dots> = map deploymentOf (sort_key (\<lambda>x. dpName (deploymentOf x)) (lzEnvironments lz))"
    by (rule map_sort_key [symmetric])
  also have "(\<lambda>x. dpName (deploymentOf x)) = fst" by (auto simp: deploymentOf_def fun_eq_iff)
  finally show ?thesis .
qed

lemma topologyLoop_succeeds:
  "\<forall>d \<in> set deps. dpRole d = roleStandalone \<and> dpGroup d = []
      \<or> (dpRole d = RoleActive \<or> dpRole d = RoleStandby) \<and> dpGroup d \<noteq> []
   \<Longrightarrow> topologyLoop deps = Inr (map (\<lambda>d. (dpGroup d, d)) (filter (\<lambda>d. dpRole d \<noteq> roleStandalone) deps))"
  by (induction deps) auto

lemma validateEnv_ha:
  assumes "validateEnv n e = []"
  shows "haTopology (haRole (clHA (enCluster e))) (haGroup (clHA (enCluster e))) = None"
  using assms by (simp add: validateEnv_def Let_def split: option.splits if_splits)

lemma deploymentOf_ok:
  assumes "validateEnv n e = []"
  shows "dpRole (deploymentOf (n, e)) = roleStandalone \<and> dpGroup (deploymentOf (n, e)) = []
      \<or> (dpRole (deploymentOf (n, e)) = RoleActive \<or> dpRole (deploymentOf (n, e)) = RoleStandby) \<and> dpGroup (deploymentOf (n, e)) \<noteq> []"
  using validateEnv_ha [OF assms] by (auto simp: haTopology_def deploymentOf_def split: if_splits)

lemma haMembersOf_filter:
  "g \<noteq> [] \<Longrightarrow> groupOf (haMembersOf lz) g
     = map (\<lambda>(n, e). (n, haRole (clHA (enCluster e))))
         (filter (\<lambda>ne. haGroup (clHA (enCluster (snd ne))) = g) (sort_key fst (lzEnvironments lz)))"
  unfolding groupOf_def haMembersOf_def filter_map map_map filter_filter
  by (intro arg_cong2 [where f = map] filter_cong refl) (auto simp: o_def case_prod_beta)

definition goodDeployment :: "deployment \<Rightarrow> bool" where
  "goodDeployment d \<longleftrightarrow> dpRole d = roleStandalone \<and> dpGroup d = []
     \<or> (dpRole d = RoleActive \<or> dpRole d = RoleStandby) \<and> dpGroup d \<noteq> []"

lemma topology_of_pairs:
  assumes good: "\<forall>d \<in> set deps. goodDeployment d"
    and pairs: "\<And>d r. d \<in> set deps \<Longrightarrow> dpGroup d \<noteq> [] \<Longrightarrow> r = RoleActive \<or> r = RoleStandby
      \<Longrightarrow> length (filter (\<lambda>e. dpGroup e = dpGroup d \<and> dpRole e = r) deps) = 1"
  shows "validateTopology deps = None"
proof -
  define hs where "hs = filter (\<lambda>d. dpRole d \<noteq> roleStandalone) deps"
  have loop: "topologyLoop deps = Inr (map (\<lambda>d. (dpGroup d, d)) hs)"
    unfolding hs_def using good unfolding goodDeployment_def by (rule topologyLoop_succeeds)
  have err: "groupError (map (\<lambda>d. (dpGroup d, d)) hs) (dpGroup d) = None" if d: "d \<in> set hs" for d
  proof -
    have d': "d \<in> set deps" "dpGroup d \<noteq> []" using d good by (auto simp: hs_def goodDeployment_def)
    have ms: "map snd (filter (\<lambda>p. fst p = dpGroup d) (map (\<lambda>d. (dpGroup d, d)) hs)) = filter (\<lambda>e. dpGroup e = dpGroup d) hs"
      by (simp add: filter_map o_def)
    have role: "filter P (filter (\<lambda>e. dpGroup e = dpGroup d) hs) = filter (\<lambda>e. dpGroup e = dpGroup d \<and> dpRole e = r) deps"
      if "P = (\<lambda>e. dpRole e = RoleActive) \<and> r = RoleActive \<or> P = (\<lambda>e. dpRole e \<noteq> RoleActive) \<and> r = RoleStandby" for P r
      unfolding hs_def filter_filter using that good by (intro filter_cong) (auto simp: goodDeployment_def)
    show ?thesis unfolding groupError_def Let_def ms
      using role [of "\<lambda>e. dpRole e = RoleActive" RoleActive] role [of "\<lambda>e. dpRole e \<noteq> RoleActive" RoleStandby]
        pairs [OF d', of RoleActive] pairs [OF d', of RoleStandby] by simp
  qed
  have "\<forall>g \<in> set (remdups (map fst (map (\<lambda>d. (dpGroup d, d)) hs))). groupError (map (\<lambda>d. (dpGroup d, d)) hs) g = None"
    using err by auto
  then have "List.map_filter (groupError (map (\<lambda>d. (dpGroup d, d)) hs)) (remdups (map fst (map (\<lambda>d. (dpGroup d, d)) hs))) = []"
    unfolding map_filter_Nil .
  then show ?thesis unfolding validateTopology_def loop by simp
qed

lemma groups_paired:
  assumes "validateHAGroups lz = []" and "x \<in> set (lzEnvironments lz)" and "haGroup (clHA (enCluster (snd x))) = g" "g \<noteq> []"
    and "r = RoleActive \<or> r = RoleStandby"
  shows "length (filter (\<lambda>ne. haGroup (clHA (enCluster (snd ne))) = g \<and> haRole (clHA (enCluster (snd ne))) = r)
    (sort_key fst (lzEnvironments lz))) = 1"
proof -
  define ms where "ms = groupOf (haMembersOf lz) g"
  have "(g, fst x, haRole (clHA (enCluster (snd x)))) \<in> set (haMembersOf lz)"
    unfolding haMembersOf_def set_map using assms(2-4) by (intro image_eqI [of _ _ x]) (simp_all add: case_prod_beta)
  then have "g \<in> set (groupKeys (haMembersOf lz))" unfolding groupKeys_def by force
  then have "length (filter (\<lambda>m. snd m = r) ms) = 1" if "r = RoleActive \<or> r = RoleStandby" for r
    using assms(1) that unfolding validateHAGroups_def Let_def concat_eq_Nil_conv set_map ms_def [symmetric]
    by (auto simp: ms_def split: if_splits)
  from this [OF assms(5)] show ?thesis
    unfolding ms_def haMembersOf_filter [OF assms(4)] by (simp add: filter_map o_def case_prod_beta conj_commute)
qed

text \<open>C31: The validation of a spec implies that of its topology: when \<open>Validate\<close> finds no problem,
  \<open>validateTopology\<close> finds none in the deployments read from the spec, so every pair has a peer.\<close>

theorem valid_spec_has_valid_topology:
  assumes "ValidateSpec frac lz = []"
  shows "validateTopology (topologyFromSpec (specPairs lz)) = None"
  unfolding topologyFromSpec_deployments
proof (rule topology_of_pairs)
  let ?S = "sort_key fst (lzEnvironments lz)"
  have ok: "goodDeployment (deploymentOf x)" if "x \<in> set ?S" for x
    using deploymentOf_ok [of "fst x" "snd x"] valid_parts(1) [OF assms, of "fst x" "snd x"] that by (simp add: goodDeployment_def)
  then show "\<forall>d \<in> set (map deploymentOf ?S). goodDeployment d" by (simp del: set_sort)
  fix d r assume d: "d \<in> set (map deploymentOf ?S)" "dpGroup d \<noteq> []" and r: "r = RoleActive \<or> r = RoleStandby"
  then obtain x where x: "x \<in> set (lzEnvironments lz)" "d = deploymentOf x" by auto
  have "dpRole (deploymentOf y) = r \<longleftrightarrow> haRole (clHA (enCluster (snd y))) = r" for y
    using r by (cases y) (auto simp: deploymentOf_def)
  then have "filter (\<lambda>e. dpGroup e = dpGroup d \<and> dpRole e = r) (map deploymentOf ?S)
    = map deploymentOf (filter (\<lambda>ne. haGroup (clHA (enCluster (snd ne))) = dpGroup d \<and> haRole (clHA (enCluster (snd ne))) = r) ?S)"
    by (simp add: filter_map o_def deploymentOf_group)
  then show "length (filter (\<lambda>e. dpGroup e = dpGroup d \<and> dpRole e = r) (map deploymentOf ?S)) = 1"
    using groups_paired [OF valid_parts(2) [OF assms] x(1) _ d(2) r] x(2) by (simp add: deploymentOf_group)
qed

subsection \<open>Components\<close>

lemma components_ok:
  assumes "validateComponents ts = []" and "c \<in> set Components"
  shows "cmMandatory c \<Longrightarrow> ComponentEnabled ts (cmName c)"
    and "ComponentEnabled ts (cmName c) \<Longrightarrow> d \<in> set (cmDependsOn c) \<Longrightarrow> ComponentEnabled ts d"
proof -
  have "concat (map (componentProblems ts) Components) = []" using assms(1) unfolding validateComponents_def by simp
  then have c: "componentProblems ts c = []" using assms(2) unfolding concat_eq_Nil_conv by simp
  show "cmMandatory c \<Longrightarrow> ComponentEnabled ts (cmName c)" using c by (simp add: componentProblems_def split: if_splits)
  show "ComponentEnabled ts (cmName c) \<Longrightarrow> d \<in> set (cmDependsOn c) \<Longrightarrow> ComponentEnabled ts d"
    using c by (auto simp: componentProblems_def filter_empty_conv split: if_splits)
qed

lemma toggles_known:
  assumes "validateComponents ts = []" and "(n, t) \<in> set ts"
  shows "KnownComponent n" "validateComponentSizing n t = []"
proof -
  have "concat (map (\<lambda>(n, t). toggleProblems n t) (sort_key fst ts)) = []"
    using assms(1) unfolding validateComponents_def by simp
  then have "toggleProblems n t = []" using assms(2) unfolding concat_eq_Nil_conv by force
  then show "KnownComponent n" "validateComponentSizing n t = []" by (simp_all add: toggleProblems_def split: if_splits)
qed

text \<open>The condition, if any, under which the content of a component is emitted.\<close>

lemma emits_plain:
  assumes "componentByName n = Some c" "cmCondApp c = []" "cmCondComponent c = []" "\<not> cmManagedSkip c"
  shows "ComponentEmits ts b n \<longleftrightarrow> cmMandatory c \<or> ComponentEnabled ts n"
  using assms by (simp add: ComponentEmits_def EmitOnManaged_def)

lemma dependency_table:
  "\<forall>c \<in> set Components. \<forall>d \<in> set (cmDependsOn c).
     (case componentByName d of None \<Rightarrow> False | Some r \<Rightarrow> \<not> cmManagedSkip r
        \<and> (cmCondApp r = [] \<and> cmCondComponent r = [] \<or> cmName c = ''llzReconciler'' \<and> cmCondApp r = ''loki''
           \<or> cmCondApp r = [] \<and> cmCondComponent r = cmName c))"
  by code_simp

text \<open>C33: In an environment whose components validate, every mandatory component is on and every
  component whose content is emitted has all it depends on emitted too, but for the reconciler on a
  platform without loki.\<close>

theorem emission_is_closed:
  assumes "validateComponents ts = []" and "c \<in> set Components"
  shows "(cmMandatory c \<longrightarrow> ComponentEnabled ts (cmName c))
    \<and> (ComponentEmits ts b (cmName c) \<longrightarrow> (\<forall>d \<in> set (cmDependsOn c). ComponentEmits ts b d
        \<or> cmName c = ''llzReconciler'' \<and> \<not> managedAppEnabled b ''loki''))"
proof (intro conjI impI ballI)
  show "ComponentEnabled ts (cmName c)" if "cmMandatory c" using components_ok(1) [OF assms that] .
  fix d assume em: "ComponentEmits ts b (cmName c)" and d: "d \<in> set (cmDependsOn c)"
  have "cmMandatory c \<or> ComponentEnabled ts (cmName c)"
    using em by (auto simp: ComponentEmits_def componentByName_in [OF assms(2)])
  then have on: "ComponentEnabled ts (cmName c)" using components_ok(1) [OF assms] by blast
  then have dep: "ComponentEnabled ts d" using components_ok(2) [OF assms] d by blast
  obtain r where r: "componentByName d = Some r" "\<not> cmManagedSkip r"
    "cmCondApp r = [] \<and> cmCondComponent r = [] \<or> cmName c = ''llzReconciler'' \<and> cmCondApp r = ''loki''
       \<or> cmCondApp r = [] \<and> cmCondComponent r = cmName c"
    using dependency_table assms(2) d by (fastforce split: option.splits)
  from r(3) show "ComponentEmits ts b d \<or> cmName c = ''llzReconciler'' \<and> \<not> managedAppEnabled b ''loki''"
    using r(1,2) dep on by (auto simp: ComponentEmits_def EmitOnManaged_def)
qed

lemma no_toggles_ok: "validateComponents [] = []"
  by code_simp

text \<open>Two of the components: the first rests on the second, which is not emitted without loki.\<close>

theorem reconciler_without_observability:
  "\<exists>ts b. validateComponents ts = [] \<and> ''observability'' \<in> set (cmDependsOn (the (componentByName ''llzReconciler'')))
    \<and> ComponentEmits ts b ''llzReconciler'' \<and> \<not> ComponentEmits ts b ''observability''"
proof -
  let ?b = "(clBoot demoCluster) \<lparr>bsManagedApps := Some [''harbor'', ''kyverno'']\<rparr>"
  have "validateComponents [] = []" by (rule no_toggles_ok)
  moreover have "''observability'' \<in> set (cmDependsOn (the (componentByName ''llzReconciler'')))" by code_simp
  moreover have "ComponentEmits [] ?b ''llzReconciler''" by code_simp
  moreover have "\<not> ComponentEmits [] ?b ''observability''" by code_simp
  ultimately show ?thesis by blast
qed

lemma emission_is_closed_witness:
  "ComponentEmits [] (clBoot demoCluster) ''certManagerBootstrapCA''"
proof -
  note v = no_toggles_ok
  have c: "componentByName ''openbao'' = Some (the (componentByName ''openbao''))" by code_simp
  then have i: "the (componentByName ''openbao'') \<in> set Components" unfolding componentByName_def by (metis find_Some_in)
  have n: "cmName (the (componentByName ''openbao'')) = ''openbao''" by code_simp
  have d: "''certManagerBootstrapCA'' \<in> set (cmDependsOn (the (componentByName ''openbao'')))" by code_simp
  have "ComponentEmits [] (clBoot demoCluster) ''openbao''" by code_simp
  then show ?thesis using emission_is_closed [OF v i, of "clBoot demoCluster"] d unfolding n by simp
qed

subsection \<open>Networks\<close>

lemma cidrsOverlap_sym: "cidrsOverlap a b = cidrsOverlap b a"
  by (auto simp: cidrsOverlap_def split: option.splits)

lemma overlaps_Nil:
  "overlaps ms = [] \<Longrightarrow> m \<in> set ms \<Longrightarrow> k \<in> set ms \<Longrightarrow> m \<noteq> k \<Longrightarrow> \<not> cidrsOverlap (snd m) (snd k)"
proof (induction ms)
  case (Cons x ms)
  then have "\<forall>y \<in> set ms. \<not> cidrsOverlap (snd x) (snd y)" by (simp add: filter_empty_conv)
  then show ?case using Cons cidrsOverlap_sym by auto
qed simp

lemma groupKeys_in: "(g, x) \<in> set ps \<Longrightarrow> g \<in> set (groupKeys ps) \<and> x \<in> set (groupOf ps g)"
  by (force simp: groupKeys_def groupOf_def)

lemma grouped_disjoint:
  assumes "\<forall>g \<in> set (groupKeys ps). overlaps (groupOf ps g) = []" and "(g, m) \<in> set ps" "(g, k) \<in> set ps" "m \<noteq> k"
  shows "\<not> cidrsOverlap (snd m) (snd k)"
  using assms groupKeys_in overlaps_Nil by metis

lemma effective_parses:
  assumes "validateEnv n e = []"
  shows "\<exists>ip net. ParseCIDR (effectiveSubnet (enCluster e)) = Some (ip, net)"
proof (cases "nwSubnet (clNetwork (enCluster e)) = []")
  case True
  have "ParseCIDR DefaultSubnetCIDR \<noteq> None" by code_simp
  then show ?thesis using True by (simp add: effectiveSubnet_def)
next
  case False
  then have "validateSubnetCIDR (nwSubnet (clNetwork (enCluster e))) = None"
    using assms by (simp add: validateEnv_def Let_def split: option.splits if_splits)
  then show ?thesis using False by (simp add: effectiveSubnet_def validateSubnetCIDR_def split: option.splits)
qed

lemma shared_member:
  assumes "validateNetworks lz = []" and "x \<in> set (lzEnvironments lz)" and "nwVPC (clNetwork (enCluster (snd x))) \<noteq> []"
  shows "(nwVPC (clNetwork (enCluster (snd x))), fst x, effectiveSubnet (enCluster (snd x))) \<in> set (sharedMembers lz)"
proof -
  have "List.map_filter (attachError lz) (sort_key fst (lzEnvironments lz)) = []"
    using assms(1) unfolding validateNetworks_def by simp
  then have "attachError lz x = None" using assms(2) unfolding map_filter_Nil by simp
  then show ?thesis unfolding sharedMembers_def set_map using assms(2,3)
    by (intro image_eqI [of _ _ x]) (simp_all add: case_prod_beta)
qed

text \<open>C32: In a spec without problems two environments that attach to the same network, or that form one
  high-availability group, have address ranges with no address in common.\<close>

theorem coexisting_subnets_disjoint:
  assumes "ValidateSpec frac lz = []"
    and "(n, e) \<in> set (lzEnvironments lz)" and "(n', e') \<in> set (lzEnvironments lz)" and "n \<noteq> n'"
    and "nwVPC (clNetwork (enCluster e)) = nwVPC (clNetwork (enCluster e')) \<and> nwVPC (clNetwork (enCluster e)) \<noteq> []
      \<or> haGroup (clHA (enCluster e)) = haGroup (clHA (enCluster e')) \<and> haGroup (clHA (enCluster e)) \<noteq> []"
  shows "\<exists>a na b nb. ParseCIDR (effectiveSubnet (enCluster e)) = Some (a, na)
    \<and> ParseCIDR (effectiveSubnet (enCluster e')) = Some (b, nb) \<and> (\<forall>ip. \<not> (Contains na ip \<and> Contains nb ip))"
proof -
  obtain a na where a: "ParseCIDR (effectiveSubnet (enCluster e)) = Some (a, na)"
    using effective_parses [OF valid_parts(1) [OF assms(1,2)]] by blast
  obtain b nb where b: "ParseCIDR (effectiveSubnet (enCluster e')) = Some (b, nb)"
    using effective_parses [OF valid_parts(1) [OF assms(1,3)]] by blast
  from assms(5) have "\<not> cidrsOverlap (effectiveSubnet (enCluster e)) (effectiveSubnet (enCluster e'))"
  proof
    assume vpc: "nwVPC (clNetwork (enCluster e)) = nwVPC (clNetwork (enCluster e')) \<and> nwVPC (clNetwork (enCluster e)) \<noteq> []"
    have "\<forall>g \<in> set (groupKeys (sharedMembers lz)). overlaps (groupOf (sharedMembers lz) g) = []"
      using valid_parts(3) [OF assms(1)] unfolding validateNetworks_def by simp
    moreover have "(nwVPC (clNetwork (enCluster e)), n, effectiveSubnet (enCluster e)) \<in> set (sharedMembers lz)"
      using shared_member [OF valid_parts(3) [OF assms(1)] assms(2)] vpc by (metis fst_conv snd_conv)
    moreover have "(nwVPC (clNetwork (enCluster e)), n', effectiveSubnet (enCluster e')) \<in> set (sharedMembers lz)"
      using shared_member [OF valid_parts(3) [OF assms(1)] assms(3)] vpc by (metis fst_conv snd_conv)
    ultimately have "\<not> cidrsOverlap (snd (n, effectiveSubnet (enCluster e))) (snd (n', effectiveSubnet (enCluster e')))"
      by (rule grouped_disjoint) (use assms(4) in simp)
    then show ?thesis by simp
  next
    assume ha: "haGroup (clHA (enCluster e)) = haGroup (clHA (enCluster e')) \<and> haGroup (clHA (enCluster e)) \<noteq> []"
    have "\<forall>g \<in> set (groupKeys (haSubnets lz)). overlaps (groupOf (haSubnets lz) g) = []"
      using valid_parts(4) [OF assms(1)] unfolding validateHAVPCCIDRs_def by simp
    moreover have "(haGroup (clHA (enCluster (snd x))), fst x, effectiveSubnet (enCluster (snd x))) \<in> set (haSubnets lz)"
      if "x \<in> set (lzEnvironments lz)" "haGroup (clHA (enCluster (snd x))) \<noteq> []" for x
      unfolding haSubnets_def set_map using that by (intro image_eqI [of _ _ x]) (simp_all add: case_prod_beta)
    from this [OF assms(2)] this [OF assms(3)] have "(haGroup (clHA (enCluster e)), n, effectiveSubnet (enCluster e)) \<in> set (haSubnets lz)"
      "(haGroup (clHA (enCluster e)), n', effectiveSubnet (enCluster e')) \<in> set (haSubnets lz)"
      using ha by (metis fst_conv snd_conv)+
    ultimately have "\<not> cidrsOverlap (snd (n, effectiveSubnet (enCluster e))) (snd (n', effectiveSubnet (enCluster e')))"
      by (rule grouped_disjoint) (use assms(4) in simp)
    then show ?thesis by simp
  qed
  then have "\<forall>ip. \<not> (Contains na ip \<and> Contains nb ip)" using share_iff [of na nb] by (simp add: cidrsOverlap_def a b)
  with a b show ?thesis by blast
qed

text \<open>Written as IPv4-mapped IPv6, a subnet that is no IPv4 network passes.\<close>

theorem mapped_subnet_accepted:
  "validateSubnetCIDR ''::ffff:10.0.0.0/13'' = None"
  "\<exists>ip n. ParseCIDR ''::ffff:10.0.0.0/13'' = Some (ip, n) \<and> (\<forall>w. \<not> Contains n (IP4 w))"
proof -
  show "validateSubnetCIDR ''::ffff:10.0.0.0/13'' = None" by code_simp
  have "ParseCIDR ''::ffff:10.0.0.0/13'' = Some (IP6 0xFFFF0A000000, \<lparr>inIP = IP6 0, inOnes = 13\<rparr>)" by code_simp
  moreover have "\<not> Contains \<lparr>inIP = IP6 0, inOnes = 13\<rparr> (IP4 w)" for w
    by (simp add: Contains_def networkNumber_def to4_def)
  ultimately show "\<exists>ip n. ParseCIDR ''::ffff:10.0.0.0/13'' = Some (ip, n) \<and> (\<forall>w. \<not> Contains n (IP4 w))" by blast
qed

subsection \<open>Labels\<close>

definition labelShaped :: "string \<Rightarrow> bool" where
  "labelShaped s \<longleftrightarrow> s \<noteq> [] \<and> list_all kebabByte s \<and> hd s \<noteq> CHR ''-'' \<and> last s \<noteq> CHR ''-''"

lemma rx_lang_chars: "list_all p s \<Longrightarrow> rx_lang (RStar (RChar p)) s"
  unfolding rx_lang_Star_Char .

lemma not_hyphen: "\<not> lowerAlnum CHR ''-''"
  by code_simp

lemma objLabelRe_iff: "objLabelRe s \<longleftrightarrow> labelShaped s"
proof
  assume "objLabelRe s"
  then have l: "rx_lang kebabRx s" by (simp add: objLabelRe_def rx_match_iff)
  then have "list_all kebabByte s" "s \<noteq> []" using kebabRx_chars by blast+
  moreover have "hd s \<noteq> CHR ''-''" "last s \<noteq> CHR ''-''"
    using l not_hyphen by (auto simp: kebabRx_def rx_lang_Seq)
  ultimately show "labelShaped s" by (simp add: labelShaped_def)
next
  assume s: "labelShaped s"
  then obtain c t where c: "s = c # t" "lowerAlnum c" by (cases s) (auto simp: labelShaped_def)
  have "rx_lang (ropt (RSeq (RStar (RChar kebabByte)) (RChar lowerAlnum))) t"
  proof (cases t rule: rev_cases)
    case (snoc u d)
    then have "list_all kebabByte u" "lowerAlnum d" using s c by (auto simp: labelShaped_def)
    then show ?thesis unfolding snoc rx_lang_Alt rx_lang_Seq using rx_lang_chars by auto
  qed simp
  then show "objLabelRe s" unfolding objLabelRe_def rx_match_iff kebabRx_def rx_lang_lit_Seq using c by auto
qed

lemma labelShaped_append:
  "labelShaped a \<Longrightarrow> labelShaped b \<Longrightarrow> list_all kebabByte m \<Longrightarrow> labelShaped (a @ m @ b)"
  by (auto simp: labelShaped_def)

lemma envName_chars: "envName n = None \<Longrightarrow> n \<noteq> [] \<and> list_all kebabByte n \<and> hd n \<noteq> CHR ''-''"
  using not_hyphen
  by (auto simp: envName_def envNameRe_def lowerAlnum_def list_all_iff split: if_splits list.splits)

definition bucketLabels :: "landingZone \<Rightarrow> string \<Rightarrow> string list" where   \<comment> \<open>every label of a deployment\<close>
  "bucketLabels lz n = ObjLokiChunksBucket (ObjLabelPrefix lz) n # ObjHarborRegistryBucket (ObjLabelPrefix lz) n
     # ObjKeyLabels (ObjLabelPrefix lz) n"

lemma label_infixes:
  "\<forall>w \<in> set [''loki-chunks'', ''harbor-registry'', ''loki'', ''harbor-registry'', ''obj'']. length w \<le> 15 \<and> list_all kebabByte (''-'' @ w @ ''-'')"
  by code_simp

text \<open>C34: In a spec without problems the labels of a deployment's buckets and keys fit Linode's limit,
  and they have the form Linode asks for when the deployment's name does not end in a hyphen.\<close>

theorem labels_fit:
  assumes "ValidateSpec frac lz = []" and "(n, e) \<in> set (lzEnvironments lz)" and "l \<in> set (bucketLabels lz n)"
  shows "l \<noteq> [] \<and> length l \<le> objLabelMaxLen \<and> (last n \<noteq> CHR ''-'' \<longrightarrow> objLabelRe l)"
proof -
  let ?p = "ObjLabelPrefix lz"
  note v = valid_parts(5) [OF assms(1)]
  have p: "?p \<noteq> []" "objLabelRe ?p" using v by (auto simp: validateObjLabelPrefix_def Let_def split: if_splits)
  have "envName n = None" using valid_parts(1) [OF assms(1,2)] by (simp add: validateEnv_def Let_def split: option.splits)
  from envName_chars [OF this] have n: "n \<noteq> []" "list_all kebabByte n" "hd n \<noteq> CHR ''-''" by blast+
  have "\<exists>b. validateObjLabelLengths lz ?p b = []" using v p by (auto simp: validateObjLabelPrefix_def Let_def)
  moreover have "n \<in> set (envNames lz)" using assms(2) by (force simp: envNames_def sortedKeys_def)
  ultimately have len: "length (?p @ objLongestSuffix @ n) \<le> objLabelMaxLen"
    using p(1) by (fastforce simp: validateObjLabelLengths_def Let_def split: if_splits)
  have lab: "objLabel ?p w n = ?p @ (''-'' @ w @ ''-'') @ n" for w using p(1) n(1) by (simp add: objLabel_def)
  have "bucketLabels lz n = map (\<lambda>w. objLabel ?p w n) [''loki-chunks'', ''harbor-registry'', ''loki'', ''harbor-registry'', ''obj'']"
    using p(1) n(1) by (simp add: bucketLabels_def ObjLokiChunksBucket_def ObjHarborRegistryBucket_def ObjKeyLabels_def)
  then obtain w where w: "w \<in> set [''loki-chunks'', ''harbor-registry'', ''loki'', ''harbor-registry'', ''obj'']"
    "l = ?p @ (''-'' @ w @ ''-'') @ n"
    using assms(3) unfolding lab by (simp only: set_map image_iff) blast
  have "length w \<le> 15" and mid: "list_all kebabByte (''-'' @ w @ ''-'')" using label_infixes w(1) by blast+
  then have "length l \<le> objLabelMaxLen" using len w(2) by simp
  moreover have "objLabelRe l" if "last n \<noteq> CHR ''-''"
    using labelShaped_append [OF p(2) [unfolded objLabelRe_iff] _ mid, of n] n that w(2)
    by (simp add: objLabelRe_iff labelShaped_def)
  ultimately show ?thesis using w(2) n(1) by simp
qed

text \<open>A name that ends in a hyphen is accepted, and no label of it has that form.\<close>

theorem trailing_hyphen_label:
  "envName ''lab-'' = None" "\<not> objLabelRe (ObjLokiChunksBucket ''demo'' ''lab-'')"
  by code_simp+

lemma sanitizeLoop_chars: "list_all kebabByte b \<Longrightarrow> list_all kebabByte (sanitizeLoop prev b rs)"
  by (induction prev b rs rule: sanitizeLoop.induct) auto

lemma trimHyphens_shape:
  assumes "list_all kebabByte s"
  shows "trimHyphens s = [] \<or> labelShaped (trimHyphens s)"
  using trim_by_ends [of "\<lambda>c. c = CHR ''-''" s] set_trim_by [of "\<lambda>c. c = CHR ''-''" s] assms
  by (auto simp: labelShaped_def list_all_iff)

text \<open>A label prefix derived from a name is empty or has the form Linode asks for, within the bound.\<close>

theorem derived_prefix_shape:
  "SanitizeObjLabelPrefix name = [] \<or> objLabelRe (SanitizeObjLabelPrefix name)
     \<and> length (SanitizeObjLabelPrefix name) \<le> ObjLabelPrefixMaxLen"
proof -
  define out where "out = trimHyphens (sanitizeLoop False [] (to_lower (trim_space name)))"
  have chars: "list_all kebabByte out"
    unfolding out_def using set_trim_by sanitizeLoop_chars [of "[]" False] by (fastforce simp: list_all_iff)
  have o: "out = [] \<or> labelShaped out" unfolding out_def by (rule trimHyphens_shape) (rule sanitizeLoop_chars, simp)
  have "list_all kebabByte (take ObjLabelPrefixMaxLen out)" using chars by (auto simp: list_all_iff dest: in_set_takeD)
  note t = trimHyphens_shape [OF this]
  have "length (trimHyphens (take ObjLabelPrefixMaxLen out)) \<le> ObjLabelPrefixMaxLen"
    using length_trim_by [of "\<lambda>c. c = CHR ''-''" "take ObjLabelPrefixMaxLen out"] by simp
  then show ?thesis using o t unfolding SanitizeObjLabelPrefix_def out_def [symmetric] Let_def objLabelRe_iff
    by auto
qed

subsection \<open>A spec without problems\<close>

definition demoHalf :: "string \<Rightarrow> string \<Rightarrow> string \<Rightarrow> environment" where
  "demoHalf role subnet region = \<lparr>enCluster = demoCluster
     \<lparr>clRegion := region, clNetwork := \<lparr>nwVPC = [], nwSubnet = subnet\<rparr>, clHA := \<lparr>haRole = role, haGroup = ''g1''\<rparr>\<rparr>,
     enComponents = []\<rparr>"

definition demoPair :: landingZone where
  "demoPair = demoSpec \<lparr>lzEnvironments := [(''west'', demoHalf ''standby'' ''10.8.0.0/13'' ''us-lax''),
     (''east'', demoHalf ''active'' [] ''us-ord'')]\<rparr>"

lemma demoHalves_ok:
  "validateEnv ''west'' (demoHalf ''standby'' ''10.8.0.0/13'' ''us-lax'') = []"
  "validateEnv ''east'' (demoHalf ''active'' [] ''us-ord'') = []"
  by code_simp+

lemma demoPair_ok: "ValidateSpec frac demoPair = []"
proof -
  have envs: "sort_key fst (lzEnvironments demoPair)
    = [(''east'', demoHalf ''active'' [] ''us-ord''), (''west'', demoHalf ''standby'' ''10.8.0.0/13'' ''us-lax'')]"
    by code_simp
  have "validateInstance (lzInstance demoPair) = []" "validateObjLabelPrefix demoPair = []"
    "validateAplValuesRepo demoPair = []" "validateDatabaseDefaults demoPair = []" "validateHAGroups demoPair = []"
    "validateNetworks demoPair = []" "validateHAVPCCIDRs demoPair = []" "validateAlerting (lzAlerting demoPair) = []"
    "validateTeams (lzTeams demoPair) = []" "lzEnvironments demoPair \<noteq> []"
    "lzAPIVersion demoPair = apiVersion_llz" "lzKind demoPair = kind_LandingZone" "lzName demoPair \<noteq> []"
    by code_simp+
  moreover have "ValidateOpenBao frac (lzOpenBao demoPair) (lzTeams demoPair) = []"
    by (simp add: demoPair_def demoSpec_def ValidateOpenBao_def)
  ultimately show ?thesis by (simp add: ValidateSpec_def envs demoHalves_ok)
qed

lemma valid_spec_has_valid_topology_witness:
  "validateTopology (topologyFromSpec (specPairs demoPair)) = None"
  by (rule valid_spec_has_valid_topology [OF demoPair_ok])

lemma demoPair_in:
  "(''west'', demoHalf ''standby'' ''10.8.0.0/13'' ''us-lax'') \<in> set (lzEnvironments demoPair)"
  "(''east'', demoHalf ''active'' [] ''us-ord'') \<in> set (lzEnvironments demoPair)"
  by (simp_all add: demoPair_def)

lemma coexisting_subnets_disjoint_witness:
  "\<exists>a na b nb. ParseCIDR ''10.8.0.0/13'' = Some (a, na) \<and> ParseCIDR DefaultSubnetCIDR = Some (b, nb)
    \<and> (\<forall>ip. \<not> (Contains na ip \<and> Contains nb ip))"
  using coexisting_subnets_disjoint [OF demoPair_ok demoPair_in]
  by (simp add: demoHalf_def effectiveSubnet_def)

lemma labels_fit_witness: "objLabelRe (ObjLokiChunksBucket (ObjLabelPrefix demoPair) ''west'')"
  using labels_fit [OF demoPair_ok demoPair_in(1), of "ObjLokiChunksBucket (ObjLabelPrefix demoPair) ''west''"]
  by (simp add: bucketLabels_def)

end
