(* ===== verification/Apl_Version.thy ===== *)
theory Apl_Version
  imports Spec_Types
begin

text \<open>
  \<open>internal/shared/clusterspec/aplversion.go\<close>: the apl-core chart version of a deployment. A pin is
  optional and resolves to the baseline of the release; the model has the semver reading, the order
  on versions, the drift of a pin against the baseline, the history of baselines that tells a pin
  llz wrote from one the operator chose, and the floor the preflight enforces. The environment
  variable of the staged-upgrade override is an argument. The lemmas show that the order is total on
  versions with the unreadable ones lowest, and that no pin the history recognises is ever blocked.
\<close>

definition BaselineAplChartVersion :: string where
  "BaselineAplChartVersion = ''v6.3.0''"

definition AplBaselineHistory :: "string list" where
  "AplBaselineHistory = [''6.0.0'', ''v6.1.0'', ''v6.2.0'', ''v6.2.1'', ''v6.3.0'']"

definition MinSupportedAplChartVersion :: string where
  "MinSupportedAplChartVersion = ''6.0.0''"

definition AllowMajorDriftEnv :: string where
  "AllowMajorDriftEnv = ''LLZ_ALLOW_APL_CHART_MAJOR_DRIFT''"

definition normPin :: "string \<Rightarrow> string" where
  "normPin v = trim_prefix (trim_space v) ''v''"

definition WasAplBaseline :: "string \<Rightarrow> bool" where
  "WasAplBaseline pin \<longleftrightarrow> normPin pin \<noteq> [] \<and> list_ex (\<lambda>b. normPin b = normPin pin) AplBaselineHistory"

definition EffectiveAplChartVersion :: "string \<Rightarrow> string" where
  "EffectiveAplChartVersion pin = (if pin = [] then BaselineAplChartVersion else pin)"

definition AplSemver :: "string \<Rightarrow> (int \<times> int \<times> int) option" where
  "AplSemver s =
     (let t = takeWhile (\<lambda>c. c \<noteq> CHR ''-'' \<and> c \<noteq> CHR ''+'') (normPin s) in
      case map atoi (split_on CHR ''.'' t) of
        [Some a, Some b, Some c] \<Rightarrow> if a < 0 \<or> b < 0 \<or> c < 0 then None else Some (a, b, c)
      | _ \<Rightarrow> None)"

datatype aplDrift = DriftNone | DriftUnparseable | DriftMajorBehind | DriftMajorAhead | DriftMinor

definition AplChartDriftOf :: "string \<Rightarrow> aplDrift" where
  "AplChartDriftOf pin =
     (if pin = [] then DriftNone
      else case AplSemver pin of
        None \<Rightarrow> DriftUnparseable
      | Some (pMaj, pMin, pPatch) \<Rightarrow> (case AplSemver BaselineAplChartVersion of
          None \<Rightarrow> DriftNone
        | Some (bMaj, bMin, bPatch) \<Rightarrow>
            if pMaj < bMaj then DriftMajorBehind
            else if pMaj > bMaj then DriftMajorAhead
            else if pMin \<noteq> bMin \<or> pPatch \<noteq> bPatch then DriftMinor
            else DriftNone))"

definition majorDriftAllowed :: "string \<Rightarrow> bool" where   \<comment> \<open>of the value of \<open>AllowMajorDriftEnv\<close>\<close>
  "majorDriftAllowed v \<longleftrightarrow> to_lower (trim_space v) \<in> {''1'', ''true'', ''yes''}"

definition AplChartDriftBlocks :: "string \<Rightarrow> aplDrift \<Rightarrow> bool" where
  "AplChartDriftBlocks override drift =
     (if drift \<noteq> DriftMajorBehind \<and> drift \<noteq> DriftMajorAhead then False else \<not> majorDriftAllowed override)"

datatype aplError =
    PinNotSemver string string               \<comment> \<open>environment, pin\<close>
  | PinMajorBehind string string int         \<comment> \<open>with the major it would keep deploying\<close>
  | PinMajorAhead string string int

definition pinMajor :: "string \<Rightarrow> int" where   \<comment> \<open>Go's zero when the version does not read\<close>
  "pinMajor pin = (case AplSemver pin of Some (a, _, _) \<Rightarrow> a | None \<Rightarrow> 0)"

definition aplChartVersionError :: "string \<Rightarrow> string \<Rightarrow> string \<Rightarrow> aplError option" where
  "aplChartVersionError override env pin =
     (let drift = AplChartDriftOf pin in
      if drift = DriftUnparseable then Some (PinNotSemver env pin)
      else if \<not> AplChartDriftBlocks override drift then None
      else if drift = DriftMajorBehind then Some (PinMajorBehind env pin (pinMajor pin))
      else Some (PinMajorAhead env pin (pinMajor pin)))"

definition AplChartVersionWarnings :: "landingZone \<Rightarrow> (string \<times> string) list" where
  "AplChartVersionWarnings lz =
     filter (\<lambda>(name, pin). AplChartDriftOf pin = DriftMinor)
       (map (\<lambda>name. (name, case map_of (lzEnvironments lz) name of
            Some e \<Rightarrow> bsAplChart (clBoot (enCluster e)) | None \<Rightarrow> [])) (envNames lz))"

definition AplSemverLess :: "string \<Rightarrow> string \<Rightarrow> bool" where
  "AplSemverLess a b = (case (AplSemver a, AplSemver b) of
      (Some (amaj, amin, apatch), Some (bmaj, bmin, bpatch)) \<Rightarrow>
        if amaj \<noteq> bmaj then amaj < bmaj else if amin \<noteq> bmin then amin < bmin else apatch < bpatch
    | (x, y) \<Rightarrow> x = None \<and> y \<noteq> None)"

definition firstNonEmpty :: "string list \<Rightarrow> string" where
  "firstNonEmpty vals = (case find (\<lambda>v. v \<noteq> []) vals of Some v \<Rightarrow> v | None \<Rightarrow> [])"

text \<open>\<open>detected\<close> is what \<open>Detected()\<close> returned: an error, no spec, or the spec.\<close>

definition ResolveAplChartVersion :: "'err + landingZone option \<Rightarrow> string \<Rightarrow> 'err + string" where
  "ResolveAplChartVersion detected env = (case detected of
      Inl e \<Rightarrow> Inl e
    | Inr present \<Rightarrow>
        let pinned = (case present of
            Some lz \<Rightarrow> if env \<noteq> [] then (case map_of (lzEnvironments lz) env of
                Some e \<Rightarrow> bsAplChart (clBoot (enCluster e)) | None \<Rightarrow> []) else []
          | None \<Rightarrow> [])
        in Inr (firstNonEmpty [pinned, BaselineAplChartVersion]))"

datatype unsupported = NotSemver string string | BelowFloor string string

definition AplVersionSupported :: "string \<Rightarrow> string \<Rightarrow> unsupported option" where
  "AplVersionSupported v env =
     (if AplSemver v = None then Some (NotSemver v env)
      else if AplSemverLess v MinSupportedAplChartVersion then Some (BelowFloor v env)
      else None)"

subsection \<open>The order and the history\<close>

lemma AplSemverLess_cases:
  "AplSemverLess a b \<longleftrightarrow>
     (AplSemver b \<noteq> None \<and> (AplSemver a = None
        \<or> (\<exists>i j k i' j' k'. AplSemver a = Some (i, j, k) \<and> AplSemver b = Some (i', j', k')
            \<and> (i < i' \<or> i = i' \<and> j < j' \<or> i = i' \<and> j = j' \<and> k < k'))))"
  by (cases "AplSemver a"; cases "AplSemver b") (auto simp: AplSemverLess_def)

lemma AplSemverLess_irrefl: "\<not> AplSemverLess a a"
  by (auto simp: AplSemverLess_cases)

lemma AplSemverLess_trans: "AplSemverLess a b \<Longrightarrow> AplSemverLess b c \<Longrightarrow> AplSemverLess a c"
  by (auto simp: AplSemverLess_cases)

lemma AplSemverLess_total: "AplSemver a \<noteq> AplSemver b \<Longrightarrow> AplSemverLess a b \<or> AplSemverLess b a"
  by (cases "AplSemver a"; cases "AplSemver b") (auto simp: AplSemverLess_def)

lemma AplSemver_norm: "normPin a = normPin b \<Longrightarrow> AplSemver a = AplSemver b"
  by (simp add: AplSemver_def)

lemma AplVersionSupported_norm: "normPin a = normPin b \<Longrightarrow> AplVersionSupported a e = None \<longleftrightarrow> AplVersionSupported b e = None"
  using AplSemver_norm [of a b] by (simp add: AplVersionSupported_def AplSemverLess_def)

lemma AplChartDriftOf_norm:
  "normPin a = normPin b \<Longrightarrow> a \<noteq> [] \<Longrightarrow> b \<noteq> [] \<Longrightarrow> AplChartDriftOf a = AplChartDriftOf b"
  using AplSemver_norm [of a b] by (simp add: AplChartDriftOf_def)

lemma history_supported:
  "\<forall>b \<in> set AplBaselineHistory. AplVersionSupported b [] = None \<and> b \<noteq> []
     \<and> AplChartDriftOf b \<in> {DriftNone, DriftMinor}"
  by code_simp

lemma history_ends_in_baseline: "last AplBaselineHistory = BaselineAplChartVersion"
  by code_simp

lemma supported_env: "AplVersionSupported v e = None \<longleftrightarrow> AplVersionSupported v e' = None"
  by (simp add: AplVersionSupported_def)

text \<open>A pin the history recognises is above the floor of the preflight and never drifts by a major.\<close>

theorem our_pins_never_block:
  assumes "WasAplBaseline pin"
  shows "AplVersionSupported pin env = None \<and> aplChartVersionError override env pin = None"
proof -
  obtain b where b: "b \<in> set AplBaselineHistory" "normPin b = normPin pin" "normPin pin \<noteq> []"
    using assms by (auto simp: WasAplBaseline_def list_ex_iff)
  have "pin \<noteq> []" using b(3) by (auto simp: normPin_def trim_space_def trim_by_def trim_left_def trim_right_def trim_prefix_def has_prefix_def)
  then have "AplChartDriftOf pin \<in> {DriftNone, DriftMinor}"
    using history_supported b(1) AplChartDriftOf_norm [OF b(2)] by auto
  moreover have "AplVersionSupported pin env = None"
    using history_supported b(1) AplVersionSupported_norm [OF b(2)] supported_env [of pin env "[]"] by auto
  ultimately show ?thesis by (auto simp: aplChartVersionError_def Let_def AplChartDriftBlocks_def)
qed

end
