(* ===== verification/Apl_Pins.thy ===== *)
theory Apl_Pins
  imports Apl_Version Repo_Fence
begin

text \<open>
  \<open>internal/verbs/upgrade/aplpin.go\<close>: an upgrade retires the apl-core pins that only restate a
  baseline. Where the pins are is decided by a YAML parser, the edit is a splice of the text at the
  positions it reports. The parser (\<open>gopkg.in/yaml.v3\<close>) is the parameter \<open>peParse\<close>, which gives the
  documents of a file as nodes (\<open>ynode\<close>), or \<open>None\<close> for a syntax error; \<open>peOwned\<close> is the second reading
  of a file, into the fields of \<open>manageAplVersionSet\<close>. Files are a map from paths to contents; \<open>peWrite\<close>
  says whether a write fails and what it leaves. An offset is a byte offset. Progress lines on standard
  error are left out, what the report and the checklist hold is not.
\<close>

definition aplPinKeyName :: string where
  "aplPinKeyName = ''aplChartVersion''"

definition LandingZoneFile :: string where
  "LandingZoneFile = ''landingzone.yaml''"

definition EnvironmentsDir :: string where
  "EnvironmentsDir = ''environments''"

abbreviation newline :: char where "newline \<equiv> CHR 0x0A"
abbreviation tab :: char where "tab \<equiv> CHR 0x09"
abbreviation cr :: char where "cr \<equiv> CHR 0x0D"

definition space_or_tab :: "char \<Rightarrow> bool" where
  "space_or_tab c \<longleftrightarrow> c = CHR '' '' \<or> c = tab"

subsection \<open>Where the parser says the pins are\<close>

datatype ykind = DocumentNode | SequenceNode | MappingNode | ScalarNode | AliasNode

record ymeta =
  ymValue :: string
  ymTag :: string
  ymAnchor :: string
  ymLiteral :: bool   \<comment> \<open>the bits of \<open>Style\<close> the code reads\<close>
  ymFolded :: bool
  ymFlow :: bool
  ymLine :: int
  ymColumn :: int
  ymHeadComment :: string
  ymLineComment :: string

datatype ynode = YNode (ynKind: ykind) (ynMeta: ymeta) (ynContent: "ynode list")

record pinSite =
  psKeyOff :: int
  psValOff :: int
  psValue :: string
  psFlow :: bool
  psAnchored :: bool
  psHeadComment :: string
  psLineComment :: bool
  psSameLine :: bool

fun lineStarts :: "nat \<Rightarrow> string \<Rightarrow> nat list" where
  "lineStarts i [] = []"
| "lineStarts i (c # cs) = (if c = newline then [Suc i] else []) @ lineStarts (Suc i) cs"

definition lineOffsets :: "string \<Rightarrow> nat list" where
  "lineOffsets content = [0, 0] @ lineStarts 0 content"

text \<open>\<open>utf8.DecodeRuneInString\<close>, the size only: one for an invalid sequence.\<close>

definition contBytes :: "(nat \<times> nat) list \<Rightarrow> string \<Rightarrow> bool" where
  "contBytes rs r \<longleftrightarrow> length rs \<le> length r
     \<and> list_all2 (\<lambda>(lo, hi) c. lo \<le> of_char c \<and> of_char c \<le> hi) rs (take (length rs) r)"

definition runeTail :: "nat \<Rightarrow> (nat \<times> nat) list" where   \<comment> \<open>of the first byte\<close>
  "runeTail b =
     (if b < 0xC2 \<or> 0xF4 < b then []
      else if b < 0xE0 then [(0x80, 0xBF)]
      else if b = 0xE0 then [(0xA0, 0xBF), (0x80, 0xBF)]
      else if b = 0xED then [(0x80, 0x9F), (0x80, 0xBF)]
      else if b < 0xF0 then [(0x80, 0xBF), (0x80, 0xBF)]
      else if b = 0xF0 then [(0x90, 0xBF), (0x80, 0xBF), (0x80, 0xBF)]
      else if b = 0xF4 then [(0x80, 0x8F), (0x80, 0xBF), (0x80, 0xBF)]
      else [(0x80, 0xBF), (0x80, 0xBF), (0x80, 0xBF)])"

fun runeSize :: "string \<Rightarrow> nat" where
  "runeSize [] = 0"
| "runeSize (c # r) = (let t = runeTail (of_char c) in if contBytes t r then Suc (length t) else 1)"

fun skipRunes :: "nat \<Rightarrow> string \<Rightarrow> nat \<Rightarrow> nat" where
  "skipRunes 0 content i = i"
| "skipRunes (Suc k) content i =
     (if i < length content then skipRunes k content (i + runeSize (drop i content)) else i)"

definition nodeOffset :: "nat list \<Rightarrow> string \<Rightarrow> ymeta \<Rightarrow> int" where
  "nodeOffset offs content n =
     (if ymLine n \<le> 0 \<or> int (length offs) \<le> ymLine n then - 1
      else int (skipRunes (nat (ymColumn n - 1)) content (offs ! nat (ymLine n))))"

definition isPinKey :: "ynode \<Rightarrow> bool" where
  "isPinKey k \<longleftrightarrow> ymValue (ynMeta k) = aplPinKeyName \<and> ynKind k = ScalarNode"

definition pinValue :: "ynode \<Rightarrow> string" where
  "pinValue v =
     (let val = (if ymTag (ynMeta v) = ''!!null'' then [] else ymValue (ynMeta v))
      in if ynKind v = AliasNode then ''*'' @ ymValue (ynMeta v) else val)"

definition siteOf :: "nat list \<Rightarrow> string \<Rightarrow> bool \<Rightarrow> bool \<Rightarrow> ynode \<Rightarrow> ynode \<Rightarrow> pinSite" where
  "siteOf offs content flow anchored k v =
     \<lparr>psKeyOff = nodeOffset offs content (ynMeta k),
      psValOff = nodeOffset offs content (ynMeta v),
      psValue = pinValue v,
      psFlow = flow,
      psAnchored = (anchored \<or> ymAnchor (ynMeta k) \<noteq> [] \<or> ymAnchor (ynMeta v) \<noteq> [] \<or> ynKind v = AliasNode),
      psHeadComment = ymHeadComment (ynMeta k),
      psLineComment = (trim_space (ymLineComment (ynMeta v)) \<noteq> [] \<or> trim_space (ymLineComment (ynMeta k)) \<noteq> []),
      psSameLine = (ynKind v = ScalarNode \<and> ymLine (ynMeta v) = ymLine (ynMeta k)
        \<and> \<not> (ymLiteral (ynMeta v) \<or> ymFolded (ynMeta v)))\<rparr>"

fun walk :: "nat list \<Rightarrow> string \<Rightarrow> bool \<Rightarrow> ynode \<Rightarrow> pinSite list"
  and walkPairs :: "nat list \<Rightarrow> string \<Rightarrow> bool \<Rightarrow> bool \<Rightarrow> ynode list \<Rightarrow> pinSite list"
  and walkAll :: "nat list \<Rightarrow> string \<Rightarrow> bool \<Rightarrow> ynode list \<Rightarrow> pinSite list" where
  "walk offs content anchored (YNode kind m ns) =
     (if kind = MappingNode then walkPairs offs content (ymFlow m) (anchored \<or> ymAnchor m \<noteq> []) ns
      else walkAll offs content (anchored \<or> ymAnchor m \<noteq> []) ns)"
| "walkPairs offs content flow anchored (k # v # rest) =
     (if isPinKey k then [siteOf offs content flow anchored k v] else [])
       @ walk offs content anchored v @ walkPairs offs content flow anchored rest"
| "walkPairs offs content flow anchored [k] = []"
| "walkPairs offs content flow anchored [] = []"
| "walkAll offs content anchored [] = []"
| "walkAll offs content anchored (c # cs) = walk offs content anchored c @ walkAll offs content anchored cs"

type_synonym yparser = "string \<Rightarrow> ynode list option"

definition findPinSites :: "yparser \<Rightarrow> string \<Rightarrow> pinSite list option" where
  "findPinSites parse content =
     map_option (\<lambda>docs. concat (map (walk (lineOffsets content) content False) docs)) (parse content)"

definition foundAplPin :: "yparser \<Rightarrow> string \<Rightarrow> string" where
  "foundAplPin parse content = (case findPinSites parse content of
      None \<Rightarrow> []
    | Some sites \<Rightarrow> (case find (\<lambda>s. psValue s \<noteq> []) sites of Some s \<Rightarrow> psValue s | None \<Rightarrow> []))"

subsection \<open>The splice\<close>

definition lineStart :: "string \<Rightarrow> nat \<Rightarrow> nat" where
  "lineStart content off = (case last_index_of newline (take off content) of Some i \<Rightarrow> Suc i | None \<Rightarrow> 0)"

definition lineAt :: "string \<Rightarrow> nat \<Rightarrow> string" where
  "lineAt content off =
     (let start = lineStart content off in
      case index_of newline (drop start content) of
        None \<Rightarrow> drop start content
      | Some stop \<Rightarrow> take stop (drop start content))"

function quoteLoop :: "char \<Rightarrow> string \<Rightarrow> nat \<Rightarrow> nat option" where
  "quoteLoop q content i =
     (if length content \<le> i then None
      else if content ! i = newline then None
      else if content ! i = CHR 0x5C then quoteLoop q content (if q = CHR 0x22 then i + 2 else i + 1)
      else if content ! i = q then
        (if q = CHR 0x27 \<and> i + 1 < length content \<and> content ! (i + 1) = CHR 0x27
         then quoteLoop q content (i + 2) else Some i)
      else quoteLoop q content (i + 1))"
  by pat_completeness auto
termination by (relation "measure (\<lambda>(q, content, i). length content - i)") auto

definition closingQuote :: "string \<Rightarrow> nat \<Rightarrow> nat option" where
  "closingQuote content opens = quoteLoop (content ! opens) content (Suc opens)"

function entryLoop :: "string \<Rightarrow> nat \<Rightarrow> nat \<Rightarrow> nat \<Rightarrow> nat" where
  "entryLoop content valOff depth i =
     (if length content \<le> i then length content
      else let c = content ! i in
        if c = CHR 0x27 \<or> c = CHR 0x22 then
          (case closingQuote content i of
             None \<Rightarrow> i
           | Some e \<Rightarrow> if i < e then entryLoop content valOff depth (Suc e) else i)
        else if c = CHR ''#'' then
          (if i = valOff \<or> space_or_tab (content ! (i - 1)) then i else entryLoop content valOff depth (Suc i))
        else if c = CHR ''{'' \<or> c = CHR ''['' then entryLoop content valOff (Suc depth) (Suc i)
        else if c = CHR ''}'' \<or> c = CHR '']'' then
          (if depth = 0 then i else entryLoop content valOff (depth - 1) (Suc i))
        else if c = CHR '','' \<or> c = newline then
          (if depth = 0 then i else entryLoop content valOff depth (Suc i))
        else entryLoop content valOff depth (Suc i))"
  by pat_completeness auto
termination by (relation "measure (\<lambda>(content, v, d, i). length content - i)") auto

definition entryEnd :: "string \<Rightarrow> nat \<Rightarrow> nat" where
  "entryEnd content valOff = entryLoop content valOff 0 valOff"

function skipToSeparator :: "string \<Rightarrow> nat \<Rightarrow> nat" where   \<comment> \<open>the forward scan of \<open>removeFlowEntry\<close>\<close>
  "skipToSeparator content j =
     (if length content \<le> j then j
      else if content ! j = CHR '' '' \<or> content ! j = tab \<or> content ! j = newline then skipToSeparator content (Suc j)
      else if content ! j = CHR ''#'' then
        (case index_of newline (drop (Suc j) content) of
           Some n \<Rightarrow> skipToSeparator content (Suc j + n)
         | None \<Rightarrow> length content)
      else j)"
  by pat_completeness auto
termination by (relation "measure (\<lambda>(content, j). length content - j)") auto

declare quoteLoop.simps [simp del] entryLoop.simps [simp del] skipToSeparator.simps [simp del]

definition tidySpliceSite :: "string \<Rightarrow> nat \<Rightarrow> bool \<Rightarrow> string" where
  "tidySpliceSite out at hadContent =
     (let ls = lineStart out at in
      case index_of newline (drop ls out) of
        None \<Rightarrow> trim_right space_or_tab out
      | Some le \<Rightarrow>
          if trim_space (take le (drop ls out)) = [] \<and> hadContent
          then take ls out @ drop (ls + le + 1) out
          else take ls out @ trim_right space_or_tab (take le (drop ls out)) @ drop (ls + le) out)"

text \<open>The entry to cut, with the separator before it, or else the one after it.\<close>

definition flowCut :: "string \<Rightarrow> nat \<Rightarrow> nat \<Rightarrow> nat \<times> nat" where
  "flowCut content keyOff valOff =
     (let e = length (trim_right (\<lambda>c. space_or_tab c \<or> c = cr) (take (entryEnd content valOff) content));
          before = trim_right (\<lambda>c. space_or_tab c \<or> c = newline \<or> c = cr) (take keyOff content)
      in if before \<noteq> [] \<and> last before = CHR '','' then (length before - 1, e)
         else let j = skipToSeparator content e in
           if j < length content \<and> content ! j = CHR '',''
           then (keyOff, Suc j + length (takeWhile space_or_tab (drop (Suc j) content)))
           else (keyOff, e))"

definition collapseEmptied :: "string \<Rightarrow> nat \<Rightarrow> string" where
  "collapseEmptied out start = (case last_index_of (CHR ''{'') (take start out) of
      None \<Rightarrow> out
    | Some opens \<Rightarrow> (case index_of (CHR ''}'') (drop opens out) of
        None \<Rightarrow> out
      | Some rel \<Rightarrow>
          let inner = take (rel - 1) (drop (Suc opens) out) in
          if inner \<noteq> [] \<and> trim_space inner = [] then take (Suc opens) out @ drop (opens + rel) out else out))"

definition removeFlowEntry :: "string \<Rightarrow> pinSite \<Rightarrow> string" where
  "removeFlowEntry content s =
     (let (start, e) = flowCut content (nat (psKeyOff s)) (nat (psValOff s));
          out = tidySpliceSite (take start content @ drop e content) start (trim_space (lineAt content start) \<noteq> [])
      in collapseEmptied out start)"

definition removeBlockLine :: "string \<Rightarrow> pinSite \<Rightarrow> string" where
  "removeBlockLine content s =
     (let k = nat (psKeyOff s); start = lineStart content k in
      case index_of newline (drop k content) of
        None \<Rightarrow> take start content
      | Some stop \<Rightarrow> take start content @ drop (k + stop + 1) content)"

definition beforeKey :: "string \<Rightarrow> pinSite \<Rightarrow> string" where   \<comment> \<open>the text ahead of the key on its line\<close>
  "beforeKey content s =
     (let k = nat (psKeyOff s) in take (k - lineStart content k) (lineAt content k))"

definition dropTrackingPin :: "yparser \<Rightarrow> string \<Rightarrow> string \<times> string \<times> bool" where
  "dropTrackingPin parse content = (case findPinSites parse content of
      None \<Rightarrow> (content, [], contains content aplPinKeyName)
    | Some [] \<Rightarrow> (content, [], False)
    | Some (s # t # ss) \<Rightarrow> (content, psValue s, True)
    | Some [s] \<Rightarrow>
        if psValue s = [] then (content, [], False)
        else if psKeyOff s < 0 \<or> psValOff s < 0 then (content, psValue s, True)
        else if psAnchored s then (content, psValue s, True)
        else if \<not> WasAplBaseline (psValue s) then (content, [], False)
        else if trim_space (psHeadComment s) \<noteq> [] then (content, psValue s, True)
        else if psFlow s \<and> psLineComment s then (content, psValue s, True)
        else if psFlow s then (removeFlowEntry content s, psValue s, False)
        else if \<not> psSameLine s then (content, psValue s, True)
        else if trim_space (beforeKey content s) \<noteq> [] then (content, psValue s, True)
        else (removeBlockLine content s, psValue s, False))"

subsection \<open>Why a pin stays\<close>

datatype pinReason =
    NotYaml | ManyKeys | ByAnchor | HeadComment | FlowComment | NotPlain | NotOwnLine | NoPosition | OtherShape
  | OwnedVersion            \<comment> \<open>\<open>manageAplVersion\<close>\<close>
  | RootPins string
  | RootNotYaml

definition refusalReason :: "yparser \<Rightarrow> string \<Rightarrow> pinReason" where
  "refusalReason parse content = (case findPinSites parse content of
      None \<Rightarrow> NotYaml
    | Some [] \<Rightarrow> OtherShape
    | Some (s # t # ss) \<Rightarrow> ManyKeys
    | Some [s] \<Rightarrow>
        if psAnchored s then ByAnchor
        else if trim_space (psHeadComment s) \<noteq> [] then HeadComment
        else if psFlow s \<and> psLineComment s then FlowComment
        else if \<not> psSameLine s then NotPlain
        else if psKeyOff s \<ge> 0 \<and> trim_space (beforeKey content s) \<noteq> [] then NotOwnLine
        else if psKeyOff s < 0 \<or> psValOff s < 0 then NoPosition
        else OtherShape)"

definition reasonText :: "pinReason \<Rightarrow> string" where
  "reasonText r = (case r of
      NotYaml \<Rightarrow> ''the file does not parse as YAML''
    | ManyKeys \<Rightarrow> ''more than one aplChartVersion key''
    | ByAnchor \<Rightarrow> msg [''it involves a YAML anchor or alias, so its value is not local to this line'', dash,
        ''removing it would strand a reference or change every node merged from it'']
    | HeadComment \<Rightarrow> msg [''a comment is attached above it, and this sweep will not guess whether that comment '',
        ''describes the pin or the section around it'', dash,
        ''remove the pin by hand, taking or keeping the comment as you mean to'']
    | FlowComment \<Rightarrow> msg [''it sits in a flow mapping with a trailing comment, which cannot be spliced without '',
        ''guessing where the comment ends'']
    | NotPlain \<Rightarrow> msg [''its value is not a plain scalar on the key'', sq, ''s own line'']
    | NotOwnLine \<Rightarrow> msg [''it does not start its own line'', dash, ''a `- ` sequence indicator or another key sits '',
        ''before it, and deleting the line would take that with it'']
    | NoPosition \<Rightarrow> msg [''the parser could not give a position for it, so there is nothing this sweep can safely cut'']
    | OtherShape \<Rightarrow> ''its shape is not one this upgrade can rewrite''
    | OwnedVersion \<Rightarrow> msg [''spec.cluster.bootstrap.manageAplVersion is set, so this pin is what DEPLOYS'', dash,
        ''dropping it would move the live platform to this release'', sq, ''s baseline'']
    | RootPins pin \<Rightarrow> ''the spec root still pins '' @ pin
    | RootNotYaml \<Rightarrow> ''the spec root does not parse as YAML'')"

subsection \<open>The files\<close>

record bootDoc =   \<comment> \<open>the fields of \<open>manageAplVersionSet\<close>\<close>
  bdDefault :: "bool option"
  bdEnvironments :: "(string \<times> bool option) list"
  bdCluster :: "bool option"

record pinEnv =
  peParse :: yparser
  peOwned :: "string \<Rightarrow> bootDoc option"
  peGlob :: "string \<Rightarrow> string list option"
  peIsDir :: "string \<Rightarrow> bool option"                     \<comment> \<open>\<open>os.Stat\<close>, \<open>None\<close> when it fails\<close>
  peWrite :: "string \<Rightarrow> string \<Rightarrow> string option option"   \<comment> \<open>\<open>None\<close>: written; else what a failed write leaves\<close>

type_synonym files = "string \<Rightarrow> string option"   \<comment> \<open>\<open>None\<close>: cannot be read\<close>

definition path_ext :: "string \<Rightarrow> string" where
  "path_ext p =
     (let el = rev (takeWhile (\<lambda>c. c \<noteq> CHR ''/'') (rev p)) in
      case last_index_of (CHR ''.'') el of None \<Rightarrow> [] | Some i \<Rightarrow> drop i el)"

definition rootFile :: "string \<Rightarrow> string" where
  "rootFile root = join_path root LandingZoneFile"

definition envSpecFiles :: "pinEnv \<Rightarrow> string \<Rightarrow> string list option" where
  "envSpecFiles E root =
     (case (peGlob E (join_path (join_path root EnvironmentsDir) ''*.yaml*''),
            peGlob E (join_path root (LandingZoneFile @ ''*''))) of
        (Some a, Some b) \<Rightarrow>
          Some (sort (filter (\<lambda>f. path_ext f = ''.yaml'' \<and> peIsDir E f = Some False) (a @ b)))
      | _ \<Rightarrow> None)"

definition rootFirst :: "string \<Rightarrow> string list \<Rightarrow> string list" where
  "rootFirst root fs = filter (\<lambda>f. f = rootFile root) fs @ filter (\<lambda>f. f \<noteq> rootFile root) fs"

type_synonym ownedScan = "bool option \<times> bool option list \<times> bool"   \<comment> \<open>\<open>rootDefault\<close>, \<open>envs\<close>, \<open>parsedAny\<close>\<close>

definition ownedStep :: "pinEnv \<Rightarrow> files \<Rightarrow> string \<Rightarrow> ownedScan \<Rightarrow> ownedScan" where
  "ownedStep E fs f acc = (case acc of (rootDefault, envs, parsedAny) \<Rightarrow>
     (case fs f of
        None \<Rightarrow> acc
      | Some b \<Rightarrow> (case peOwned E b of
          None \<Rightarrow> acc
        | Some doc \<Rightarrow>
            if base_path f = LandingZoneFile
            then (bdDefault doc,
                  envs @ (case bdCluster doc of Some v \<Rightarrow> [Some v] | None \<Rightarrow> []) @ map snd (bdEnvironments doc), True)
            else (rootDefault, envs @ [bdCluster doc], True))))"

definition manageAplVersionSet :: "pinEnv \<Rightarrow> files \<Rightarrow> string list \<Rightarrow> bool" where
  "manageAplVersionSet E fs names =
     (case fold (ownedStep E fs) names (None, [], False) of (rootDefault, envs, parsedAny) \<Rightarrow>
        if \<not> parsedAny then False
        else if envs = [] then rootDefault \<noteq> Some False
        else list_ex (\<lambda>v. (if v = None then rootDefault else v) \<noteq> Some False) envs)"

subsection \<open>The sweep\<close>

record aplPinChange =
  pcFile :: string
  pcPin :: string
  pcReason :: "pinReason option"

record aplPinResult =
  prDropped :: "aplPinChange list"
  prKept :: "aplPinChange list"
  prRefused :: "aplPinChange list"
  prDeferred :: "aplPinChange list"
  prRootInherited :: bool
  prEnvs :: nat

definition emptyResult :: aplPinResult where
  "emptyResult = \<lparr>prDropped = [], prKept = [], prRefused = [], prDeferred = [], prRootInherited = False, prEnvs = 0\<rparr>"

datatype sweepError = GlobFailed | ReadFailed string | WriteFailed string

record sweepState =
  ssFiles :: files
  ssRes :: aplPinResult
  ssRootPin :: string
  ssRootUnreadable :: bool

definition change :: "string \<Rightarrow> string \<Rightarrow> pinReason option \<Rightarrow> aplPinChange" where
  "change rel pin r = \<lparr>pcFile = rel, pcPin = pin, pcReason = r\<rparr>"

definition relTo :: "string \<Rightarrow> string \<Rightarrow> string" where   \<comment> \<open>the error of \<open>filepath.Rel\<close> is dropped\<close>
  "relTo root f = (case rel_path root f of Some r \<Rightarrow> r | None \<Rightarrow> [])"

text \<open>The part of the loop body after the \<open>switch\<close>.\<close>

definition afterFile :: "yparser \<Rightarrow> bool \<Rightarrow> string \<Rightarrow> sweepState \<Rightarrow> sweepState" where
  "afterFile parse isRoot out st =
     (let st1 = (if \<not> isRoot \<and> foundAplPin parse out = []
                 then st\<lparr>ssRes := (ssRes st)\<lparr>prRootInherited := True\<rparr>\<rparr> else st)
      in if isRoot
         then st1\<lparr>ssRootUnreadable := (ssRootUnreadable st1 \<or> findPinSites parse out = None),
                  ssRootPin := foundAplPin parse out\<rparr>
         else st1)"

definition sweepFile :: "pinEnv \<Rightarrow> string \<Rightarrow> bool \<Rightarrow> bool \<Rightarrow> string \<Rightarrow> string \<Rightarrow> sweepState
    \<Rightarrow> sweepState \<times> sweepError option" where
  "sweepFile E root write owned f b st =
     (let isRoot = (f = rootFile root);
          rel = relTo root f;
          r0 = (if isRoot then ssRes st else (ssRes st)\<lparr>prEnvs := Suc (prEnvs (ssRes st))\<rparr>);
          (out, dropped, refused) = dropTrackingPin (peParse E) b
      in if owned \<and> dropped \<noteq> [] then
           (st\<lparr>ssRes := r0\<lparr>prRefused := prRefused r0 @ [change rel dropped (Some OwnedVersion)]\<rparr>\<rparr>, None)
         else if \<not> isRoot \<and> \<not> refused \<and> dropped \<noteq> [] \<and> (ssRootPin st \<noteq> [] \<or> ssRootUnreadable st) then
           (st\<lparr>ssRes := r0\<lparr>prDeferred := prDeferred r0 @ [change rel dropped
              (Some (if ssRootUnreadable st then RootNotYaml else RootPins (ssRootPin st)))]\<rparr>\<rparr>, None)
         else if refused then
           (afterFile (peParse E) isRoot out
              (st\<lparr>ssRes := r0\<lparr>prRefused := prRefused r0 @ [change rel dropped (Some (refusalReason (peParse E) b))]\<rparr>\<rparr>), None)
         else if dropped \<noteq> [] then
           (case (if write then peWrite E f out else None) of
              Some left \<Rightarrow> (st\<lparr>ssRes := r0, ssFiles := (ssFiles st)(f := left)\<rparr>, Some (WriteFailed f))
            | None \<Rightarrow>
                (afterFile (peParse E) isRoot out
                   (st\<lparr>ssFiles := (if write then (ssFiles st)(f \<mapsto> out) else ssFiles st),
                       ssRes := r0\<lparr>prDropped := prDropped r0 @ [change rel dropped None]\<rparr>\<rparr>), None))
         else
           (let pin = foundAplPin (peParse E) b in
            (afterFile (peParse E) isRoot out
               (st\<lparr>ssRes := (if pin \<noteq> [] then r0\<lparr>prKept := prKept r0 @ [change rel pin None]\<rparr> else r0)\<rparr>), None)))"

fun sweepLoop :: "pinEnv \<Rightarrow> string \<Rightarrow> bool \<Rightarrow> bool \<Rightarrow> string list \<Rightarrow> sweepState \<Rightarrow> sweepState \<times> sweepError option" where
  "sweepLoop E root write owned [] st = (st, None)"
| "sweepLoop E root write owned (f # fs) st = (case ssFiles st f of
      None \<Rightarrow> (st, Some (ReadFailed f))
    | Some b \<Rightarrow> (case sweepFile E root write owned f b st of
        (st', Some e) \<Rightarrow> (st', Some e)
      | (st', None) \<Rightarrow> sweepLoop E root write owned fs st'))"

definition startState :: "files \<Rightarrow> sweepState" where
  "startState fs = \<lparr>ssFiles = fs, ssRes = emptyResult, ssRootPin = [], ssRootUnreadable = False\<rparr>"

definition sweepAplPins :: "pinEnv \<Rightarrow> string \<Rightarrow> bool \<Rightarrow> files \<Rightarrow> sweepState \<times> sweepError option" where
  "sweepAplPins E root write fs = (case envSpecFiles E root of
      None \<Rightarrow> (startState fs, Some GlobFailed)
    | Some names \<Rightarrow>
        let order = rootFirst root names in
        sweepLoop E root write (manageAplVersionSet E fs order) order (startState fs))"

subsection \<open>The checklist\<close>

record leftAlone =
  laKept :: "string list"
  laRefused :: "string list"
  laBlocking :: "string list"
  laDeferred :: "string list"

definition pinBlocks :: "aplPinChange \<Rightarrow> bool" where
  "pinBlocks k \<longleftrightarrow> AplSemver (pcPin k) = None \<or> AplVersionSupported (pcPin k) ''this deployment'' \<noteq> None"

definition withReason :: "aplPinChange \<Rightarrow> string" where
  "withReason c = pcFile c @ '' ('' @ (case pcReason c of Some r \<Rightarrow> reasonText r | None \<Rightarrow> []) @ '')''"

definition reportAplPinsLeftAlone :: "aplPinResult \<Rightarrow> leftAlone" where
  "reportAplPinsLeftAlone res =
     \<lparr>laKept = map pcFile (filter (\<lambda>k. \<not> pinBlocks k) (prKept res)),
      laRefused = map withReason (prRefused res),
      laBlocking = map pcFile (filter pinBlocks (prKept res)),
      laDeferred = map withReason (prDeferred res)\<rparr>"

definition aplPinSteps :: "leftAlone \<Rightarrow> string list" where
  "aplPinSteps la =
     (if laBlocking la \<noteq> [] then
        [msg [''Fix or remove the aplChartVersion in '', join '', '' (laBlocking la),
           '': it will BLOCK `llz ci assert-apl-version` (either unparseable, or older than the supported '',
           MinSupportedAplChartVersion, '')'']] else [])
     @ (if laKept la \<noteq> [] then
        [msg [''Review the apl-core pin in '', join '', '' (laKept la),
           '': it is not one llz set, so the upgrade left it at a version this release does not target'']] else [])
     @ (if laDeferred la \<noteq> [] then
        [msg [''Settle '', LandingZoneFile, '' first'', dash, join '', '' (laDeferred la),
           '' cannot be retired until it is, or they silently resolve to the default instead of the release baseline'']] else [])
     @ (if laRefused la \<noteq> [] then
        [msg [''Resolve the aplChartVersion in '', join '', '' (laRefused la),
           '': the upgrade refused to guess, so those files still pin'']] else [])"

definition retrackAplPins :: "bool \<Rightarrow> sweepState \<times> sweepError option \<Rightarrow> string list" where   \<comment> \<open>\<open>InstancePresent\<close>, the sweep\<close>
  "retrackAplPins present swept =
     (if \<not> present then []
      else aplPinSteps (reportAplPinsLeftAlone (ssRes (fst swept)))
        @ (if snd swept \<noteq> None then
            [msg [''Finish re-tracking spec.cluster.bootstrap.aplChartVersion by hand'', dash,
               ''this upgrade could not read every spec file'']] else []))"

subsection \<open>What a file's outcome says\<close>

named_theorems sweep_simps \<open>fields after a step of the sweep\<close>

lemma drop_unchanged: "dropTrackingPin P c = (out, d, r) \<Longrightarrow> d = [] \<or> r \<Longrightarrow> out = c"
  by (auto simp: dropTrackingPin_def split: option.splits list.splits if_splits)

lemma drop_retired:
  assumes "dropTrackingPin P c = (out, d, False)" and "d \<noteq> []"
  obtains s where "findPinSites P c = Some [s]" and "d = psValue s" and "WasAplBaseline d"
    and "0 \<le> psKeyOff s" and "0 \<le> psValOff s" and "\<not> psAnchored s"
    and "out = (if psFlow s then removeFlowEntry c s else removeBlockLine c s)"
    and "psFlow s \<or> trim_space (beforeKey c s) = []"
  using assms by (auto simp: dropTrackingPin_def split: option.splits list.splits if_splits)

lemma retired_pin_found: "dropTrackingPin P c = (out, d, False) \<Longrightarrow> d \<noteq> [] \<Longrightarrow> foundAplPin P c = d"
  by (erule drop_retired) (auto simp: foundAplPin_def)

text \<open>A refusal always has a cause that the report can name.\<close>

theorem refusals_explained:
  assumes "dropTrackingPin P c = (out, d, True)"
  shows "refusalReason P c \<noteq> OtherShape"
  using assms
  by (auto simp: dropTrackingPin_def refusalReason_def split: option.splits list.splits if_splits)

lemma afterFile_simps [sweep_simps]:
  "ssFiles (afterFile P r out st) = ssFiles st"
  "ssRootPin (afterFile P r out st) = (if r then foundAplPin P out else ssRootPin st)"
  "ssRootUnreadable (afterFile P r out st) = (ssRootUnreadable st \<or> r \<and> findPinSites P out = None)"
  "prDropped (ssRes (afterFile P r out st)) = prDropped (ssRes st)"
  "prKept (ssRes (afterFile P r out st)) = prKept (ssRes st)"
  "prRefused (ssRes (afterFile P r out st)) = prRefused (ssRes st)"
  "prDeferred (ssRes (afterFile P r out st)) = prDeferred (ssRes st)"
  by (auto simp: afterFile_def Let_def)

definition retires :: "yparser \<Rightarrow> string option \<Rightarrow> string option \<Rightarrow> bool" where
  "retires P before after \<longleftrightarrow>
     (\<exists>c out d. before = Some c \<and> dropTrackingPin P c = (out, d, False) \<and> d \<noteq> [] \<and> after = Some out)"

lemma sweepFile_files:
  assumes "sweepFile E root write owned f b st = (st', err)" and "ssFiles st f = Some b"
  shows "ssFiles st' = ssFiles st
    \<or> err = Some (WriteFailed f) \<and> (\<exists>left. ssFiles st' = (ssFiles st)(f := left))
    \<or> write \<and> \<not> owned \<and> (f \<noteq> rootFile root \<longrightarrow> ssRootPin st = [] \<and> \<not> ssRootUnreadable st)
      \<and> (\<exists>out. ssFiles st' = (ssFiles st)(f \<mapsto> out) \<and> retires (peParse E) (Some b) (Some out))"
proof (cases "dropTrackingPin (peParse E) b")
  case (fields out d r)
  show ?thesis
    using assms fields
    by (auto simp: sweepFile_def Let_def sweep_simps retires_def split: if_splits option.splits)
qed

lemma sweepFile_other:
  assumes "sweepFile E root write owned f b st = (st', err)"
  shows "g \<noteq> f \<Longrightarrow> ssFiles st' g = ssFiles st g"
    and "f \<noteq> rootFile root \<Longrightarrow> ssRootPin st' = ssRootPin st \<and> ssRootUnreadable st' = ssRootUnreadable st"
  using assms
  by (auto simp: sweepFile_def Let_def sweep_simps split: if_splits option.splits prod.splits)

lemma sweepFile_root:
  assumes "sweepFile E root True False (rootFile root) b st = (st', None)" and "ssFiles st (rootFile root) = Some b"
  shows "\<exists>c. ssFiles st' (rootFile root) = Some c \<and> ssRootPin st' = foundAplPin (peParse E) c
    \<and> (ssRootUnreadable st' \<longleftrightarrow> ssRootUnreadable st \<or> findPinSites (peParse E) c = None)"
proof (cases "dropTrackingPin (peParse E) b")
  case (fields out d r)
  then have "d = [] \<or> r \<Longrightarrow> out = b" by (rule drop_unchanged)
  then show ?thesis
    using assms fields
    by (auto simp: sweepFile_def Let_def sweep_simps split: if_splits option.splits)
qed

lemma sweepLoop_untouched:
  "sweepLoop E root write owned fs st = (st', err) \<Longrightarrow> g \<notin> set fs \<Longrightarrow> ssFiles st' g = ssFiles st g"
proof (induction fs arbitrary: st)
  case (Cons f fs)
  then show ?case
    using sweepFile_other(1) [of E root "write" owned f _ st _ _ g]
    by (auto split: option.splits prod.splits)
qed simp

text \<open>After the root: an environment is rewritten only while the root neither pins nor fails to parse.\<close>

lemma sweepLoop_envs:
  assumes "sweepLoop E root write owned fs st = (st', err)" and "rootFile root \<notin> set fs" and "distinct fs"
    and "ssFiles st' f \<noteq> ssFiles st f" and "err \<noteq> Some (WriteFailed f)"
  shows "write \<and> \<not> owned \<and> ssRootPin st = [] \<and> \<not> ssRootUnreadable st
    \<and> retires (peParse E) (ssFiles st f) (ssFiles st' f)"
  using assms
proof (induction fs arbitrary: st)
  case (Cons g fs)
  obtain b where b: "ssFiles st g = Some b" using Cons.prems(1,4) by (auto split: option.splits)
  obtain st1 e where step: "sweepFile E root write owned g b st = (st1, e)" by (cases "sweepFile E root write owned g b st")
  have g: "g \<noteq> rootFile root" "g \<notin> set fs" using Cons.prems(2,3) by auto
  note kept = sweepFile_other(2) [OF step g(1)]
  show ?case
  proof (cases e)
    case None
    then have rest: "sweepLoop E root write owned fs st1 = (st', err)" using Cons.prems(1) b step by simp
    show ?thesis
    proof (cases "f = g")
      case True
      then have "ssFiles st' f = ssFiles st1 f" using sweepLoop_untouched [OF rest] g(2) by blast
      then show ?thesis using sweepFile_files [OF step b] Cons.prems(4) None g(1) b True by auto
    next
      case False
      then have same: "ssFiles st1 f = ssFiles st f" using sweepFile_other(1) [OF step] by blast
      show ?thesis
        using Cons.IH [OF rest] Cons.prems(2-5) same kept by auto
    qed
  next
    case (Some x)
    then have fin: "st' = st1" "err = Some x" using Cons.prems(1) b step by auto
    then have "f = g" using sweepFile_other(1) [OF step] Cons.prems(4) by metis
    then show ?thesis using sweepFile_files [OF step b] Cons.prems(4,5) fin Some g(1) b by auto
  qed
qed simp

lemma set_rootFirst [simp]: "set (rootFirst root fs) = set fs"
  by (auto simp: rootFirst_def)

lemma distinct_rootFirst [simp]: "distinct (rootFirst root fs) = distinct fs"
  by (induction fs) (auto simp: rootFirst_def)

lemma rootFirst_split:
  assumes "distinct fs" and "rootFile root \<in> set fs"
  shows "rootFirst root fs = rootFile root # filter (\<lambda>f. f \<noteq> rootFile root) fs"
proof -
  have "filter (\<lambda>f. f = x) xs = (if x \<in> set xs then [x] else [])" if "distinct xs" for x :: string and xs
    using that by (induction xs) auto
  then show ?thesis using assms by (simp add: rootFirst_def)
qed

definition pinAt :: "yparser \<Rightarrow> files \<Rightarrow> string \<Rightarrow> string" where
  "pinAt P fs f = (case fs f of Some c \<Rightarrow> foundAplPin P c | None \<Rightarrow> [])"

definition deploys :: "yparser \<Rightarrow> string \<Rightarrow> files \<Rightarrow> string \<Rightarrow> string" where   \<comment> \<open>by the rule of \<open>mergeBoot\<close>\<close>
  "deploys P root fs f = EffectiveAplChartVersion (pickStr (pinAt P fs (rootFile root)) (pinAt P fs f))"

lemma retires_before: "retires P (fs f) after \<Longrightarrow> WasAplBaseline (pinAt P fs f) \<and> deploys P root fs f = pinAt P fs f"
proof -
  assume "retires P (fs f) after"
  then obtain c out d where c: "fs f = Some c" and drop: "dropTrackingPin P c = (out, d, False)" "d \<noteq> []"
    by (auto simp: retires_def)
  moreover have "WasAplBaseline d" using drop by (rule drop_retired)
  moreover have "pinAt P fs f = d" using retired_pin_found [OF drop] c by (simp add: pinAt_def)
  ultimately show ?thesis by (simp add: deploys_def pickStr_def EffectiveAplChartVersion_def)
qed

lemma swept_root_unpinned:
  assumes "sweepLoop E root write owned (rootFirst root names) (startState fs) = (st, err)" and "distinct names"
    and "rootFile root \<in> set names \<or> fs (rootFile root) = None"
    and "f \<noteq> rootFile root" and "ssFiles st f \<noteq> fs f" and "err \<noteq> Some (WriteFailed f)"
  shows "retires (peParse E) (fs f) (ssFiles st f) \<and> pinAt (peParse E) (ssFiles st) (rootFile root) = []"
proof (cases "rootFile root \<in> set names")
  case True
  let ?r = "rootFile root" and ?envs = "filter (\<lambda>f. f \<noteq> rootFile root) names"
  have loop: "sweepLoop E root write owned (?r # ?envs) (startState fs) = (st, err)"
    using assms(1) rootFirst_split [OF assms(2) True] by simp
  obtain b where b: "fs ?r = Some b" using loop assms(5) by (auto simp: startState_def split: option.splits)
  obtain st1 e where step: "sweepFile E root write owned ?r b (startState fs) = (st1, e)"
    by (cases "sweepFile E root write owned ?r b (startState fs)")
  have same: "ssFiles st1 f = fs f" using sweepFile_other(1) [OF step assms(4)] by (simp add: startState_def)
  have e: "e = None" using loop b step same assms(5) by (auto simp: startState_def split: option.splits)
  then have rest: "sweepLoop E root write owned ?envs st1 = (st, err)" using loop b step by (simp add: startState_def)
  have envs: "write \<and> \<not> owned \<and> ssRootPin st1 = [] \<and> \<not> ssRootUnreadable st1
      \<and> retires (peParse E) (ssFiles st1 f) (ssFiles st f)"
    by (rule sweepLoop_envs [OF rest]) (use assms(2,5,6) same in auto)
  moreover have "ssFiles st ?r = ssFiles st1 ?r" using sweepLoop_untouched [OF rest, of ?r] by simp
  moreover have "\<exists>c. ssFiles st1 ?r = Some c \<and> ssRootPin st1 = foundAplPin (peParse E) c"
    using sweepFile_root [of E root b "startState fs" st1] step e envs b by (auto simp: startState_def)
  ultimately show ?thesis using same by (auto simp: pinAt_def)
next
  case False
  then have "filter (\<lambda>f. f = rootFile root) names = []" by (auto simp: filter_empty_conv)
  moreover from False have "filter (\<lambda>f. f \<noteq> rootFile root) names = names" by (auto simp: filter_id_conv)
  ultimately have order: "rootFirst root names = names" by (simp add: rootFirst_def)
  have "retires (peParse E) (ssFiles (startState fs) f) (ssFiles st f)"
    using sweepLoop_envs [OF assms(1)] False assms(2,5,6) by (simp add: startState_def)
  moreover have "ssFiles st (rootFile root) = None"
    using sweepLoop_untouched [OF assms(1), of "rootFile root"] False assms(3) by (simp add: startState_def)
  ultimately show ?thesis by (simp add: pinAt_def startState_def)
qed


subsection \<open>A dry run\<close>

definition agree :: "sweepState \<Rightarrow> sweepState \<Rightarrow> bool" where   \<comment> \<open>but for the files\<close>
  "agree a b \<longleftrightarrow> a = b\<lparr>ssFiles := ssFiles a\<rparr>"

lemma sweepFile_dry_run:
  assumes "sweepFile E root True owned f b st = (st', None)"
  shows "sweepFile E root False owned f b (st\<lparr>ssFiles := F\<rparr>) = (st'\<lparr>ssFiles := F\<rparr>, None)"
proof (cases st)
  case st: (fields fs r pin bad)
  obtain out d refused where drop: "dropTrackingPin (peParse E) b = (out, d, refused)"
    by (cases "dropTrackingPin (peParse E) b")
  show ?thesis
    using assms unfolding sweepFile_def Let_def drop st prod.case
    by (auto simp: afterFile_def split: if_splits option.splits)
qed

lemma sweepFile_dry:
  assumes "sweepFile E root True owned f b st1 = (st1', None)" and "agree st0 st1"
  shows "\<exists>st0'. sweepFile E root False owned f b st0 = (st0', None) \<and> agree st0' st1' \<and> ssFiles st0' = ssFiles st0"
  using sweepFile_dry_run [OF assms(1), of "ssFiles st0"] assms(2) by (simp add: agree_def)

lemma sweepFile_error: "sweepFile E root write owned f b st = (st', Some e) \<Longrightarrow> e = WriteFailed f"
  by (auto simp: sweepFile_def Let_def split: if_splits option.splits prod.splits)

lemma sweepLoop_dry:
  assumes "sweepLoop E root True owned fs st1 = (st1', err)" and "\<forall>f. err \<noteq> Some (WriteFailed f)"
    and "agree st0 st1" and "distinct fs" and "\<forall>f \<in> set fs. ssFiles st0 f = ssFiles st1 f"
  shows "\<exists>st0'. sweepLoop E root False owned fs st0 = (st0', err) \<and> agree st0' st1' \<and> ssFiles st0' = ssFiles st0"
  using assms
proof (induction fs arbitrary: st0 st1)
  case (Cons f fs)
  show ?case
  proof (cases "ssFiles st1 f")
    case None
    then show ?thesis using Cons.prems by simp
  next
    case (Some b)
    obtain s1 e where step: "sweepFile E root True owned f b st1 = (s1, e)" by (cases "sweepFile E root True owned f b st1")
    have e: "e = None" using step Cons.prems(1,2) Some sweepFile_error [of E root True owned f b st1 s1] by (cases e) auto
    obtain s0 where dry: "sweepFile E root False owned f b st0 = (s0, None)" "agree s0 s1" "ssFiles s0 = ssFiles st0"
      using sweepFile_dry [OF _ Cons.prems(3)] step e by blast
    have "\<forall>g \<in> set fs. ssFiles s0 g = ssFiles s1 g"
      using Cons.prems(4,5) dry(3) sweepFile_other(1) [OF step] by (metis distinct.simps(2) list.set_intros(2))
    then show ?thesis
      using Cons.IH [of s1 s0] Cons.prems(1,2,4,5) step e dry Some by auto
  qed
qed simp

text \<open>C39: A dry run changes no file, and unless a write fails it reports exactly what the run reports,
  with the same error.\<close>

theorem dry_run_reports_alike:
  assumes "sweepAplPins E root True fs = (st, err)" and "\<forall>f. err \<noteq> Some (WriteFailed f)"
    and "\<forall>names. envSpecFiles E root = Some names \<longrightarrow> distinct names"
  shows "\<exists>dry. sweepAplPins E root False fs = (dry, err) \<and> ssRes dry = ssRes st \<and> ssFiles dry = fs"
proof (cases "envSpecFiles E root")
  case None
  then show ?thesis using assms(1) by (auto simp: sweepAplPins_def startState_def)
next
  case (Some names)
  let ?loop = "\<lambda>w. sweepLoop E root w (manageAplVersionSet E fs (rootFirst root names)) (rootFirst root names) (startState fs)"
  have run: "sweepAplPins E root w fs = ?loop w" for w using Some by (simp add: sweepAplPins_def Let_def)
  have "\<exists>dry. ?loop False = (dry, err) \<and> agree dry st \<and> ssFiles dry = ssFiles (startState fs)"
    by (rule sweepLoop_dry [where ?st1.0 = "startState fs"]) (use assms run Some in \<open>simp_all add: agree_def\<close>)
  then obtain dry where dry: "?loop False = (dry, err)" "dry = st\<lparr>ssFiles := fs\<rparr>"
    by (auto simp: agree_def startState_def)
  then show ?thesis by (simp add: run)
qed

subsection \<open>Every pin is reported\<close>

definition reported :: "aplPinResult \<Rightarrow> aplPinChange set" where
  "reported r = set (prDropped r) \<union> set (prKept r) \<union> set (prRefused r) \<union> set (prDeferred r)"

lemma unreported_means_unpinned:
  "dropTrackingPin P c = (out, [], False) \<Longrightarrow> foundAplPin P c \<noteq> [] \<Longrightarrow> out = c"
  by (rule drop_unchanged) auto

lemma sweepFile_reports:
  assumes "sweepFile E root write owned f b st = (st', err)"
  shows "reported (ssRes st) \<subseteq> reported (ssRes st')"
    and "err = None \<Longrightarrow> foundAplPin (peParse E) b \<noteq> [] \<Longrightarrow> relTo root f \<in> pcFile ` reported (ssRes st')"
  using assms
  by (auto simp: sweepFile_def Let_def sweep_simps reported_def change_def
      split: if_splits option.splits prod.splits)

lemma sweepLoop_reports:
  assumes "sweepLoop E root write owned fs st = (st', None)" and "distinct fs"
    and "f \<in> set fs" and "ssFiles st f = Some b" and "foundAplPin (peParse E) b \<noteq> []"
  shows "relTo root f \<in> pcFile ` reported (ssRes st')"
proof -
  have mono: "reported (ssRes s) \<subseteq> reported (ssRes s')" if "sweepLoop E root write owned gs s = (s', None)" for gs s s'
    using that
  proof (induction gs arbitrary: s)
    case (Cons g gs)
    then show ?case using sweepFile_reports(1) by (fastforce split: option.splits prod.splits)
  qed simp
  show ?thesis using assms
  proof (induction fs arbitrary: st)
    case (Cons g fs)
    obtain c where c: "ssFiles st g = Some c" using Cons.prems(1) by (auto split: option.splits)
    obtain s1 where step: "sweepFile E root write owned g c st = (s1, None)"
      and rest: "sweepLoop E root write owned fs s1 = (st', None)"
      using Cons.prems(1) c by (auto split: option.splits prod.splits)
    show ?case
    proof (cases "f = g")
      case True
      then show ?thesis using sweepFile_reports(2) [OF step] mono [OF rest] Cons.prems(4,5) c by auto
    next
      case False
      then show ?thesis using Cons.IH [OF rest] Cons.prems sweepFile_other(1) [OF step] by auto
    qed
  qed simp
qed

text \<open>A sweep that ends without an error accounts for every file that declared a pin: it is among
  the dropped, the kept, the refused or the deferred.\<close>

theorem every_pin_reported:
  assumes "sweepAplPins E root write fs = (st, None)" and "envSpecFiles E root = Some names" and "distinct names"
    and "f \<in> set names" and "pinAt (peParse E) fs f \<noteq> []"
  shows "relTo root f \<in> pcFile ` reported (ssRes st)"
  using assms sweepLoop_reports [of E root "write" _ "rootFirst root names" "startState fs" st f]
  by (auto simp: sweepAplPins_def Let_def pinAt_def startState_def split: option.splits)

subsection \<open>What the splice removes\<close>

lemma lineStart_facts:
  assumes "k \<le> length c"
  shows "lineStart c k \<le> k \<and> newline \<notin> set (drop (lineStart c k) (take k c))
    \<and> (take (lineStart c k) c = [] \<or> last (take (lineStart c k) c) = newline)"
proof (cases "last_index_of newline (take k c)")
  case None
  then show ?thesis using last_index_of_None [of newline "take k c"] by (simp add: lineStart_def)
next
  case (Some i)
  have "i < k" "c ! i = newline" "newline \<notin> set (drop (Suc i) (take k c))"
    using last_index_of_Some [OF Some] assms by auto
  then show ?thesis using Some assms by (simp add: lineStart_def take_Suc_conv_app_nth)
qed

lemma runeSize_le: "runeSize s \<le> length s"
  by (cases s) (auto simp: Let_def contBytes_def)

lemma skipRunes_le: "i \<le> length c \<Longrightarrow> skipRunes k c i \<le> length c"
proof (induction k arbitrary: i)
  case (Suc k)
  have "runeSize (drop i c) \<le> length c - i" using runeSize_le [of "drop i c"] by simp
  then show ?case using Suc by auto
qed simp

text \<open>On ASCII text a column is a byte offset.\<close>

lemma skipRunes_ascii:
  "list_all (\<lambda>c. (of_char c :: nat) < 0xC2) s \<Longrightarrow> i + k \<le> length s \<Longrightarrow> skipRunes k s i = i + k"
proof (induction k arbitrary: i)
  case (Suc k)
  then obtain c r where "drop i s = c # r" and "c \<in> set s"
    by (metis Cons_nth_drop_Suc add_Suc_right add_lessD1 less_eq_Suc_le nth_mem)
  then have "runeSize (drop i s) = 1" using Suc.prems(1) by (auto simp: runeTail_def contBytes_def list_all_iff)
  then show ?case using Suc by simp
qed simp

lemma lineStarts_le: "x \<in> set (lineStarts i cs) \<Longrightarrow> x \<le> i + length cs"
  by (induction cs arbitrary: i) (fastforce split: if_splits)+

lemma nodeOffset_le: "nodeOffset (lineOffsets c) c n \<le> int (length c)"
proof -
  have "x \<le> length c" if "x \<in> set (lineOffsets c)" for x
    using that lineStarts_le [of x 0 c] by (auto simp: lineOffsets_def)
  then have "lineOffsets c ! nat (ymLine n) \<le> length c"
    if "0 < ymLine n" "ymLine n < int (length (lineOffsets c))"
    using that by (auto intro!: nth_mem simp: nat_less_iff)
  then show ?thesis using skipRunes_le by (auto simp: nodeOffset_def)
qed

definition inText :: "string \<Rightarrow> pinSite \<Rightarrow> bool" where
  "inText c s \<longleftrightarrow> psKeyOff s \<le> int (length c) \<and> psValOff s \<le> int (length c)"

lemma siteOf_inText: "inText c (siteOf (lineOffsets c) c flow a k v)"
  by (simp add: siteOf_def inText_def nodeOffset_le)

lemma walk_inText:
  "offs = lineOffsets c \<Longrightarrow> list_all (inText c) (walk offs c a n)"
  "offs = lineOffsets c \<Longrightarrow> list_all (inText c) (walkPairs offs c flow a ns)"
  "offs = lineOffsets c \<Longrightarrow> list_all (inText c) (walkAll offs c a ns)"
  by (induction offs c a n and offs c flow a ns and offs c a ns rule: walk_walkPairs_walkAll.induct)
    (auto simp: siteOf_inText)

lemma sites_inText: "findPinSites P c = Some sites \<Longrightarrow> s \<in> set sites \<Longrightarrow> inText c s"
  using walk_inText(1) [of "lineOffsets c" c False] by (auto simp: findPinSites_def list_all_iff)

lemma beforeKey_eq:
  assumes "k = nat (psKeyOff s)" and "k \<le> length c"
  shows "beforeKey c s = drop (lineStart c k) (take k c)"
proof -
  let ?n = "lineStart c k"
  have n: "?n \<le> k" "newline \<notin> set (drop ?n (take k c))" using lineStart_facts [OF assms(2)] by auto
  have "k - ?n \<le> stop" if "index_of newline (drop ?n c) = Some stop" for stop
  proof (rule ccontr)
    assume "\<not> k - ?n \<le> stop"
    moreover have "drop ?n c ! stop = newline" "stop < length (drop ?n c)"
      using index_of_Some [OF that] by (metis nth_append_length length_take min.absorb4, simp)
    ultimately have "newline \<in> set (take (k - ?n) (drop ?n c))" by (auto simp: in_set_conv_nth intro!: exI [of _ stop])
    then show False using n(2) by (simp add: drop_take)
  qed
  then show ?thesis
    by (auto simp: beforeKey_def assms(1) [symmetric] lineAt_def Let_def drop_take min_def split: option.splits)
qed

text \<open>Retiring a block-style pin removes from the text exactly one line: the one the key stands on,
  with nothing but blanks ahead of the key, and its line end.\<close>

theorem block_drop_is_one_line:
  assumes "dropTrackingPin P c = (out, d, False)" and "d \<noteq> []"
    and "findPinSites P c = Some [s]" and "\<not> psFlow s"
  shows "\<exists>pre blanks rest ending post. c = pre @ blanks @ rest @ ending @ post \<and> out = pre @ post
    \<and> newline \<notin> set (blanks @ rest) \<and> (ending = [newline] \<or> ending = [] \<and> post = [])
    \<and> (pre = [] \<or> last pre = newline) \<and> trim_space blanks = [] \<and> psKeyOff s = int (length (pre @ blanks))"
proof -
  let ?k = "nat (psKeyOff s)"
  let ?n = "lineStart c ?k"
  obtain key: "0 \<le> psKeyOff s" and out: "out = removeBlockLine c s" and blank: "trim_space (beforeKey c s) = []"
    using assms by (auto elim!: drop_retired)
  have k: "?k \<le> length c" using sites_inText [OF assms(3), of s] key by (simp add: inText_def nat_le_iff)
  note n = lineStart_facts [OF k]
  let ?pre = "take ?n c" and ?blanks = "drop ?n (take ?k c)"
  have head: "take ?k c = ?pre @ ?blanks" using n by (metis append_take_drop_id min.absorb1 take_take)
  then have whole: "c = ?pre @ ?blanks @ drop ?k c" by (metis append.assoc append_take_drop_id)
  have len: "psKeyOff s = int (length (?pre @ ?blanks))" using key k unfolding head [symmetric] by simp
  have b: "trim_space ?blanks = []" using blank beforeKey_eq [OF refl k] by simp
  show ?thesis
  proof (cases "index_of newline (drop ?k c)")
    case None
    then have "c = ?pre @ ?blanks @ drop ?k c @ [] @ []" "out = ?pre @ []" "newline \<notin> set (drop ?k c)"
      using whole index_of_None [of newline "drop ?k c"] by (simp_all add: out removeBlockLine_def Let_def)
    then show ?thesis using n b len by (metis Un_iff set_append)
  next
    case (Some e)
    have "drop ?k c = take e (drop ?k c) @ [newline] @ drop (Suc (e + ?k)) c" "newline \<notin> set (take e (drop ?k c))"
      using index_of_Some [OF Some] by auto
    moreover from this(1) have "c = ?pre @ ?blanks @ take e (drop ?k c) @ [newline] @ drop (Suc (e + ?k)) c"
      using whole by (metis append.assoc)
    moreover have "out = ?pre @ drop (Suc (e + ?k)) c"
      using Some by (simp add: out removeBlockLine_def Let_def add.commute)
    ultimately show ?thesis using n b len by (metis Un_iff set_append)
  qed
qed

lemma subseq_tidy: "subseq (tidySpliceSite out at had) out"
proof (cases "index_of newline (drop (lineStart out at) out)")
  case (Some le)
  let ?n = "lineStart out at"
  have "subseq (take ?n out @ trim_right space_or_tab (take le (drop ?n out)) @ drop (?n + le) out)
      (take ?n out @ take le (drop ?n out) @ drop (?n + le) out)"
    by (intro list_emb_append_mono subseq_trim_right subseq_order.refl)
  moreover have "take ?n out @ take le (drop ?n out) @ drop (?n + le) out = out"
    by (metis add.commute append_take_drop_id drop_drop)
  ultimately show ?thesis using Some subseq_cut [of ?n "?n + le + 1" out] by (simp add: tidySpliceSite_def Let_def)
qed (simp add: tidySpliceSite_def Let_def subseq_trim_right)

lemma subseq_collapse: "subseq (collapseEmptied out start) out"
proof -
  have "subseq (take (Suc i) out @ drop (i + rel) out) out" if "take (rel - 1) (drop (Suc i) out) \<noteq> []" for i rel
    by (rule subseq_cut) (use that in \<open>cases rel; auto\<close>)
  then show ?thesis by (auto simp: collapseEmptied_def Let_def split: option.splits)
qed

lemma entryLoop_ge: "min i (length c) \<le> entryLoop c v d i"
proof (induction "length c - i" arbitrary: d i rule: less_induct)
  case less
  show ?case
  proof (cases "i < length c")
    case True
    have later: "i \<le> entryLoop c v d' j" if "i < j" for d' j
      using less [OF diff_less_mono2 [OF that True], of d'] that True by linarith
    moreover have "i = v \<Longrightarrow> v < j \<Longrightarrow> v \<le> entryLoop c v d' j" for d' j using later [of j d'] by simp
    ultimately show ?thesis using True by (simp add: entryLoop.simps [of c v d i] Let_def split: option.splits)
  qed (simp add: entryLoop.simps)
qed

lemma skipToSeparator_ge: "j \<le> skipToSeparator c j"
proof (induction "length c - j" arbitrary: j rule: less_induct)
  case less
  have later: "j \<le> skipToSeparator c k" if "j < k" "j < length c" for k
    using less [OF diff_less_mono2 [OF that]] that by linarith
  show ?case by (auto simp: skipToSeparator.simps [of c j] later split: option.splits)
qed

lemma flowCut_le:
  assumes "flowCut c k v = (start, e)" and "k < v" and "v \<le> length c" and "\<not> is_space (c ! k)"
  shows "start \<le> e"
proof -
  let ?blank = "\<lambda>c. space_or_tab c \<or> c = cr"
  let ?e = "length (trim_right ?blank (take (entryEnd c v) c))"
  have "v \<le> entryEnd c v" using entryLoop_ge [of v c v 0] assms(3) by (simp add: entryEnd_def)
  then have "k < length (take (entryEnd c v) c)" using assms(2,3) by simp
  moreover have "\<not> ?blank (take (entryEnd c v) c ! k)"
    using assms(2-4) \<open>v \<le> entryEnd c v\<close> by (auto simp: space_or_tab_def is_space_def)
  ultimately have "k < ?e" by (rule trim_right_keeps)
  moreover have "length (trim_right p (take k c)) \<le> k" for p
    using subseq_trim_right [of p "take k c"] by (metis dual_order.trans length_take list_emb_length min.cobounded2)
  moreover have "?e \<le> skipToSeparator c ?e" by (rule skipToSeparator_ge)
  ultimately show ?thesis using assms(1)
    by (auto simp: flowCut_def Let_def split: if_splits) (use \<open>\<And>p. length (trim_right p (take k c)) \<le> k\<close> in \<open>metis (no_types, lifting) diff_le_self le_trans less_imp_le\<close>)
qed

text \<open>C40: Whatever a retirement cuts, it only deletes: nothing is moved, duplicated or invented, as
  long as the parser reports the key ahead of its value and at a character that is not blank.\<close>

theorem retirement_only_deletes:
  assumes "dropTrackingPin P c = (out, d, False)"
    and "\<forall>s. findPinSites P c = Some [s] \<longrightarrow> psKeyOff s < psValOff s \<and> \<not> is_space (c ! nat (psKeyOff s))"
  shows "subseq out c"
proof (cases "d = []")
  case True
  then show ?thesis using drop_unchanged [OF assms(1)] by simp
next
  case False
  obtain s where s: "findPinSites P c = Some [s]" "0 \<le> psKeyOff s"
    and out: "out = (if psFlow s then removeFlowEntry c s else removeBlockLine c s)"
    using drop_retired [OF assms(1) False] by metis
  let ?k = "nat (psKeyOff s)" and ?v = "nat (psValOff s)"
  have pos: "?k < ?v" "?v \<le> length c" "\<not> is_space (c ! ?k)"
    using assms(2) s sites_inText [OF s(1), of s] by (auto simp: inText_def nat_le_iff)
  obtain start e where cut: "flowCut c ?k ?v = (start, e)" by (cases "flowCut c ?k ?v")
  have "subseq (removeFlowEntry c s) c"
    unfolding removeFlowEntry_def cut Let_def prod.case
    using subseq_collapse subseq_tidy subseq_cut [OF flowCut_le [OF cut pos]] by (meson subseq_order.trans)
  moreover have "subseq (removeBlockLine c s) c"
  proof -
    have "lineStart c ?k \<le> ?k" using lineStart_facts [of ?k c] pos by simp
    then show ?thesis
      using subseq_cut [of "lineStart c ?k" "length c" c] subseq_cut [of "lineStart c ?k" "?k + _ + 1" c]
      by (auto simp: removeBlockLine_def Let_def split: option.splits)
  qed
  ultimately show ?thesis by (simp add: out)
qed

subsection \<open>An instance that owns its version\<close>

definition instanceDefault :: "pinEnv \<Rightarrow> files \<Rightarrow> string \<Rightarrow> bool option" where
  "instanceDefault E fs root = (case fs (rootFile root) of
      None \<Rightarrow> None
    | Some b \<Rightarrow> (case peOwned E b of Some doc \<Rightarrow> bdDefault doc | None \<Rightarrow> None))"

lemma ownedStep_grows:
  "fold (ownedStep E fs) names (rd, es, p) = (rd', es', p') \<Longrightarrow> set es \<subseteq> set es' \<and> (p \<longrightarrow> p')"
proof (induction names arbitrary: rd es p)
  case (Cons f names)
  obtain rd1 es1 p1 where step: "ownedStep E fs f (rd, es, p) = (rd1, es1, p1)" by (metis prod_cases3)
  then have "set es \<subseteq> set es1 \<and> (p \<longrightarrow> p1)" by (auto simp: ownedStep_def split: option.splits if_splits)
  then show ?case using Cons.IH [of rd1 es1 p1] Cons.prems step by auto
qed simp

lemma ownedStep_env:
  assumes "fold (ownedStep E fs) names (rd, es, p) = (rd', es', p')"
    and "f \<in> set names" and "base_path f \<noteq> LandingZoneFile" and "fs f = Some b" and "peOwned E b = Some doc"
  shows "bdCluster doc \<in> set es' \<and> p'"
  using assms(1,2)
proof (induction names arbitrary: rd es p)
  case (Cons g names)
  obtain rd1 es1 p1 where step: "ownedStep E fs g (rd, es, p) = (rd1, es1, p1)" by (metis prod_cases3)
  then have rest: "fold (ownedStep E fs) names (rd1, es1, p1) = (rd', es', p')" using Cons.prems(1) by simp
  show ?case
  proof (cases "f = g")
    case True
    then have "bdCluster doc \<in> set es1 \<and> p1" using step assms(3-5) by (auto simp: ownedStep_def)
    then show ?thesis using ownedStep_grows [OF rest] by auto
  qed (use Cons.IH [OF rest] Cons.prems(2) in auto)
qed simp

lemma ownedStep_default:
  "fold (ownedStep E fs) names (rd, es, p) = (rd', es', p') \<Longrightarrow> \<forall>g \<in> set names. base_path g \<noteq> LandingZoneFile \<Longrightarrow> rd' = rd"
proof (induction names arbitrary: es p)
  case (Cons g names)
  obtain rd1 es1 p1 where step: "ownedStep E fs g (rd, es, p) = (rd1, es1, p1)" by (metis prod_cases3)
  then have "rd1 = rd" using Cons.prems(2) by (auto simp: ownedStep_def split: option.splits)
  then show ?case using Cons.IH [of es1 p1] Cons.prems step by simp
qed simp

lemma owner_found:
  assumes "distinct names" and "\<forall>g \<in> set names. base_path g = LandingZoneFile \<longleftrightarrow> g = rootFile root"
    and "f \<in> set names" and "f \<noteq> rootFile root" and "fs f = Some b" and "peOwned E b = Some doc"
    and "pickPtr (instanceDefault E fs root) (bdCluster doc) \<noteq> Some False"
  shows "manageAplVersionSet E fs (rootFirst root names)"
proof -
  let ?order = "rootFirst root names"
  obtain rd es p where scan: "fold (ownedStep E fs) ?order (None, [], False) = (rd, es, p)" by (metis prod_cases3)
  have own: "bdCluster doc \<in> set es" "p"
    using ownedStep_env [OF scan, of f b doc] assms(2-6) by auto
  have "rd = None \<or> rd = instanceDefault E fs root"
  proof (cases "rootFile root \<in> set names")
    case True
    obtain rd1 es1 p1 where step: "ownedStep E fs (rootFile root) (None, [], False) = (rd1, es1, p1)" by (metis prod_cases3)
    have "rd1 = instanceDefault E fs root"
      using step assms(2) True by (auto simp: ownedStep_def instanceDefault_def split: option.splits)
    moreover have "rd = rd1"
      by (rule ownedStep_default [of E fs "filter (\<lambda>f. f \<noteq> rootFile root) names" _ es1 p1])
        (use scan step rootFirst_split [OF assms(1) True] assms(2) in auto)
    ultimately show ?thesis by simp
  next
    case False
    have "rd = None" by (rule ownedStep_default [OF scan]) (use assms(2) False in auto)
    then show ?thesis ..
  qed
  then have "(if bdCluster doc = None then rd else bdCluster doc) \<noteq> Some False"
    using assms(7) by (auto simp: pickPtr_def split: if_splits)
  then have "list_ex (\<lambda>v. (if v = None then rd else v) \<noteq> Some False) es"
    using own(1) unfolding list_ex_iff by (rule bexI)
  moreover have "es \<noteq> []" using own(1) by (cases es) simp_all
  ultimately show ?thesis using own(2) by (simp add: manageAplVersionSet_def scan)
qed

lemma sweepLoop_owned:
  "sweepLoop E root write True fs st = (st', err) \<Longrightarrow> ssFiles st' = ssFiles st \<and> prDropped (ssRes st') = prDropped (ssRes st)"
proof (induction fs arbitrary: st)
  case (Cons f fs)
  show ?case
  proof (cases "ssFiles st f")
    case (Some b)
    obtain s e where step: "sweepFile E root write True f b st = (s, e)" by (cases "sweepFile E root write True f b st")
    have "ssFiles s = ssFiles st \<and> prDropped (ssRes s) = prDropped (ssRes st)"
      using step by (auto simp: sweepFile_def Let_def sweep_simps split: if_splits option.splits prod.splits)
    then show ?thesis using Cons.IH [of s] Cons.prems Some step by (cases e) auto
  qed (use Cons.prems in simp)
qed simp


subsection \<open>An instance with one pinned deployment\<close>

definition plainMeta :: ymeta where
  "plainMeta = \<lparr>ymValue = [], ymTag = [], ymAnchor = [], ymLiteral = False, ymFolded = False, ymFlow = False,
     ymLine = 1, ymColumn = 1, ymHeadComment = [], ymLineComment = []\<rparr>"

definition demoScalar :: "string \<Rightarrow> int \<Rightarrow> ynode" where
  "demoScalar v col = YNode ScalarNode (plainMeta\<lparr>ymValue := v, ymTag := ''!!str'', ymColumn := col\<rparr>) []"

definition demoPinned :: string where
  "demoPinned = ''aplChartVersion: v6.2.0'' @ nl"

definition demoParse :: yparser where
  "demoParse c = (if c = demoPinned
     then Some [YNode DocumentNode plainMeta [YNode MappingNode plainMeta
       [demoScalar ''aplChartVersion'' 1, demoScalar ''v6.2.0'' 18]]]
     else Some [])"

abbreviation demoEast :: string where "demoEast \<equiv> ''/i/environments/east.yaml''"
abbreviation demoRootFile :: string where "demoRootFile \<equiv> ''/i/landingzone.yaml''"

definition demoInstance :: "bool option \<Rightarrow> pinEnv" where   \<comment> \<open>the environment's \<open>manageAplVersion\<close>\<close>
  "demoInstance own = \<lparr>peParse = demoParse,
     peOwned = (\<lambda>c. Some \<lparr>bdDefault = None, bdEnvironments = [], bdCluster = (if c = demoPinned then own else None)\<rparr>),
     peGlob = (\<lambda>pat. Some (if has_prefix pat ''/i/environments'' then [demoEast] else [demoRootFile])),
     peIsDir = (\<lambda>_. Some False), peWrite = (\<lambda>_ _. None)\<rparr>"

definition demoFiles :: files where
  "demoFiles = [demoEast \<mapsto> demoPinned, demoRootFile \<mapsto> ''kind: LandingZone'']"

lemma demo_spec_files: "envSpecFiles (demoInstance own) ''/i'' = Some [demoEast, demoRootFile]"
  by code_simp

lemma demo_root: "rootFile ''/i'' = demoRootFile"
  by code_simp

lemma demo_distinct: "distinct [demoEast, demoRootFile]"
  by code_simp

lemma demo_sites: "findPinSites demoParse demoPinned = Some
    [\<lparr>psKeyOff = 0, psValOff = 17, psValue = ''v6.2.0'', psFlow = False, psAnchored = False, psHeadComment = [],
      psLineComment = False, psSameLine = True\<rparr>]"
proof -
  have "list_all (\<lambda>c. (of_char c :: nat) < 0xC2) demoPinned" "length demoPinned = 24"
    by (simp_all add: demoPinned_def nl_def)
  then have "skipRunes 17 demoPinned 0 = 17" using skipRunes_ascii [of demoPinned 0 17] by simp
  moreover have "lineOffsets demoPinned = [0, 0, 24]" by (simp add: lineOffsets_def demoPinned_def nl_def)
  moreover have "trim_space [] = []" by code_simp
  ultimately show ?thesis
    by (simp add: findPinSites_def demoParse_def demoScalar_def plainMeta_def isPinKey_def aplPinKeyName_def siteOf_def
        nodeOffset_def pinValue_def)
qed

definition demoSite :: pinSite where
  "demoSite = \<lparr>psKeyOff = 0, psValOff = 17, psValue = ''v6.2.0'', psFlow = False, psAnchored = False, psHeadComment = [],
      psLineComment = False, psSameLine = True\<rparr>"

lemma demo_drop: "dropTrackingPin demoParse demoPinned = ([], ''v6.2.0'', False)"
proof -
  have "WasAplBaseline ''v6.2.0''" "trim_space [] = []" "trim_space (beforeKey demoPinned demoSite) = []"
    "removeBlockLine demoPinned demoSite = []" by code_simp+
  then show ?thesis using demo_sites [folded demoSite_def] by (simp add: dropTrackingPin_def demoSite_def)
qed

lemma demo_unpinned: "c \<noteq> demoPinned \<Longrightarrow> findPinSites demoParse c = Some [] \<and> foundAplPin demoParse c = []
    \<and> dropTrackingPin demoParse c = (c, [], False)"
  by (simp add: findPinSites_def foundAplPin_def dropTrackingPin_def demoParse_def)

lemma demo_texts: "[] \<noteq> demoPinned" "''kind: LandingZone'' \<noteq> demoPinned" "demoEast \<noteq> demoRootFile"
  by code_simp+

lemma demo_names: "\<forall>g \<in> set [demoEast, demoRootFile]. base_path g = LandingZoneFile \<longleftrightarrow> g = rootFile ''/i''"
  by code_simp

lemma demo_order: "rootFirst ''/i'' [demoEast, demoRootFile] = [demoRootFile, demoEast]"
  by code_simp

lemma demo_not_owned: "\<not> manageAplVersionSet (demoInstance (Some False)) demoFiles [demoRootFile, demoEast]"
  by code_simp

lemma demo_swept:
  "\<exists>st. sweepAplPins (demoInstance (Some False)) ''/i'' True demoFiles = (st, None)
    \<and> ssFiles st demoEast = Some [] \<and> ssFiles st demoRootFile = Some ''kind: LandingZone''"
proof -
  have P: "peParse (demoInstance own) = demoParse" "peWrite (demoInstance own) f c = None" for own f c
    by (simp_all add: demoInstance_def)
  have fs: "demoFiles demoEast = Some demoPinned" "demoFiles demoRootFile = Some ''kind: LandingZone''"
    using demo_texts(3) by (simp_all add: demoFiles_def)
  note un = demo_unpinned [OF demo_texts(1)] demo_unpinned [OF demo_texts(2)]
  show ?thesis
    by (simp add: sweepAplPins_def demo_spec_files demo_order demo_not_owned startState_def fs sweepFile_def P un
        demo_drop demo_root demo_texts afterFile_def)
qed


lemma dry_run_reports_alike_witness:
  "\<exists>dry. sweepAplPins (demoInstance (Some False)) ''/i'' False demoFiles = (dry, None) \<and> ssFiles dry = demoFiles"
proof -
  obtain st where st: "sweepAplPins (demoInstance (Some False)) ''/i'' True demoFiles = (st, None)" using demo_swept by blast
  have "\<exists>dry. sweepAplPins (demoInstance (Some False)) ''/i'' False demoFiles = (dry, None)
      \<and> ssRes dry = ssRes st \<and> ssFiles dry = demoFiles"
    by (rule dry_run_reports_alike [OF st]) (simp_all only: demo_spec_files option.inject option.distinct demo_distinct simp_thms)
  then show ?thesis by blast
qed

lemma every_pin_reported_witness:
  "\<exists>st. sweepAplPins (demoInstance (Some False)) ''/i'' True demoFiles = (st, None)
    \<and> ''environments/east.yaml'' \<in> pcFile ` reported (ssRes st)"
proof -
  obtain st where st: "sweepAplPins (demoInstance (Some False)) ''/i'' True demoFiles = (st, None)" using demo_swept by blast
  have fs: "demoFiles demoEast = Some demoPinned" using demo_texts(3) by (simp add: demoFiles_def)
  have "pinAt demoParse demoFiles demoEast = ''v6.2.0''"
    using retired_pin_found [OF demo_drop] fs by (simp add: pinAt_def)
  then have "relTo ''/i'' demoEast \<in> pcFile ` reported (ssRes st)"
    using every_pin_reported [OF st demo_spec_files demo_distinct, of demoEast] by (simp add: demoInstance_def)
  moreover have "relTo ''/i'' demoEast = ''environments/east.yaml''" by code_simp
  ultimately show ?thesis using st by (simp only:) blast
qed

lemma block_drop_is_one_line_witness:
  "\<exists>pre blanks rest ending post. demoPinned = pre @ blanks @ rest @ ending @ post \<and> [] = pre @ post
    \<and> newline \<notin> set (blanks @ rest)"
  using block_drop_is_one_line [OF demo_drop _ demo_sites] by (simp only: pinSite.select_convs) blast

lemma retirement_only_deletes_witness: "subseq [] demoPinned \<and> \<not> is_space (demoPinned ! 0)"
proof -
  have "\<not> is_space (demoPinned ! 0)" by code_simp
  then show ?thesis using retirement_only_deletes [OF demo_drop] demo_sites by simp
qed


subsection \<open>Departures\<close>

text \<open>The backward scan takes the carriage return of a CRLF file for blank, the forward scan does not: a
  separator on the next line stays behind, as the first thing in the mapping.\<close>

theorem crlf_leaves_separator:
  "let eol = [cr, newline];
       before = ''bootstrap: {'' @ eol @ ''  aplChartVersion: v6.2.0'' @ eol @ ''  , name: p }'';
       after = removeFlowEntry before (demoSite\<lparr>psKeyOff := 16, psValOff := 33, psFlow := True\<rparr>)
   in after = ''bootstrap: {'' @ eol @ ''  , name: p }''"
  by code_simp

text \<open>A deployment file that is called \<open>landingzone.yaml\<close> is taken for the root, so the version it owns
  by default does not count.\<close>

definition namesakeOwned :: "string \<Rightarrow> bootDoc option" where
  "namesakeOwned c = Some \<lparr>bdDefault = None, bdEnvironments = [], bdCluster = (if c = ''east'' then Some False else None)\<rparr>"

theorem namesake_owner_missed:
  "let E = (demoInstance None)\<lparr>peOwned := namesakeOwned\<rparr>;
       fs = [demoEast \<mapsto> ''east'', ''/i/environments/landingzone.yaml'' \<mapsto> ''owner'', demoRootFile \<mapsto> ''root'']
   in \<not> manageAplVersionSet E fs (rootFirst ''/i'' [demoEast, ''/i/environments/landingzone.yaml'', demoRootFile])
     \<and> pickPtr (instanceDefault E fs ''/i'') (bdCluster (the (namesakeOwned ''owner''))) = None"
  by code_simp

text \<open>A pin the parser gives no position for is refused for that before its anchor is looked at, and
  explained by the anchor.\<close>

theorem reason_in_another_order:
  "findPinSites P c = Some [s] \<Longrightarrow> psValue s \<noteq> [] \<Longrightarrow> psKeyOff s < 0 \<Longrightarrow> psAnchored s
    \<Longrightarrow> dropTrackingPin P c = (c, psValue s, True) \<and> refusalReason P c = ByAnchor"
  by (simp add: dropTrackingPin_def refusalReason_def)

end
