(* ===== verification/Spec2Isabelle.thy ===== *)
theory Spec2Isabelle
  imports Converge_Loop Lease_System Reconcile_Samples Reconcile_Manager State_Passphrase Cred_Rotation
    Linode_Time Versions Handles Repo_Fence Promotion Spec_Tfvars Apl_Pins
begin

text \<open>
  A verification library for the landing-zone tool \<open>llz\<close> (Go, under \<open>src/tools/\<close>). The tool
  creates and converges LKE clusters. Its core is a health scan of a cluster, which decides
  whether the converge loop stops, polls or gives up, and which of a cluster's findings belong to
  the platform and which to the instance's own content. Around it stand decisions about Linode
  resources (what may be reaped, which version a cluster may be pinned to, when a token expires), the
  declarations of the tool's extensions with the handles they are given, and the pipeline that
  promotes one deployment after the other.

  The parts and their theories. Paths are below \<open>src/tools/internal/\<close>.

  \<^item> \<open>Go_Prelude\<close>: Go strings as byte lists (prefixes, \<open>Cut\<close>, \<open>Split\<close>, \<open>TrimSpace\<close>), \<open>strconv\<close>,
    truncated division, \<open>int64\<close> wrap-around (\<open>i64\<close>) and \<open>time.Sub\<close>'s saturation, with the lemmas the
    others share. \<open>Regexp\<close>: the regular expressions of the code, matched by derivatives, with the
    language as reference.
  \<^item> \<open>Verdict\<close> (\<open>shared/health/contract.go\<close>, \<open>converge.go\<close>, \<open>budgeted.go\<close>): the report, its two
    verdicts, the exit codes, and the loop's action on a code.
  \<^item> \<open>Argo_Apps\<close> (\<open>argo.go\<close>, \<open>argo_syncerr.go\<close>, \<open>matchers.go\<close>, \<open>allowlists.go\<close>): parsing and
    classifying an Argo CD Application, the allow lists, condensed error text.
  \<^item> \<open>Ownership\<close> (\<open>ownership.go\<close>): the index built from the Applications and \<open>Owns\<close>. Its
    specification \<open>owns_spec\<close> speaks of sets of Applications; \<open>owns_fullIndex\<close> is the refinement.
  \<^item> \<open>Routing\<close> (\<open>routing.go\<close>): every finding passes one of these routes. The locale \<open>router\<close> is
    what a route promises (which verdict it moves and how far); each route interprets it.
  \<^item> \<open>Pods\<close>, \<open>Workloads\<close>, \<open>Foundations\<close>, \<open>Error_Text\<close> (the other files of \<open>shared/health\<close>):
    the classifiers of the sections, each on every branch with its message.
  \<^item> \<open>Kube_Probe\<close> (\<open>shared/kubectlprobe/probe.go\<close>): retried \<open>kubectl\<close> questions and the readings of
    the answer. Running \<open>kubectl\<close> is the parameter \<open>answers\<close>, one result per attempt.
  \<^item> \<open>Scan_Cluster\<close>, \<open>Scan_Sections\<close>, \<open>Health_Scan\<close>
    (\<open>extensions/lifecycle/converge/health.go\<close>): the sections of the scan as functions on the
    report, and one pass over them. What the cluster answers is the record \<open>cluster\<close>: one field per
    question, \<open>None\<close> for an unanswered one. The lemmas collected in \<open>growth\<close> say that every
    section only makes both verdicts worse, so nothing a section found is lost.
  \<^item> \<open>Overlay_Fields\<close> (\<open>shared/clusterspec/overlay_fields.go\<close>) and \<open>Brownfield\<close>
    (\<open>shared/brownfield/brownfield.go\<close>): what the overlay declares against what a live object
    carries, and the unattended repair that deletes an object so that Argo CD recreates it. The
    cluster's answers are the record \<open>bfCluster\<close>, the writes of a pass are its trace.
  \<^item> \<open>Fuel_Loop\<close>: a loop whose turn goes on or leaves, run on fuel, with a locale each for a kept
    invariant, for a clock that makes it leave, and for a loop that simulates another.
  \<^item> \<open>Converge_Loop\<close> (\<open>health.go\<close>, \<open>runConverge\<close>): the loop around the pass. One turn is \<open>loopStep\<close>;
    the world is the record \<open>loopEnv\<close>, the answer to the \<open>n\<close>-th question of the run and the time it
    takes, so every schedule and every flapping of the cluster is one such record. Fuel is the
    number of turns; \<open>converge_returns\<close> gives a number that is always enough. \<open>watchTurn\<close> is the
    specification of a run without repairs, which the loop refines outside the platform scope.
  \<^item> \<open>Leader_Election\<close> (\<open>extensions/lifecycle/reconciler/reconcile_leader.go\<close>, \<open>shared/kube\<close>): the
    elector of the reconciler pods, as a plan from what was read and an outcome from what the
    write answered. \<open>Lease_System\<close>: the pods and the lease as a step relation, whose invariant says
    that a leader's own fresh claim is on the lease, and its refinement of a register with one
    leader. \<open>leaseApi\<close> holds what comes from libraries and the apiserver: \<open>time.Parse\<close>, \<open>Format\<close>
    and merge patches, with their laws as the hypothesis \<open>lawfulApi\<close>.
  \<^item> \<open>Metrics\<close> (\<open>shared/metrics/metrics.go\<close>): the registry of gauges as a map of families keyed by
    the rendered label set, with the proof that rendering keeps label sets apart.
    \<open>Reconcile_Samples\<close> (\<open>reconciler/reconcile_convergence.go\<close>, \<open>reconcile_health.go\<close>,
    \<open>reconcile_tokens.go\<close>): what the reconciler reads from the cluster and publishes there.
  \<^item> \<open>Reconcile_Manager\<close> (\<open>reconciler/reconcile_manager.go\<close>, \<open>reconcile.go\<close>): the lanes and their
    scheduler. Every send, receive and select of the goroutines is one step of \<open>managerStep\<close>, and
    \<open>managerReaches\<close> is the step relation; a channel of size one is a Boolean. Fields that begin with
    \<open>h\<close> record history for the properties. \<open>laneAwake\<close> is the invariant of the wake-ups, \<open>laneBook\<close>
    what the metrics of a lane must say, \<open>laneWeight\<close> the measure of the unwinding after cancellation.
  \<^item> \<open>State_Passphrase\<close> (\<open>shared/tfenc/tfenc.go\<close>, \<open>extensions/lifecycle/statepassphrase\<close>): the document
    with the keys of the Terraform state, the decision to mint and push a passphrase, and the
    rollover of the roots. \<open>document\<close> and \<open>wellFormed\<close> specify what is rendered, \<open>absentEverywhere\<close> what
    GitHub must have said.
  \<^item> \<open>Cred_Rotation\<close> (\<open>extensions/lifecycle/credrotate\<close>): which credentials a rotation revokes and in which
    order it mints, verifies, publishes, stores and revokes. A run returns its trace of calls; \<open>rotEnv\<close>
    holds the answers. The locale \<open>drain_policy\<close> is what a drain promises; the grace window and the
    keep-newest rule interpret it. \<open>newestFirst\<close> is the contract of \<open>sort.Slice\<close>.
  \<^item> \<open>Linode_Time\<close>, \<open>Linode_Fleet\<close> (\<open>shared/linode/timestamp.go\<close>, \<open>reap.go\<close>, \<open>acl.go\<close>,
    \<open>volumetags.go\<close>) and \<open>Versions\<close> (\<open>shared/llzver/llzver.go\<close>, \<open>lke_versions.go\<close>): timestamps,
    orphan decisions, ACL edits, tag merges, and the choice of a version. The locale \<open>newest\<close> is a
    loop that keeps the newest entry; the release tags and the version catalog interpret it.

  \<^item> \<open>Extension_Types\<close> (\<open>shared/extension\<close>): what an extension may declare. \<open>Validate\<close> is the checker
    with its errors in order; \<open>attach_typed\<close> and \<open>grant_typed\<close> are the typing rules it implements.
  \<^item> \<open>Capability\<close>, \<open>Forge_Handle\<close>, \<open>Handles\<close> (\<open>shared/capability\<close>): the handles a binding is given. A
    handle maps an operation to a refusal or to the call it makes (\<open>capCall\<close>). \<open>opNeeds\<close> states which
    grants an operation asks for; \<open>ghParse\<close> is the reference reading of a \<open>gh api\<close> argv, flags first.
    \<open>Repo_Fence\<close> (\<open>repo.go\<close>, \<open>repowrite.go\<close>): paths by their elements, and the file system as the record
    \<open>fsys\<close> (what a path resolves to, whether it is a link).
  \<^item> \<open>Promotion\<close> (\<open>shared/validate\<close>, \<open>shared/envtopology\<close>, \<open>extensions/lifecycle/promote\<close>): names, pairs
    and ranks of deployments, and the workflow that promotes along the ranks. A workflow file is its
    parsed jobs and its head (\<open>promoteDoc\<close>); \<open>planWorkflow\<close> decides from the repository's state
    (\<open>repoState\<close>) whether to write one.
  \<^item> \<open>Spec_Types\<close>, \<open>OpenBao_Ext\<close>, \<open>Spec_Validate\<close>, \<open>Spec_Tfvars\<close> (\<open>shared/clusterspec\<close>): the
    landing-zone spec and its component registry, how the files of an instance are assembled
    (\<open>LoadSplit\<close>), what an instance may add to OpenBao, the validation (\<open>ValidateSpec\<close>, every problem a
    value of \<open>specError\<close>) and the Terraform variables. A map is an association list with distinct
    keys, a pointer an option. \<open>Net_CIDR\<close> (\<open>shared/validate/validate.go\<close>): CIDR text as Go's \<open>net\<close>
    package reads it, on 32 and 128 bit words, with networks as address sets. \<open>Apl_Version\<close>
    (\<open>aplversion.go\<close>): the apl-core version a deployment resolves to, its order, drift and floor.
  \<^item> \<open>Apl_Pins\<close> (\<open>verbs/upgrade/aplpin.go\<close>): an upgrade retires the pins that restate a baseline. The
    YAML parser is a parameter that gives nodes with positions; the walk over them, the splice of the
    text and the sweep over the files are the code's. \<open>deploys\<close> is what a deployment resolves to.

  Conventions. A Go string is its list of bytes as characters. A method with a pointer receiver
  returns the updated value. A map used as a set is a set; a map that is iterated is only modelled
  where the order does not matter. Errors are \<open>None\<close> or the right summand. Loops are structural
  recursions or folds; the fuel of a retried probe is its retry count, that of the converge loop a
  number of turns that is shown to be enough. The package variable
  \<open>Budgeted\<close> is an argument, and so is the time. \<open>ToLower\<close> and \<open>TrimSpace\<close> act on ASCII only, which
  is all the markers they are used with.

  What the properties show. A pass that exits 0 has read the cluster and found it healthy where it
  looked, and so has a run of the converge loop that succeeds; the loop always returns, with one of
  the listed reasons, and repairs at most once. At most one pod leads while leases are timely, and
  two can when takeovers overlap. A credential is revoked only after its replacement is stored and, for
  tokens, has been there for the grace window; a passphrase is pushed only where GitHub
  said there is none, and the old one is given up only when every root was read with the new one.
  Findings are split by owner and never dropped; what the reconciler publishes is what it read; its
  lanes lose no wake-up, their metrics tell their history, and they unwind when cancelled. The checker
  of extensions accepts exactly the typed declarations, and then a handle makes a call only for a
  grant that the type system allows there; reads and writes stay inside the tree they are fenced to.
  Pairs of deployments are mutual, the next stage has the least greater rank, and the generated
  pipeline settles. A spec without problems has a topology without problems, environments that
  coexist have disjoint subnets, components rest on what is emitted with them, and labels fit; a policy
  it adds to OpenBao stays below declared mounts and team subtrees and never writes where the custody
  of a certificate authority lies. An upgrade that retires the pin of a deployment leaves it on the
  baseline, deletes only the pin's text, accounts for every pin, says in a dry run what the run does,
  and retires nothing where an instance owns its version. The theorems of departures of the code from its comments or its intent are
  \<open>unreadable_app_dropped_by_scan\<close>, \<open>retired_token_keeps_its_verdict\<close>, \<open>unreadable_storage_classes_hard_fail\<close>,
  \<open>inconclusive_probe_not_asked_again\<close>, \<open>key_name_passes_for_fallback\<close>, \<open>superseded_across_namespaces\<close>,
  \<open>phase1_excuses_nothing_in_openbao\<close>, \<open>platform_declared_claim_still_owned\<close>,
  \<open>element_lists_not_reported\<close>, \<open>rekeys_every_present_root\<close>, \<open>overridden_dry_run_permitted\<close>,
  \<open>valued_flag_hides_verb\<close>, \<open>annotation_may_be_a_flag\<close>, \<open>waiting_flag_is_a_target\<close>, \<open>kind_rule_only_in_For\<close>,
  \<open>default_autoscaler_ignored\<close>, \<open>empty_managed_apps_defaulted\<close>, \<open>mapped_world_accepted\<close>,
  \<open>mapped_subnet_accepted\<close>, \<open>trailing_hyphen_label\<close>, \<open>reconciler_without_observability\<close>, \<open>quote_truncates\<close>,
  \<open>crlf_leaves_separator\<close>, \<open>namesake_owner_missed\<close>, \<open>reason_in_another_order\<close>,
  \<open>same_name_passes_validation\<close>, \<open>dotted_name_refused\<close>, \<open>containing_other_tree\<close> and
  \<open>gauge_zero_while_established\<close>.

  Not modelled: the manual run of one migration, the writes of the reconciler's lanes, the files
  rendered from the spec, the repository guards, and everything that runs external programs or only prints. JSON decoding, \<open>time.Parse\<close> and regular-expression
  compilation are library calls; the model starts from their results.
\<close>

end
